(* ===== verification/Go_Prelude.thy ===== *)
theory Go_Prelude
  imports Main "HOL-Library.Word" "HOL-Library.Sublist"
begin

text \<open>
  The prelude of the development: the parts of the Go language and of its standard
  library that the modelled packages use, and the generic lemmas the components share.

  \<^item> errors: \<open>go_error\<close> collects the sentinel errors of the modelled packages;
    \<open>Errorf\<close> is an error made by \<^verbatim>\<open>fmt.Errorf\<close> without a wrapped error and \<open>Wrapf\<close>
    one made with \<^verbatim>\<open>%w\<close>, \<open>Joined\<close> one made by \<^verbatim>\<open>errors.Join\<close>; \<open>ErrRecordNotFound\<close> is the sentinel of the object mapper
    and \<open>DriverError\<close> an opaque error of the database driver; \<open>errors_is\<close> is \<^verbatim>\<open>errors.Is\<close>. The text carried is the fixed
    part of the format and the field name; values printed into a message are left out.
  \<^item> validation: a Go function that returns \<^verbatim>\<open>error\<close> is a \<open>go_error option\<close> (None is nil),
    and a chain of \<^verbatim>\<open>if err := ...; err != nil { return err }\<close> is \<open>first_error\<close>
    (\<open>or_else\<close> where what follows is a loop).
  \<^item> strings are byte sequences (\<open>string\<close>); \<open>TrimSpace\<close> strips the UTF-8 encodings of the
    code points for which \<^verbatim>\<open>unicode.IsSpace\<close> holds.
  \<^item> time: a \<^verbatim>\<open>time.Time\<close> is an \<open>int\<close>, nanoseconds since the zero time
    (1 January of year 1, UTC), so that \<^verbatim>\<open>IsZero\<close> is equality with 0 and \<^verbatim>\<open>UTC\<close> is
    the identity; a \<^verbatim>\<open>time.Duration\<close> is an \<open>int\<close> in nanoseconds.
\<close>

subsection \<open>Errors\<close>

datatype go_error =
    Errorf string
  | Wrapf string go_error
  | Joined go_error go_error
  | ContextCanceled
  | ContextDeadlineExceeded
  | ErrTurnNotFound
  | ErrTurnIDConflict
  | ErrIdempotencyConflict
  | ErrInvalidTransition
  | ErrTurnTerminal
  | ErrCancellationNotRequested
  | ErrReplayCursorNotFound
  | ErrReplayCursorAhead
  | ErrReplayGap
  | ErrSequenceExhausted
  | ErrReservedEventType
  | ErrStoreUnavailable
  | ErrStoreIntegrity
  | ErrAttemptNotFound
  | ErrAttemptConflict
  | ErrAttemptBusy
  | ErrAttemptFenced
  | ErrAttemptLeaseExpired
  | ErrAttemptCancelled
  | ErrAttemptFenceExhausted
  | ErrOperationConflict
  | ErrEffectConflict
  | ErrExecutionFenceRequired
  | ErrNoClaimableTurn
  | ErrPluginScopeMismatch
  | ErrAttemptBudgetExhausted
  | ErrReconcilePrecondition
  | ErrEffectNotFound
  | ErrEffectFenced
  | ErrEffectTerminal
  | ErrEffectScopeMismatch
  | ErrNoClaimableEffects
  | ErrAdmissionClosed
  | ErrTurnReservationExecutionUnauthorized
  | ErrTurnReservationExecutionExpired
  | ErrTurnReservationAdmissionAuthorityUnavailable
  | ErrTurnReservationAdmissionFailed
  | ErrTurnReservationBindingInvalid
  | ErrSettlementFailed
  | ErrSettlementUsageUnknown
  | ErrSettlementReviewFailed
  | ErrSettlementBindingInvalid
  | ErrSettlementReviewNotFound
  | ErrSettlementReviewResolutionUnavailable
  | ErrSettlementReviewResolutionConflict
  | ErrSettlementReviewResolutionFailed
  | ErrSettlementReviewUnitsExceedReserved
  | ErrSettlementReviewUsageUnavailable
  | ErrSettlementReviewUsageConflict
  | ErrSettlementReviewUsageFailed
  | ErrSettlementReviewUsagePending
  | ErrSettlementReviewUsageOverflow
  | ErrSettlementCompletedUsageUntrusted
  | ErrSubscriptionClosed
  | ErrWorkerExecutionTimeout
  | ErrWorkerProgressTimeout
  | ErrWorkerFenceLost
  | ErrExecutorNonTerminal
  | ErrWorkerPluginLimitsUnavailable
  | ErrWorkerRestartRequired
  | IoEOF
  | ErrRecordNotFound
  | DriverError string

fun errors_is :: "go_error \<Rightarrow> go_error \<Rightarrow> bool" where
  "errors_is (Wrapf m e) k = (Wrapf m e = k \<or> errors_is e k)"
| "errors_is (Joined a b) k = (Joined a b = k \<or> errors_is a k \<or> errors_is b k)"
| "errors_is e k = (e = k)"

fun first_error :: "go_error option list \<Rightarrow> go_error option" where
  "first_error [] = None"
| "first_error (None # es) = first_error es"
| "first_error (Some e # es) = Some e"

definition fail_if :: "bool \<Rightarrow> go_error \<Rightarrow> go_error option" where
  "fail_if b e = (if b then Some e else None)"

definition or_else :: "go_error option \<Rightarrow> go_error option \<Rightarrow> go_error option" where
  "or_else e k = (case e of None \<Rightarrow> k | Some x \<Rightarrow> Some x)"

definition wrap_error :: "string \<Rightarrow> go_error option \<Rightarrow> go_error option" where
  "wrap_error m e = map_option (Wrapf m) e"

type_synonym 'a result = "go_error + 'a"

text \<open>
  An operation on a state returns its result and the state it leaves. \<open>reject s e k\<close> is the
  early return of the error \<open>e\<close> in state \<open>s\<close>, or the rest \<open>k\<close> of the body.
\<close>

definition reject :: "'s \<Rightarrow> go_error option \<Rightarrow> 'a result \<times> 's \<Rightarrow> 'a result \<times> 's" where
  "reject s e k = (case e of None \<Rightarrow> k | Some x \<Rightarrow> (Inl x, s))"

definition bind_result :: "'s \<Rightarrow> 'b result \<Rightarrow> ('b \<Rightarrow> 'a result \<times> 's) \<Rightarrow> 'a result \<times> 's" where
  "bind_result s r k = (case r of Inl e \<Rightarrow> (Inl e, s) | Inr x \<Rightarrow> k x)"

text \<open>
  A \<^verbatim>\<open>context.Context\<close> is what a check of it observes: nil, still live, or done with an
  error. A context may be cancelled between two checks of one call, so an operation takes
  the sequence of observations and reads the next one at each check.
\<close>

datatype ctx_obs = NilContext | LiveContext | DoneContext go_error

type_synonym go_context = "nat \<Rightarrow> ctx_obs"

fun contextError :: "ctx_obs \<Rightarrow> go_error option" where
  "contextError NilContext = Some (Errorf ''context is required'')"
| "contextError LiveContext = None"
| "contextError (DoneContext e) = Some e"

definition live_ctx :: go_context where
  "live_ctx = (\<lambda>_. LiveContext)"

subsection \<open>Strings\<close>

text \<open>
  The UTF-8 encodings of the code points for which \<^verbatim>\<open>unicode.IsSpace\<close> holds: the six ASCII
  ones, U+0085, U+00A0, U+1680, U+2000 to U+200A, U+2028, U+2029, U+202F, U+205F, U+3000.
\<close>

definition go_spaces :: "string list" where
  "go_spaces =
     [[CHR 0x09], [CHR 0x0A], [CHR 0x0B], [CHR 0x0C], [CHR 0x0D], [CHR 0x20],
      [CHR 0xC2, CHR 0x85], [CHR 0xC2, CHR 0xA0], [CHR 0xE1, CHR 0x9A, CHR 0x80],
      [CHR 0xE2, CHR 0x80, CHR 0x80], [CHR 0xE2, CHR 0x80, CHR 0x81], [CHR 0xE2, CHR 0x80, CHR 0x82],
      [CHR 0xE2, CHR 0x80, CHR 0x83], [CHR 0xE2, CHR 0x80, CHR 0x84], [CHR 0xE2, CHR 0x80, CHR 0x85],
      [CHR 0xE2, CHR 0x80, CHR 0x86], [CHR 0xE2, CHR 0x80, CHR 0x87], [CHR 0xE2, CHR 0x80, CHR 0x88],
      [CHR 0xE2, CHR 0x80, CHR 0x89], [CHR 0xE2, CHR 0x80, CHR 0x8A], [CHR 0xE2, CHR 0x80, CHR 0xA8],
      [CHR 0xE2, CHR 0x80, CHR 0xA9], [CHR 0xE2, CHR 0x80, CHR 0xAF], [CHR 0xE2, CHR 0x81, CHR 0x9F],
      [CHR 0xE3, CHR 0x80, CHR 0x80]]"

fun strip_one :: "string list \<Rightarrow> string \<Rightarrow> string option" where
  "strip_one [] s = None"
| "strip_one (p # ps) s = (if prefix p s then Some (drop (length p) s) else strip_one ps s)"

fun trim_left :: "nat \<Rightarrow> string list \<Rightarrow> string \<Rightarrow> string" where
  "trim_left 0 ps s = s"
| "trim_left (Suc n) ps s = (case strip_one ps s of None \<Rightarrow> s | Some r \<Rightarrow> trim_left n ps r)"

text \<open>Each step removes at least one byte, so the length is enough fuel.\<close>

definition TrimSpace :: "string \<Rightarrow> string" where
  "TrimSpace s =
     (let l = trim_left (length s) go_spaces s
      in rev (trim_left (length l) (map rev go_spaces) (rev l)))"

definition HasPrefix :: "string \<Rightarrow> string \<Rightarrow> bool" where
  "HasPrefix s p = prefix p s"

definition ContainsAny :: "string \<Rightarrow> string \<Rightarrow> bool" where
  "ContainsAny s cs = list_ex (\<lambda>c. List.member cs c) s"

text \<open>Decimal printing, \<^verbatim>\<open>%d\<close> of an unsigned value, and \<^verbatim>\<open>strconv.ParseUint\<close> in base 10.\<close>

definition digit_char :: "nat \<Rightarrow> char" where
  "digit_char d = char_of (48 + d)"

fun print_nat :: "nat \<Rightarrow> string" where
  "print_nat n = (if n < 10 then [digit_char n] else print_nat (n div 10) @ [digit_char (n mod 10)])"

declare print_nat.simps [simp del]

text \<open>\<^verbatim>\<open>strconv.FormatInt\<close> in base 10.\<close>

definition FormatInt :: "int \<Rightarrow> string" where
  "FormatInt i = (if i < 0 then ''-'' @ print_nat (nat (- i)) else print_nat (nat i))"

text \<open>A part of a hash input in the framing the source uses, \<^verbatim>\<open>"%d:%s"\<close> of length and text.\<close>

definition framed :: "string \<Rightarrow> string" where
  "framed part = print_nat (length part) @ '':'' @ part"

definition is_digit :: "char \<Rightarrow> bool" where
  "is_digit c \<longleftrightarrow> 48 \<le> (of_char c :: nat) \<and> (of_char c :: nat) \<le> 57"

definition digits_value :: "string \<Rightarrow> nat" where
  "digits_value s = foldl (\<lambda>n c. 10 * n + (of_char c - 48)) 0 s"

definition ParseUint :: "string \<Rightarrow> nat \<Rightarrow> nat option" where
  "ParseUint s bits =
     (if s = [] \<or> \<not> list_all is_digit s then None
      else if digits_value s < 2 ^ bits then Some (digits_value s) else None)"

subsection \<open>Time\<close>

type_synonym time = int
type_synonym duration = int

definition IsZero :: "time \<Rightarrow> bool" where
  "IsZero t \<longleftrightarrow> t = 0"

definition Second :: duration where "Second = 1000000000"
definition Minute :: duration where "Minute = 60000000000"

subsection \<open>Shared lemmas\<close>

text \<open>The evaluator compares a length with a limit as integers, since its natural numbers are unary.\<close>

lemma length_limit [code_unfold]: "nat_of_num k < length xs \<longleftrightarrow> (numeral k :: int) < int (length xs)"
  by (simp add: nat_of_num_numeral)

named_theorems err_simps

lemma first_error_None_iff [err_simps]: "first_error es = None \<longleftrightarrow> (\<forall>e \<in> set es. e = None)"
  by (induction es rule: first_error.induct) auto

lemma fail_if_None_iff [err_simps]: "fail_if b e = None \<longleftrightarrow> \<not> b"
  by (simp add: fail_if_def)

lemma wrap_error_None_iff [err_simps]: "wrap_error m e = None \<longleftrightarrow> e = None"
  by (simp add: wrap_error_def)

lemma or_else_None_iff [err_simps]: "or_else e k = None \<longleftrightarrow> e = None \<and> k = None"
  by (cases e) (simp_all add: or_else_def)

lemma error_evals [simp]:
  "fail_if False e = None" "fail_if True e = Some e"
  "wrap_error m None = None" "wrap_error m (Some e) = Some (Wrapf m e)"
  "or_else None k = k" "or_else (Some e) k = Some e"
  by (simp_all add: fail_if_def wrap_error_def or_else_def)

lemma contextError_None_iff [err_simps]: "contextError c = None \<longleftrightarrow> c = LiveContext"
  by (cases c) auto

lemma live_ctx_None [simp]: "contextError (live_ctx n) = None"
  by (simp add: live_ctx_def)

lemma reject_Inr_iff: "reject s e k = (Inr x, s') \<longleftrightarrow> e = None \<and> k = (Inr x, s')"
  by (cases e) (auto simp: reject_def)

lemma bind_result_Inr_iff:
  "bind_result s r k = (Inr x, s') \<longleftrightarrow> (\<exists>y. r = Inr y \<and> k y = (Inr x, s'))"
  by (cases r) (auto simp: bind_result_def)

lemma reject_None [simp]: "reject s None k = k"
  by (simp add: reject_def)

lemma reject_Some [simp]: "reject s (Some e) k = (Inl e, s)"
  by (simp add: reject_def)

lemma bind_result_simps [simp]:
  "bind_result s (Inr x) k = k x" "bind_result s (Inl e) k = (Inl e, s)"
  by (simp_all add: bind_result_def)

text \<open>A body that returns early keeps the state it has: the frame rules of the two combinators.\<close>

lemma reject_state: "(e = None \<Longrightarrow> P (snd k)) \<Longrightarrow> P s \<Longrightarrow> P (snd (reject s e k))"
  by (cases e) auto

lemma bind_result_state:
  "(\<And>x. r = Inr x \<Longrightarrow> P (snd (k x))) \<Longrightarrow> P s \<Longrightarrow> P (snd (bind_result s r k))"
  by (cases r) auto

lemma reject_Inl_state:
  "(\<And>x. e = Some x \<Longrightarrow> s' = s) \<Longrightarrow> (e = None \<Longrightarrow> k = (Inl y, s') \<Longrightarrow> s' = s) \<Longrightarrow>
   reject s e k = (Inl y, s') \<Longrightarrow> s' = s"
  by (cases e) auto

subsubsection \<open>Trimming\<close>

lemma strip_one_None_iff: "strip_one ps s = None \<longleftrightarrow> (\<forall>p \<in> set ps. \<not> prefix p s)"
  by (induction ps) auto

lemma strip_one_shorter: "strip_one ps s = Some r \<Longrightarrow> [] \<notin> set ps \<Longrightarrow> length r < length s"
proof (induction ps)
  case (Cons p ps)
  show ?case
  proof (cases "prefix p s")
    case True
    with Cons.prems have "0 < length p" "length p \<le> length s" "r = drop (length p) s"
      by (auto dest: prefix_length_le)
    then show ?thesis by (metis diff_less length_drop order_less_le_trans)
  qed (use Cons in auto)
qed simp

lemma trim_left_length: "[] \<notin> set ps \<Longrightarrow> length (trim_left n ps s) \<le> length s"
proof (induction n arbitrary: s)
  case (Suc n)
  show ?case
  proof (cases "strip_one ps s")
    case (Some r)
    with Suc.IH [of r] strip_one_shorter [OF Some] Suc.prems show ?thesis by simp
  qed simp
qed simp

lemma trim_left_id_iff:
  assumes "[] \<notin> set ps"
  shows "trim_left (length s) ps s = s \<longleftrightarrow> strip_one ps s = None"
proof (cases "strip_one ps s")
  case None
  then show ?thesis by (cases "length s") auto
next
  case (Some r)
  have "length r < length s" using Some assms by (rule strip_one_shorter)
  then obtain n where n: "length s = Suc n" by (cases "length s") auto
  have "length (trim_left n ps r) < length s"
    using trim_left_length [OF assms, of n r] \<open>length r < length s\<close> by simp
  then show ?thesis using Some n by auto
qed

lemma go_spaces_not_empty: "[] \<notin> set go_spaces" "[] \<notin> set (map rev go_spaces)"
  by (simp_all add: go_spaces_def)

text \<open>A text is its own trimmed form exactly when no space encoding starts or ends it.\<close>

lemma TrimSpace_id_iff: "TrimSpace s = s \<longleftrightarrow> (\<forall>p \<in> set go_spaces. \<not> prefix p s \<and> \<not> suffix p s)"
proof -
  let ?l = "trim_left (length s) go_spaces s"
  let ?r = "trim_left (length ?l) (map rev go_spaces) (rev ?l)"
  have suf: "strip_one (map rev go_spaces) (rev t) = None \<longleftrightarrow> (\<forall>p \<in> set go_spaces. \<not> suffix p t)" for t
    by (auto simp: strip_one_None_iff suffix_to_prefix)
  have pre: "?l = s \<longleftrightarrow> (\<forall>p \<in> set go_spaces. \<not> prefix p s)"
    by (simp add: trim_left_id_iff [OF go_spaces_not_empty(1)] strip_one_None_iff)
  have "length (rev ?r) \<le> length ?l"
    using trim_left_length [OF go_spaces_not_empty(2), of "length ?l" "rev ?l"] by simp
  moreover have "length ?l \<le> length s" by (rule trim_left_length [OF go_spaces_not_empty(1)])
  moreover have "?l = s" if "length ?l = length s"
  proof (rule ccontr)
    assume "?l \<noteq> s"
    then obtain r where r: "strip_one go_spaces s = Some r"
      using trim_left_id_iff [OF go_spaces_not_empty(1)] by fastforce
    from strip_one_shorter [OF r go_spaces_not_empty(1)] obtain n where "length s = Suc n"
      by (cases "length s") auto
    with r that have "length (trim_left n go_spaces r) = length s" by simp
    with trim_left_length [OF go_spaces_not_empty(1), of n r]
      strip_one_shorter [OF r go_spaces_not_empty(1)] show False by simp
  qed
  ultimately have "TrimSpace s = s \<longleftrightarrow> ?l = s \<and> ?r = rev s"
    unfolding TrimSpace_def Let_def
    by (metis (no_types, lifting) le_antisym rev_rev_ident)
  also have "\<dots> \<longleftrightarrow> ?l = s \<and> strip_one (map rev go_spaces) (rev s) = None"
    using trim_left_id_iff [OF go_spaces_not_empty(2), of "rev s"] by auto
  finally show ?thesis unfolding pre suf by auto
qed

definition visible_char :: "char \<Rightarrow> bool" where
  "visible_char c \<longleftrightarrow> 33 \<le> (of_char c :: nat) \<and> (of_char c :: nat) \<le> 126"

lemma go_spaces_not_visible: "p \<in> set go_spaces \<Longrightarrow> c \<in> set p \<Longrightarrow> \<not> visible_char c"
  by (auto simp: go_spaces_def visible_char_def)

lemma go_spaces_hd: "p \<in> set go_spaces \<Longrightarrow> p \<noteq> [] \<and> length p \<le> 3"
  by (auto simp: go_spaces_def)

lemma TrimSpace_visible: "list_all visible_char s \<Longrightarrow> TrimSpace s = s"
  unfolding TrimSpace_id_iff list_all_iff
  by (metis go_spaces_hd go_spaces_not_visible hd_in_set prefix_def suffix_def in_set_conv_decomp
      append_is_Nil_conv Un_iff set_append)

lemma TrimSpace_append_visible:
  assumes "TrimSpace a = a" "a \<noteq> []" "list_all visible_char b" "b \<noteq> []"
  shows "TrimSpace (a @ b) = a @ b"
  unfolding TrimSpace_id_iff
proof (intro ballI conjI notI)
  fix p assume p: "p \<in> set go_spaces"
  assume "prefix p (a @ b)"
  then consider "prefix p a" | q where "p = a @ q" "prefix q b" "q \<noteq> []"
    by (metis append_Nil2 prefix_append prefix_order.refl)
  then show False
  proof cases
    case 1
    with assms(1) p show False by (auto simp: TrimSpace_id_iff)
  next
    case (2 q)
    then have "hd q \<in> set b" "hd q \<in> set p" by (auto simp: prefix_def)
    with assms(3) p show False using go_spaces_not_visible by (auto simp: list_all_iff)
  qed
next
  fix p assume p: "p \<in> set go_spaces"
  assume suf: "suffix p (a @ b)"
  from p have "p \<noteq> []" using go_spaces_hd by blast
  with suf assms(4) have "last p = last b" by (auto simp: suffix_def) (metis last_appendR)
  with assms(3,4) have "visible_char (last p)" by (simp add: list_all_iff)
  with p \<open>p \<noteq> []\<close> show False using go_spaces_not_visible by auto
qed

subsubsection \<open>Decimal numbers\<close>

lemma of_char_digit_char: "d < 10 \<Longrightarrow> (of_char (digit_char d) :: nat) = 48 + d"
  by (simp add: digit_char_def)

lemma is_digit_digit_char: "d < 10 \<Longrightarrow> is_digit (digit_char d)"
  by (simp add: is_digit_def of_char_digit_char)

lemma digits_value_snoc: "digits_value (s @ [c]) = 10 * digits_value s + (of_char c - 48)"
  by (simp add: digits_value_def)

lemma print_nat_not_empty [simp]: "print_nat n \<noteq> []"
  by (subst print_nat.simps) simp

lemma print_nat_digits: "list_all is_digit (print_nat n)"
proof (induction n rule: print_nat.induct)
  case (1 n)
  then show ?case
    by (subst print_nat.simps) (auto simp: is_digit_digit_char)
qed

lemma digits_value_print_nat: "digits_value (print_nat n) = n"
proof (induction n rule: print_nat.induct)
  case (1 n)
  show ?case
  proof (cases "n < 10")
    case True
    then show ?thesis
      by (subst print_nat.simps) (simp add: digits_value_def of_char_digit_char)
  next
    case False
    with 1 show ?thesis
      by (subst print_nat.simps) (simp add: digits_value_snoc of_char_digit_char)
  qed
qed

lemma print_nat_inject [simp]: "print_nat m = print_nat n \<longleftrightarrow> m = n"
  by (metis digits_value_print_nat)

lemma ParseUint_print_nat: "n < 2 ^ bits \<Longrightarrow> ParseUint (print_nat n) bits = Some n"
  by (simp add: ParseUint_def print_nat_digits digits_value_print_nat)

lemma digit_char_inject: "d < 10 \<Longrightarrow> e < 10 \<Longrightarrow> digit_char d = digit_char e \<longleftrightarrow> d = e"
  by (metis add_left_cancel of_char_digit_char)

lemma print_nat_leading_zero: "n > 0 \<Longrightarrow> hd (print_nat n) \<noteq> digit_char 0"
proof (induction n rule: print_nat.induct)
  case (1 n)
  show ?case
  proof (cases "n < 10")
    case True
    with 1 show ?thesis
      by (subst print_nat.simps) (simp add: digit_char_inject)
  next
    case False
    with 1 show ?thesis
      by (subst print_nat.simps) simp
  qed
qed

lemma FormatInt_inject [simp]: "FormatInt i = FormatInt j \<longleftrightarrow> i = j"
proof -
  have neq: "CHR ''-'' # print_nat m \<noteq> print_nat n" for m n
    using print_nat_digits [of n] by (cases "print_nat n") (auto simp: is_digit_def)
  show ?thesis by (auto simp: FormatInt_def neq neq [symmetric])
qed

text \<open>The framing is prefix-free, so a concatenation of framed parts determines the parts.\<close>

lemma takeWhile_digits_print_nat: "takeWhile is_digit (print_nat n @ CHR '':'' # s) = print_nat n"
  using print_nat_digits [of n]
  by (simp add: takeWhile_append2 list_all_iff is_digit_def)

lemma framed_inject: "framed a @ s = framed b @ t \<longleftrightarrow> a = b \<and> s = t"
proof
  assume eq: "framed a @ s = framed b @ t"
  then have "takeWhile is_digit (framed a @ s) = takeWhile is_digit (framed b @ t)" by simp
  then have "print_nat (length a) = print_nat (length b)"
    by (simp add: framed_def takeWhile_digits_print_nat)
  then have "length a = length b" by simp
  with eq show "a = b \<and> s = t" by (simp add: framed_def)
qed simp

lemma framed_concat_inject:
  "length xs = length ys \<Longrightarrow> concat (map framed xs) = concat (map framed ys) \<longleftrightarrow> xs = ys"
  by (induction xs ys rule: list_induct2) (simp_all add: framed_inject)

subsubsection \<open>Words\<close>

lemma unat_plus_1_less: "(x :: 64 word) < y \<Longrightarrow> unat (x + 1) = unat x + 1"
  using unsigned_less [of y, where ?'a = nat] by (simp add: word_less_nat_alt unat_word_ariths)

end
