(* ===== verification/Go_Json.thy ===== *)
theory Go_Json
  imports Go_Prelude
begin

text \<open>
  What the modelled packages use of \<^verbatim>\<open>encoding/json\<close>: the byte scanner behind
  \<^verbatim>\<open>json.Valid\<close>, state by state, and the encoding of a string by \<^verbatim>\<open>json.Marshal\<close>
  (HTML characters, U+2028 and U+2029 escaped, a byte that is not UTF-8 replaced by U+FFFD).
  The lemmas show that the scanner accepts every encoded string.
\<close>

subsection \<open>The JSON scanner of encoding/json\<close>

datatype json_frame = ParseObjectKey | ParseObjectValue | ParseArrayValue

datatype json_mode =
    BeginValue | BeginValueOrEmpty | BeginStringOrEmpty | BeginString | EndValue | EndTop
  | InString | InStringEsc | InStringEscU nat | Neg | Digits1 | Digits0 | Dot | Dot0
  | ExpE | ExpSign | Exp0 | Literal string | ScanError

definition json_space :: "char \<Rightarrow> bool" where
  "json_space c \<longleftrightarrow> c = CHR '' '' \<or> c = CHR 0x09 \<or> c = CHR 0x0D \<or> c = CHR 0x0A"

definition json_hex :: "char \<Rightarrow> bool" where
  "json_hex c \<longleftrightarrow> List.member ''0123456789abcdefABCDEF'' c"

definition json_max_depth :: nat where
  "json_max_depth = 10000"

definition json_push :: "json_mode \<Rightarrow> json_frame \<Rightarrow> json_frame list \<Rightarrow> json_mode \<times> json_frame list" where
  "json_push m f st = (if length (f # st) \<le> json_max_depth then (m, f # st) else (ScanError, f # st))"

definition json_pop :: "json_frame list \<Rightarrow> json_mode \<times> json_frame list" where
  "json_pop st = (if tl st = [] then EndTop else EndValue, tl st)"

definition json_end_value :: "char \<Rightarrow> json_frame list \<Rightarrow> json_mode \<times> json_frame list" where
  "json_end_value c st =
     (case st of
        [] \<Rightarrow> (if json_space c then EndTop else ScanError, [])
      | f # fs \<Rightarrow>
          if json_space c then (EndValue, st)
          else (case f of
              ParseObjectKey \<Rightarrow>
                if c = CHR '':'' then (BeginValue, ParseObjectValue # fs) else (ScanError, st)
            | ParseObjectValue \<Rightarrow>
                if c = CHR '','' then (BeginString, ParseObjectKey # fs)
                else if c = CHR ''}'' then json_pop st else (ScanError, st)
            | ParseArrayValue \<Rightarrow>
                if c = CHR '','' then (BeginValue, st)
                else if c = CHR '']'' then json_pop st else (ScanError, st)))"

definition json_begin_value :: "char \<Rightarrow> json_frame list \<Rightarrow> json_mode \<times> json_frame list" where
  "json_begin_value c st =
     (if json_space c then (BeginValue, st)
      else if c = CHR ''{'' then json_push BeginStringOrEmpty ParseObjectKey st
      else if c = CHR ''['' then json_push BeginValueOrEmpty ParseArrayValue st
      else if c = CHR 0x22 then (InString, st)
      else if c = CHR ''-'' then (Neg, st)
      else if c = CHR ''0'' then (Digits0, st)
      else if c = CHR ''t'' then (Literal ''rue'', st)
      else if c = CHR ''f'' then (Literal ''alse'', st)
      else if c = CHR ''n'' then (Literal ''ull'', st)
      else if is_digit c then (Digits1, st)
      else (ScanError, st))"

definition json_number_end :: "char \<Rightarrow> json_frame list \<Rightarrow> json_mode \<times> json_frame list" where
  "json_number_end c st =
     (if c = CHR ''.'' then (Dot, st)
      else if c = CHR ''e'' \<or> c = CHR ''E'' then (ExpE, st)
      else json_end_value c st)"

definition json_string_escape :: "char \<Rightarrow> json_mode" where
  "json_string_escape c =
     (if List.member [CHR ''b'', CHR ''f'', CHR ''n'', CHR ''r'', CHR ''t'', CHR 0x5C, CHR ''/'', CHR 0x22] c
      then InString else if c = CHR ''u'' then InStringEscU 3 else ScanError)"

fun json_step :: "char \<Rightarrow> json_mode \<times> json_frame list \<Rightarrow> json_mode \<times> json_frame list" where
  "json_step c (BeginValue, st) = json_begin_value c st"
| "json_step c (BeginValueOrEmpty, st) =
     (if json_space c then (BeginValueOrEmpty, st)
      else if c = CHR '']'' then json_end_value c st else json_begin_value c st)"
| "json_step c (BeginStringOrEmpty, st) =
     (if json_space c then (BeginStringOrEmpty, st)
      else if c = CHR ''}'' then json_end_value c (ParseObjectValue # tl st)
      else if c = CHR 0x22 then (InString, st) else (ScanError, st))"
| "json_step c (BeginString, st) =
     (if json_space c then (BeginString, st)
      else if c = CHR 0x22 then (InString, st) else (ScanError, st))"
| "json_step c (EndValue, st) = json_end_value c st"
| "json_step c (EndTop, st) = (if json_space c then EndTop else ScanError, st)"
| "json_step c (InString, st) =
     (if c = CHR 0x22 then (EndValue, st)
      else if c = CHR 0x5C then (InStringEsc, st)
      else if (of_char c :: nat) < 32 then (ScanError, st) else (InString, st))"
| "json_step c (InStringEsc, st) = (json_string_escape c, st)"
| "json_step c (InStringEscU n, st) =
     (if json_hex c then (case n of 0 \<Rightarrow> InString | Suc m \<Rightarrow> InStringEscU m, st) else (ScanError, st))"
| "json_step c (Neg, st) =
     (if c = CHR ''0'' then (Digits0, st) else if is_digit c then (Digits1, st) else (ScanError, st))"
| "json_step c (Digits1, st) = (if is_digit c then (Digits1, st) else json_number_end c st)"
| "json_step c (Digits0, st) = json_number_end c st"
| "json_step c (Dot, st) = (if is_digit c then (Dot0, st) else (ScanError, st))"
| "json_step c (Dot0, st) =
     (if is_digit c then (Dot0, st)
      else if c = CHR ''e'' \<or> c = CHR ''E'' then (ExpE, st) else json_end_value c st)"
| "json_step c (ExpE, st) =
     (if c = CHR ''+'' \<or> c = CHR ''-'' then (ExpSign, st)
      else if is_digit c then (Exp0, st) else (ScanError, st))"
| "json_step c (ExpSign, st) = (if is_digit c then (Exp0, st) else (ScanError, st))"
| "json_step c (Exp0, st) = (if is_digit c then (Exp0, st) else json_end_value c st)"
| "json_step c (Literal w, st) =
     (case w of
        [] \<Rightarrow> (ScanError, st)
      | x # xs \<Rightarrow> if c = x then (if xs = [] then EndValue else Literal xs, st) else (ScanError, st))"
| "json_step c (ScanError, st) = (ScanError, st)"

definition json_Valid :: "string \<Rightarrow> bool" where
  "json_Valid s =
     (let (m, st) = fold json_step s (BeginValue, [])
      in m = EndTop \<or> (m \<noteq> ScanError \<and> fst (json_step (CHR '' '') (m, st)) = EndTop))"

subsection \<open>Encoding a string\<close>

definition byte_in :: "nat \<Rightarrow> nat \<Rightarrow> char \<Rightarrow> bool" where
  "byte_in lo hi c \<longleftrightarrow> lo \<le> (of_char c :: nat) \<and> (of_char c :: nat) \<le> hi"

text \<open>The length of the valid UTF-8 encoding at the head of a non-ASCII string, 0 if there is none.\<close>

fun utf8_len :: "string \<Rightarrow> nat" where
  "utf8_len (a # b # c # d # s) =
     (if byte_in 0xC2 0xDF a \<and> byte_in 0x80 0xBF b then 2
      else if ((byte_in 0xE0 0xE0 a \<and> byte_in 0xA0 0xBF b) \<or> (byte_in 0xE1 0xEC a \<and> byte_in 0x80 0xBF b)
               \<or> (byte_in 0xED 0xED a \<and> byte_in 0x80 0x9F b) \<or> (byte_in 0xEE 0xEF a \<and> byte_in 0x80 0xBF b))
              \<and> byte_in 0x80 0xBF c then 3
      else if ((byte_in 0xF0 0xF0 a \<and> byte_in 0x90 0xBF b) \<or> (byte_in 0xF1 0xF3 a \<and> byte_in 0x80 0xBF b)
               \<or> (byte_in 0xF4 0xF4 a \<and> byte_in 0x80 0x8F b))
              \<and> byte_in 0x80 0xBF c \<and> byte_in 0x80 0xBF d then 4
      else 0)"
| "utf8_len [a, b, c] =
     (if byte_in 0xC2 0xDF a \<and> byte_in 0x80 0xBF b then 2
      else if ((byte_in 0xE0 0xE0 a \<and> byte_in 0xA0 0xBF b) \<or> (byte_in 0xE1 0xEC a \<and> byte_in 0x80 0xBF b)
               \<or> (byte_in 0xED 0xED a \<and> byte_in 0x80 0x9F b) \<or> (byte_in 0xEE 0xEF a \<and> byte_in 0x80 0xBF b))
              \<and> byte_in 0x80 0xBF c then 3
      else 0)"
| "utf8_len [a, b] = (if byte_in 0xC2 0xDF a \<and> byte_in 0x80 0xBF b then 2 else 0)"
| "utf8_len _ = 0"

definition hex_digit :: "nat \<Rightarrow> char" where
  "hex_digit n = (if n < 10 then char_of (48 + n) else char_of (87 + n))"

definition json_escape_ascii :: "char \<Rightarrow> string" where
  "json_escape_ascii c =
     (let n = (of_char c :: nat) in
      if c = CHR 0x22 \<or> c = CHR 0x5C then [CHR 0x5C, c]
      else if n = 8 then [CHR 0x5C, CHR ''b'']
      else if n = 12 then [CHR 0x5C, CHR ''f'']
      else if n = 10 then [CHR 0x5C, CHR ''n'']
      else if n = 13 then [CHR 0x5C, CHR ''r'']
      else if n = 9 then [CHR 0x5C, CHR ''t'']
      else if n < 32 \<or> c = CHR ''<'' \<or> c = CHR ''>'' \<or> c = CHR ''&''
      then [CHR 0x5C, CHR ''u'', CHR ''0'', CHR ''0'', hex_digit (n div 16), hex_digit (n mod 16)]
      else [c])"

fun json_chars :: "nat \<Rightarrow> string \<Rightarrow> string" where
  "json_chars 0 s = []"
| "json_chars (Suc fuel) [] = []"
| "json_chars (Suc fuel) (c # s) =
     (if (of_char c :: nat) < 128 then json_escape_ascii c @ json_chars fuel s
      else if utf8_len (c # s) = 0 then CHR 0x5C # ''ufffd'' @ json_chars fuel s
      else let r = take (utf8_len (c # s)) (c # s) in
        (if r = [CHR 0xE2, CHR 0x80, CHR 0xA8] then CHR 0x5C # ''u2028''
         else if r = [CHR 0xE2, CHR 0x80, CHR 0xA9] then CHR 0x5C # ''u2029'' else r)
        @ json_chars fuel (drop (utf8_len (c # s)) (c # s)))"

text \<open>Each step consumes a byte, so the length of the string is enough fuel.\<close>

definition json_string :: "string \<Rightarrow> string" where
  "json_string s = CHR 0x22 # json_chars (length s) s @ [CHR 0x22]"

text \<open>One object member, and an object from its members; an empty list of members is \<open>{}\<close>.\<close>

definition json_member :: "string \<Rightarrow> string \<Rightarrow> string" where
  "json_member k v = json_string k @ '':'' @ v"

fun json_members :: "string list \<Rightarrow> string" where
  "json_members [] = []"
| "json_members [m] = m"
| "json_members (m # ms) = m @ '','' @ json_members ms"

definition json_object :: "string list \<Rightarrow> string" where
  "json_object ms = ''{'' @ json_members ms @ ''}''"

subsection \<open>What decoding gives back\<close>

text \<open>
  A string that is encoded and decoded again keeps its valid UTF-8 parts; every other byte comes
  back as the replacement character U+FFFD. As above the length is enough fuel.
\<close>

fun utf8_replace :: "nat \<Rightarrow> string \<Rightarrow> string" where
  "utf8_replace 0 s = []"
| "utf8_replace (Suc fuel) [] = []"
| "utf8_replace (Suc fuel) (c # s) =
     (if (of_char c :: nat) < 128 then c # utf8_replace fuel s
      else if utf8_len (c # s) = 0 then [CHR 0xEF, CHR 0xBF, CHR 0xBD] @ utf8_replace fuel s
      else take (utf8_len (c # s)) (c # s) @ utf8_replace fuel (drop (utf8_len (c # s)) (c # s)))"

definition utf8_coerce :: "string \<Rightarrow> string" where
  "utf8_coerce s = utf8_replace (length s) s"

text \<open>
  A raw message inside an encoded value is compacted: spaces between tokens go, and the bytes
  that HTML escaping covers are escaped. The flags say whether the scan is inside a string and
  whether the last byte there was an escape.
\<close>

definition json_html :: "char \<Rightarrow> bool" where
  "json_html c \<longleftrightarrow> c = CHR ''<'' \<or> c = CHR ''>'' \<or> c = CHR ''&''"

fun json_compact_from :: "bool \<Rightarrow> bool \<Rightarrow> string \<Rightarrow> string" where
  "json_compact_from q b [] = []"
| "json_compact_from q b (c # s) =
     (let q' = (if q then b \<or> c \<noteq> CHR 0x22 else c = CHR 0x22);
          b' = (q \<and> \<not> b \<and> c = CHR 0x5C)
      in (if json_html c then json_escape_ascii c
          else if c = CHR 0xE2 \<and> take 2 s = [CHR 0x80, CHR 0xA8] then CHR 0x5C # ''u2028''
          else if c = CHR 0xE2 \<and> take 2 s = [CHR 0x80, CHR 0xA9] then CHR 0x5C # ''u2029''
          else if \<not> q \<and> json_space c then []
          else [c])
         @ json_compact_from q' b'
             (if c = CHR 0xE2 \<and> (take 2 s = [CHR 0x80, CHR 0xA8] \<or> take 2 s = [CHR 0x80, CHR 0xA9])
              then drop 2 s else s))"

definition json_compact :: "string \<Rightarrow> string" where
  "json_compact s = json_compact_from False False s"

subsection \<open>The scanner accepts what the encoder writes\<close>

abbreviation scan :: "string \<Rightarrow> json_mode \<times> json_frame list \<Rightarrow> json_mode \<times> json_frame list" where
  "scan s \<equiv> fold json_step s"

definition keeps_string :: "string \<Rightarrow> bool" where
  "keeps_string s \<longleftrightarrow> (\<forall>st. scan s (InString, st) = (InString, st))"

lemma keeps_string_Nil [simp]: "keeps_string []"
  by (simp add: keeps_string_def)

lemma keeps_string_append: "keeps_string s \<Longrightarrow> keeps_string t \<Longrightarrow> keeps_string (s @ t)"
  by (simp add: keeps_string_def)

lemma hex_digit_hex: "n < 16 \<Longrightarrow> json_hex (hex_digit n)"
proof -
  assume "n < 16"
  then have "n \<in> {0..<16}" by simp
  moreover have "\<forall>n \<in> {0..<16}. json_hex (hex_digit n)" by code_simp
  ultimately show ?thesis by blast
qed

lemma keeps_string_escape: "keeps_string (json_escape_ascii c)"
proof -
  have "(of_char c :: nat) < 256" by (simp add: of_char_def)
  then have "(of_char c :: nat) div 16 < 16" "(of_char c :: nat) mod 16 < 16"
    by (simp_all add: less_mult_imp_div_less)
  then show ?thesis
    by (simp add: keeps_string_def json_escape_ascii_def Let_def json_string_escape_def hex_digit_hex
        json_hex_def [of "CHR ''0''"])
qed

lemma keeps_string_high: "(of_char c :: nat) \<ge> 128 \<Longrightarrow> keeps_string [c]"
  by (auto simp: keeps_string_def)

lemma utf8_len_take_high:
  assumes "(of_char c :: nat) \<ge> 128" "x \<in> set (take (utf8_len (c # s)) (c # s))"
  shows "(of_char x :: nat) \<ge> 128"
proof (cases "(c # s)" rule: utf8_len.cases)
  case (1 a b c' d s')
  with assms show ?thesis by (auto simp: byte_in_def split: if_splits)
next
  case (2 a b c')
  with assms show ?thesis by (auto simp: byte_in_def split: if_splits)
next
  case (3 a b)
  with assms show ?thesis by (auto simp: byte_in_def split: if_splits)
qed (use assms in auto)

lemma keeps_string_all_high: "\<forall>c \<in> set s. (of_char c :: nat) \<ge> 128 \<Longrightarrow> keeps_string s"
proof (induction s)
  case (Cons c s)
  then show ?case using keeps_string_append [OF keeps_string_high] by fastforce
qed simp

lemma keeps_string_literal:
  "keeps_string (CHR 0x5C # ''ufffd'')" "keeps_string (CHR 0x5C # ''u2028'')" "keeps_string (CHR 0x5C # ''u2029'')"
  by (simp_all add: keeps_string_def json_string_escape_def json_hex_def)

lemma keeps_string_chars: "keeps_string (json_chars fuel s)"
proof (induction fuel s rule: json_chars.induct)
  case (3 fuel c s)
  show ?case
  proof (cases "(of_char c :: nat) < 128")
    case True
    with 3 show ?thesis by (simp add: keeps_string_append keeps_string_escape)
  next
    case high: False
    show ?thesis
    proof (cases "utf8_len (c # s) = 0")
      case True
      with 3 high show ?thesis
        using keeps_string_append [OF keeps_string_literal(1)] by simp
    next
      case False
      let ?r = "take (utf8_len (c # s)) (c # s)"
      have r: "keeps_string ?r"
        using utf8_len_take_high [of c _ s] high by (intro keeps_string_all_high) auto
      have "keeps_string (if ?r = [CHR 0xE2, CHR 0x80, CHR 0xA8] then CHR 0x5C # ''u2028''
          else if ?r = [CHR 0xE2, CHR 0x80, CHR 0xA9] then CHR 0x5C # ''u2029'' else ?r)"
        using r keeps_string_literal by simp
      from keeps_string_append [OF this] 3(3) False high show ?thesis
        by (simp add: Let_def del: take_Cons' drop_Cons')
    qed
  qed
qed simp_all

text \<open>A value text moves the scanner from the start of a value to its end.\<close>

definition json_value_text :: "string \<Rightarrow> bool" where
  "json_value_text v \<longleftrightarrow> (\<forall>st. scan v (BeginValue, st) = (EndValue, st))"

lemma scan_json_string:
  "scan (json_string s) (BeginValue, st) = (EndValue, st)"
  "scan (json_string s) (BeginString, st) = (EndValue, st)"
  "scan (json_string s) (BeginStringOrEmpty, st) = (EndValue, st)"
  using keeps_string_chars [of "length s" s]
  by (simp_all add: json_string_def keeps_string_def json_begin_value_def json_space_def)

lemma json_value_text_string: "json_value_text (json_string s)"
  by (simp add: json_value_text_def scan_json_string)

lemma json_value_text_true: "json_value_text ''true''"
  by (simp add: json_value_text_def json_begin_value_def json_space_def is_digit_def)

lemma scan_json_member:
  assumes "json_value_text v"
  shows "scan (json_member k v) (BeginString, ParseObjectKey # st) = (EndValue, ParseObjectValue # st)"
    and "scan (json_member k v) (BeginStringOrEmpty, ParseObjectKey # st) = (EndValue, ParseObjectValue # st)"
  using assms
  by (simp_all add: json_member_def scan_json_string json_value_text_def json_end_value_def json_space_def)

lemma scan_json_members:
  "ms \<noteq> [] \<Longrightarrow> \<forall>m \<in> set ms. \<exists>k v. m = json_member k v \<and> json_value_text v \<Longrightarrow>
   scan (json_members ms) (BeginString, ParseObjectKey # st) = (EndValue, ParseObjectValue # st)
   \<and> scan (json_members ms) (BeginStringOrEmpty, ParseObjectKey # st) = (EndValue, ParseObjectValue # st)"
proof (induction ms rule: json_members.induct)
  case (3 m m' ms)
  then have IH: "scan (json_members (m' # ms)) (BeginString, ParseObjectKey # st) =
      (EndValue, ParseObjectValue # st)" by simp
  from "3.prems"(2) have "\<exists>k v. m = json_member k v \<and> json_value_text v" by simp
  then obtain k v where m: "m = json_member k v" "json_value_text v" by blast
  show ?case
    using IH by (simp add: m scan_json_member [OF m(2)] json_end_value_def json_space_def)
qed (auto simp: scan_json_member)

lemma json_Valid_object:
  assumes "ms \<noteq> []" "\<forall>m \<in> set ms. \<exists>k v. m = json_member k v \<and> json_value_text v"
  shows "json_Valid (json_object ms)"
proof -
  have "scan (json_object ms) (BeginValue, []) = (EndTop, [])"
    using scan_json_members [OF assms, of "[]"]
    by (simp add: json_object_def json_begin_value_def json_space_def json_push_def json_max_depth_def
        json_end_value_def json_pop_def)
  then show ?thesis by (simp add: json_Valid_def)
qed

text \<open>An escape takes at most six bytes for each byte of the text.\<close>

lemma length_escape_le:
  "6 \<le> m \<Longrightarrow> length r \<le> m \<Longrightarrow>
   length (if P then CHR 0x5C # ''u2028'' else if Q then CHR 0x5C # ''u2029'' else r) \<le> m"
  by simp

lemma take_drop_budget: "6 * (n - u) + 6 * min n u = 6 * (n::nat)"
  by (cases "n \<le> u") (simp_all add: diff_mult_distrib2)

lemma length_json_chars: "length (json_chars n s) \<le> 6 * length s"
proof (induction n s rule: json_chars.induct)
  case (3 fuel c s)
  show ?case
  proof (cases "(of_char c :: nat) < 128")
    case True
    moreover have "length (json_escape_ascii c) \<le> 6" by (simp add: json_escape_ascii_def Let_def)
    ultimately show ?thesis using 3(1) by simp
  next
    case high: False
    show ?thesis
    proof (cases "utf8_len (c # s) = 0")
      case True
      with 3(2) high show ?thesis by simp
    next
      case False
      let ?u = "utf8_len (c # s)" and ?r = "take (utf8_len (c # s)) (c # s)"
      let ?x = "if ?r = [CHR 0xE2, CHR 0x80, CHR 0xA8] then CHR 0x5C # ''u2028''
          else if ?r = [CHR 0xE2, CHR 0x80, CHR 0xA9] then CHR 0x5C # ''u2029'' else ?r"
      have "length (json_chars fuel (drop ?u (c # s))) \<le> 6 * (length (c # s) - ?u)"
        using 3(3) [OF high False refl] by (metis length_drop)
      moreover have "1 \<le> min (length (c # s)) ?u" using False by simp
      then have "6 \<le> 6 * min (length (c # s)) ?u" "length ?r \<le> 6 * min (length (c # s)) ?u" by simp_all
      then have "length ?x \<le> 6 * min (length (c # s)) ?u" by (rule length_escape_le)
      ultimately have "length (?x @ json_chars fuel (drop ?u (c # s))) \<le>
          6 * (length (c # s) - ?u) + 6 * min (length (c # s)) ?u" unfolding length_append by linarith
      also have "\<dots> = 6 * length (c # s)" by (rule take_drop_budget)
      finally have "length (?x @ json_chars fuel (drop ?u (c # s))) \<le> 6 * length (c # s)" .
      with high False show ?thesis by (simp add: Let_def del: take_Cons' drop_Cons')
    qed
  qed
qed simp_all

lemma length_json_string: "length (json_string s) \<le> 6 * length s + 2"
  using length_json_chars [of "length s" s] by (simp add: json_string_def)

end
