(* ===== verification/Agent_Contract.thy ===== *)
theory Agent_Contract
  imports Go_Json
begin

text \<open>
  The v1 contract of the durable Turn, \<^verbatim>\<open>server/contracts/agent/v1/durable_turn.go\<close>: the
  status of a Turn, the Start, Attach and Cancel requests, the event envelope and the checks a
  replay consumer can make.

  Identifiers are strings, as in the source. A sequence number is a \<^verbatim>\<open>uint64\<close>, a \<open>64 word\<close>.
  \<^verbatim>\<open>TurnStatus\<close> is a string type in the source with six constants: the datatype has
  one constructor per constant and \<open>TurnStatusOther\<close> for every other string; \<open>TurnStatus_of\<close>
  and \<open>TurnStatus_string\<close> are the two conversions.
\<close>

type_synonym ThreadID = string
type_synonym TurnID = string
type_synonym IdempotencyKey = string
type_synonym Sequence = "64 word"
type_synonym EventType = string

subsection \<open>The status of a Turn\<close>

datatype TurnStatus =
    TurnStatusQueued
  | TurnStatusRunning
  | TurnStatusCompleted
  | TurnStatusStopped
  | TurnStatusFailed
  | TurnStatusTimeout
  | TurnStatusOther string

fun TurnStatus_string :: "TurnStatus \<Rightarrow> string" where
  "TurnStatus_string TurnStatusQueued = ''queued''"
| "TurnStatus_string TurnStatusRunning = ''running''"
| "TurnStatus_string TurnStatusCompleted = ''completed''"
| "TurnStatus_string TurnStatusStopped = ''stopped''"
| "TurnStatus_string TurnStatusFailed = ''failed''"
| "TurnStatus_string TurnStatusTimeout = ''timeout''"
| "TurnStatus_string (TurnStatusOther s) = s"

definition TurnStatus_of :: "string \<Rightarrow> TurnStatus" where
  "TurnStatus_of s =
     (if s = ''queued'' then TurnStatusQueued
      else if s = ''running'' then TurnStatusRunning
      else if s = ''completed'' then TurnStatusCompleted
      else if s = ''stopped'' then TurnStatusStopped
      else if s = ''failed'' then TurnStatusFailed
      else if s = ''timeout'' then TurnStatusTimeout
      else TurnStatusOther s)"

fun TurnStatus_Valid :: "TurnStatus \<Rightarrow> bool" where
  "TurnStatus_Valid (TurnStatusOther s) = False"
| "TurnStatus_Valid _ = True"

fun TurnStatus_Terminal :: "TurnStatus \<Rightarrow> bool" where
  "TurnStatus_Terminal TurnStatusCompleted = True"
| "TurnStatus_Terminal TurnStatusStopped = True"
| "TurnStatus_Terminal TurnStatusFailed = True"
| "TurnStatus_Terminal TurnStatusTimeout = True"
| "TurnStatus_Terminal _ = False"

subsection \<open>Requests\<close>

definition validateIdentifier :: "string \<Rightarrow> string \<Rightarrow> go_error option" where
  "validateIdentifier name v = first_error
     [fail_if (TrimSpace v = '''') (Errorf (name @ '' is required'')),
      fail_if (v \<noteq> TrimSpace v) (Errorf (name @ '' must not contain surrounding whitespace''))]"

record StartRequest =
  sr_ThreadID :: ThreadID
  sr_IdempotencyKey :: IdempotencyKey

definition StartRequest_Validate :: "StartRequest \<Rightarrow> go_error option" where
  "StartRequest_Validate r = first_error
     [validateIdentifier ''threadId'' (sr_ThreadID r),
      validateIdentifier ''idempotencyKey'' (sr_IdempotencyKey r)]"

record StartAdmissionResult =
  sa_TurnID :: TurnID
  sa_StreamURL :: string

definition StartAdmissionResult_Validate :: "StartAdmissionResult \<Rightarrow> go_error option" where
  "StartAdmissionResult_Validate r = first_error
     [validateIdentifier ''turnId'' (sa_TurnID r),
      validateIdentifier ''streamUrl'' (sa_StreamURL r)]"

record ReplayCursor =
  rc_LastEventID :: string
  rc_AfterSequence :: "Sequence option"

definition ReplayCursor_Validate :: "ReplayCursor \<Rightarrow> go_error option" where
  "ReplayCursor_Validate c =
     fail_if (rc_LastEventID c \<noteq> TrimSpace (rc_LastEventID c))
       (Errorf ''lastEventId must not contain surrounding whitespace'')"

record AttachRequest =
  ar_TurnID :: TurnID
  ar_Cursor :: ReplayCursor

definition AttachRequest_Validate :: "AttachRequest \<Rightarrow> go_error option" where
  "AttachRequest_Validate r = first_error
     [validateIdentifier ''turnId'' (ar_TurnID r), ReplayCursor_Validate (ar_Cursor r)]"

record ReplayWindow =
  rw_OldestSequence :: Sequence
  rw_LatestSequence :: Sequence

definition ReplayWindow_Empty :: "ReplayWindow \<Rightarrow> bool" where
  "ReplayWindow_Empty w \<longleftrightarrow> rw_OldestSequence w = 0 \<and> rw_LatestSequence w = 0"

definition ReplayWindow_Validate :: "ReplayWindow \<Rightarrow> go_error option" where
  "ReplayWindow_Validate w =
     (if ReplayWindow_Empty w then None
      else first_error
        [fail_if (rw_OldestSequence w = 0 \<or> rw_LatestSequence w = 0)
           (Errorf ''a non-empty replay window requires positive sequence bounds''),
         fail_if (rw_OldestSequence w > rw_LatestSequence w)
           (Errorf ''oldestSequence exceeds latestSequence'')])"

record CancelRequest =
  cr_TurnID :: TurnID

definition CancelRequest_Validate :: "CancelRequest \<Rightarrow> go_error option" where
  "CancelRequest_Validate r = validateIdentifier ''turnId'' (cr_TurnID r)"

record TerminalState =
  ts_TurnID :: TurnID
  ts_Status :: TurnStatus

definition TerminalState_Validate :: "TerminalState \<Rightarrow> go_error option" where
  "TerminalState_Validate s = first_error
     [validateIdentifier ''turnId'' (ts_TurnID s),
      fail_if (\<not> TurnStatus_Valid (ts_Status s)) (Errorf ''unknown turn status''),
      fail_if (\<not> TurnStatus_Terminal (ts_Status s)) (Errorf ''turn status is not terminal'')]"

subsection \<open>Event envelopes\<close>

abbreviation EventEnvelopeSchemaVersion :: int where
  "EventEnvelopeSchemaVersion \<equiv> 1"

abbreviation EventFrameEvent :: string where
  "EventFrameEvent \<equiv> ''event''"

abbreviation EventVisibilityUser :: string where
  "EventVisibilityUser \<equiv> ''user''"

abbreviation EventCoreTurnStatus :: EventType where
  "EventCoreTurnStatus \<equiv> ''core.turn.status''"

record EventPluginRef =
  pr_ID :: string
  pr_Version :: string
  pr_ReleaseDigest :: string

definition EventPluginRef_Validate :: "EventPluginRef \<Rightarrow> go_error option" where
  "EventPluginRef_Validate r = first_error
     [validateIdentifier ''plugin.id'' (pr_ID r),
      validateIdentifier ''plugin.version'' (pr_Version r),
      validateIdentifier ''plugin.releaseDigest'' (pr_ReleaseDigest r)]"

record EventEnvelope =
  ev_SchemaVersion :: int
  ev_FrameKind :: string
  ev_EventID :: string
  ev_TurnID :: TurnID
  ev_Sequence :: Sequence
  ev_Plugin :: EventPluginRef
  ev_Type :: EventType
  ev_Visibility :: string
  ev_ResourceRefs :: "string list"
  ev_Data :: string

definition EventEnvelope_Validate :: "EventEnvelope \<Rightarrow> go_error option" where
  "EventEnvelope_Validate e = first_error
     ([fail_if (ev_SchemaVersion e \<noteq> EventEnvelopeSchemaVersion) (Errorf ''unsupported event schemaVersion''),
       fail_if (ev_FrameKind e \<noteq> EventFrameEvent) (Errorf ''unsupported frameKind''),
       validateIdentifier ''eventId'' (ev_EventID e),
       validateIdentifier ''turnId'' (ev_TurnID e),
       fail_if (ev_Sequence e = 0) (Errorf ''event sequence must be positive''),
       EventPluginRef_Validate (ev_Plugin e),
       validateIdentifier ''event type'' (ev_Type e),
       fail_if (ev_Visibility e \<noteq> EventVisibilityUser) (Errorf ''unsupported event visibility''),
       fail_if (ev_Data e = '''' \<or> \<not> json_Valid (ev_Data e)) (Errorf ''event data must contain valid JSON'')]
      @ map (validateIdentifier ''resourceRefs'') (ev_ResourceRefs e))"

fun event_sequence_loop ::
  "TurnID \<Rightarrow> bool \<Rightarrow> Sequence \<Rightarrow> string set \<Rightarrow> EventEnvelope list \<Rightarrow> go_error option"
where
  "event_sequence_loop turnID first previous seen [] = None"
| "event_sequence_loop turnID first previous seen (e # es) =
     or_else (first_error
        [wrap_error ''event'' (EventEnvelope_Validate e),
         fail_if (ev_TurnID e \<noteq> turnID) (Errorf ''event belongs to another turn''),
         fail_if (\<not> first \<and> ev_Sequence e \<le> previous) (Errorf ''event sequence is not greater''),
         fail_if (ev_EventID e \<in> seen) (Errorf ''event repeats eventId'')])
       (event_sequence_loop turnID False (ev_Sequence e) (insert (ev_EventID e) seen) es)"

definition ValidateEventSequence :: "EventEnvelope list \<Rightarrow> go_error option" where
  "ValidateEventSequence events =
     (case events of [] \<Rightarrow> None | e # _ \<Rightarrow> event_sequence_loop (ev_TurnID e) True 0 {} events)"

subsection \<open>Lemmas\<close>

lemma TurnStatus_of_string: "TurnStatus_Valid s \<Longrightarrow> TurnStatus_of (TurnStatus_string s) = s"
  by (cases s) (simp_all add: TurnStatus_of_def)

lemma TurnStatus_string_of: "TurnStatus_string (TurnStatus_of s) = s"
  by (simp add: TurnStatus_of_def)

lemma Terminal_imp_Valid: "TurnStatus_Terminal s \<Longrightarrow> TurnStatus_Valid s"
  by (cases s) auto

lemma validateIdentifier_None_iff [err_simps]:
  "validateIdentifier n v = None \<longleftrightarrow> TrimSpace v = v \<and> v \<noteq> ''''"
  by (auto simp: validateIdentifier_def err_simps)

lemma EventPluginRef_Validate_None_iff:
  "EventPluginRef_Validate r = None \<longleftrightarrow>
     (\<forall>v \<in> {pr_ID r, pr_Version r, pr_ReleaseDigest r}. TrimSpace v = v \<and> v \<noteq> '''')"
  by (auto simp: EventPluginRef_Validate_def err_simps)

text \<open>
  What \<open>ValidateEventSequence\<close> accepts: every envelope is valid, all belong to one Turn, the
  sequence numbers strictly increase and no event id repeats.
\<close>

lemma event_sequence_loop_None_iff:
  "event_sequence_loop t first p seen es = None \<longleftrightarrow>
     (\<forall>e \<in> set es. EventEnvelope_Validate e = None \<and> ev_TurnID e = t \<and> ev_EventID e \<notin> seen)
     \<and> distinct (map ev_EventID es)
     \<and> sorted_wrt (<) ((if first then [] else [p]) @ map ev_Sequence es)"
proof (induction es arbitrary: first p seen)
  case Nil
  then show ?case by simp
next
  case (Cons e es)
  have step: "event_sequence_loop t first p seen (e # es) = None \<longleftrightarrow>
      EventEnvelope_Validate e = None \<and> ev_TurnID e = t \<and> (first \<or> p < ev_Sequence e)
      \<and> ev_EventID e \<notin> seen
      \<and> event_sequence_loop t False (ev_Sequence e) (insert (ev_EventID e) seen) es = None"
    by (simp only: event_sequence_loop.simps err_simps list.set ball_simps not_le de_Morgan_conj
        not_not simp_thms conj_assoc)
  have tr: "p < ev_Sequence e \<Longrightarrow>
      sorted_wrt (<) (p # ev_Sequence e # qs) \<longleftrightarrow> sorted_wrt (<) (ev_Sequence e # qs)" for qs
    by (simp only: sorted_wrt2 [OF transp_on_less] simp_thms)
  have ids: "ev_EventID e \<notin> ev_EventID ` set es \<longleftrightarrow> (\<forall>x \<in> set es. ev_EventID x \<noteq> ev_EventID e)"
    by (metis image_iff)
  show ?case
  proof (cases "first \<or> p < ev_Sequence e")
    case True
    then show ?thesis
      unfolding step Cons.IH by (cases first) (simp_all only: tr ids append.simps list.map if_True if_False
          list.set ball_simps distinct.simps set_map insert_iff simp_thms, blast+)
  next
    case False
    then show ?thesis unfolding step by simp
  qed
qed

lemma ValidateEventSequence_None_iff:
  "ValidateEventSequence es = None \<longleftrightarrow>
     (\<forall>e \<in> set es. EventEnvelope_Validate e = None \<and> ev_TurnID e = ev_TurnID (hd es))
     \<and> distinct (map ev_EventID es) \<and> sorted_wrt (<) (map ev_Sequence es)"
proof (cases es)
  case Nil
  then show ?thesis by (simp add: ValidateEventSequence_def)
next
  case (Cons a list)
  then show ?thesis
    by (simp add: ValidateEventSequence_def event_sequence_loop_None_iff del: event_sequence_loop.simps)
qed

end
