(* ===== verification/Turn_Types.thy ===== *)
theory Turn_Types
  imports Agent_Contract
begin

text \<open>
  The data of the durable Turn kernel and its checks, \<^verbatim>\<open>server/service/agentturn/types.go\<close>,
  with the server-authoritative state machine \<open>CanTransition\<close> of \<^verbatim>\<open>store.go\<close>.
  A pointer to a time is a \<open>time option\<close>; the copies that \<^verbatim>\<open>cloneTurn\<close> and
  \<^verbatim>\<open>cloneEvent\<close> make are the values themselves, since HOL values are not shared.
\<close>

type_synonym PrincipalID = string

abbreviation MaxPrincipalIDBytes :: nat where "MaxPrincipalIDBytes \<equiv> 128"
abbreviation MaxThreadIDBytes :: nat where "MaxThreadIDBytes \<equiv> 256"
abbreviation MaxTurnIDBytes :: nat where "MaxTurnIDBytes \<equiv> 256"
abbreviation MaxIdempotencyKeyBytes :: nat where "MaxIdempotencyKeyBytes \<equiv> 128"
abbreviation MaxCommandDigestBytes :: nat where "MaxCommandDigestBytes \<equiv> 128"
abbreviation MaxPluginFieldBytes :: nat where "MaxPluginFieldBytes \<equiv> 512"
abbreviation MaxEventTypeBytes :: nat where "MaxEventTypeBytes \<equiv> 255"
abbreviation MaxEventIDBytes :: nat where "MaxEventIDBytes \<equiv> 320"
abbreviation MaxEventDataBytes :: nat where "MaxEventDataBytes \<equiv> 1048576"
abbreviation MaxEventResourceRefs :: nat where "MaxEventResourceRefs \<equiv> 64"

definition MaxDurableSequence :: Sequence where
  "MaxDurableSequence = 0x7FFFFFFFFFFFFFFF"

subsection \<open>Text checks\<close>

definition validateText :: "string \<Rightarrow> string \<Rightarrow> go_error option" where
  "validateText name v = first_error
     [fail_if (TrimSpace v = '''') (Errorf (name @ '' is required'')),
      fail_if (v \<noteq> TrimSpace v) (Errorf (name @ '' must not contain surrounding whitespace'')),
      fail_if (length v > 2048) (Errorf (name @ '' exceeds 2048 bytes''))]"

definition validateBoundedText :: "string \<Rightarrow> string \<Rightarrow> nat \<Rightarrow> go_error option" where
  "validateBoundedText name v maximum = first_error
     [validateText name v,
      fail_if (length v > maximum) (Errorf (name @ '' exceeds the byte limit''))]"

definition control_char :: "char \<Rightarrow> bool" where
  "control_char c \<longleftrightarrow> (of_char c :: nat) < 32 \<or> (of_char c :: nat) = 127"

definition printable_char :: "char \<Rightarrow> bool" where
  "printable_char c \<longleftrightarrow> 32 \<le> (of_char c :: nat) \<and> (of_char c :: nat) \<le> 126"

text \<open>
  The source ranges over the runes of the text; a rune below U+0020 or equal to U+007F is a
  single byte in UTF-8 and no other encoding or invalid byte decodes to one, so the test reads
  bytes.
\<close>

definition validatePathSegment :: "string \<Rightarrow> string \<Rightarrow> nat \<Rightarrow> go_error option" where
  "validatePathSegment name v maximum = first_error
     [validateBoundedText name v maximum,
      fail_if (ContainsAny v [CHR ''/'', CHR 0x5C, CHR ''?'', CHR ''#'', CHR ''%''])
        (Errorf (name @ '' contains a path delimiter'')),
      fail_if (list_ex control_char v) (Errorf (name @ '' contains a control character''))]"

definition validatePluginRef :: "EventPluginRef \<Rightarrow> go_error option" where
  "validatePluginRef p = first_error
     [validateBoundedText ''plugin.id'' (pr_ID p) MaxPluginFieldBytes,
      validateBoundedText ''plugin.version'' (pr_Version p) MaxPluginFieldBytes,
      validateBoundedText ''plugin.releaseDigest'' (pr_ReleaseDigest p) MaxPluginFieldBytes]"

definition validateCommandDigest :: "string \<Rightarrow> go_error option" where
  "validateCommandDigest v = first_error
     [validateBoundedText ''commandDigest'' v MaxCommandDigestBytes,
      fail_if (list_ex (\<lambda>c. \<not> printable_char c) v)
        (Errorf ''commandDigest must contain printable ASCII only'')]"

definition validatePrintableASCII :: "string \<Rightarrow> string \<Rightarrow> nat \<Rightarrow> go_error option" where
  "validatePrintableASCII name v maximum = first_error
     [validateBoundedText name v maximum,
      fail_if (list_ex (\<lambda>c. \<not> printable_char c) v)
        (Errorf (name @ '' must contain printable ASCII only''))]"

subsection \<open>The Turn\<close>

record Turn =
  t_ID :: TurnID
  t_PrincipalID :: PrincipalID
  t_ThreadID :: ThreadID
  t_IdempotencyKey :: IdempotencyKey
  t_CommandDigest :: string
  t_Plugin :: EventPluginRef
  t_Status :: TurnStatus
  t_CancelRequestedAt :: "time option"
  t_CreatedAt :: time
  t_UpdatedAt :: time
  t_StartedAt :: "time option"
  t_FinishedAt :: "time option"

definition zero_Turn :: Turn where
  "zero_Turn = \<lparr>t_ID = '''', t_PrincipalID = '''', t_ThreadID = '''', t_IdempotencyKey = '''',
     t_CommandDigest = '''', t_Plugin = \<lparr>pr_ID = '''', pr_Version = '''', pr_ReleaseDigest = ''''\<rparr>,
     t_Status = TurnStatusOther '''', t_CancelRequestedAt = None, t_CreatedAt = 0, t_UpdatedAt = 0,
     t_StartedAt = None, t_FinishedAt = None\<rparr>"

definition before_opt :: "time option \<Rightarrow> time \<Rightarrow> bool" where
  "before_opt p t = (case p of None \<Rightarrow> False | Some x \<Rightarrow> x < t)"

definition after_opt :: "time option \<Rightarrow> time \<Rightarrow> bool" where
  "after_opt p t = (case p of None \<Rightarrow> False | Some x \<Rightarrow> x > t)"

definition Turn_Validate :: "Turn \<Rightarrow> go_error option" where
  "Turn_Validate t = first_error
     [validatePathSegment ''turnId'' (t_ID t) MaxTurnIDBytes,
      validateBoundedText ''principalId'' (t_PrincipalID t) MaxPrincipalIDBytes,
      validatePathSegment ''threadId'' (t_ThreadID t) MaxThreadIDBytes,
      validateBoundedText ''idempotencyKey'' (t_IdempotencyKey t) MaxIdempotencyKeyBytes,
      validateCommandDigest (t_CommandDigest t),
      EventPluginRef_Validate (t_Plugin t),
      validatePluginRef (t_Plugin t),
      fail_if (\<not> TurnStatus_Valid (t_Status t)) (Errorf ''unknown turn status''),
      fail_if (IsZero (t_CreatedAt t) \<or> IsZero (t_UpdatedAt t))
        (Errorf ''createdAt and updatedAt are required''),
      fail_if (t_UpdatedAt t < t_CreatedAt t) (Errorf ''updatedAt precedes createdAt''),
      fail_if (before_opt (t_StartedAt t) (t_CreatedAt t)) (Errorf ''startedAt precedes createdAt''),
      fail_if (before_opt (t_CancelRequestedAt t) (t_CreatedAt t))
        (Errorf ''cancelRequestedAt precedes createdAt''),
      fail_if (before_opt (t_FinishedAt t) (t_CreatedAt t)) (Errorf ''finishedAt precedes createdAt''),
      fail_if (case t_StartedAt t of None \<Rightarrow> False | Some x \<Rightarrow> before_opt (t_FinishedAt t) x)
        (Errorf ''finishedAt precedes startedAt''),
      fail_if (after_opt (t_StartedAt t) (t_UpdatedAt t)) (Errorf ''startedAt exceeds updatedAt''),
      fail_if (after_opt (t_CancelRequestedAt t) (t_UpdatedAt t))
        (Errorf ''cancelRequestedAt exceeds updatedAt''),
      fail_if (after_opt (t_FinishedAt t) (t_UpdatedAt t)) (Errorf ''finishedAt exceeds updatedAt''),
      fail_if (TurnStatus_Terminal (t_Status t) \<noteq> (t_FinishedAt t \<noteq> None))
        (Errorf ''terminal status and finishedAt must agree''),
      fail_if (t_Status t = TurnStatusQueued \<and> t_StartedAt t \<noteq> None)
        (Errorf ''queued turn must not have startedAt''),
      fail_if (t_Status t = TurnStatusRunning \<and> t_StartedAt t = None)
        (Errorf ''running turn requires startedAt''),
      fail_if (t_Status t = TurnStatusStopped \<and> t_CancelRequestedAt t = None)
        (Errorf ''stopped turn requires prior cancellation intent'')]"

subsection \<open>Drafts, commands and results\<close>

record EventDraft =
  ed_Type :: EventType
  ed_ResourceRefs :: "string list"
  ed_Data :: string

definition EventDraft_Validate :: "EventDraft \<Rightarrow> go_error option" where
  "EventDraft_Validate d = first_error
     ([validateBoundedText ''event type'' (ed_Type d) MaxEventTypeBytes,
       fail_if (ed_Data d = '''' \<or> \<not> json_Valid (ed_Data d)) (Errorf ''event data must contain valid JSON''),
       fail_if (length (ed_Data d) > MaxEventDataBytes) (Errorf ''event data exceeds the byte limit''),
       fail_if (length (ed_ResourceRefs d) > MaxEventResourceRefs) (Errorf ''event resource refs exceed the item limit'')]
      @ map (validateText ''resourceRefs'') (ed_ResourceRefs d))"

record StartCommand =
  sc_PrincipalID :: PrincipalID
  sc_Request :: StartRequest
  sc_CommandDigest :: string
  sc_Plugin :: EventPluginRef

definition StartCommand_Validate :: "StartCommand \<Rightarrow> go_error option" where
  "StartCommand_Validate c = first_error
     [validateBoundedText ''principalId'' (sc_PrincipalID c) MaxPrincipalIDBytes,
      StartRequest_Validate (sc_Request c),
      validatePathSegment ''threadId'' (sr_ThreadID (sc_Request c)) MaxThreadIDBytes,
      validateBoundedText ''idempotencyKey'' (sr_IdempotencyKey (sc_Request c)) MaxIdempotencyKeyBytes,
      validateCommandDigest (sc_CommandDigest c),
      EventPluginRef_Validate (sc_Plugin c),
      validatePluginRef (sc_Plugin c)]"

record StartResult =
  sres_Admission :: StartAdmissionResult
  sres_Turn :: Turn
  sres_IdempotentReplay :: bool

record OwnedTurnRequest =
  ot_PrincipalID :: PrincipalID
  ot_ThreadID :: ThreadID
  ot_TurnID :: TurnID

definition OwnedTurnRequest_Validate :: "OwnedTurnRequest \<Rightarrow> go_error option" where
  "OwnedTurnRequest_Validate r = first_error
     [validateBoundedText ''principalId'' (ot_PrincipalID r) MaxPrincipalIDBytes,
      validatePathSegment ''threadId'' (ot_ThreadID r) MaxThreadIDBytes,
      validatePathSegment ''turnId'' (ot_TurnID r) MaxTurnIDBytes]"

record AttachCommand =
  ac_PrincipalID :: PrincipalID
  ac_ThreadID :: ThreadID
  ac_Request :: AttachRequest

definition AttachCommand_Validate :: "AttachCommand \<Rightarrow> go_error option" where
  "AttachCommand_Validate c = first_error
     [validateBoundedText ''principalId'' (ac_PrincipalID c) MaxPrincipalIDBytes,
      validatePathSegment ''threadId'' (ac_ThreadID c) MaxThreadIDBytes,
      AttachRequest_Validate (ac_Request c),
      validatePathSegment ''turnId'' (ar_TurnID (ac_Request c)) MaxTurnIDBytes]"

record CancelCommand =
  cc_PrincipalID :: PrincipalID
  cc_ThreadID :: ThreadID
  cc_Request :: CancelRequest

definition CancelCommand_Validate :: "CancelCommand \<Rightarrow> go_error option" where
  "CancelCommand_Validate c = first_error
     [validateBoundedText ''principalId'' (cc_PrincipalID c) MaxPrincipalIDBytes,
      validatePathSegment ''threadId'' (cc_ThreadID c) MaxThreadIDBytes,
      CancelRequest_Validate (cc_Request c),
      validatePathSegment ''turnId'' (cr_TurnID (cc_Request c)) MaxTurnIDBytes]"

record CancelResult =
  cres_Turn :: Turn
  cres_NewlyRequested :: bool
  cres_Event :: "EventEnvelope option"

record TransitionResult =
  tres_Turn :: Turn
  tres_Changed :: bool
  tres_Event :: "EventEnvelope option"

record AdmissionRecord =
  adm_Turn :: Turn
  adm_Created :: bool

record ReplayRecord =
  rr_Turn :: Turn
  rr_AfterSequence :: Sequence
  rr_Window :: ReplayWindow
  rr_Events :: "EventEnvelope list"
  rr_HasMore :: bool

record ReplayQuery =
  rq_Cursor :: ReplayCursor
  rq_Limit :: int

definition ReplayQuery_Validate :: "ReplayQuery \<Rightarrow> go_error option" where
  "ReplayQuery_Validate q = first_error
     [ReplayCursor_Validate (rq_Cursor q),
      (if rc_LastEventID (rq_Cursor q) \<noteq> ''''
       then validateBoundedText ''lastEventId'' (rc_LastEventID (rq_Cursor q)) MaxEventIDBytes else None),
      fail_if (rq_Limit q \<le> 0 \<or> rq_Limit q > 1000) (Errorf ''replay limit must be between 1 and 1000''),
      fail_if (case rc_AfterSequence (rq_Cursor q) of None \<Rightarrow> False | Some a \<Rightarrow> a > MaxDurableSequence)
        (Errorf ''replay cursor exceeds durable sequence limit'')]"

subsection \<open>The state machine\<close>

definition CanTransition :: "TurnStatus \<Rightarrow> TurnStatus \<Rightarrow> bool" where
  "CanTransition from to =
     (if \<not> TurnStatus_Valid from \<or> \<not> TurnStatus_Valid to then False
      else if from = to then True
      else if TurnStatus_Terminal from then False
      else (case from of
              TurnStatusQueued \<Rightarrow>
                (case to of
                   TurnStatusRunning \<Rightarrow> True
                 | TurnStatusStopped \<Rightarrow> True
                 | TurnStatusFailed \<Rightarrow> True
                 | TurnStatusTimeout \<Rightarrow> True
                 | _ \<Rightarrow> False)
            | TurnStatusRunning \<Rightarrow> TurnStatus_Terminal to
            | _ \<Rightarrow> False))"

definition transitionError :: "TurnStatus \<Rightarrow> TurnStatus \<Rightarrow> go_error" where
  "transitionError from to =
     (if TurnStatus_Terminal from \<and> from \<noteq> to then Wrapf ''cannot move'' ErrTurnTerminal
      else Wrapf ''cannot move'' ErrInvalidTransition)"

subsection \<open>Lemmas\<close>

lemma validateText_None_iff [err_simps]:
  "validateText n v = None \<longleftrightarrow> TrimSpace v = v \<and> v \<noteq> '''' \<and> length v \<le> 2048"
  by (auto simp: validateText_def err_simps)

lemma validateBoundedText_None_iff [err_simps]:
  "validateBoundedText n v m = None \<longleftrightarrow>
     TrimSpace v = v \<and> v \<noteq> '''' \<and> length v \<le> 2048 \<and> length v \<le> m"
  by (auto simp: validateBoundedText_def err_simps)

lemma validatePathSegment_imp_text:
  "validatePathSegment n v m = None \<Longrightarrow> TrimSpace v = v \<and> v \<noteq> '''' \<and> length v \<le> m"
  by (simp add: validatePathSegment_def err_simps)

text \<open>Terminal states are absorbing and no state is entered twice: a rank that only grows.\<close>

fun status_rank :: "TurnStatus \<Rightarrow> nat" where
  "status_rank TurnStatusQueued = 0"
| "status_rank TurnStatusRunning = 1"
| "status_rank _ = 2"

lemma CanTransition_rank: "CanTransition f t \<Longrightarrow> f \<noteq> t \<Longrightarrow> status_rank f < status_rank t"
  by (cases f; cases t) (auto simp: CanTransition_def)

lemma CanTransition_terminal: "TurnStatus_Terminal f \<Longrightarrow> CanTransition f t \<longleftrightarrow> t = f"
  by (cases f) (auto simp: CanTransition_def)

lemma CanTransition_iff:
  "CanTransition f t \<longleftrightarrow> TurnStatus_Valid f \<and> TurnStatus_Valid t \<and>
     (f = t \<or> (f = TurnStatusQueued \<and> t \<noteq> TurnStatusCompleted) \<or> (f = TurnStatusRunning \<and> t \<noteq> TurnStatusQueued))"
  by (cases f; cases t) (auto simp: CanTransition_def)

end
