(* ===== verification/Memory_Store.thy ===== *)
theory Memory_Store
  imports Turn_Types
begin

text \<open>
  The reference implementation of the durable Turn store,
  \<^verbatim>\<open>server/service/agentturn/memory_store.go\<close>. The four Go maps are the four
  fields of the record; a missing key of \<^verbatim>\<open>events\<close> or \<^verbatim>\<open>lastSequence\<close> reads as the zero
  value of the map's element type, as in Go. Every operation runs under the store's mutex, so
  one call is one step; \<^verbatim>\<open>ensureMapsLocked\<close> only replaces nil maps by empty ones, which
  read the same. An operation takes the store and returns the store it leaves, also on error.
\<close>

subsection \<open>State\<close>

type_synonym idempotencyScope = "PrincipalID \<times> ThreadID \<times> IdempotencyKey"

record MemoryStore =
  ms_turns :: "TurnID \<rightharpoonup> Turn"
  ms_byIdem :: "idempotencyScope \<rightharpoonup> TurnID"
  ms_events :: "TurnID \<rightharpoonup> EventEnvelope list"
  ms_lastSequence :: "TurnID \<rightharpoonup> Sequence"

definition NewMemoryStore :: MemoryStore where
  "NewMemoryStore = \<lparr>ms_turns = Map.empty, ms_byIdem = Map.empty, ms_events = Map.empty,
                     ms_lastSequence = Map.empty\<rparr>"

definition map_get :: "'v \<Rightarrow> ('k \<rightharpoonup> 'v) \<Rightarrow> 'k \<Rightarrow> 'v" where
  "map_get z m k = (case m k of None \<Rightarrow> z | Some v \<Rightarrow> v)"

subsection \<open>Events\<close>

definition deterministicEventID :: "TurnID \<Rightarrow> Sequence \<Rightarrow> string" where
  "deterministicEventID turnID seq = turnID @ '':'' @ print_nat (unat seq)"

definition buildEvent :: "Turn \<Rightarrow> Sequence \<Rightarrow> EventDraft \<Rightarrow> EventEnvelope result" where
  "buildEvent turn seq draft =
     (if seq = 0 \<or> seq > MaxDurableSequence then Inl ErrSequenceExhausted
      else
        let event = \<lparr>ev_SchemaVersion = EventEnvelopeSchemaVersion, ev_FrameKind = EventFrameEvent,
              ev_EventID = deterministicEventID (t_ID turn) seq, ev_TurnID = t_ID turn,
              ev_Sequence = seq, ev_Plugin = t_Plugin turn, ev_Type = ed_Type draft,
              ev_Visibility = EventVisibilityUser, ev_ResourceRefs = ed_ResourceRefs draft,
              ev_Data = ed_Data draft\<rparr>
        in case EventEnvelope_Validate event of
             Some e \<Rightarrow> Inl (Wrapf ''build durable turn event'' e)
           | None \<Rightarrow> Inr event)"

definition nextEventLocked :: "MemoryStore \<Rightarrow> Turn \<Rightarrow> EventDraft \<Rightarrow> EventEnvelope result" where
  "nextEventLocked s turn draft =
     (let latest = map_get 0 (ms_lastSequence s) (t_ID turn)
      in if latest > 0
         then (if latest \<ge> MaxDurableSequence then Inl ErrSequenceExhausted
               else buildEvent turn (latest + 1) draft)
         else buildEvent turn 1 draft)"

definition append_event :: "TurnID \<Rightarrow> EventEnvelope \<Rightarrow> MemoryStore \<Rightarrow> MemoryStore" where
  "append_event turnID event s =
     s\<lparr>ms_events := (ms_events s)(turnID \<mapsto> map_get [] (ms_events s) turnID @ [event]),
       ms_lastSequence := (ms_lastSequence s)(turnID \<mapsto> ev_Sequence event)\<rparr>"

subsection \<open>Operations\<close>

definition admit_scope :: "Turn \<Rightarrow> idempotencyScope" where
  "admit_scope t = (t_PrincipalID t, t_ThreadID t, t_IdempotencyKey t)"

definition fresh_lifecycle :: "Turn \<Rightarrow> bool" where
  "fresh_lifecycle t \<longleftrightarrow> t_Status t = TurnStatusQueued \<and> t_CancelRequestedAt t = None
     \<and> t_StartedAt t = None \<and> t_FinishedAt t = None"

definition Admit ::
  "go_context \<Rightarrow> Turn \<Rightarrow> EventDraft \<Rightarrow> MemoryStore \<Rightarrow> AdmissionRecord result \<times> MemoryStore"
where
  "Admit ctx candidate initial s =
     reject s (contextError (ctx 0)) (
     reject s (wrap_error ''invalid admitted turn'' (Turn_Validate candidate)) (
     reject s (fail_if (\<not> fresh_lifecycle candidate) (Errorf ''invalid admitted turn lifecycle'')) (
     reject s (EventDraft_Validate initial) (
     reject s (contextError (ctx 1)) (
       case ms_byIdem s (admit_scope candidate) of
         Some existingID \<Rightarrow>
           (let existing = map_get zero_Turn (ms_turns s) existingID
            in if t_CommandDigest existing \<noteq> t_CommandDigest candidate
               then (Inl (Wrapf ''admit'' ErrIdempotencyConflict), s)
               else (Inr \<lparr>adm_Turn = existing, adm_Created = False\<rparr>, s))
       | None \<Rightarrow>
           if ms_turns s (t_ID candidate) \<noteq> None then (Inl (Wrapf ''admit'' ErrTurnIDConflict), s)
           else bind_result s (buildEvent candidate 1 initial) (\<lambda>first.
             (Inr \<lparr>adm_Turn = candidate, adm_Created = True\<rparr>,
              s\<lparr>ms_turns := (ms_turns s)(t_ID candidate \<mapsto> candidate),
                ms_byIdem := (ms_byIdem s)(admit_scope candidate \<mapsto> t_ID candidate),
                ms_events := (ms_events s)(t_ID candidate \<mapsto> [first]),
                ms_lastSequence := (ms_lastSequence s)(t_ID candidate \<mapsto> 1)\<rparr>)))))))"

definition owned_turn :: "MemoryStore \<Rightarrow> PrincipalID \<Rightarrow> ThreadID \<Rightarrow> TurnID \<Rightarrow> Turn result" where
  "owned_turn s principalID threadID turnID =
     (case ms_turns s turnID of
        None \<Rightarrow> Inl ErrTurnNotFound
      | Some turn \<Rightarrow>
          if t_PrincipalID turn \<noteq> principalID \<or> t_ThreadID turn \<noteq> threadID
          then Inl ErrTurnNotFound else Inr turn)"

definition GetOwned ::
  "go_context \<Rightarrow> PrincipalID \<Rightarrow> ThreadID \<Rightarrow> TurnID \<Rightarrow> MemoryStore \<Rightarrow> Turn result"
where
  "GetOwned ctx principalID threadID turnID s =
     (case contextError (ctx 0) of
        Some e \<Rightarrow> Inl e
      | None \<Rightarrow> owned_turn s principalID threadID turnID)"

definition AppendEvent ::
  "go_context \<Rightarrow> TurnID \<Rightarrow> EventDraft \<Rightarrow> MemoryStore \<Rightarrow> EventEnvelope result \<times> MemoryStore"
where
  "AppendEvent ctx turnID draft s =
     reject s (contextError (ctx 0)) (
     reject s (EventDraft_Validate draft) (
     reject s (contextError (ctx 1)) (
       case ms_turns s turnID of
         None \<Rightarrow> (Inl ErrTurnNotFound, s)
       | Some turn \<Rightarrow>
           if TurnStatus_Terminal (t_Status turn) then (Inl (Wrapf ''append'' ErrTurnTerminal), s)
           else bind_result s (nextEventLocked s turn draft) (\<lambda>event.
             (Inr event, append_event turnID event s)))))"

text \<open>The Turn a transition stores: new status and update time, first start and finish stamped.\<close>

definition transitioned :: "Turn \<Rightarrow> TurnStatus \<Rightarrow> time \<Rightarrow> Turn" where
  "transitioned turn to now =
     (let n1 = turn\<lparr>t_Status := to, t_UpdatedAt := now\<rparr>;
          n2 = (if to = TurnStatusRunning \<and> t_StartedAt n1 = None then n1\<lparr>t_StartedAt := Some now\<rparr> else n1)
      in (if TurnStatus_Terminal to then n2\<lparr>t_FinishedAt := Some now\<rparr> else n2))"

definition Transition ::
  "go_context \<Rightarrow> TurnID \<Rightarrow> TurnStatus \<Rightarrow> time \<Rightarrow> EventDraft \<Rightarrow> MemoryStore
     \<Rightarrow> TransitionResult result \<times> MemoryStore"
where
  "Transition ctx turnID to now draft s =
     reject s (contextError (ctx 0)) (
     reject s (fail_if (IsZero now) (Errorf ''transition time is required'')) (
     reject s (EventDraft_Validate draft) (
     reject s (contextError (ctx 1)) (
       case ms_turns s turnID of
         None \<Rightarrow> (Inl ErrTurnNotFound, s)
       | Some turn \<Rightarrow>
           if t_Status turn = to
           then (Inr \<lparr>tres_Turn = turn, tres_Changed = False, tres_Event = None\<rparr>, s)
           else if \<not> CanTransition (t_Status turn) to then (Inl (transitionError (t_Status turn) to), s)
           else if to = TurnStatusStopped \<and> t_CancelRequestedAt turn = None
           then (Inl ErrCancellationNotRequested, s)
           else let next = transitioned turn to now in
             reject s (wrap_error ''invalid transitioned turn'' (Turn_Validate next)) (
             bind_result s (nextEventLocked s next draft) (\<lambda>event.
               (Inr \<lparr>tres_Turn = next, tres_Changed = True, tres_Event = Some event\<rparr>,
                append_event turnID event (s\<lparr>ms_turns := (ms_turns s)(turnID \<mapsto> next)\<rparr>))))))))"

definition RequestCancel ::
  "go_context \<Rightarrow> PrincipalID \<Rightarrow> ThreadID \<Rightarrow> TurnID \<Rightarrow> time \<Rightarrow> EventDraft \<Rightarrow> MemoryStore
     \<Rightarrow> CancelResult result \<times> MemoryStore"
where
  "RequestCancel ctx principalID threadID turnID now draft s =
     reject s (contextError (ctx 0)) (
     reject s (fail_if (IsZero now) (Errorf ''cancellation time is required'')) (
     reject s (EventDraft_Validate draft) (
     reject s (contextError (ctx 1)) (
     bind_result s (owned_turn s principalID threadID turnID) (\<lambda>turn.
       if TurnStatus_Terminal (t_Status turn) \<or> t_CancelRequestedAt turn \<noteq> None
       then (Inr \<lparr>cres_Turn = turn, cres_NewlyRequested = False, cres_Event = None\<rparr>, s)
       else let next = turn\<lparr>t_CancelRequestedAt := Some now, t_UpdatedAt := now\<rparr> in
         reject s (wrap_error ''invalid cancellation intent'' (Turn_Validate next)) (
         bind_result s (nextEventLocked s next draft) (\<lambda>event.
           (Inr \<lparr>cres_Turn = next, cres_NewlyRequested = True, cres_Event = Some event\<rparr>,
            append_event turnID event (s\<lparr>ms_turns := (ms_turns s)(turnID \<mapsto> next)\<rparr>)))))))))"

fun replay_page ::
  "Sequence \<Rightarrow> int \<Rightarrow> EventEnvelope list \<Rightarrow> EventEnvelope list \<Rightarrow> EventEnvelope list \<times> bool"
where
  "replay_page after limit replayed [] = (replayed, False)"
| "replay_page after limit replayed (e # es) =
     (if ev_Sequence e > after
      then (if int (length replayed) = limit then (replayed, True)
            else replay_page after limit (replayed @ [e]) es)
      else replay_page after limit replayed es)"

definition replay_window :: "EventEnvelope list \<Rightarrow> ReplayWindow" where
  "replay_window events =
     (if events \<noteq> [] then \<lparr>rw_OldestSequence = ev_Sequence (hd events),
                             rw_LatestSequence = ev_Sequence (last events)\<rparr>
      else \<lparr>rw_OldestSequence = 0, rw_LatestSequence = 0\<rparr>)"

definition resolve_cursor :: "ReplayCursor \<Rightarrow> EventEnvelope list \<Rightarrow> Sequence result" where
  "resolve_cursor cursor events =
     (let after = (case rc_AfterSequence cursor of None \<Rightarrow> 0 | Some a \<Rightarrow> a)
      in if rc_LastEventID cursor \<noteq> ''''
         then (case find (\<lambda>e. ev_EventID e = rc_LastEventID cursor) events of
                 None \<Rightarrow> Inl (Wrapf ''replay'' ErrReplayCursorNotFound)
               | Some e \<Rightarrow> Inr (if ev_Sequence e > after then ev_Sequence e else after))
         else Inr after)"

definition Replay ::
  "go_context \<Rightarrow> PrincipalID \<Rightarrow> ThreadID \<Rightarrow> TurnID \<Rightarrow> ReplayQuery \<Rightarrow> MemoryStore \<Rightarrow> ReplayRecord result"
where
  "Replay ctx principalID threadID turnID query s =
     (case first_error [contextError (ctx 0), ReplayQuery_Validate query] of
        Some e \<Rightarrow> Inl e
      | None \<Rightarrow>
      (case owned_turn s principalID threadID turnID of
         Inl e \<Rightarrow> Inl e
       | Inr turn \<Rightarrow>
         let events = map_get [] (ms_events s) turnID; window = replay_window events in
         (case resolve_cursor (rq_Cursor query) events of
            Inl e \<Rightarrow> Inl e
          | Inr after \<Rightarrow>
            if (ReplayWindow_Empty window \<and> after > 0)
               \<or> (\<not> ReplayWindow_Empty window \<and> after > rw_LatestSequence window)
            then Inl (Wrapf ''replay boundary'' ErrReplayCursorAhead)
            else if rc_AfterSequence (rq_Cursor query) \<noteq> None \<and> \<not> ReplayWindow_Empty window
                    \<and> after < rw_OldestSequence window - 1
            then Inl (Wrapf ''replay boundary'' ErrReplayGap)
            else let (replayed, hasMore) = replay_page after (rq_Limit query) [] events in
              Inr \<lparr>rr_Turn = turn, rr_AfterSequence = after, rr_Window = window,
                   rr_Events = replayed, rr_HasMore = hasMore\<rparr>)))"

subsection \<open>The invariant\<close>

text \<open>
  Each Turn is valid, indexed under its idempotency scope and has a non-empty log numbered from
  1 without gaps, whose last number is \<open>lastSequence\<close>; the index points only at Turns.
\<close>

definition event_ok :: "Turn \<Rightarrow> nat \<Rightarrow> EventEnvelope \<Rightarrow> bool" where
  "event_ok t n e \<longleftrightarrow> EventEnvelope_Validate e = None \<and> ev_TurnID e = t_ID t
     \<and> ev_Plugin e = t_Plugin t \<and> unat (ev_Sequence e) = n
     \<and> ev_EventID e = deterministicEventID (t_ID t) (ev_Sequence e)"

definition log_ok :: "Turn \<Rightarrow> EventEnvelope list \<Rightarrow> bool" where
  "log_ok t es \<longleftrightarrow> es \<noteq> [] \<and> length es \<le> unat MaxDurableSequence
     \<and> (\<forall>i < length es. event_ok t (Suc i) (es ! i))"

definition turn_ok :: "MemoryStore \<Rightarrow> TurnID \<Rightarrow> Turn \<Rightarrow> bool" where
  "turn_ok s i t \<longleftrightarrow> t_ID t = i \<and> Turn_Validate t = None \<and> ms_byIdem s (admit_scope t) = Some i
     \<and> log_ok t (map_get [] (ms_events s) i)
     \<and> ms_lastSequence s i = Some (of_nat (length (map_get [] (ms_events s) i)))"

definition store_ok :: "MemoryStore \<Rightarrow> bool" where
  "store_ok s \<longleftrightarrow> (\<forall>i t. ms_turns s i = Some t \<longrightarrow> turn_ok s i t)
     \<and> (\<forall>sc i. ms_byIdem s sc = Some i \<longrightarrow> (\<exists>t. ms_turns s i = Some t \<and> admit_scope t = sc))"

text \<open>What no operation changes of a Turn: its identity, scope, plugin and command.\<close>

definition same_identity :: "Turn \<Rightarrow> Turn \<Rightarrow> bool" where
  "same_identity t u \<longleftrightarrow> t_ID t = t_ID u \<and> admit_scope t = admit_scope u \<and> t_Plugin t = t_Plugin u
     \<and> t_CommandDigest t = t_CommandDigest u \<and> t_CreatedAt t = t_CreatedAt u"

lemma same_identity_refl [simp]: "same_identity t t"
  by (simp add: same_identity_def)

lemma same_identity_trans: "same_identity t u \<Longrightarrow> same_identity u v \<Longrightarrow> same_identity t v"
  by (simp add: same_identity_def)

lemma transitioned_same_identity [simp]: "same_identity (transitioned t to now) t"
  by (simp add: same_identity_def transitioned_def admit_scope_def Let_def)

lemma cancelled_same_identity [simp]:
  "same_identity (t\<lparr>t_CancelRequestedAt := c, t_UpdatedAt := u\<rparr>) t"
  by (simp add: same_identity_def admit_scope_def)

lemma log_ok_same_identity: "same_identity t u \<Longrightarrow> log_ok t es = log_ok u es"
  by (simp add: log_ok_def event_ok_def same_identity_def)

lemma map_get_upd [simp]: "map_get z (m(k \<mapsto> v)) j = (if j = k then v else map_get z m j)"
  by (simp add: map_get_def)

lemma append_event_sel [simp]:
  "ms_turns (append_event i e s) = ms_turns s" "ms_byIdem (append_event i e s) = ms_byIdem s"
  "map_get [] (ms_events (append_event i e s)) j =
     (if j = i then map_get [] (ms_events s) i @ [e] else map_get [] (ms_events s) j)"
  "ms_lastSequence (append_event i e s) = (ms_lastSequence s)(i \<mapsto> ev_Sequence e)"
  by (simp_all add: append_event_def)

lemma store_okD: "store_ok s \<Longrightarrow> ms_turns s i = Some t \<Longrightarrow> turn_ok s i t"
  by (simp add: store_ok_def)

lemma unat_MaxDurableSequence: "unat MaxDurableSequence = 2 ^ 63 - 1"
  by (simp add: MaxDurableSequence_def)

lemma word_of_length: "n \<le> unat MaxDurableSequence \<Longrightarrow> unat (of_nat n :: Sequence) = n"
  by (simp add: unat_of_nat unat_MaxDurableSequence)

text \<open>An event that was built carries the Turn's identity, the number given and the draft's content.\<close>

lemma buildEvent_Inr:
  assumes "buildEvent t q d = Inr e"
  shows "event_ok t (unat q) e \<and> ev_Sequence e = q \<and> q \<noteq> 0 \<and> q \<le> MaxDurableSequence
    \<and> ev_Type e = ed_Type d \<and> ev_ResourceRefs e = ed_ResourceRefs d \<and> ev_Data e = ed_Data d"
  using assms by (auto simp: buildEvent_def Let_def event_ok_def split: if_splits option.splits)

lemma turn_ok_latest:
  assumes "turn_ok s i t"
  shows "map_get 0 (ms_lastSequence s) i = of_nat (length (map_get [] (ms_events s) i))"
    and "unat (map_get 0 (ms_lastSequence s) i) = length (map_get [] (ms_events s) i)"
    and "map_get 0 (ms_lastSequence s) i > 0"
proof -
  let ?es = "map_get [] (ms_events s) i"
  from assms have l: "ms_lastSequence s i = Some (of_nat (length ?es))"
    and len: "?es \<noteq> []" "length ?es \<le> unat MaxDurableSequence"
    by (auto simp: turn_ok_def log_ok_def)
  then show eq: "map_get 0 (ms_lastSequence s) i = of_nat (length ?es)"
    by (simp add: map_get_def)
  show un: "unat (map_get 0 (ms_lastSequence s) i) = length ?es"
    unfolding eq by (rule word_of_length [OF len(2)])
  from un len(1) show "map_get 0 (ms_lastSequence s) i > 0"
    by (metis length_0_conv unat_0 word_gt_0)
qed

lemma nextEventLocked_Inr:
  assumes ok: "turn_ok s (t_ID t') t" and id: "same_identity t' t"
    and ev: "nextEventLocked s t' d = Inr e"
  defines "n \<equiv> length (map_get [] (ms_events s) (t_ID t'))"
  shows "event_ok t' (Suc n) e" "Suc n \<le> unat MaxDurableSequence"
    "ev_Sequence e = of_nat (Suc n)"
    "ev_Type e = ed_Type d \<and> ev_Data e = ed_Data d"
proof -
  let ?l = "map_get 0 (ms_lastSequence s) (t_ID t')"
  from turn_ok_latest [OF ok] have l: "?l = of_nat n" "unat ?l = n" "?l > 0"
    by (simp_all add: n_def)
  with ev have lt: "?l < MaxDurableSequence" and b: "buildEvent t' (?l + 1) d = Inr e"
    by (auto simp: nextEventLocked_def Let_def split: if_splits)
  from unat_plus_1_less [OF lt] l(2) have u: "unat (?l + 1) = Suc n" by simp
  note e = buildEvent_Inr [OF b, unfolded u]
  then show "event_ok t' (Suc n) e" and "ev_Type e = ed_Type d \<and> ev_Data e = ed_Data d" by auto
  from e have "?l + 1 \<le> MaxDurableSequence" by blast
  then show "Suc n \<le> unat MaxDurableSequence" unfolding word_le_nat_alt u .
  from e have "ev_Sequence e = ?l + 1" by blast
  then show "ev_Sequence e = of_nat (Suc n)" by (simp add: l(1))
qed

lemma log_ok_snoc:
  assumes "log_ok t es" "event_ok t (Suc (length es)) e" "Suc (length es) \<le> unat MaxDurableSequence"
  shows "log_ok t (es @ [e])"
  using assms by (auto simp: log_ok_def nth_append less_Suc_eq)

text \<open>Storing a changed Turn of the same identity with one more event keeps the invariant.\<close>

lemma store_ok_commit:
  assumes ok: "store_ok s" and t: "ms_turns s i = Some t" and id: "same_identity t' t"
    and val: "Turn_Validate t' = None" and ev: "nextEventLocked s t' d = Inr e"
  shows "store_ok (append_event i e (s\<lparr>ms_turns := (ms_turns s)(i \<mapsto> t')\<rparr>))"
proof -
  let ?s' = "append_event i e (s\<lparr>ms_turns := (ms_turns s)(i \<mapsto> t')\<rparr>)"
  let ?es = "map_get [] (ms_events s) i"
  from store_okD [OF ok t] have tok: "turn_ok s i t" .
  then have i: "t_ID t = i" "t_ID t' = i" using id by (simp_all add: turn_ok_def same_identity_def)
  from nextEventLocked_Inr [of s t' t d e] tok id ev i
  have e: "event_ok t' (Suc (length ?es)) e" "Suc (length ?es) \<le> unat MaxDurableSequence"
    and seq: "ev_Sequence e = of_nat (Suc (length ?es))" by simp_all
  from tok id have "log_ok t' ?es" by (simp add: turn_ok_def log_ok_same_identity)
  from log_ok_snoc [OF this e] have log: "log_ok t' (?es @ [e])" .
  have new: "turn_ok ?s' i t'"
    using tok id val log seq i by (simp add: turn_ok_def same_identity_def)
  have old: "turn_ok ?s' j u" if "ms_turns s j = Some u" "j \<noteq> i" for j u
    using store_okD [OF ok that(1)] that(2) by (simp add: turn_ok_def)
  have idx: "\<exists>u. ms_turns ?s' j = Some u \<and> admit_scope u = sc" if "ms_byIdem s sc = Some j" for sc j
  proof -
    from ok that obtain u where "ms_turns s j = Some u" "admit_scope u = sc"
      unfolding store_ok_def by blast
    then show ?thesis using t id by (auto simp: same_identity_def)
  qed
  show ?thesis
    using new old idx unfolding store_ok_def by (simp split: if_splits)
qed

subsection \<open>What each operation does\<close>

text \<open>Inversion of a successful call, and that a failed call leaves the store alone.\<close>

lemmas op_simps = reject_Inr_iff bind_result_Inr_iff err_simps Let_def

lemma Admit_Inr:
  assumes "Admit ctx c d s = (Inr r, s')"
  shows "Turn_Validate c = None \<and> fresh_lifecycle c \<and> EventDraft_Validate d = None"
    and "adm_Created r \<Longrightarrow> adm_Turn r = c \<and> ms_byIdem s (admit_scope c) = None
      \<and> ms_turns s (t_ID c) = None \<and> (\<exists>first. buildEvent c 1 d = Inr first
      \<and> s' = s\<lparr>ms_turns := (ms_turns s)(t_ID c \<mapsto> c),
                ms_byIdem := (ms_byIdem s)(admit_scope c \<mapsto> t_ID c),
                ms_events := (ms_events s)(t_ID c \<mapsto> [first]),
                ms_lastSequence := (ms_lastSequence s)(t_ID c \<mapsto> 1)\<rparr>)"
    and "\<not> adm_Created r \<Longrightarrow> s' = s \<and> (\<exists>i. ms_byIdem s (admit_scope c) = Some i
      \<and> adm_Turn r = map_get zero_Turn (ms_turns s) i
      \<and> t_CommandDigest (adm_Turn r) = t_CommandDigest c)"
  using assms by (auto simp: Admit_def op_simps split: option.splits if_splits)

lemma Admit_Inl: "Admit ctx c d s = (Inl e, s') \<Longrightarrow> s' = s"
  by (auto simp: Admit_def reject_def bind_result_def Let_def split: option.splits sum.splits if_splits)

lemma AppendEvent_Inr:
  assumes "AppendEvent ctx i d s = (Inr e, s')"
  shows "\<exists>t. ms_turns s i = Some t \<and> \<not> TurnStatus_Terminal (t_Status t)
    \<and> nextEventLocked s t d = Inr e \<and> s' = append_event i e s"
  using assms by (auto simp: AppendEvent_def op_simps split: option.splits if_splits)

lemma AppendEvent_Inl: "AppendEvent ctx i d s = (Inl e, s') \<Longrightarrow> s' = s"
  by (auto simp: AppendEvent_def reject_def bind_result_def split: option.splits sum.splits if_splits)

lemma Transition_Inr:
  assumes "Transition ctx i to now d s = (Inr r, s')"
  shows "\<exists>t. ms_turns s i = Some t \<and>
    (if tres_Changed r then
       t_Status t \<noteq> to \<and> CanTransition (t_Status t) to
       \<and> (to = TurnStatusStopped \<longrightarrow> t_CancelRequestedAt t \<noteq> None)
       \<and> tres_Turn r = transitioned t to now \<and> Turn_Validate (transitioned t to now) = None
       \<and> (\<exists>e. tres_Event r = Some e \<and> nextEventLocked s (transitioned t to now) d = Inr e
           \<and> s' = append_event i e (s\<lparr>ms_turns := (ms_turns s)(i \<mapsto> transitioned t to now)\<rparr>))
     else t_Status t = to \<and> tres_Turn r = t \<and> tres_Event r = None \<and> s' = s)"
  using assms by (auto simp: Transition_def op_simps split: option.splits if_splits)

lemma Transition_Inl: "Transition ctx i to now d s = (Inl e, s') \<Longrightarrow> s' = s"
  by (auto simp: Transition_def reject_def bind_result_def Let_def split: option.splits sum.splits if_splits)

lemma owned_turn_Inr [simp]:
  "owned_turn s p th i = Inr t \<longleftrightarrow> ms_turns s i = Some t \<and> t_PrincipalID t = p \<and> t_ThreadID t = th"
  by (auto simp: owned_turn_def split: option.splits)

abbreviation cancelled :: "Turn \<Rightarrow> time \<Rightarrow> Turn" where
  "cancelled t now \<equiv> t\<lparr>t_CancelRequestedAt := Some now, t_UpdatedAt := now\<rparr>"

lemma RequestCancel_Inr:
  assumes "RequestCancel ctx p th i now d s = (Inr r, s')"
  shows "\<exists>t. ms_turns s i = Some t \<and> t_PrincipalID t = p \<and> t_ThreadID t = th \<and>
    (if cres_NewlyRequested r then
       \<not> TurnStatus_Terminal (t_Status t) \<and> t_CancelRequestedAt t = None
       \<and> cres_Turn r = cancelled t now \<and> Turn_Validate (cancelled t now) = None
       \<and> (\<exists>e. cres_Event r = Some e \<and> nextEventLocked s (cancelled t now) d = Inr e
           \<and> s' = append_event i e (s\<lparr>ms_turns := (ms_turns s)(i \<mapsto> cancelled t now)\<rparr>))
     else (TurnStatus_Terminal (t_Status t) \<or> t_CancelRequestedAt t \<noteq> None)
       \<and> cres_Turn r = t \<and> cres_Event r = None \<and> s' = s)"
  using assms by (auto simp: RequestCancel_def op_simps split: if_splits)

lemma RequestCancel_Inl: "RequestCancel ctx p th i now d s = (Inl e, s') \<Longrightarrow> s' = s"
  by (auto simp: RequestCancel_def reject_def bind_result_def Let_def split: option.splits sum.splits if_splits)

lemmas op_Inl = Admit_Inl AppendEvent_Inl Transition_Inl RequestCancel_Inl

subsection \<open>Steps of the store\<close>

inductive mem_step :: "MemoryStore \<Rightarrow> MemoryStore \<Rightarrow> bool" where
  admit: "Admit ctx c d s = (r, s') \<Longrightarrow> mem_step s s'"
| append: "AppendEvent ctx i d s = (r, s') \<Longrightarrow> mem_step s s'"
| transition: "Transition ctx i to now d s = (r, s') \<Longrightarrow> mem_step s s'"
| cancel: "RequestCancel ctx p th i now d s = (r, s') \<Longrightarrow> mem_step s s'"

text \<open>
  One Turn under any step. Identity is kept, the log only grows at its end, the status
  follows \<open>CanTransition\<close>, a recorded cancellation stays, and a terminal Turn is frozen.
\<close>

definition evolves :: "Turn \<Rightarrow> EventEnvelope list \<Rightarrow> Turn \<Rightarrow> EventEnvelope list \<Rightarrow> bool" where
  "evolves t es t' es' \<longleftrightarrow> same_identity t' t \<and> prefix es es'
     \<and> (t_Status t' = t_Status t \<or> status_rank (t_Status t) < status_rank (t_Status t'))
     \<and> (\<forall>c. t_CancelRequestedAt t = Some c \<longrightarrow> t_CancelRequestedAt t' = Some c)
     \<and> (TurnStatus_Terminal (t_Status t) \<longrightarrow> t' = t \<and> es' = es)"

lemma evolves_refl [simp]: "evolves t es t es"
  by (simp add: evolves_def)

lemma evolves_trans: "evolves t es u fs \<Longrightarrow> evolves u fs v gs \<Longrightarrow> evolves t es v gs"
  unfolding evolves_def by (auto intro: same_identity_trans)

lemma transitioned_sel [simp]:
  "t_Status (transitioned t to now) = to"
  "t_CancelRequestedAt (transitioned t to now) = t_CancelRequestedAt t"
  by (simp_all add: transitioned_def Let_def)

lemma transitioned_evolves:
  "CanTransition (t_Status t) to \<Longrightarrow> t_Status t \<noteq> to \<Longrightarrow> evolves t es (transitioned t to now) (es @ [e])"
  by (auto simp: evolves_def CanTransition_rank CanTransition_terminal)

lemma cancelled_evolves:
  "\<not> TurnStatus_Terminal (t_Status t) \<Longrightarrow> t_CancelRequestedAt t = None \<Longrightarrow>
   evolves t es (cancelled t now) (es @ [e])"
  by (auto simp: evolves_def)

abbreviation log_of :: "MemoryStore \<Rightarrow> TurnID \<Rightarrow> EventEnvelope list" where
  "log_of s i \<equiv> map_get [] (ms_events s) i"

lemma store_ok_new: "store_ok NewMemoryStore"
  by (simp add: store_ok_def NewMemoryStore_def)

lemma store_ok_admit:
  assumes ok: "store_ok s" and adm: "Admit ctx c d s = (Inr r, s')"
  shows "store_ok s'"
proof (cases "adm_Created r")
  case False
  with Admit_Inr(3) [OF adm] ok show ?thesis by simp
next
  case True
  with Admit_Inr(2) [OF adm] obtain first where
    new: "ms_byIdem s (admit_scope c) = None" "ms_turns s (t_ID c) = None"
    and b: "buildEvent c 1 d = Inr first"
    and s': "s' = s\<lparr>ms_turns := (ms_turns s)(t_ID c \<mapsto> c),
        ms_byIdem := (ms_byIdem s)(admit_scope c \<mapsto> t_ID c),
        ms_events := (ms_events s)(t_ID c \<mapsto> [first]),
        ms_lastSequence := (ms_lastSequence s)(t_ID c \<mapsto> 1)\<rparr>"
    by blast
  have "event_ok c 1 first" using buildEvent_Inr [OF b] by simp
  then have log: "log_ok c [first]" by (simp add: log_ok_def unat_MaxDurableSequence)
  have cok: "turn_ok s' (t_ID c) c"
    using Admit_Inr(1) [OF adm] log by (simp add: turn_ok_def s')
  have old: "turn_ok s' j u" if "ms_turns s j = Some u" "j \<noteq> t_ID c" for j u
  proof -
    from store_okD [OF ok that(1)] have "turn_ok s j u" .
    moreover from this new(1) have "admit_scope u \<noteq> admit_scope c" by (auto simp: turn_ok_def)
    ultimately show ?thesis using that(2) by (simp add: turn_ok_def s')
  qed
  have idx: "\<exists>u. ms_turns s' j = Some u \<and> admit_scope u = sc" if "ms_byIdem s' sc = Some j" for sc j
  proof (cases "sc = admit_scope c")
    case True
    with that show ?thesis by (simp add: s')
  next
    case False
    with that have "ms_byIdem s sc = Some j" by (simp add: s')
    with ok obtain u where u: "ms_turns s j = Some u" "admit_scope u = sc"
      unfolding store_ok_def by blast
    with new(2) have "j \<noteq> t_ID c" by auto
    with u show ?thesis by (simp add: s')
  qed
  show ?thesis unfolding store_ok_def
  proof (intro conjI allI impI)
    fix j u assume "ms_turns s' j = Some u"
    then show "turn_ok s' j u" using cok old by (cases "j = t_ID c") (auto simp: s')
  qed (rule idx)
qed

lemma store_ok_append:
  assumes ok: "store_ok s" and ap: "AppendEvent ctx i d s = (Inr e, s')"
  shows "store_ok s'"
proof -
  from AppendEvent_Inr [OF ap] obtain t where t: "ms_turns s i = Some t"
    and ev: "nextEventLocked s t d = Inr e" and s': "s' = append_event i e s" by blast
  have "Turn_Validate t = None" using store_okD [OF ok t] by (simp add: turn_ok_def)
  from store_ok_commit [OF ok t same_identity_refl this ev] t
  show ?thesis unfolding s' by (simp add: map_upd_triv)
qed

lemma store_ok_transition:
  assumes ok: "store_ok s" and tr: "Transition ctx i to now d s = (Inr r, s')"
  shows "store_ok s'"
proof (cases "tres_Changed r")
  case True
  with Transition_Inr [OF tr] ok show ?thesis
    by (auto intro: store_ok_commit [OF ok _ transitioned_same_identity])
next
  case False
  with Transition_Inr [OF tr] ok show ?thesis by auto
qed

lemma store_ok_cancel:
  assumes ok: "store_ok s" and ca: "RequestCancel ctx p th i now d s = (Inr r, s')"
  shows "store_ok s'"
proof (cases "cres_NewlyRequested r")
  case True
  with RequestCancel_Inr [OF ca] ok show ?thesis
    by (auto intro: store_ok_commit [OF ok _ cancelled_same_identity])
next
  case False
  with RequestCancel_Inr [OF ca] ok show ?thesis by auto
qed

lemma mem_step_store_ok: "mem_step s s' \<Longrightarrow> store_ok s \<Longrightarrow> store_ok s'"
proof (induction rule: mem_step.induct)
  case (admit ctx c d s r s')
  then show ?case by (cases r) (auto dest: op_Inl store_ok_admit)
next
  case (append ctx i d s r s')
  then show ?case by (cases r) (auto dest: op_Inl store_ok_append)
next
  case (transition ctx i to now d s r s')
  then show ?case by (cases r) (auto dest: op_Inl store_ok_transition)
next
  case (cancel ctx p th i now d s r s')
  then show ?case by (cases r) (auto dest: op_Inl store_ok_cancel)
qed

lemma mem_steps_store_ok: "mem_step\<^sup>*\<^sup>* s s' \<Longrightarrow> store_ok s \<Longrightarrow> store_ok s'"
  by (induction rule: rtranclp_induct) (auto dest: mem_step_store_ok)

text \<open>Every step lets every Turn evolve.\<close>

lemma mem_step_evolves:
  assumes "mem_step s s'" "store_ok s" "ms_turns s j = Some t"
  shows "\<exists>t'. ms_turns s' j = Some t' \<and> evolves t (log_of s j) t' (log_of s' j)"
  using assms
proof (induction rule: mem_step.induct)
  case (admit ctx c d s r s')
  show ?case
  proof (cases r)
    case (Inr a)
    with admit.hyps have a: "Admit ctx c d s = (Inr a, s')" by simp
    show ?thesis using Admit_Inr(2,3) [OF a] admit.prems by (cases "adm_Created a") auto
  qed (use admit in \<open>auto dest: op_Inl\<close>)
next
  case (append ctx i d s r s')
  show ?case
  proof (cases r)
    case (Inr a)
    with append.hyps have a: "AppendEvent ctx i d s = (Inr a, s')" by simp
    from AppendEvent_Inr [OF a] append.prems show ?thesis by (auto simp: evolves_def)
  qed (use append in \<open>auto dest: op_Inl\<close>)
next
  case (transition ctx i to now d s r s')
  show ?case
  proof (cases r)
    case (Inr a)
    with transition.hyps have a: "Transition ctx i to now d s = (Inr a, s')" by simp
    from Transition_Inr [OF a] transition.prems show ?thesis
      by (auto simp: transitioned_evolves split: if_splits)
  qed (use transition in \<open>auto dest: op_Inl\<close>)
next
  case (cancel ctx p th i now d s r s')
  show ?case
  proof (cases r)
    case (Inr a)
    with cancel.hyps have a: "RequestCancel ctx p th i now d s = (Inr a, s')" by simp
    from RequestCancel_Inr [OF a] cancel.prems show ?thesis
      by (auto simp: cancelled_evolves split: if_splits)
  qed (use cancel in \<open>auto dest: op_Inl\<close>)
qed

lemma mem_steps_evolves:
  assumes "mem_step\<^sup>*\<^sup>* s s'" "store_ok s" "ms_turns s j = Some t"
  shows "\<exists>t'. ms_turns s' j = Some t' \<and> evolves t (log_of s j) t' (log_of s' j)"
  using assms
proof (induction rule: rtranclp_induct)
  case base
  then show ?case by auto
next
  case (step u v)
  then obtain t' where t': "ms_turns u j = Some t'" "evolves t (log_of s j) t' (log_of u j)" by auto
  from step have "store_ok u" by (auto dest: mem_steps_store_ok)
  from mem_step_evolves [OF step.hyps(2) this t'(1)] t'(2) show ?case
    by (blast intro: evolves_trans)
qed

subsection \<open>Logs and replay\<close>

lemma log_ok_unat: "log_ok t es \<Longrightarrow> i < length es \<Longrightarrow> unat (ev_Sequence (es ! i)) = Suc i"
  unfolding log_ok_def event_ok_def by blast

lemma log_ok_sequence:
  assumes "log_ok t es" "i < length es"
  shows "ev_Sequence (es ! i) = of_nat (Suc i)"
proof -
  from assms have "unat (of_nat (Suc i) :: Sequence) = Suc i"
    by (intro word_of_length) (simp add: log_ok_def)
  then show ?thesis using log_ok_unat [OF assms] by (simp only: word_unat_eq_iff)
qed

lemma deterministicEventID_inject [simp]:
  "deterministicEventID i q = deterministicEventID i r \<longleftrightarrow> q = r"
  by (simp add: deterministicEventID_def word_unat_eq_iff)

text \<open>A log that satisfies the invariant passes the check of a replay consumer.\<close>

lemma log_ok_ValidateEventSequence:
  assumes "log_ok t es"
  shows "ValidateEventSequence es = None"
proof -
  have ev: "event_ok t (Suc i) (es ! i)" if "i < length es" for i
    using assms that by (simp add: log_ok_def)
  have "distinct (map ev_EventID es)"
  proof (clarsimp simp: distinct_conv_nth)
    fix i j assume ij: "i < length es" "j < length es" "i \<noteq> j"
    then show "ev_EventID (es ! i) = ev_EventID (es ! j) \<Longrightarrow> False"
      using ev [OF ij(1)] ev [OF ij(2)] by (auto simp: event_ok_def)
  qed
  moreover have "sorted_wrt (<) (map ev_Sequence es)"
    using ev by (auto simp: sorted_wrt_iff_nth_less word_less_nat_alt event_ok_def)
  moreover have "EventEnvelope_Validate e = None \<and> ev_TurnID e = t_ID t" if "e \<in> set es" for e
    using that ev by (auto simp: in_set_conv_nth event_ok_def)
  moreover have "hd es \<in> set es" using assms by (auto simp: log_ok_def)
  ultimately show ?thesis unfolding ValidateEventSequence_None_iff by auto
qed

lemma replay_page_eq:
  "int (length acc) \<le> limit \<Longrightarrow>
   replay_page after limit acc es =
     (let fs = filter (\<lambda>e. ev_Sequence e > after) es; n = nat limit - length acc
      in (acc @ take n fs, n < length fs))"
proof (induction es arbitrary: acc)
  case Nil
  then show ?case by simp
next
  case (Cons e es)
  show ?case
  proof (cases "ev_Sequence e > after \<and> int (length acc) \<noteq> limit")
    case True
    with Cons.prems have "int (length (acc @ [e])) \<le> limit" by simp
    from Cons.IH [OF this] True Cons.prems show ?thesis
      by (auto simp: Let_def take_Cons' nat_diff_distrib)
  next
    case False
    with Cons show ?thesis by (auto simp: Let_def)
  qed
qed

lemma filter_after_drop:
  assumes "log_ok t es"
  shows "filter (\<lambda>e. ev_Sequence e > a) es = drop (unat a) es"
proof -
  have gt: "ev_Sequence (es ! i) > a \<longleftrightarrow> unat a \<le> i" if "i < length es" for i
    using log_ok_unat [OF assms that] by (simp add: word_less_nat_alt less_Suc_eq_le)
  have "filter (\<lambda>e. ev_Sequence e > a) (take (unat a) es) = []"
    using gt by (auto simp: filter_empty_conv in_set_conv_nth)
  moreover have "filter (\<lambda>e. ev_Sequence e > a) (drop (unat a) es) = drop (unat a) es"
    using gt by (auto simp: filter_id_conv in_set_conv_nth)
  ultimately show ?thesis
    by (metis append_Nil append_take_drop_id filter_append)
qed

lemma replay_window_log_ok:
  assumes "log_ok t es"
  shows "replay_window es = \<lparr>rw_OldestSequence = 1, rw_LatestSequence = of_nat (length es)\<rparr>"
    and "\<not> ReplayWindow_Empty (replay_window es)"
proof -
  have ne: "es \<noteq> []" using assms by (simp add: log_ok_def)
  with log_ok_sequence [OF assms, of 0] log_ok_sequence [OF assms, of "length es - 1"]
  show "replay_window es = \<lparr>rw_OldestSequence = 1, rw_LatestSequence = of_nat (length es)\<rparr>"
    by (simp add: replay_window_def hd_conv_nth last_conv_nth)
  then show "\<not> ReplayWindow_Empty (replay_window es)"
    by (simp add: ReplayWindow_Empty_def)
qed

text \<open>
  Replay of an owned Turn: past the resolved cursor, at most \<open>Limit\<close> events in log order, and
  \<open>HasMore\<close> exactly when the log goes on; a cursor past the end is rejected, and
  the log has no gap.
\<close>

definition replay_result :: "Turn \<Rightarrow> EventEnvelope list \<Rightarrow> Sequence \<Rightarrow> int \<Rightarrow> ReplayRecord result" where
  "replay_result t es after limit =
     (if length es < unat after then Inl (Wrapf ''replay boundary'' ErrReplayCursorAhead)
      else Inr \<lparr>rr_Turn = t, rr_AfterSequence = after,
        rr_Window = \<lparr>rw_OldestSequence = 1, rw_LatestSequence = of_nat (length es)\<rparr>,
        rr_Events = take (nat limit) (drop (unat after) es),
        rr_HasMore = (unat after + nat limit < length es)\<rparr>)"

lemma Replay_owned:
  assumes ok: "store_ok s" and t: "owned_turn s p th i = Inr t"
    and q: "ReplayQuery_Validate q = None" and c: "contextError (ctx 0) = None"
    and a: "resolve_cursor (rq_Cursor q) (log_of s i) = Inr after"
  shows "Replay ctx p th i q s = replay_result t (log_of s i) after (rq_Limit q)"
proof -
  let ?es = "log_of s i"
  from t have "ms_turns s i = Some t" by simp
  from store_okD [OF ok this] have log: "log_ok t ?es" and le: "length ?es \<le> unat MaxDurableSequence"
    by (auto simp: turn_ok_def log_ok_def)
  from q have lim: "0 < rq_Limit q" by (simp add: ReplayQuery_Validate_def err_simps)
  have gap: "\<not> after < 1 - 1" by simp
  have page: "replay_page after (rq_Limit q) [] ?es =
      (take (nat (rq_Limit q)) (drop (unat after) ?es), nat (rq_Limit q) < length ?es - unat after)"
    using lim by (simp add: replay_page_eq filter_after_drop [OF log] Let_def)
  have un: "unat (of_nat (length ?es) :: Sequence) = length ?es" by (rule word_of_length [OF le])
  show ?thesis
    using replay_window_log_ok(2) [OF log]
    by (simp add: Replay_def replay_result_def c q t a gap page replay_window_log_ok(1) [OF log]
        word_less_nat_alt un Let_def del: owned_turn_Inr) linarith
qed

end
