(* ===== verification/Turn_Store.thy ===== *)
theory Turn_Store
  imports Memory_Store
begin

text \<open>
  The persistence boundary \<^verbatim>\<open>Store\<close> of \<^verbatim>\<open>server/service/agentturn/store.go\<close>. A Go
  interface value is a record of its methods over the state \<open>'s\<close> of the implementation;
  the capability \<^verbatim>\<open>TurnReservationAdmissionStore\<close>, which the service discovers by a type
  assertion, is an optional method (\<open>'a\<close> is the type of the request-scoped authority).

  The locale \<open>turn_store\<close> is the contract: what the comments of \<^verbatim>\<open>store.go\<close> ask of an
  implementation, over an invariant and the two observations a client has of a store, the
  durable row and the log of a Turn. The reference implementation is interpreted at the end.
\<close>

subsection \<open>The interface\<close>

record ('s, 'a) Store =
  so_Admit :: "go_context \<Rightarrow> Turn \<Rightarrow> EventDraft \<Rightarrow> 's \<Rightarrow> AdmissionRecord result \<times> 's"
  so_GetOwned :: "go_context \<Rightarrow> PrincipalID \<Rightarrow> ThreadID \<Rightarrow> TurnID \<Rightarrow> 's \<Rightarrow> Turn result"
  so_AppendEvent :: "go_context \<Rightarrow> TurnID \<Rightarrow> EventDraft \<Rightarrow> 's \<Rightarrow> EventEnvelope result \<times> 's"
  so_Transition :: "go_context \<Rightarrow> TurnID \<Rightarrow> TurnStatus \<Rightarrow> time \<Rightarrow> EventDraft \<Rightarrow> 's
    \<Rightarrow> TransitionResult result \<times> 's"
  so_RequestCancel :: "go_context \<Rightarrow> PrincipalID \<Rightarrow> ThreadID \<Rightarrow> TurnID \<Rightarrow> time \<Rightarrow> EventDraft \<Rightarrow> 's
    \<Rightarrow> CancelResult result \<times> 's"
  so_Replay :: "go_context \<Rightarrow> PrincipalID \<Rightarrow> ThreadID \<Rightarrow> TurnID \<Rightarrow> ReplayQuery \<Rightarrow> 's \<Rightarrow> ReplayRecord result"
  so_AdmitWithReservationAuthority ::
    "(go_context \<Rightarrow> Turn \<Rightarrow> EventDraft \<Rightarrow> 'a \<Rightarrow> 's \<Rightarrow> AdmissionRecord result \<times> 's) option"

text \<open>One call of a mutating method of a store.\<close>

inductive store_step :: "('s, 'a) Store \<Rightarrow> 's \<Rightarrow> 's \<Rightarrow> bool" for S where
  admit: "so_Admit S ctx c d s = (r, s') \<Longrightarrow> store_step S s s'"
| append: "so_AppendEvent S ctx i d s = (r, s') \<Longrightarrow> store_step S s s'"
| transition: "so_Transition S ctx i to now d s = (r, s') \<Longrightarrow> store_step S s s'"
| cancel: "so_RequestCancel S ctx p th i now d s = (r, s') \<Longrightarrow> store_step S s s'"

subsection \<open>The replay contract\<close>

text \<open>
  What an observer relies on: a page read after a sequence number is the events that follow it
  in the log, up to the limit, with the log's bounds. \<open>turn_at\<close> and \<open>log_at\<close> are the durable
  row and the log.
\<close>

locale replay_reader =
  fixes replay :: "go_context \<Rightarrow> PrincipalID \<Rightarrow> ThreadID \<Rightarrow> TurnID \<Rightarrow> ReplayQuery \<Rightarrow> 's \<Rightarrow> ReplayRecord result"
    and inv :: "'s \<Rightarrow> bool"
    and turn_at :: "'s \<Rightarrow> TurnID \<Rightarrow> Turn option"
    and log_at :: "'s \<Rightarrow> TurnID \<Rightarrow> EventEnvelope list"
  assumes replay_log_ok: "inv s \<Longrightarrow> turn_at s i = Some t \<Longrightarrow> log_ok t (log_at s i)"
    and replay_owned: "inv s \<Longrightarrow> turn_at s i = Some t \<Longrightarrow> t_PrincipalID t = p \<Longrightarrow> t_ThreadID t = th \<Longrightarrow>
      contextError (ctx 0) = None \<Longrightarrow> ReplayQuery_Validate q = None \<Longrightarrow>
      resolve_cursor (rq_Cursor q) (log_at s i) = Inr a \<Longrightarrow>
      replay ctx p th i q s = replay_result t (log_at s i) a (rq_Limit q)"
    and replay_foreign: "(\<And>t. turn_at s i = Some t \<Longrightarrow> t_PrincipalID t \<noteq> p \<or> t_ThreadID t \<noteq> th) \<Longrightarrow>
      contextError (ctx 0) = None \<Longrightarrow> ReplayQuery_Validate q = None \<Longrightarrow>
      replay ctx p th i q s = Inl ErrTurnNotFound"
    and replay_context: "contextError (ctx 0) = Some e \<Longrightarrow> replay ctx p th i q s = Inl e"
    and replay_rejects: "ReplayQuery_Validate q \<noteq> None \<or> (\<exists>e. resolve_cursor (rq_Cursor q) (log_at s i) = Inl e) \<Longrightarrow>
      \<exists>e. replay ctx p th i q s = Inl e"
begin

text \<open>A page that was returned is the exact page of an owned Turn.\<close>

lemma replay_Inr:
  assumes "inv s" "replay ctx p th i q s = Inr r"
  shows "\<exists>t a. turn_at s i = Some t \<and> t_PrincipalID t = p \<and> t_ThreadID t = th \<and> ReplayQuery_Validate q = None
    \<and> replay_result t (log_at s i) a (rq_Limit q) = Inr r"
proof -
  have live: "contextError (ctx 0) = None" using replay_context [of ctx _ p th i q s] assms(2) by (cases "contextError (ctx 0)") auto
  have q: "ReplayQuery_Validate q = None" and "\<not> (\<exists>e. resolve_cursor (rq_Cursor q) (log_at s i) = Inl e)"
    using replay_rejects [of q s i ctx p th] assms(2) by (metis sum.distinct(1))+
  then obtain a where a: "resolve_cursor (rq_Cursor q) (log_at s i) = Inr a"
    by (cases "resolve_cursor (rq_Cursor q) (log_at s i)") auto
  obtain t where t: "turn_at s i = Some t" "t_PrincipalID t = p" "t_ThreadID t = th"
    using replay_foreign [of s i p th ctx q] live q assms(2) by (metis sum.distinct(1))
  from replay_owned [where ctx = ctx, OF assms(1) t live q a] assms(2) t q show ?thesis by auto
qed

end

subsection \<open>The store contract\<close>

locale turn_store = replay_reader "so_Replay S" inv turn_at log_at
  for S :: "('s, 'a) Store" and inv :: "'s \<Rightarrow> bool"
    and turn_at :: "'s \<Rightarrow> TurnID \<Rightarrow> Turn option" and log_at :: "'s \<Rightarrow> TurnID \<Rightarrow> EventEnvelope list" +
  assumes step_inv: "store_step S s s' \<Longrightarrow> inv s \<Longrightarrow> inv s'"
    and step_evolves: "store_step S s s' \<Longrightarrow> inv s \<Longrightarrow> turn_at s i = Some t \<Longrightarrow>
      \<exists>t'. turn_at s' i = Some t' \<and> evolves t (log_at s i) t' (log_at s' i)"
    and turn_at_id: "inv s \<Longrightarrow> turn_at s i = Some t \<Longrightarrow> t_ID t = i \<and> Turn_Validate t = None"
    and owned: "so_GetOwned S ctx p th i s = Inr t \<Longrightarrow>
      turn_at s i = Some t \<and> t_PrincipalID t = p \<and> t_ThreadID t = th"
    and admit_known: "inv s \<Longrightarrow> turn_at s i = Some t \<Longrightarrow> admit_scope c = admit_scope t \<Longrightarrow>
      contextError (ctx 0) = None \<Longrightarrow> contextError (ctx 1) = None \<Longrightarrow>
      Turn_Validate c = None \<Longrightarrow> fresh_lifecycle c \<Longrightarrow> EventDraft_Validate d = None \<Longrightarrow>
      so_Admit S ctx c d s =
        (if t_CommandDigest t = t_CommandDigest c then (Inr \<lparr>adm_Turn = t, adm_Created = False\<rparr>, s)
         else (Inl (Wrapf ''admit'' ErrIdempotencyConflict), s))"
    and admit_new: "inv s \<Longrightarrow> (\<And>i t. turn_at s i = Some t \<Longrightarrow> admit_scope t \<noteq> admit_scope c) \<Longrightarrow>
      contextError (ctx 0) = None \<Longrightarrow> contextError (ctx 1) = None \<Longrightarrow>
      Turn_Validate c = None \<Longrightarrow> fresh_lifecycle c \<Longrightarrow> EventDraft_Validate d = None \<Longrightarrow>
      turn_at s (t_ID c) = None \<Longrightarrow>
      \<exists>s' e. so_Admit S ctx c d s = (Inr \<lparr>adm_Turn = c, adm_Created = True\<rparr>, s')
        \<and> turn_at s' (t_ID c) = Some c \<and> log_at s' (t_ID c) = [e]
        \<and> ev_Sequence e = 1 \<and> ev_Type e = ed_Type d \<and> ev_Data e = ed_Data d"
    and admit_stored: "inv s \<Longrightarrow> so_Admit S ctx c d s = (Inr r, s') \<Longrightarrow>
      turn_at s' (t_ID (adm_Turn r)) = Some (adm_Turn r) \<and> admit_scope (adm_Turn r) = admit_scope c
      \<and> t_CommandDigest (adm_Turn r) = t_CommandDigest c"
    and cancel_result: "so_RequestCancel S ctx p th i now d s = (Inr cr, s') \<Longrightarrow>
      \<exists>t. turn_at s i = Some t \<and> turn_at s' i = Some (cres_Turn cr) \<and> t_Status (cres_Turn cr) = t_Status t
        \<and> t_PrincipalID t = p \<and> t_ThreadID t = th
        \<and> (TurnStatus_Terminal (t_Status t) \<or> t_CancelRequestedAt (cres_Turn cr) \<noteq> None)"
    and transition_result: "so_Transition S ctx i to now d s = (Inr tr, s') \<Longrightarrow>
      turn_at s' i = Some (tres_Turn tr) \<and> t_Status (tres_Turn tr) = to"
begin

lemma steps_inv: "(store_step S)\<^sup>*\<^sup>* s s' \<Longrightarrow> inv s \<Longrightarrow> inv s'"
  by (induction rule: rtranclp_induct) (auto intro: step_inv)

lemma steps_evolve:
  assumes "(store_step S)\<^sup>*\<^sup>* s s'" "inv s" "turn_at s i = Some t"
  shows "\<exists>t'. turn_at s' i = Some t' \<and> evolves t (log_at s i) t' (log_at s' i)"
  using assms(1)
proof (induction rule: rtranclp_induct)
  case base
  then show ?case using assms(3) by simp
next
  case (step u v)
  then obtain t' where t': "turn_at u i = Some t'" "evolves t (log_at s i) t' (log_at u i)" by auto
  from step_evolves [OF step.hyps(2) steps_inv [OF step.hyps(1) assms(2)] t'(1)] t'(2)
  show ?case by (auto intro: evolves_trans)
qed

text \<open>Ownership and the durable identity of a Turn never change, and terminal rows are final.\<close>

lemma steps_identity:
  assumes "(store_step S)\<^sup>*\<^sup>* s s'" "inv s" "turn_at s i = Some t"
  shows "\<exists>t'. turn_at s' i = Some t' \<and> same_identity t' t \<and> prefix (log_at s i) (log_at s' i)
    \<and> (TurnStatus_Terminal (t_Status t) \<longrightarrow> t' = t)"
  using steps_evolve [OF assms] by (auto simp: evolves_def)

end

subsection \<open>The reference implementation provides the contract\<close>

definition MemoryStore_methods :: "(MemoryStore, 'a) Store" where
  "MemoryStore_methods = \<lparr>so_Admit = Admit, so_GetOwned = GetOwned, so_AppendEvent = AppendEvent,
     so_Transition = Transition, so_RequestCancel = RequestCancel, so_Replay = Replay,
     so_AdmitWithReservationAuthority = None\<rparr>"

lemma MemoryStore_methods_sel [simp]:
  "so_Admit MemoryStore_methods = Admit" "so_GetOwned MemoryStore_methods = GetOwned"
  "so_AppendEvent MemoryStore_methods = AppendEvent" "so_Transition MemoryStore_methods = Transition"
  "so_RequestCancel MemoryStore_methods = RequestCancel" "so_Replay MemoryStore_methods = Replay"
  "so_AdmitWithReservationAuthority MemoryStore_methods = None"
  by (simp_all add: MemoryStore_methods_def)

lemma store_step_memory: "store_step MemoryStore_methods s s' \<longleftrightarrow> mem_step s s'"
  by (auto elim!: store_step.cases mem_step.cases intro: store_step.intros mem_step.intros)

lemma store_ok_index:
  "store_ok s \<Longrightarrow> ms_byIdem s sc = Some i \<Longrightarrow> \<exists>t. ms_turns s i = Some t \<and> admit_scope t = sc"
  unfolding store_ok_def by (cases sc) blast

lemma visible_event_suffix: "list_all visible_char ('':'' @ print_nat n)"
  using print_nat_digits [of n] by (auto simp: list_all_iff visible_char_def is_digit_def)

lemma buildEvent_valid:
  assumes "Turn_Validate c = None" "EventDraft_Validate d = None" "q \<noteq> 0" "q \<le> MaxDurableSequence"
  shows "\<exists>e. buildEvent c q d = Inr e"
proof -
  let ?e = "\<lparr>ev_SchemaVersion = EventEnvelopeSchemaVersion, ev_FrameKind = EventFrameEvent,
    ev_EventID = deterministicEventID (t_ID c) q, ev_TurnID = t_ID c, ev_Sequence = q, ev_Plugin = t_Plugin c,
    ev_Type = ed_Type d, ev_Visibility = EventVisibilityUser, ev_ResourceRefs = ed_ResourceRefs d,
    ev_Data = ed_Data d\<rparr>"
  have id: "TrimSpace (t_ID c) = t_ID c" "t_ID c \<noteq> []"
    using assms(1) by (auto simp: Turn_Validate_def err_simps dest: validatePathSegment_imp_text)
  then have "TrimSpace (deterministicEventID (t_ID c) q) = deterministicEventID (t_ID c) q"
    unfolding deterministicEventID_def by (intro TrimSpace_append_visible visible_event_suffix) auto
  moreover have "deterministicEventID (t_ID c) q \<noteq> []" by (simp add: deterministicEventID_def)
  moreover have "EventPluginRef_Validate (t_Plugin c) = None"
    using assms(1) by (simp add: Turn_Validate_def err_simps)
  ultimately have "EventEnvelope_Validate ?e = None"
    using assms(2,3) id
    by (simp only: EventEnvelope_Validate_def EventDraft_Validate_def err_simps list.set set_append set_map
        ball_simps ball_Un EventEnvelope.select_convs simp_thms) blast
  then show ?thesis using assms(3,4) by (auto simp: buildEvent_def Let_def)
qed

lemma nextEventLocked_valid:
  assumes "turn_ok s i t" "same_identity t' t" "Turn_Validate t' = None" "EventDraft_Validate d = None"
    and "length (log_of s i) < unat MaxDurableSequence"
  shows "\<exists>e. nextEventLocked s t' d = Inr e"
proof -
  let ?n = "map_get 0 (ms_lastSequence s) i"
  have id: "t_ID t' = i" using assms(1,2) by (simp add: turn_ok_def same_identity_def)
  note last = turn_ok_latest(2,3) [OF assms(1)]
  then have lt: "?n < MaxDurableSequence" using assms(5) by (simp add: word_less_nat_alt)
  then have "unat (?n + 1) = Suc (unat ?n)" by (simp add: unat_plus_1_less)
  with lt have "?n + 1 \<noteq> 0" "?n + 1 \<le> MaxDurableSequence"
    by (auto simp: word_le_nat_alt word_less_nat_alt unat_eq_zero [symmetric])
  from buildEvent_valid [OF assms(3,4) this] last(2) lt show ?thesis
    by (auto simp: nextEventLocked_def Let_def id)
qed

lemma open_status_cases:
  "Turn_Validate t = None \<Longrightarrow> \<not> TurnStatus_Terminal (t_Status t) \<Longrightarrow>
   t_Status t = TurnStatusQueued \<or> t_Status t = TurnStatusRunning"
  by (cases "t_Status t") (auto simp: Turn_Validate_def err_simps)

lemma transitioned_valid:
  assumes "Turn_Validate t = None" "CanTransition (t_Status t) to" "t_Status t \<noteq> to" "t_UpdatedAt t \<le> now" "now \<noteq> 0"
    and "to = TurnStatusStopped \<Longrightarrow> t_CancelRequestedAt t \<noteq> None"
  shows "Turn_Validate (transitioned t to now) = None"
proof -
  have nt: "\<not> TurnStatus_Terminal (t_Status t)" "TurnStatus_Valid to" "to \<noteq> TurnStatusQueued"
    using assms(2,3) CanTransition_terminal by (auto simp: CanTransition_iff)
  show ?thesis
    using assms nt
    by (auto simp: Turn_Validate_def transitioned_def Let_def err_simps before_opt_def after_opt_def IsZero_def
        split: option.splits if_splits)
qed

text \<open>A permitted transition succeeds when the clock is not behind the row and the log has room.\<close>

lemma Transition_succeeds:
  assumes ok: "store_ok s" and t: "ms_turns s i = Some t"
    and can: "CanTransition (t_Status t) to" "t_Status t \<noteq> to"
    and stop: "to = TurnStatusStopped \<Longrightarrow> t_CancelRequestedAt t \<noteq> None"
    and now: "t_UpdatedAt t \<le> now" "now \<noteq> 0" and d: "EventDraft_Validate d = None"
    and room: "length (log_of s i) < unat MaxDurableSequence"
    and live: "contextError (ctx 0) = None" "contextError (ctx 1) = None"
  shows "\<exists>r s'. Transition ctx i to now d s = (Inr r, s') \<and> tres_Changed r"
proof -
  note tok = store_okD [OF ok t]
  then have val: "Turn_Validate t = None" by (simp add: turn_ok_def)
  have next_val: "Turn_Validate (transitioned t to now) = None"
    by (rule transitioned_valid [OF val can now stop])
  obtain e where e: "nextEventLocked s (transitioned t to now) d = Inr e"
    using nextEventLocked_valid [OF tok transitioned_same_identity next_val d room] by blast
  with now(2) live d can stop e next_val t show ?thesis
    by (auto simp: Transition_def reject_def bind_result_def fail_if_def IsZero_def wrap_error_def Let_def)
qed

lemma cancelled_valid:
  assumes "Turn_Validate t = None" "\<not> TurnStatus_Terminal (t_Status t)" "t_UpdatedAt t \<le> now" "now \<noteq> 0"
  shows "Turn_Validate (cancelled t now) = None"
  using assms
  by (auto simp: Turn_Validate_def err_simps before_opt_def after_opt_def IsZero_def split: option.splits)

lemma RequestCancel_succeeds:
  assumes ok: "store_ok s" and t: "ms_turns s i = Some t"
    and now: "t_UpdatedAt t \<le> now" "now \<noteq> 0" and d: "EventDraft_Validate d = None"
    and room: "length (log_of s i) < unat MaxDurableSequence"
    and live: "contextError (ctx 0) = None" "contextError (ctx 1) = None"
  shows "\<exists>r s'. RequestCancel ctx (t_PrincipalID t) (t_ThreadID t) i now d s = (Inr r, s')
    \<and> t_UpdatedAt (cres_Turn r) \<le> now \<and> length (log_of s' i) \<le> Suc (length (log_of s i))
    \<and> t_Status (cres_Turn r) = t_Status t"
proof (cases "TurnStatus_Terminal (t_Status t) \<or> t_CancelRequestedAt t \<noteq> None")
  case True
  with live d now t show ?thesis
    by (auto simp: RequestCancel_def reject_def bind_result_def fail_if_def IsZero_def owned_turn_def)
next
  case False
  note tok = store_okD [OF ok t]
  then have "Turn_Validate t = None" by (simp add: turn_ok_def)
  with False now have next_val: "Turn_Validate (cancelled t now) = None" by (simp add: cancelled_valid)
  obtain e where e: "nextEventLocked s (cancelled t now) d = Inr e"
    using nextEventLocked_valid [OF tok cancelled_same_identity next_val d room] by blast
  with live d now t False next_val show ?thesis
    by (auto simp: RequestCancel_def reject_def bind_result_def fail_if_def IsZero_def owned_turn_def Let_def)
qed

lemma memory_admit_new:
  assumes ok: "store_ok s" and new: "\<And>i t. ms_turns s i = Some t \<Longrightarrow> admit_scope t \<noteq> admit_scope c"
    and "contextError (ctx 0) = None" "contextError (ctx 1) = None"
    and v: "Turn_Validate c = None" "fresh_lifecycle c" and d: "EventDraft_Validate d = None"
    and id: "ms_turns s (t_ID c) = None"
  shows "\<exists>s' e. Admit ctx c d s = (Inr \<lparr>adm_Turn = c, adm_Created = True\<rparr>, s')
    \<and> ms_turns s' (t_ID c) = Some c \<and> log_of s' (t_ID c) = [e]
    \<and> ev_Sequence e = 1 \<and> ev_Type e = ed_Type d \<and> ev_Data e = ed_Data d"
proof -
  have "ms_byIdem s (admit_scope c) = None"
    using store_ok_index [OF ok] new by (metis not_None_eq)
  moreover obtain e where e: "buildEvent c 1 d = Inr e" using buildEvent_valid [OF v(1) d, of 1]
    by (auto simp: MaxDurableSequence_def)
  ultimately show ?thesis
    using assms buildEvent_Inr [OF e] by (auto simp: Admit_def reject_def bind_result_def err_simps)
qed

lemma memory_admit_known:
  assumes "store_ok s" "ms_turns s i = Some t" "admit_scope c = admit_scope t"
    and "contextError (ctx 0) = None" "contextError (ctx 1) = None"
    and "Turn_Validate c = None" "fresh_lifecycle c" "EventDraft_Validate d = None"
  shows "Admit ctx c d s =
    (if t_CommandDigest t = t_CommandDigest c then (Inr \<lparr>adm_Turn = t, adm_Created = False\<rparr>, s)
     else (Inl (Wrapf ''admit'' ErrIdempotencyConflict), s))"
  using assms store_okD [OF assms(1,2)]
  by (simp add: Admit_def reject_def err_simps turn_ok_def map_get_def Let_def)

lemma memory_admit_stored:
  assumes ok: "store_ok s" and adm: "Admit ctx c d s = (Inr r, s')"
  shows "ms_turns s' (t_ID (adm_Turn r)) = Some (adm_Turn r) \<and> admit_scope (adm_Turn r) = admit_scope c
    \<and> t_CommandDigest (adm_Turn r) = t_CommandDigest c"
proof (cases "adm_Created r")
  case True
  with Admit_Inr(2) [OF adm] show ?thesis by auto
next
  case False
  then obtain i where i: "s' = s" "ms_byIdem s (admit_scope c) = Some i"
    "adm_Turn r = map_get zero_Turn (ms_turns s) i" "t_CommandDigest (adm_Turn r) = t_CommandDigest c"
    using Admit_Inr(3) [OF adm] by auto
  moreover from store_ok_index [OF ok i(2)] obtain u
    where "ms_turns s i = Some u" "admit_scope u = admit_scope c" by blast
  moreover from store_okD [OF ok this(1)] have "t_ID u = i" by (simp add: turn_ok_def)
  ultimately show ?thesis by (simp add: map_get_def)
qed

interpretation memory: turn_store MemoryStore_methods store_ok ms_turns log_of
proof (unfold_locales, unfold MemoryStore_methods_sel store_step_memory)
  fix s i t assume "store_ok s" "ms_turns s i = Some t"
  from store_okD [OF this] show "log_ok t (log_of s i)" "t_ID t = i \<and> Turn_Validate t = None"
    by (auto simp: turn_ok_def)
next
  fix s :: MemoryStore and i p th and ctx :: go_context and q
  assume "\<And>t. ms_turns s i = Some t \<Longrightarrow> t_PrincipalID t \<noteq> p \<or> t_ThreadID t \<noteq> th"
    "contextError (ctx 0) = None" "ReplayQuery_Validate q = None"
  then show "Replay ctx p th i q s = Inl ErrTurnNotFound"
    by (auto simp: Replay_def owned_turn_def split: option.split)
next
  fix ctx :: go_context and e p th i q and s :: MemoryStore
  assume "contextError (ctx 0) = Some e"
  then show "Replay ctx p th i q s = Inl e" by (simp add: Replay_def)
next
  fix ctx :: go_context and p th i q and s :: MemoryStore
  assume "ReplayQuery_Validate q \<noteq> None \<or> (\<exists>e. resolve_cursor (rq_Cursor q) (log_of s i) = Inl e)"
  then show "\<exists>e. Replay ctx p th i q s = Inl e"
  proof
    assume "ReplayQuery_Validate q \<noteq> None"
    then have "first_error [contextError (ctx 0), ReplayQuery_Validate q] \<noteq> None"
      by (simp add: first_error_None_iff)
    then show ?thesis by (auto simp: Replay_def simp del: first_error.simps)
  next
    assume "\<exists>e. resolve_cursor (rq_Cursor q) (log_of s i) = Inl e"
    then show ?thesis by (auto simp: Replay_def Let_def split: option.split sum.split)
  qed
next
  fix ctx p th i now d s cr s'
  assume "RequestCancel ctx p th i now d s = (Inr cr, s')"
  from RequestCancel_Inr [OF this] show "\<exists>t. ms_turns s i = Some t \<and> ms_turns s' i = Some (cres_Turn cr)
      \<and> t_Status (cres_Turn cr) = t_Status t \<and> t_PrincipalID t = p \<and> t_ThreadID t = th
      \<and> (TurnStatus_Terminal (t_Status t) \<or> t_CancelRequestedAt (cres_Turn cr) \<noteq> None)"
    by (auto split: if_splits)
next
  fix ctx i to now d s tr s'
  assume "Transition ctx i to now d s = (Inr tr, s')"
  from Transition_Inr [OF this] show "ms_turns s' i = Some (tres_Turn tr) \<and> t_Status (tres_Turn tr) = to"
    by (auto split: if_splits)
next
  fix s :: MemoryStore and c d and ctx :: go_context
  assume "store_ok s" "\<And>i t. ms_turns s i = Some t \<Longrightarrow> admit_scope t \<noteq> admit_scope c"
    "contextError (ctx 0) = None" "contextError (ctx 1) = None" "Turn_Validate c = None" "fresh_lifecycle c"
    "EventDraft_Validate d = None" "ms_turns s (t_ID c) = None"
  from memory_admit_new [OF this]
  show "\<exists>s' e. Admit ctx c d s = (Inr \<lparr>adm_Turn = c, adm_Created = True\<rparr>, s')
    \<and> ms_turns s' (t_ID c) = Some c \<and> log_of s' (t_ID c) = [e]
    \<and> ev_Sequence e = 1 \<and> ev_Type e = ed_Type d \<and> ev_Data e = ed_Data d" .
qed (rule memory_admit_known memory_admit_stored mem_step_store_ok mem_step_evolves; assumption
    | (auto simp: GetOwned_def intro: Replay_owned split: option.splits) [1])+

subsection \<open>Properties of the reference store\<close>

definition sample_turn :: Turn where
  "sample_turn = zero_Turn\<lparr>t_ID := ''turn-1'', t_PrincipalID := ''alice'', t_ThreadID := ''thread-1'',
     t_IdempotencyKey := ''key-1'', t_CommandDigest := ''sha256:0'',
     t_Plugin := \<lparr>pr_ID = ''p'', pr_Version = ''1'', pr_ReleaseDigest = ''d''\<rparr>, t_Status := TurnStatusQueued,
     t_CreatedAt := 10, t_UpdatedAt := 10\<rparr>"

definition sample_draft :: EventDraft where
  "sample_draft = \<lparr>ed_Type = ''demo.note'', ed_ResourceRefs = [], ed_Data = ''{}''\<rparr>"

definition sample_store :: MemoryStore where
  "sample_store = snd (Admit live_ctx sample_turn sample_draft NewMemoryStore)"

lemma sample_admitted:
  "Turn_Validate sample_turn = None" "fresh_lifecycle sample_turn" "EventDraft_Validate sample_draft = None"
proof -
  show "Turn_Validate sample_turn = None" "fresh_lifecycle sample_turn" by code_simp+
  have "validateBoundedText ''event type'' (ed_Type sample_draft) MaxEventTypeBytes = None"
    "json_Valid (ed_Data sample_draft)" by code_simp+
  then show "EventDraft_Validate sample_draft = None"
    by (simp add: EventDraft_Validate_def fail_if_def sample_draft_def)
qed

lemma sample_store_turn:
  "mem_step NewMemoryStore sample_store" "ms_turns sample_store ''turn-1'' = Some sample_turn"
  "length (log_of sample_store ''turn-1'') = 1"
proof -
  have "t_ID sample_turn = ''turn-1''" by (simp add: sample_turn_def)
  with memory_admit_new [OF store_ok_new _ _ _ sample_admitted, of live_ctx]
  obtain s' e where a: "Admit live_ctx sample_turn sample_draft NewMemoryStore =
      (Inr \<lparr>adm_Turn = sample_turn, adm_Created = True\<rparr>, s')"
    "ms_turns s' ''turn-1'' = Some sample_turn" "log_of s' ''turn-1'' = [e]"
    by (auto simp: NewMemoryStore_def live_ctx_def)
  then have "sample_store = s'" by (simp add: sample_store_def)
  with a show "mem_step NewMemoryStore sample_store" "ms_turns sample_store ''turn-1'' = Some sample_turn"
    "length (log_of sample_store ''turn-1'') = 1"
    by (auto intro: mem_step.intros)
qed

lemma sample_store_ok: "store_ok sample_store"
  by (rule mem_step_store_ok [OF sample_store_turn(1) store_ok_new])

lemma find_event_by_id:
  assumes "log_ok t es" "n < length es"
  shows "find (\<lambda>e. ev_EventID e = deterministicEventID (t_ID t) (of_nat (Suc n))) es = Some (es ! n)"
proof -
  have id: "ev_EventID (es ! k) = deterministicEventID (t_ID t) (of_nat (Suc k))" if "k < length es" for k
    using assms(1) that log_ok_sequence [OF assms(1) that] by (auto simp: log_ok_def event_ok_def)
  moreover have "(of_nat (Suc k) :: Sequence) \<noteq> of_nat (Suc n)" if "k < n" for k
    using that log_ok_unat [OF assms(1)] log_ok_sequence [OF assms(1)] assms(2)
    by (metis Suc_inject less_irrefl_nat less_trans)
  ultimately show ?thesis
    using assms(2) unfolding find_Some_iff by (intro exI [of _ n]) (auto simp del: of_nat_Suc)
qed

text \<open>
  C1. Every state the reference store reaches by any sequence of calls, failed ones
  included, is well formed: rows are valid and stored under their own id, the idempotency
  index and the rows agree, and every log is non-empty, contiguous from 1 and ends at the
  recorded last sequence.
\<close>

theorem memory_store_invariant:
  assumes "mem_step\<^sup>*\<^sup>* NewMemoryStore s"
  shows "store_ok s"
  using mem_steps_store_ok [OF assms store_ok_new] .

theorem memory_store_invariant_witness: "store_ok sample_store"
  by (rule memory_store_invariant) (rule r_into_rtranclp [where r = mem_step, OF sample_store_turn(1)])

text \<open>
  C2. Histories only grow: after any further calls a Turn is still there with the same identity
  (id, owner, thread, idempotency key, digest, plugin, creation time), its log extends
  the earlier log, its status only moves forward, a recorded cancellation intent stays, and a
  terminal Turn and its log never change again.
\<close>

theorem turn_history_final:
  assumes "mem_step\<^sup>*\<^sup>* s s'" "store_ok s" "ms_turns s i = Some t"
  shows "\<exists>t'. ms_turns s' i = Some t' \<and> same_identity t' t \<and> prefix (log_of s i) (log_of s' i)
    \<and> (t_Status t' = t_Status t \<or> status_rank (t_Status t) < status_rank (t_Status t'))
    \<and> (t_CancelRequestedAt t \<noteq> None \<longrightarrow> t_CancelRequestedAt t' = t_CancelRequestedAt t)
    \<and> (TurnStatus_Terminal (t_Status t) \<longrightarrow> t' = t \<and> log_of s' i = log_of s i)"
  using mem_steps_evolves [OF assms] by (auto simp: evolves_def)

theorem turn_history_final_witness:
  "\<exists>e s' t'. AppendEvent live_ctx ''turn-1'' sample_draft sample_store = (Inr e, s') \<and> log_of s' ''turn-1'' = log_of sample_store ''turn-1'' @ [e]
    \<and> ms_turns s' ''turn-1'' = Some t' \<and> same_identity t' sample_turn
    \<and> prefix (log_of sample_store ''turn-1'') (log_of s' ''turn-1'')"
proof -
  have last: "map_get 0 (ms_lastSequence sample_store) ''turn-1'' = 1"
    using store_okD [OF sample_store_ok sample_store_turn(2)] sample_store_turn(3) by (simp add: turn_ok_def map_get_def)
  obtain e where "buildEvent sample_turn 2 sample_draft = Inr e"
    using buildEvent_valid [OF sample_admitted(1,3), of 2] by (auto simp: MaxDurableSequence_def)
  moreover have "t_ID sample_turn = ''turn-1''" by (simp add: sample_turn_def)
  moreover have "\<not> (1 :: Sequence) \<ge> MaxDurableSequence" by code_simp
  ultimately have "nextEventLocked sample_store sample_turn sample_draft = Inr e"
    using last by (simp add: nextEventLocked_def Let_def)
  moreover have "\<not> TurnStatus_Terminal (t_Status sample_turn)" by code_simp
  ultimately have run: "AppendEvent live_ctx ''turn-1'' sample_draft sample_store = (Inr e, append_event ''turn-1'' e sample_store)"
    using sample_store_turn(2) sample_admitted(3) by (simp add: AppendEvent_def live_ctx_def)
  from turn_history_final [OF r_into_rtranclp [of mem_step, OF mem_step.append [OF run]] sample_store_ok sample_store_turn(2)]
  show ?thesis using run by (auto simp: append_event_def map_get_def)
qed

text \<open>
  C3. Every log of a reachable store is accepted by the contract's own check of an event
  sequence, and its \<open>n\<close>-th event carries sequence number \<open>n\<close> and the event id derived from it.
\<close>

theorem logs_satisfy_contract:
  assumes "mem_step\<^sup>*\<^sup>* NewMemoryStore s" "ms_turns s i = Some t"
  shows "ValidateEventSequence (log_of s i) = None
    \<and> map ev_Sequence (log_of s i) = map of_nat [1..<Suc (length (log_of s i))]
    \<and> map ev_EventID (log_of s i) = map (\<lambda>n. deterministicEventID i (of_nat n)) [1..<Suc (length (log_of s i))]"
proof -
  let ?es = "log_of s i"
  from store_okD [OF mem_steps_store_ok [OF assms(1) store_ok_new] assms(2)]
  have log: "log_ok t ?es" and id: "t_ID t = i" by (auto simp: turn_ok_def)
  have "map ev_Sequence ?es = map of_nat [1..<Suc (length ?es)]"
    by (rule nth_equalityI) (simp_all add: log_ok_sequence [OF log] del: upt_Suc)
  moreover have "ev_EventID (?es ! n) = deterministicEventID i (of_nat (Suc n))" if "n < length ?es" for n
    using log that log_ok_sequence [OF log that] id by (auto simp: log_ok_def event_ok_def)
  then have "map ev_EventID ?es = map (\<lambda>n. deterministicEventID i (of_nat n)) [1..<Suc (length ?es)]"
    by (intro nth_equalityI) (simp_all del: upt_Suc)
  ultimately show ?thesis using log_ok_ValidateEventSequence [OF log] by simp
qed

theorem logs_satisfy_contract_witness:
  "ValidateEventSequence (log_of sample_store ''turn-1'') = None
    \<and> map ev_Sequence (log_of sample_store ''turn-1'')
      = map of_nat [1..<Suc (length (log_of sample_store ''turn-1''))]
    \<and> map ev_EventID (log_of sample_store ''turn-1'')
      = map (\<lambda>n. deterministicEventID ''turn-1'' (of_nat n)) [1..<Suc (length (log_of sample_store ''turn-1''))]"
  by (rule logs_satisfy_contract [OF r_into_rtranclp [where r = mem_step, OF sample_store_turn(1)] sample_store_turn(2)])

text \<open>
  C4. Replay of an owned Turn is exact: after the sequence number \<open>a\<close> it returns the next
  \<open>Limit\<close> events of the log in order with the log's bounds and \<open>HasMore\<close> exactly when events
  remain, refuses a cursor past the end, and the event id of the \<open>n\<close>-th event
  as a cursor means the same as the number \<open>n\<close>.
\<close>

theorem replay_exact:
  assumes "store_ok s" "ms_turns s i = Some t" "contextError (ctx 0) = None"
    and "0 < limit" "limit \<le> 1000" "unat a \<le> length (log_of s i) \<or> a \<le> MaxDurableSequence"
  shows "Replay ctx (t_PrincipalID t) (t_ThreadID t) i
      \<lparr>rq_Cursor = \<lparr>rc_LastEventID = [], rc_AfterSequence = Some a\<rparr>, rq_Limit = limit\<rparr> s
    = (if length (log_of s i) < unat a then Inl (Wrapf ''replay boundary'' ErrReplayCursorAhead)
       else Inr \<lparr>rr_Turn = t, rr_AfterSequence = a,
         rr_Window = \<lparr>rw_OldestSequence = 1, rw_LatestSequence = of_nat (length (log_of s i))\<rparr>,
         rr_Events = take (nat limit) (drop (unat a) (log_of s i)),
         rr_HasMore = (unat a + nat limit < length (log_of s i))\<rparr>)
    \<and> (\<forall>n < length (log_of s i). resolve_cursor
         \<lparr>rc_LastEventID = deterministicEventID i (of_nat (Suc n)), rc_AfterSequence = None\<rparr> (log_of s i)
         = Inr (of_nat (Suc n)))"
proof (intro conjI allI impI)
  let ?es = "log_of s i"
  let ?q = "\<lparr>rq_Cursor = \<lparr>rc_LastEventID = [], rc_AfterSequence = Some a\<rparr>, rq_Limit = limit\<rparr>"
  from store_okD [OF assms(1,2)] have log: "log_ok t ?es" and id: "t_ID t = i" by (auto simp: turn_ok_def)
  have "length ?es \<le> unat MaxDurableSequence" using log by (simp add: log_ok_def)
  with assms(6) have "a \<le> MaxDurableSequence" by (auto simp: word_le_nat_alt)
  then have "ReplayQuery_Validate ?q = None"
    using assms(4,5) by (simp add: ReplayQuery_Validate_def ReplayCursor_Validate_def err_simps TrimSpace_visible)
  then have "Replay ctx (t_PrincipalID t) (t_ThreadID t) i ?q s = replay_result t ?es a limit"
    using Replay_owned [where q = ?q and after = a and ctx = ctx, OF assms(1) _ _ assms(3)] assms(2)
    by (simp add: resolve_cursor_def)
  then
  show "Replay ctx (t_PrincipalID t) (t_ThreadID t) i ?q s
    = (if length ?es < unat a then Inl (Wrapf ''replay boundary'' ErrReplayCursorAhead)
       else Inr \<lparr>rr_Turn = t, rr_AfterSequence = a,
         rr_Window = \<lparr>rw_OldestSequence = 1, rw_LatestSequence = of_nat (length ?es)\<rparr>,
         rr_Events = take (nat limit) (drop (unat a) ?es),
         rr_HasMore = (unat a + nat limit < length ?es)\<rparr>)"
    by (simp add: replay_result_def)
  fix n assume n: "n < length ?es"
  have "find (\<lambda>e. ev_EventID e = deterministicEventID i (of_nat (Suc n))) ?es = Some (?es ! n)"
    using find_event_by_id [OF log n] by (simp add: id)
  moreover have "(0 :: Sequence) < of_nat (Suc n)"
    using log_ok_unat [OF log n] log_ok_sequence [OF log n] by (simp add: word_less_nat_alt)
  ultimately show "resolve_cursor
       \<lparr>rc_LastEventID = deterministicEventID i (of_nat (Suc n)), rc_AfterSequence = None\<rparr> ?es = Inr (of_nat (Suc n))"
    using log_ok_sequence [OF log n] by (simp add: resolve_cursor_def deterministicEventID_def)
qed

theorem replay_exact_witness:
  "Replay live_ctx (t_PrincipalID sample_turn) (t_ThreadID sample_turn) ''turn-1''
      \<lparr>rq_Cursor = \<lparr>rc_LastEventID = [], rc_AfterSequence = Some 2\<rparr>, rq_Limit = 5\<rparr> sample_store
    = Inl (Wrapf ''replay boundary'' ErrReplayCursorAhead)"
proof -
  have "contextError (live_ctx 0) = None" "(2 :: Sequence) \<le> MaxDurableSequence"
    by (simp_all add: live_ctx_def MaxDurableSequence_def)
  with replay_exact [OF sample_store_ok sample_store_turn(2), of live_ctx 5 2] sample_store_turn(3)
  show ?thesis by simp
qed

text \<open>
  C5. A caller who does not own a Turn learns nothing about it: status, replay and
  cancellation answer exactly as if the Turn did not exist, and nothing changes.
\<close>

theorem foreign_turn_hidden:
  assumes "ms_turns s i = Some t" "t_PrincipalID t \<noteq> p \<or> t_ThreadID t \<noteq> th"
  shows "GetOwned ctx p th i s = GetOwned ctx p th i (s\<lparr>ms_turns := (ms_turns s)(i := None)\<rparr>)
    \<and> Replay ctx p th i q s = Replay ctx p th i q (s\<lparr>ms_turns := (ms_turns s)(i := None)\<rparr>)
    \<and> fst (RequestCancel ctx p th i now d s)
      = fst (RequestCancel ctx p th i now d (s\<lparr>ms_turns := (ms_turns s)(i := None)\<rparr>))
    \<and> snd (RequestCancel ctx p th i now d s) = s
    \<and> (\<exists>e. fst (RequestCancel ctx p th i now d s) = Inl e)"
proof -
  have "owned_turn s p th i = Inl ErrTurnNotFound"
    "owned_turn (s\<lparr>ms_turns := (ms_turns s)(i := None)\<rparr>) p th i = Inl ErrTurnNotFound"
    using assms by (auto simp: owned_turn_def)
  then show ?thesis
    by (auto simp: GetOwned_def Replay_def RequestCancel_def reject_def bind_result_def split: option.split)
qed

theorem foreign_turn_hidden_witness:
  "GetOwned live_ctx ''mallory'' ''thread-1'' ''turn-1'' sample_store
    = GetOwned live_ctx ''mallory'' ''thread-1'' ''turn-1'' (sample_store\<lparr>ms_turns := (ms_turns sample_store)(''turn-1'' := None)\<rparr>)"
proof -
  have "t_PrincipalID sample_turn \<noteq> ''mallory'' \<or> t_ThreadID sample_turn \<noteq> ''thread-1''" by code_simp
  from foreign_turn_hidden [OF sample_store_turn(2) this] show ?thesis by blast
qed

text \<open>
  C6. The state machine decides every transition: on a live context, with a valid event, a
  clock that is not behind the row and room in the log, a transition succeeds exactly when
  \<open>CanTransition\<close> allows it and a stop has a recorded cancellation; it then stores the new status,
  and when it is refused the error is the terminal, invalid-transition or missing-cancellation one.
\<close>

theorem transition_decides:
  assumes ok: "store_ok s" and t: "ms_turns s i = Some t"
    and now: "t_UpdatedAt t \<le> now" "now \<noteq> 0" and d: "EventDraft_Validate d = None"
    and room: "length (log_of s i) < unat MaxDurableSequence"
    and live: "contextError (ctx 0) = None" "contextError (ctx 1) = None" and ne: "to \<noteq> t_Status t"
  shows "if CanTransition (t_Status t) to \<and> (to = TurnStatusStopped \<longrightarrow> t_CancelRequestedAt t \<noteq> None)
    then \<exists>r s'. Transition ctx i to now d s = (Inr r, s') \<and> ms_turns s' i = Some (transitioned t to now)
        \<and> length (log_of s' i) = Suc (length (log_of s i))
    else (\<exists>e. Transition ctx i to now d s = (Inl e, s)
        \<and> (errors_is e ErrTurnTerminal \<longleftrightarrow> TurnStatus_Terminal (t_Status t))
        \<and> (errors_is e ErrInvalidTransition \<longleftrightarrow> \<not> TurnStatus_Terminal (t_Status t) \<and> \<not> CanTransition (t_Status t) to)
        \<and> (e = ErrCancellationNotRequested \<longleftrightarrow> CanTransition (t_Status t) to))"
proof (cases "CanTransition (t_Status t) to \<and> (to = TurnStatusStopped \<longrightarrow> t_CancelRequestedAt t \<noteq> None)")
  case True
  with Transition_succeeds [OF ok t _ _ _ now d room live] ne obtain r s' where
    r: "Transition ctx i to now d s = (Inr r, s')" "tres_Changed r" by blast
  from Transition_Inr [OF r(1)] r(2) t have "ms_turns s' i = Some (transitioned t to now)"
    "length (log_of s' i) = Suc (length (log_of s i))" by auto
  with r True show ?thesis by simp
next
  case False
  have "CanTransition (t_Status t) to \<Longrightarrow> \<not> TurnStatus_Terminal (t_Status t)"
    using ne CanTransition_terminal by blast
  with False ne t live d now(2) show ?thesis
    unfolding if_not_P [OF False] by (auto simp: Transition_def reject_def fail_if_def IsZero_def transitionError_def)
qed

theorem transition_decides_witness:
  "(\<exists>r s'. Transition live_ctx ''turn-1'' TurnStatusRunning 11 sample_draft sample_store = (Inr r, s')
        \<and> ms_turns s' ''turn-1'' = Some (transitioned sample_turn TurnStatusRunning 11)
        \<and> length (log_of s' ''turn-1'') = Suc (length (log_of sample_store ''turn-1'')))"
proof -
  have "t_UpdatedAt sample_turn \<le> 11" "(11::time) \<noteq> 0" "TurnStatusRunning \<noteq> t_Status sample_turn"
    "CanTransition (t_Status sample_turn) TurnStatusRunning" by code_simp+
  moreover have "length (log_of sample_store ''turn-1'') < unat MaxDurableSequence"
    by (simp add: sample_store_turn(3) unat_MaxDurableSequence)
  ultimately show ?thesis
    using transition_decides [OF sample_store_ok sample_store_turn(2), of 11 sample_draft live_ctx TurnStatusRunning]
      sample_admitted(3) by (simp add: live_ctx_def)
qed

end
