(* ===== verification/Settlement.thy ===== *)
theory Settlement
  imports Turn_Types
begin

text \<open>
  The commercial side of a terminal Turn: \<^verbatim>\<open>server/service/agentturn/settlement.go\<close> and the
  Review record of \<^verbatim>\<open>settlement_review.go\<close>: intents, the settlement command and its
  checks, settlement keys, usage evidence, the Review record, its digests and how the kernel
  builds it.

  SHA-256 is an argument \<open>sha\<close> of the definitions that hash: the lower-case hexadecimal digest
  of a byte string. No property assumes that it has no collision; where an identity rests
  on the hash, the statement gives the collision as the other case.
  String types with named constants are datatypes with one constructor per constant and
  one for every other string, as for the Turn status.
\<close>

abbreviation MaxSettlementKeyBytes :: nat where "MaxSettlementKeyBytes \<equiv> 256"
abbreviation MaxAttemptIDBytes :: nat where "MaxAttemptIDBytes \<equiv> 64"
abbreviation MaxOperationIDBytes :: nat where "MaxOperationIDBytes \<equiv> 128"
abbreviation MaxEffectsPerOperation :: nat where "MaxEffectsPerOperation \<equiv> 64"
abbreviation MaxSettlementReviewIDBytes :: nat where "MaxSettlementReviewIDBytes \<equiv> 64"
abbreviation MaxSettlementReviewDigestBytes :: nat where "MaxSettlementReviewDigestBytes \<equiv> 128"

subsection \<open>Intents and keys\<close>

datatype SettlementIntent =
  SettlementIntentFinalize | SettlementIntentRelease | SettlementIntentOther string

fun SettlementIntent_Valid :: "SettlementIntent \<Rightarrow> bool" where
  "SettlementIntent_Valid (SettlementIntentOther s) = False"
| "SettlementIntent_Valid _ = True"

datatype SettlementAuthorizationKind =
  SettlementAuthorizationOperation | SettlementAuthorizationReconcile | SettlementAuthorizationOther string

fun SettlementAuthorizationKind_Valid :: "SettlementAuthorizationKind \<Rightarrow> bool" where
  "SettlementAuthorizationKind_Valid (SettlementAuthorizationOther s) = False"
| "SettlementAuthorizationKind_Valid _ = True"

definition DefaultSettlementIntent :: "TurnStatus \<Rightarrow> SettlementIntent" where
  "DefaultSettlementIntent status =
     (if status = TurnStatusCompleted then SettlementIntentFinalize else SettlementIntentRelease)"

record SettlementRequest =
  sq_Intent :: SettlementIntent
  sq_UsedUnits :: int

definition SettlementRequest_resolve :: "SettlementRequest \<Rightarrow> TurnStatus \<Rightarrow> SettlementIntent" where
  "SettlementRequest_resolve request status =
     (if SettlementIntent_Valid (sq_Intent request) then sq_Intent request
      else DefaultSettlementIntent status)"

definition settlement_input :: "string \<Rightarrow> string \<Rightarrow> string \<Rightarrow> string" where
  "settlement_input domain first second = concat (map framed [domain, first, second])"

definition settlementKeyDigest :: "(string \<Rightarrow> string) \<Rightarrow> string \<Rightarrow> string \<Rightarrow> string \<Rightarrow> string" where
  "settlementKeyDigest sha domain first second =
     ''wm:turn-settlement:v1:'' @ sha (settlement_input domain first second)"

definition settlementKey :: "(string \<Rightarrow> string) \<Rightarrow> TurnID \<Rightarrow> string \<Rightarrow> string" where
  "settlementKey sha turnID operationID = settlementKeyDigest sha ''operation'' turnID operationID"

definition reconcileSettlementKey :: "(string \<Rightarrow> string) \<Rightarrow> TurnID \<Rightarrow> Sequence \<Rightarrow> string" where
  "reconcileSettlementKey sha turnID fence =
     settlementKeyDigest sha ''reconcile'' turnID (FormatInt (sint fence))"

subsection \<open>The settlement command\<close>

record SettlementCommand =
  stc_TurnID :: TurnID
  stc_PrincipalID :: PrincipalID
  stc_SettlementKey :: string
  stc_AuthorizationKind :: SettlementAuthorizationKind
  stc_AttemptID :: string
  stc_FencingToken :: Sequence
  stc_OperationID :: string
  stc_Intent :: SettlementIntent
  stc_TerminalStatus :: TurnStatus
  stc_UsedUnits :: int

definition authorization_error :: "(string \<Rightarrow> string) \<Rightarrow> SettlementCommand \<Rightarrow> go_error option" where
  "authorization_error sha c =
     (case stc_AuthorizationKind c of
        SettlementAuthorizationOperation \<Rightarrow> first_error
          [validatePrintableASCII ''attemptId'' (stc_AttemptID c) MaxAttemptIDBytes,
           validatePrintableASCII ''operationId'' (stc_OperationID c) MaxOperationIDBytes,
           fail_if (stc_SettlementKey c \<noteq> settlementKey sha (stc_TurnID c) (stc_OperationID c))
             (Errorf ''settlement key does not match operation authorization'')]
      | SettlementAuthorizationReconcile \<Rightarrow>
          fail_if (stc_AttemptID c \<noteq> '''' \<or> stc_OperationID c \<noteq> ''''
                   \<or> stc_SettlementKey c \<noteq> reconcileSettlementKey sha (stc_TurnID c) (stc_FencingToken c))
             (Errorf ''settlement key does not match reconciliation authorization'')
      | SettlementAuthorizationOther s \<Rightarrow> None)"

definition SettlementCommand_Validate :: "(string \<Rightarrow> string) \<Rightarrow> SettlementCommand \<Rightarrow> go_error option" where
  "SettlementCommand_Validate sha c = first_error
     [validatePathSegment ''turnId'' (stc_TurnID c) MaxTurnIDBytes,
      validateBoundedText ''principalId'' (stc_PrincipalID c) MaxPrincipalIDBytes,
      validatePrintableASCII ''settlementKey'' (stc_SettlementKey c) MaxSettlementKeyBytes,
      fail_if (\<not> SettlementAuthorizationKind_Valid (stc_AuthorizationKind c)
               \<or> stc_FencingToken c < 1 \<or> stc_FencingToken c > MaxDurableSequence)
        (Errorf ''settlement authorization is invalid''),
      authorization_error sha c,
      fail_if (\<not> SettlementIntent_Valid (stc_Intent c)) (Errorf ''unknown settlement intent''),
      fail_if (\<not> TurnStatus_Valid (stc_TerminalStatus c) \<or> \<not> TurnStatus_Terminal (stc_TerminalStatus c))
        (Errorf ''settlement requires a terminal turn status''),
      fail_if (stc_UsedUnits c < 0) (Errorf ''usedUnits must not be negative''),
      fail_if (stc_Intent c = SettlementIntentRelease \<and> stc_UsedUnits c \<noteq> 0)
        (Errorf ''a released reservation cannot report used units'')]"

subsection \<open>Evidence and the Review record\<close>

datatype SettlementReviewSource =
    SettlementReviewSourceExecutor
  | SettlementReviewSourceExecutorCompletion
  | SettlementReviewSourceExecutorTerminal
  | SettlementReviewSourceReconcile
  | SettlementReviewSourceReconcileTerminal
  | SettlementReviewSourceOther string

fun SettlementReviewSource_string :: "SettlementReviewSource \<Rightarrow> string" where
  "SettlementReviewSource_string SettlementReviewSourceExecutor = ''executor_release''"
| "SettlementReviewSource_string SettlementReviewSourceExecutorCompletion = ''executor_completion''"
| "SettlementReviewSource_string SettlementReviewSourceExecutorTerminal = ''executor_terminal''"
| "SettlementReviewSource_string SettlementReviewSourceReconcile = ''reconcile_release''"
| "SettlementReviewSource_string SettlementReviewSourceReconcileTerminal = ''reconcile_terminal''"
| "SettlementReviewSource_string (SettlementReviewSourceOther s) = s"

fun SettlementReviewSource_Valid :: "SettlementReviewSource \<Rightarrow> bool" where
  "SettlementReviewSource_Valid (SettlementReviewSourceOther s) = False"
| "SettlementReviewSource_Valid _ = True"

fun SettlementReviewSource_executor :: "SettlementReviewSource \<Rightarrow> bool" where
  "SettlementReviewSource_executor SettlementReviewSourceExecutor = True"
| "SettlementReviewSource_executor SettlementReviewSourceExecutorCompletion = True"
| "SettlementReviewSource_executor SettlementReviewSourceExecutorTerminal = True"
| "SettlementReviewSource_executor _ = False"

abbreviation SettlementReviewReasonUsageUnknown :: string where
  "SettlementReviewReasonUsageUnknown \<equiv> ''usage_unknown''"
abbreviation SettlementReviewReasonCompletedUsageUnmeasured :: string where
  "SettlementReviewReasonCompletedUsageUnmeasured \<equiv> ''completed_usage_unmeasured''"
abbreviation SettlementReviewReasonTerminalUsageUnmeasured :: string where
  "SettlementReviewReasonTerminalUsageUnmeasured \<equiv> ''terminal_usage_unmeasured''"
abbreviation SettlementReviewStatusPending :: string where
  "SettlementReviewStatusPending \<equiv> ''pending''"
abbreviation SettlementReviewStatusMeteredHeld :: string where
  "SettlementReviewStatusMeteredHeld \<equiv> ''metered_held''"
abbreviation SettlementReviewStatusFinalizedHeld :: string where
  "SettlementReviewStatusFinalizedHeld \<equiv> ''finalized_held''"

record SettlementUsageEvidence =
  ue_PriorOperationCount :: int
  ue_PriorEffectCount :: int
  ue_PriorProviderUsageCount :: int
  ue_CurrentEffectCount :: int

definition evidence_ambiguous :: "SettlementUsageEvidence \<Rightarrow> bool" where
  "evidence_ambiguous ev \<longleftrightarrow>
     ue_PriorOperationCount ev > 0 \<or> ue_PriorEffectCount ev > 0 \<or> ue_CurrentEffectCount ev > 0"

definition evidence_validate :: "SettlementUsageEvidence \<Rightarrow> go_error option" where
  "evidence_validate ev =
     fail_if (ue_PriorOperationCount ev < 0 \<or> ue_PriorEffectCount ev < 0
              \<or> ue_PriorProviderUsageCount ev < 0 \<or> ue_CurrentEffectCount ev < 0
              \<or> ue_CurrentEffectCount ev > int MaxEffectsPerOperation) ErrStoreIntegrity"

record SettlementReviewRecord =
  rv_ReviewID :: string
  rv_TurnID :: TurnID
  rv_SettlementKey :: string
  rv_RequestDigest :: string
  rv_Reason :: string
  rv_Source :: SettlementReviewSource
  rv_TerminalStatus :: TurnStatus
  rv_AttemptID :: string
  rv_FencingToken :: Sequence
  rv_OperationID :: string
  rv_Evidence :: SettlementUsageEvidence
  rv_Status :: string
  rv_CreatedAt :: time
  rv_UpdatedAt :: time

definition settlementReviewID :: "(string \<Rightarrow> string) \<Rightarrow> string \<Rightarrow> string" where
  "settlementReviewID sha key = sha (concat (map framed [''review'', key]))"

definition review_parts_head :: "string \<Rightarrow> SettlementReviewRecord \<Rightarrow> string list" where
  "review_parts_head version r =
     [version, rv_ReviewID r, rv_TurnID r, rv_SettlementKey r, rv_Reason r,
      SettlementReviewSource_string (rv_Source r), TurnStatus_string (rv_TerminalStatus r),
      rv_AttemptID r, FormatInt (sint (rv_FencingToken r)), rv_OperationID r,
      FormatInt (ue_PriorOperationCount (rv_Evidence r)),
      FormatInt (ue_PriorEffectCount (rv_Evidence r))]"

definition review_input_v1 :: "SettlementReviewRecord \<Rightarrow> string" where
  "review_input_v1 r = concat (map framed
     (review_parts_head ''settlement-review-v1'' r
      @ [FormatInt (ue_CurrentEffectCount (rv_Evidence r))]))"

definition settlementReviewRequestDigestV1 :: "(string \<Rightarrow> string) \<Rightarrow> SettlementReviewRecord \<Rightarrow> string" where
  "settlementReviewRequestDigestV1 sha r = ''sha256:'' @ sha (review_input_v1 r)"

definition review_input_v2 :: "SettlementReviewRecord \<Rightarrow> string" where
  "review_input_v2 r = concat (map framed
     (review_parts_head ''settlement-review-v2'' r
      @ [FormatInt (ue_PriorProviderUsageCount (rv_Evidence r)),
         FormatInt (ue_CurrentEffectCount (rv_Evidence r))]))"

definition settlementReviewRequestDigestV2 :: "(string \<Rightarrow> string) \<Rightarrow> SettlementReviewRecord \<Rightarrow> string" where
  "settlementReviewRequestDigestV2 sha r = ''sha256:'' @ sha (review_input_v2 r)"

definition settlementReviewRequestDigestValid :: "(string \<Rightarrow> string) \<Rightarrow> SettlementReviewRecord \<Rightarrow> bool" where
  "settlementReviewRequestDigestValid sha r =
     (let v1 = ue_PriorProviderUsageCount (rv_Evidence r) = 0
               \<and> rv_RequestDigest r = settlementReviewRequestDigestV1 sha r;
          v2 = rv_RequestDigest r = settlementReviewRequestDigestV2 sha r
      in case rv_Source r of
           SettlementReviewSourceExecutor \<Rightarrow> v1
         | SettlementReviewSourceReconcile \<Rightarrow> v1
         | SettlementReviewSourceExecutorCompletion \<Rightarrow> v2 \<or> v1
         | SettlementReviewSourceExecutorTerminal \<Rightarrow> v2
         | SettlementReviewSourceReconcileTerminal \<Rightarrow> v2
         | SettlementReviewSourceOther s \<Rightarrow> False)"

text \<open>The checks of one source; the executor cases share the identity checks at their end.\<close>

definition executor_identity_error :: "(string \<Rightarrow> string) \<Rightarrow> SettlementReviewRecord \<Rightarrow> go_error option" where
  "executor_identity_error sha r = first_error
     [validatePrintableASCII ''attemptId'' (rv_AttemptID r) MaxAttemptIDBytes,
      validatePrintableASCII ''operationId'' (rv_OperationID r) MaxOperationIDBytes,
      fail_if (rv_SettlementKey r \<noteq> settlementKey sha (rv_TurnID r) (rv_OperationID r)) ErrStoreIntegrity]"

definition review_source_error :: "(string \<Rightarrow> string) \<Rightarrow> SettlementReviewRecord \<Rightarrow> go_error option" where
  "review_source_error sha r =
     (case rv_Source r of
        SettlementReviewSourceExecutor \<Rightarrow> first_error
          [fail_if (rv_Reason r \<noteq> SettlementReviewReasonUsageUnknown
                    \<or> \<not> evidence_ambiguous (rv_Evidence r)
                    \<or> ue_PriorProviderUsageCount (rv_Evidence r) \<noteq> 0) ErrStoreIntegrity,
           executor_identity_error sha r]
      | SettlementReviewSourceExecutorCompletion \<Rightarrow> first_error
          [fail_if (rv_Reason r \<noteq> SettlementReviewReasonCompletedUsageUnmeasured
                    \<or> rv_TerminalStatus r \<noteq> TurnStatusCompleted) ErrStoreIntegrity,
           executor_identity_error sha r]
      | SettlementReviewSourceExecutorTerminal \<Rightarrow> first_error
          [fail_if (rv_Reason r \<noteq> SettlementReviewReasonTerminalUsageUnmeasured
                    \<or> rv_TerminalStatus r = TurnStatusCompleted) ErrStoreIntegrity,
           executor_identity_error sha r]
      | SettlementReviewSourceReconcile \<Rightarrow> first_error
          [fail_if (rv_Reason r \<noteq> SettlementReviewReasonUsageUnknown
                    \<or> rv_TerminalStatus r = TurnStatusCompleted \<or> \<not> evidence_ambiguous (rv_Evidence r)
                    \<or> rv_AttemptID r \<noteq> '''' \<or> rv_OperationID r \<noteq> ''''
                    \<or> ue_CurrentEffectCount (rv_Evidence r) \<noteq> 0
                    \<or> ue_PriorProviderUsageCount (rv_Evidence r) \<noteq> 0) ErrStoreIntegrity,
           fail_if (rv_SettlementKey r \<noteq> reconcileSettlementKey sha (rv_TurnID r) (rv_FencingToken r))
             ErrStoreIntegrity]
      | SettlementReviewSourceReconcileTerminal \<Rightarrow> first_error
          [fail_if (rv_Reason r \<noteq> SettlementReviewReasonTerminalUsageUnmeasured
                    \<or> rv_TerminalStatus r = TurnStatusCompleted \<or> rv_AttemptID r \<noteq> ''''
                    \<or> rv_OperationID r \<noteq> '''' \<or> ue_CurrentEffectCount (rv_Evidence r) \<noteq> 0)
             ErrStoreIntegrity,
           fail_if (rv_SettlementKey r \<noteq> reconcileSettlementKey sha (rv_TurnID r) (rv_FencingToken r))
             ErrStoreIntegrity]
      | SettlementReviewSourceOther s \<Rightarrow> None)"

definition SettlementReviewRecord_Validate ::
  "(string \<Rightarrow> string) \<Rightarrow> SettlementReviewRecord \<Rightarrow> go_error option"
where
  "SettlementReviewRecord_Validate sha r = first_error
     [validatePrintableASCII ''reviewId'' (rv_ReviewID r) MaxSettlementReviewIDBytes,
      validatePathSegment ''turnId'' (rv_TurnID r) MaxTurnIDBytes,
      validatePrintableASCII ''settlementKey'' (rv_SettlementKey r) MaxSettlementKeyBytes,
      validatePrintableASCII ''requestDigest'' (rv_RequestDigest r) MaxSettlementReviewDigestBytes,
      fail_if (\<not> SettlementReviewSource_Valid (rv_Source r)
               \<or> (rv_Status r \<noteq> SettlementReviewStatusPending
                  \<and> rv_Status r \<noteq> SettlementReviewStatusMeteredHeld
                  \<and> rv_Status r \<noteq> SettlementReviewStatusFinalizedHeld)) ErrStoreIntegrity,
      fail_if (\<not> TurnStatus_Valid (rv_TerminalStatus r) \<or> \<not> TurnStatus_Terminal (rv_TerminalStatus r))
        ErrStoreIntegrity,
      fail_if (rv_FencingToken r < 1 \<or> rv_FencingToken r > MaxDurableSequence) ErrStoreIntegrity,
      evidence_validate (rv_Evidence r),
      review_source_error sha r,
      fail_if (IsZero (rv_CreatedAt r) \<or> IsZero (rv_UpdatedAt r) \<or> rv_UpdatedAt r < rv_CreatedAt r)
        ErrStoreIntegrity,
      fail_if (rv_ReviewID r \<noteq> settlementReviewID sha (rv_SettlementKey r)
               \<or> \<not> settlementReviewRequestDigestValid sha r) ErrStoreIntegrity]"

definition settlementReviewProviderUsageAware :: "(string \<Rightarrow> string) \<Rightarrow> SettlementReviewRecord \<Rightarrow> bool" where
  "settlementReviewProviderUsageAware sha r \<longleftrightarrow>
     SettlementReviewRecord_Validate sha r = None
     \<and> rv_RequestDigest r = settlementReviewRequestDigestV2 sha r
     \<and> (rv_Source r = SettlementReviewSourceExecutorCompletion
        \<or> rv_Source r = SettlementReviewSourceExecutorTerminal
        \<or> rv_Source r = SettlementReviewSourceReconcileTerminal)"

subsection \<open>Building the record\<close>

definition pending_review ::
  "(string \<Rightarrow> string) \<Rightarrow> Turn \<Rightarrow> TurnStatus \<Rightarrow> SettlementReviewSource \<Rightarrow> string \<Rightarrow> Sequence \<Rightarrow> string
     \<Rightarrow> string \<Rightarrow> SettlementUsageEvidence \<Rightarrow> time \<Rightarrow> string \<Rightarrow> SettlementReviewRecord"
where
  "pending_review sha turn terminal source attemptID fence operationID key evidence now reason =
     \<lparr>rv_ReviewID = settlementReviewID sha key, rv_TurnID = t_ID turn, rv_SettlementKey = key,
      rv_RequestDigest = '''',
      rv_Reason = (if source = SettlementReviewSourceExecutorCompletion
                   then SettlementReviewReasonCompletedUsageUnmeasured else reason),
      rv_Source = source, rv_TerminalStatus = terminal, rv_AttemptID = attemptID,
      rv_FencingToken = fence, rv_OperationID = operationID, rv_Evidence = evidence,
      rv_Status = SettlementReviewStatusPending, rv_CreatedAt = now, rv_UpdatedAt = now\<rparr>"

definition buildSettlementReviewRecord ::
  "(string \<Rightarrow> string) \<Rightarrow> Turn \<Rightarrow> TurnStatus \<Rightarrow> SettlementReviewSource \<Rightarrow> string \<Rightarrow> Sequence \<Rightarrow> string
     \<Rightarrow> string \<Rightarrow> SettlementUsageEvidence \<Rightarrow> time \<Rightarrow> SettlementReviewRecord result"
where
  "buildSettlementReviewRecord sha turn terminal source attemptID fence operationID key evidence now =
     (let r = pending_review sha turn terminal source attemptID fence operationID key evidence now
                SettlementReviewReasonUsageUnknown;
          review = r\<lparr>rv_RequestDigest := settlementReviewRequestDigestV1 sha r\<rparr>
      in if SettlementReviewRecord_Validate sha review \<noteq> None then Inl ErrStoreIntegrity else Inr review)"

definition buildProviderSettlementReviewRecord ::
  "(string \<Rightarrow> string) \<Rightarrow> Turn \<Rightarrow> TurnStatus \<Rightarrow> SettlementReviewSource \<Rightarrow> string \<Rightarrow> Sequence \<Rightarrow> string
     \<Rightarrow> string \<Rightarrow> SettlementUsageEvidence \<Rightarrow> time \<Rightarrow> SettlementReviewRecord result"
where
  "buildProviderSettlementReviewRecord sha turn terminal source attemptID fence operationID key evidence now =
     (if source \<noteq> SettlementReviewSourceExecutorCompletion
         \<and> source \<noteq> SettlementReviewSourceExecutorTerminal
         \<and> source \<noteq> SettlementReviewSourceReconcileTerminal
      then Inl ErrStoreIntegrity
      else let r = pending_review sha turn terminal source attemptID fence operationID key evidence now
                     SettlementReviewReasonTerminalUsageUnmeasured;
               review = r\<lparr>rv_RequestDigest := settlementReviewRequestDigestV2 sha r\<rparr>
           in if SettlementReviewRecord_Validate sha review \<noteq> None then Inl ErrStoreIntegrity else Inr review)"

subsection \<open>Lemmas\<close>

lemma settlement_input_inject [simp]:
  "settlement_input d a b = settlement_input d' a' b' \<longleftrightarrow> d = d' \<and> a = a' \<and> b = b'"
  using framed_concat_inject [of "[d, a, b]" "[d', a', b']"] by (simp add: settlement_input_def)

lemma settlementKeyDigest_eq_iff:
  "inj_on sha {settlement_input d a b, settlement_input d' a' b'} \<Longrightarrow>
   settlementKeyDigest sha d a b = settlementKeyDigest sha d' a' b' \<longleftrightarrow> d = d' \<and> a = a' \<and> b = b'"
  by (auto simp: settlementKeyDigest_def inj_on_def)

lemma TurnStatus_string_inject:
  "TurnStatus_Valid a \<Longrightarrow> TurnStatus_Valid b \<Longrightarrow> TurnStatus_string a = TurnStatus_string b \<longleftrightarrow> a = b"
  by (metis TurnStatus_of_string)

lemma SettlementReviewSource_string_inject:
  "SettlementReviewSource_Valid a \<Longrightarrow> SettlementReviewSource_Valid b \<Longrightarrow>
   SettlementReviewSource_string a = SettlementReviewSource_string b \<longleftrightarrow> a = b"
  by (cases a; cases b) simp_all

lemma sint_eq_iff: "sint (a :: Sequence) = sint b \<longleftrightarrow> a = b"
  by (auto intro: signed_word_eqI)

text \<open>The content a Review digest covers: everything but the digest, the status and the times.\<close>

definition review_content :: "SettlementReviewRecord \<Rightarrow> SettlementReviewRecord" where
  "review_content r = r\<lparr>rv_RequestDigest := [], rv_Status := [], rv_CreatedAt := 0, rv_UpdatedAt := 0\<rparr>"

lemma review_input_v2_inject:
  assumes "TurnStatus_Valid (rv_TerminalStatus r)" "TurnStatus_Valid (rv_TerminalStatus q)"
    and "SettlementReviewSource_Valid (rv_Source r)" "SettlementReviewSource_Valid (rv_Source q)"
  shows "review_input_v2 r = review_input_v2 q \<longleftrightarrow> review_content r = review_content q"
proof -
  have "review_input_v2 r = review_input_v2 q \<longleftrightarrow>
      review_parts_head ''settlement-review-v2'' r
        @ [FormatInt (ue_PriorProviderUsageCount (rv_Evidence r)), FormatInt (ue_CurrentEffectCount (rv_Evidence r))] =
      review_parts_head ''settlement-review-v2'' q
        @ [FormatInt (ue_PriorProviderUsageCount (rv_Evidence q)), FormatInt (ue_CurrentEffectCount (rv_Evidence q))]"
    unfolding review_input_v2_def
    by (rule framed_concat_inject) (simp add: review_parts_head_def)
  then show ?thesis
    using assms
    by (cases r; cases q)
      (auto simp: review_parts_head_def review_content_def TurnStatus_string_inject
        SettlementReviewSource_string_inject sint_eq_iff
        intro: SettlementUsageEvidence.equality)
qed

text \<open>A digest in hexadecimal is accepted by every text check its length allows.\<close>

definition hex_digest :: "(string \<Rightarrow> string) \<Rightarrow> bool" where
  "hex_digest sha \<longleftrightarrow> (\<forall>x. length (sha x) = 64 \<and> list_all json_hex (sha x))"

lemma json_hex_visible: "json_hex c \<Longrightarrow> visible_char c"
  by (auto simp: json_hex_def visible_char_def)

lemma visible_printable: "visible_char c \<Longrightarrow> printable_char c"
  by (simp add: visible_char_def printable_char_def)

lemma validatePrintableASCII_visible:
  assumes "list_all visible_char v" "v \<noteq> []" "length v \<le> 2048" "length v \<le> m"
  shows "validatePrintableASCII n v m = None"
  using assms TrimSpace_visible [OF assms(1)]
  by (auto simp: validatePrintableASCII_def err_simps list_all_iff list_ex_iff visible_printable)

lemma hex_digest_visible: "hex_digest sha \<Longrightarrow> list_all visible_char (sha x)"
  by (auto simp: hex_digest_def list_all_iff json_hex_visible)

lemma hex_digest_texts:
  assumes "hex_digest sha"
  shows "validatePrintableASCII n (settlementReviewID sha key) MaxSettlementReviewIDBytes = None"
    and "validatePrintableASCII n (settlementKeyDigest sha d a b) MaxSettlementKeyBytes = None"
    and "validatePrintableASCII n (''sha256:'' @ sha x) MaxSettlementReviewDigestBytes = None"
proof -
  have len: "length (sha x) = 64" for x using assms by (simp add: hex_digest_def)
  show "validatePrintableASCII n (settlementReviewID sha key) MaxSettlementReviewIDBytes = None"
    using hex_digest_visible [OF assms] len [of "concat (map framed [''review'', key])"]
    by (intro validatePrintableASCII_visible) (auto simp: settlementReviewID_def)
  show "validatePrintableASCII n (settlementKeyDigest sha d a b) MaxSettlementKeyBytes = None"
    by (intro validatePrintableASCII_visible)
      (simp_all add: settlementKeyDigest_def hex_digest_visible [OF assms] len visible_char_def)
  show "validatePrintableASCII n (''sha256:'' @ sha x) MaxSettlementReviewDigestBytes = None"
    by (intro validatePrintableASCII_visible)
      (simp_all add: hex_digest_visible [OF assms] len visible_char_def)
qed

lemma digest_ignores_digest [simp]:
  "settlementReviewRequestDigestV1 sha (r\<lparr>rv_RequestDigest := d\<rparr>) = settlementReviewRequestDigestV1 sha r"
  "settlementReviewRequestDigestV2 sha (r\<lparr>rv_RequestDigest := d\<rparr>) = settlementReviewRequestDigestV2 sha r"
  by (simp_all add: settlementReviewRequestDigestV1_def settlementReviewRequestDigestV2_def
      review_input_v1_def review_input_v2_def review_parts_head_def)

text \<open>What the kernel knows when it opens a Review for a terminal commit.\<close>

definition executor_facts :: "Turn \<Rightarrow> TurnStatus \<Rightarrow> string \<Rightarrow> Sequence \<Rightarrow> string \<Rightarrow> SettlementUsageEvidence \<Rightarrow> time \<Rightarrow> bool" where
  "executor_facts turn terminal attemptID fence operationID ev now \<longleftrightarrow>
     validatePathSegment ''turnId'' (t_ID turn) MaxTurnIDBytes = None \<and> TurnStatus_Terminal terminal
     \<and> validatePrintableASCII ''attemptId'' attemptID MaxAttemptIDBytes = None
     \<and> validatePrintableASCII ''operationId'' operationID MaxOperationIDBytes = None
     \<and> 1 \<le> fence \<and> fence \<le> MaxDurableSequence \<and> evidence_validate ev = None \<and> now \<noteq> 0"

lemma source_error_ignores_digest [simp]:
  "review_source_error sha (r\<lparr>rv_RequestDigest := d\<rparr>) = review_source_error sha r"
  by (simp add: review_source_error_def executor_identity_error_def split: SettlementReviewSource.split)

lemma Validate_with_digest_v2:
  assumes "hex_digest sha"
    and "rv_ReviewID r = settlementReviewID sha (rv_SettlementKey r)"
    and "validatePathSegment ''turnId'' (rv_TurnID r) MaxTurnIDBytes = None"
    and "validatePrintableASCII ''settlementKey'' (rv_SettlementKey r) MaxSettlementKeyBytes = None"
    and "rv_Status r = SettlementReviewStatusPending" "TurnStatus_Terminal (rv_TerminalStatus r)"
    and "1 \<le> rv_FencingToken r" "rv_FencingToken r \<le> MaxDurableSequence"
    and "evidence_validate (rv_Evidence r) = None" "review_source_error sha r = None"
    and "rv_CreatedAt r \<noteq> 0" "rv_UpdatedAt r = rv_CreatedAt r"
    and "rv_Source r \<in> {SettlementReviewSourceExecutorCompletion, SettlementReviewSourceExecutorTerminal,
      SettlementReviewSourceReconcileTerminal}"
  shows "settlementReviewProviderUsageAware sha (r\<lparr>rv_RequestDigest := settlementReviewRequestDigestV2 sha r\<rparr>)"
proof -
  let ?d = "settlementReviewRequestDigestV2 sha r"
  let ?r = "r\<lparr>rv_RequestDigest := ?d\<rparr>"
  have d: "validatePrintableASCII ''requestDigest'' ?d MaxSettlementReviewDigestBytes = None"
    unfolding settlementReviewRequestDigestV2_def by (rule hex_digest_texts(3) [OF assms(1)])
  have "settlementReviewRequestDigestValid sha ?r"
    using assms(13) by (auto simp: settlementReviewRequestDigestValid_def)
  moreover have "\<not> rv_FencingToken r < 1" "\<not> MaxDurableSequence < rv_FencingToken r"
    using assms(7,8) by (simp_all only: not_less)
  ultimately have "SettlementReviewRecord_Validate sha ?r = None"
    using assms d hex_digest_texts(1) [OF assms(1)]
    by (auto simp: SettlementReviewRecord_Validate_def err_simps Terminal_imp_Valid IsZero_def)
  with assms(13) show ?thesis by (auto simp: settlementReviewProviderUsageAware_def)
qed

lemma aware_imp_valid: "settlementReviewProviderUsageAware sha r \<Longrightarrow> SettlementReviewRecord_Validate sha r = None"
  by (simp add: settlementReviewProviderUsageAware_def)

lemma valid_review_kinds:
  "SettlementReviewRecord_Validate sha r = None \<Longrightarrow>
   TurnStatus_Valid (rv_TerminalStatus r) \<and> SettlementReviewSource_Valid (rv_Source r)"
  by (simp add: SettlementReviewRecord_Validate_def err_simps)

text \<open>
  C10. Settlement keys: an operation's key determines the Turn and the operation, a
  retirement's key the Turn and the fence, and the two kinds of key never coincide; only a
  SHA-256 collision on the inputs at hand could break this.
\<close>

theorem settlement_keys_separate:
  assumes "inj_on sha {settlement_input ''operation'' t a, settlement_input ''operation'' u b,
    settlement_input ''reconcile'' t (FormatInt (sint f)), settlement_input ''reconcile'' u (FormatInt (sint g))}"
  shows "(settlementKey sha t a = settlementKey sha u b \<longleftrightarrow> t = u \<and> a = b)
    \<and> (reconcileSettlementKey sha t f = reconcileSettlementKey sha u g \<longleftrightarrow> t = u \<and> f = g)
    \<and> settlementKey sha t a \<noteq> reconcileSettlementKey sha u g"
proof -
  note sub = inj_on_subset [OF assms]
  show ?thesis
    unfolding settlementKey_def reconcileSettlementKey_def
    by (intro conjI; subst settlementKeyDigest_eq_iff; (rule sub)?; simp add: sint_eq_iff)
qed

theorem settlement_keys_separate_witness:
  "(settlementKey id ''turn:1'' ''2'' = settlementKey id ''turn'' ''1:2'' \<longleftrightarrow> ''turn:1'' = ''turn'' \<and> ''2'' = ''1:2'')
    \<and> (reconcileSettlementKey id ''turn:1'' 3 = reconcileSettlementKey id ''turn'' 3 \<longleftrightarrow> ''turn:1'' = ''turn'' \<and> (3::Sequence) = 3)
    \<and> settlementKey id ''turn:1'' ''2'' \<noteq> reconcileSettlementKey id ''turn'' 3"
  by (rule settlement_keys_separate) (simp add: inj_on_def)

text \<open>
  C11. The request digest of a provider-aware Review binds its whole content: two valid
  records with the same digest agree on every field but status and times.
\<close>

theorem review_digest_binds:
  assumes "SettlementReviewRecord_Validate sha r = None" "SettlementReviewRecord_Validate sha q = None"
    and "rv_RequestDigest r = settlementReviewRequestDigestV2 sha r"
    and "rv_RequestDigest q = settlementReviewRequestDigestV2 sha q"
    and "rv_RequestDigest r = rv_RequestDigest q"
    and "inj_on sha {review_input_v2 r, review_input_v2 q}"
  shows "review_content r = review_content q"
proof -
  from assms(3-5) have "sha (review_input_v2 r) = sha (review_input_v2 q)"
    by (simp add: settlementReviewRequestDigestV2_def)
  then have "review_input_v2 r = review_input_v2 q" by (rule inj_onD [OF assms(6)]) simp_all
  moreover have "TurnStatus_Valid (rv_TerminalStatus r)" "SettlementReviewSource_Valid (rv_Source r)"
    "TurnStatus_Valid (rv_TerminalStatus q)" "SettlementReviewSource_Valid (rv_Source q)"
    using valid_review_kinds [OF assms(1)] valid_review_kinds [OF assms(2)] by simp_all
  ultimately show ?thesis by (simp add: review_input_v2_inject)
qed

definition sample_sha :: "string \<Rightarrow> string" where
  "sample_sha x = replicate 64 (CHR ''a'')"

definition sample_evidence :: SettlementUsageEvidence where
  "sample_evidence = \<lparr>ue_PriorOperationCount = 1, ue_PriorEffectCount = 0, ue_PriorProviderUsageCount = 2,
     ue_CurrentEffectCount = 0\<rparr>"

definition sample_review :: SettlementReviewRecord where
  "sample_review =
     (let r = pending_review sample_sha (zero_Turn\<lparr>t_ID := ''turn-1''\<rparr>) TurnStatusFailed
        SettlementReviewSourceExecutorTerminal ''attempt-1'' 7 ''op-1'' (settlementKey sample_sha ''turn-1'' ''op-1'')
        sample_evidence 5 SettlementReviewReasonTerminalUsageUnmeasured
      in r\<lparr>rv_RequestDigest := settlementReviewRequestDigestV2 sample_sha r\<rparr>)"

theorem review_digest_binds_witness:
  "review_content sample_review
   = review_content (sample_review\<lparr>rv_Status := SettlementReviewStatusMeteredHeld, rv_UpdatedAt := 9\<rparr>)"
proof (rule review_digest_binds [of sample_sha])
  show "SettlementReviewRecord_Validate sample_sha sample_review = None"
    "SettlementReviewRecord_Validate sample_sha
       (sample_review\<lparr>rv_Status := SettlementReviewStatusMeteredHeld, rv_UpdatedAt := 9\<rparr>) = None"
    by code_simp+
  show "rv_RequestDigest sample_review = settlementReviewRequestDigestV2 sample_sha sample_review"
    by code_simp
  show "inj_on sample_sha {review_input_v2 sample_review,
      review_input_v2 (sample_review\<lparr>rv_Status := SettlementReviewStatusMeteredHeld, rv_UpdatedAt := 9\<rparr>)}"
    by (simp add: review_input_v2_def review_parts_head_def)
qed (code_simp+)

text \<open>
  A terminal commit under the provider-usage binding can always open its Review: with the
  facts the kernel has checked, the builder returns a pending, valid, provider-aware record.
\<close>

theorem provider_review_opens:
  assumes "hex_digest sha" and "executor_facts turn terminal attemptID fence operationID ev now"
  shows "\<exists>r. buildProviderSettlementReviewRecord sha turn terminal
      (if terminal = TurnStatusCompleted then SettlementReviewSourceExecutorCompletion
       else SettlementReviewSourceExecutorTerminal)
      attemptID fence operationID (settlementKey sha (t_ID turn) operationID) ev now = Inr r
    \<and> rv_Status r = SettlementReviewStatusPending \<and> settlementReviewProviderUsageAware sha r"
proof -
  let ?src = "if terminal = TurnStatusCompleted then SettlementReviewSourceExecutorCompletion
    else SettlementReviewSourceExecutorTerminal"
  let ?r = "pending_review sha turn terminal ?src attemptID fence operationID
    (settlementKey sha (t_ID turn) operationID) ev now SettlementReviewReasonTerminalUsageUnmeasured"
  let ?rd = "?r\<lparr>rv_RequestDigest := settlementReviewRequestDigestV2 sha ?r\<rparr>"
  note facts = assms(2) [unfolded executor_facts_def]
  have aware: "settlementReviewProviderUsageAware sha ?rd"
    using facts hex_digest_texts(2) [OF assms(1)]
    by (intro Validate_with_digest_v2 [OF assms(1)])
      (auto simp: pending_review_def review_source_error_def executor_identity_error_def err_simps settlementKey_def)
  then have "buildProviderSettlementReviewRecord sha turn terminal ?src attemptID fence operationID
      (settlementKey sha (t_ID turn) operationID) ev now = Inr ?rd"
    by (simp add: buildProviderSettlementReviewRecord_def Let_def aware_imp_valid)
  with aware show ?thesis by (auto simp: pending_review_def)
qed

theorem provider_review_opens_witness:
  "\<exists>r. buildProviderSettlementReviewRecord sample_sha (zero_Turn\<lparr>t_ID := ''turn-1''\<rparr>) TurnStatusFailed
      (if TurnStatusFailed = TurnStatusCompleted then SettlementReviewSourceExecutorCompletion
       else SettlementReviewSourceExecutorTerminal)
      ''attempt-1'' 7 ''op-1'' (settlementKey sample_sha (t_ID (zero_Turn\<lparr>t_ID := ''turn-1''\<rparr>)) ''op-1'')
      sample_evidence 5 = Inr r
    \<and> rv_Status r = SettlementReviewStatusPending \<and> settlementReviewProviderUsageAware sample_sha r"
proof (rule provider_review_opens)
  show "hex_digest sample_sha" by (simp add: hex_digest_def sample_sha_def json_hex_def list_all_iff)
  show "executor_facts (zero_Turn\<lparr>t_ID := ''turn-1''\<rparr>) TurnStatusFailed ''attempt-1'' 7 ''op-1'' sample_evidence 5"
    by code_simp
qed

end
