(* ===== verification/Turn_Service.thy ===== *)
theory Turn_Service
  imports Turn_Store Settlement
begin

text \<open>
  The Turn service, \<^verbatim>\<open>server/service/agentturn/service.go\<close>: admission, status, attach,
  domain events, transitions and cancellation over a \<open>Store\<close>, and the status events it writes.

  A service holds two functions of the host, the id minter and the clock; each call of them
  reads the host at that moment, which is the argument \<open>env\<close> of the operation (the entropy
  \<^verbatim>\<open>crypto/rand\<close> yields and the wall clock). \<^verbatim>\<open>json.Marshal\<close> has no error on the structs
  marshalled here, which hold only strings and booleans.
\<close>

subsection \<open>Text of identifiers and URLs\<close>

definition hex_byte :: "(nat \<Rightarrow> char) \<Rightarrow> char \<Rightarrow> string" where
  "hex_byte digit c = [digit (of_char c div 16), digit (of_char c mod 16)]"

definition upper_hex_digit :: "nat \<Rightarrow> char" where
  "upper_hex_digit n = (if n < 10 then char_of (48 + n) else char_of (55 + n))"

definition hex_EncodeToString :: "string \<Rightarrow> string" where
  "hex_EncodeToString raw = concat (map (hex_byte hex_digit) raw)"

definition path_unescaped :: "char \<Rightarrow> bool" where
  "path_unescaped c \<longleftrightarrow>
     (let n = of_char c :: nat in
      (97 \<le> n \<and> n \<le> 122) \<or> (65 \<le> n \<and> n \<le> 90) \<or> (48 \<le> n \<and> n \<le> 57) \<or> List.member ''-_.~$&+:=@'' c)"

text \<open>\<^verbatim>\<open>url.PathEscape\<close>.\<close>

definition PathEscape :: "string \<Rightarrow> string" where
  "PathEscape s = concat (map (\<lambda>c. if path_unescaped c then [c] else CHR 0x25 # hex_byte upper_hex_digit c) s)"

definition defaultStreamURL :: "ThreadID \<Rightarrow> TurnID \<Rightarrow> string" where
  "defaultStreamURL threadID turnID =
     ''/api/v1/agent/threads/'' @ PathEscape threadID @ ''/turns/'' @ PathEscape turnID @ ''/stream''"

subsection \<open>Status events\<close>

definition status_payload :: "TurnStatus \<Rightarrow> bool \<Rightarrow> string \<Rightarrow> string \<Rightarrow> string" where
  "status_payload status cancellationRequested reviewID reviewDigest = json_object
     ([json_member ''status'' (json_string (TurnStatus_string status))]
      @ (if cancellationRequested then [json_member ''cancellationRequested'' ''true''] else [])
      @ (if reviewID \<noteq> '''' then [json_member ''settlementReviewId'' (json_string reviewID)] else [])
      @ (if reviewDigest \<noteq> '''' then [json_member ''settlementReviewDigest'' (json_string reviewDigest)] else []))"

definition statusEventWithSettlementReview ::
  "TurnStatus \<Rightarrow> bool \<Rightarrow> SettlementReviewRecord option \<Rightarrow> EventDraft result"
where
  "statusEventWithSettlementReview status cancellationRequested review =
     (case review of
        None \<Rightarrow> Inr \<lparr>ed_Type = EventCoreTurnStatus, ed_ResourceRefs = [],
                    ed_Data = status_payload status cancellationRequested '''' ''''\<rparr>
      | Some r \<Rightarrow>
          if \<not> SettlementReviewSource_executor (rv_Source r) \<or> rv_TerminalStatus r \<noteq> status
          then Inl ErrStoreIntegrity
          else Inr \<lparr>ed_Type = EventCoreTurnStatus, ed_ResourceRefs = [],
                    ed_Data = status_payload status cancellationRequested (rv_ReviewID r) (rv_RequestDigest r)\<rparr>)"

definition statusEvent :: "TurnStatus \<Rightarrow> bool \<Rightarrow> EventDraft result" where
  "statusEvent status cancellationRequested = statusEventWithSettlementReview status cancellationRequested None"

definition cancelRequestedEvent :: "EventDraft result" where
  "cancelRequestedEvent =
     Inr \<lparr>ed_Type = EventCoreTurnStatus, ed_ResourceRefs = [],
          ed_Data = json_object [json_member ''cancellationRequested'' ''true'']\<rparr>"

subsection \<open>The service\<close>

record go_env =
  env_entropy :: "string result"
  env_now :: time

definition randomTurnID :: "go_env \<Rightarrow> TurnID result" where
  "randomTurnID env =
     (case env_entropy env of Inl e \<Rightarrow> Inl e | Inr raw \<Rightarrow> Inr (''turn_'' @ hex_EncodeToString raw))"

record ('s, 'a) ServiceConfig =
  cfg_Store :: "('s, 'a) Store option"
  cfg_NewTurnID :: "(go_env \<Rightarrow> TurnID result) option"
  cfg_Now :: "(go_env \<Rightarrow> time) option"
  cfg_ReplayPageLimit :: int

record ('s, 'a) Service =
  sv_store :: "('s, 'a) Store"
  sv_newTurnID :: "go_env \<Rightarrow> TurnID result"
  sv_now :: "go_env \<Rightarrow> time"
  sv_replayPageLimit :: int

definition NewService :: "('s, 'a) ServiceConfig \<Rightarrow> ('s, 'a) Service result" where
  "NewService config =
     (case cfg_Store config of
        None \<Rightarrow> Inl (Errorf ''durable turn store is required'')
      | Some st \<Rightarrow>
          let newTurnID = (case cfg_NewTurnID config of None \<Rightarrow> randomTurnID | Some f \<Rightarrow> f);
              now = (case cfg_Now config of None \<Rightarrow> env_now | Some f \<Rightarrow> f);
              limit = (if cfg_ReplayPageLimit config = 0 then 256 else cfg_ReplayPageLimit config)
          in if limit < 1 \<or> limit > 1000
             then Inl (Errorf ''replay page limit must be between 1 and 1000'')
             else Inr \<lparr>sv_store = st, sv_newTurnID = newTurnID, sv_now = now, sv_replayPageLimit = limit\<rparr>)"

record Attachment =
  at_Turn :: Turn
  at_AfterSequence :: Sequence
  at_Window :: ReplayWindow
  at_Events :: "EventEnvelope list"
  at_HasMore :: bool

definition start_candidate :: "TurnID \<Rightarrow> StartCommand \<Rightarrow> time \<Rightarrow> Turn" where
  "start_candidate turnID command now =
     \<lparr>t_ID = turnID, t_PrincipalID = sc_PrincipalID command, t_ThreadID = sr_ThreadID (sc_Request command),
      t_IdempotencyKey = sr_IdempotencyKey (sc_Request command), t_CommandDigest = sc_CommandDigest command,
      t_Plugin = sc_Plugin command, t_Status = TurnStatusQueued, t_CancelRequestedAt = None,
      t_CreatedAt = now, t_UpdatedAt = now, t_StartedAt = None, t_FinishedAt = None\<rparr>"

definition admission_of :: "Turn \<Rightarrow> StartAdmissionResult" where
  "admission_of t = \<lparr>sa_TurnID = t_ID t, sa_StreamURL = defaultStreamURL (t_ThreadID t) (t_ID t)\<rparr>"

definition start_reply :: "AdmissionRecord result \<times> 's \<Rightarrow> StartResult result \<times> 's" where
  "start_reply admitted =
     (case admitted of
        (Inl e, s) \<Rightarrow> (Inl e, s)
      | (Inr r, s) \<Rightarrow>
          reject s (wrap_error ''build start admission result'' (StartAdmissionResult_Validate (admission_of (adm_Turn r))))
            (Inr \<lparr>sres_Admission = admission_of (adm_Turn r), sres_Turn = adm_Turn r,
                  sres_IdempotentReplay = (\<not> adm_Created r)\<rparr>, s))"

definition start ::
  "('s, 'a) Service \<Rightarrow> go_env \<Rightarrow> go_context \<Rightarrow> StartCommand
     \<Rightarrow> (go_context \<Rightarrow> Turn \<Rightarrow> EventDraft \<Rightarrow> 's \<Rightarrow> AdmissionRecord result \<times> 's) \<Rightarrow> 's \<Rightarrow> StartResult result \<times> 's"
where
  "start sv env ctx command admit s =
     reject s (StartCommand_Validate command) (
     reject s (contextError (ctx 0)) (
     bind_result s (map_sum (Wrapf ''mint durable turn id'') id (sv_newTurnID sv env)) (\<lambda>turnID.
     reject s (wrap_error ''mint durable turn id'' (validatePathSegment ''turnId'' turnID MaxTurnIDBytes)) (
     let now = sv_now sv env in
     reject s (fail_if (IsZero now) (Errorf ''durable turn clock returned zero time'')) (
     bind_result s (statusEvent TurnStatusQueued False) (\<lambda>initial.
       start_reply (admit (\<lambda>n. ctx (Suc n)) (start_candidate turnID command now) initial s)))))))"

definition Start ::
  "('s, 'a) Service \<Rightarrow> go_env \<Rightarrow> go_context \<Rightarrow> StartCommand \<Rightarrow> 's \<Rightarrow> StartResult result \<times> 's"
where
  "Start sv env ctx command s = start sv env ctx command (so_Admit (sv_store sv)) s"

text \<open>A nil authority, also one hidden in a non-nil interface value, is \<open>None\<close>.\<close>

definition StartWithReservationAuthority ::
  "('s, 'a) Service \<Rightarrow> go_env \<Rightarrow> go_context \<Rightarrow> StartCommand \<Rightarrow> 'a option \<Rightarrow> 's \<Rightarrow> StartResult result \<times> 's"
where
  "StartWithReservationAuthority sv env ctx command authority s =
     (case authority of
        None \<Rightarrow> (Inl ErrTurnReservationAdmissionAuthorityUnavailable, s)
      | Some a \<Rightarrow>
     (case so_AdmitWithReservationAuthority (sv_store sv) of
        None \<Rightarrow> (Inl ErrTurnReservationAdmissionAuthorityUnavailable, s)
      | Some admit \<Rightarrow> start sv env ctx command (\<lambda>ctx' candidate initial. admit ctx' candidate initial a) s))"

definition Service_Status ::
  "('s, 'a) Service \<Rightarrow> go_context \<Rightarrow> OwnedTurnRequest \<Rightarrow> 's \<Rightarrow> Turn result"
where
  "Service_Status sv ctx request s =
     (case OwnedTurnRequest_Validate request of
        Some e \<Rightarrow> Inl e
      | None \<Rightarrow> so_GetOwned (sv_store sv) ctx (ot_PrincipalID request) (ot_ThreadID request) (ot_TurnID request) s)"

definition Attach :: "('s, 'a) Service \<Rightarrow> go_context \<Rightarrow> AttachCommand \<Rightarrow> 's \<Rightarrow> Attachment result" where
  "Attach sv ctx command s =
     (case AttachCommand_Validate command of
        Some e \<Rightarrow> Inl e
      | None \<Rightarrow>
     (case so_Replay (sv_store sv) ctx (ac_PrincipalID command) (ac_ThreadID command)
             (ar_TurnID (ac_Request command))
             \<lparr>rq_Cursor = ar_Cursor (ac_Request command), rq_Limit = sv_replayPageLimit sv\<rparr> s of
        Inl e \<Rightarrow> Inl e
      | Inr r \<Rightarrow> Inr \<lparr>at_Turn = rr_Turn r, at_AfterSequence = rr_AfterSequence r, at_Window = rr_Window r,
                       at_Events = rr_Events r, at_HasMore = rr_HasMore r\<rparr>))"

definition AppendDomainEvent ::
  "('s, 'a) Service \<Rightarrow> go_context \<Rightarrow> TurnID \<Rightarrow> EventDraft \<Rightarrow> 's \<Rightarrow> EventEnvelope result \<times> 's"
where
  "AppendDomainEvent sv ctx turnID draft s =
     reject s (validatePathSegment ''turnId'' turnID MaxTurnIDBytes) (
     reject s (EventDraft_Validate draft) (
     if HasPrefix (ed_Type draft) ''core.'' then (Inl (Wrapf ''append'' ErrReservedEventType), s)
     else so_AppendEvent (sv_store sv) ctx turnID draft s))"

definition Service_Transition ::
  "('s, 'a) Service \<Rightarrow> go_env \<Rightarrow> go_context \<Rightarrow> TurnID \<Rightarrow> TurnStatus \<Rightarrow> 's \<Rightarrow> TransitionResult result \<times> 's"
where
  "Service_Transition sv env ctx turnID to s =
     reject s (validatePathSegment ''turnId'' turnID MaxTurnIDBytes) (
     reject s (fail_if (\<not> TurnStatus_Valid to) (Errorf ''unknown turn status'')) (
     bind_result s (statusEvent to (to = TurnStatusStopped)) (\<lambda>draft.
       so_Transition (sv_store sv) ctx turnID to (sv_now sv env) draft s)))"

definition Cancel ::
  "('s, 'a) Service \<Rightarrow> go_env \<Rightarrow> go_context \<Rightarrow> CancelCommand \<Rightarrow> 's \<Rightarrow> CancelResult result \<times> 's"
where
  "Cancel sv env ctx command s =
     reject s (CancelCommand_Validate command) (
     bind_result s cancelRequestedEvent (\<lambda>draft.
       so_RequestCancel (sv_store sv) ctx (cc_PrincipalID command) (cc_ThreadID command)
         (cr_TurnID (cc_Request command)) (sv_now sv env) draft s))"

text \<open>One mutating call on a service.\<close>

inductive service_step :: "('s, 'a) Service \<Rightarrow> 's \<Rightarrow> 's \<Rightarrow> bool" for sv where
  start: "Start sv env ctx c s = (r, s') \<Longrightarrow> service_step sv s s'"
| append: "AppendDomainEvent sv ctx i d s = (r, s') \<Longrightarrow> service_step sv s s'"
| transition: "Service_Transition sv env ctx i to s = (r, s') \<Longrightarrow> service_step sv s s'"
| cancel: "Cancel sv env ctx cc s = (r, s') \<Longrightarrow> service_step sv s s'"

subsection \<open>The drafts of the service\<close>

lemma core_draft_valid:
  assumes "json_Valid data" "data \<noteq> []" "length data \<le> 1048576"
  shows "EventDraft_Validate \<lparr>ed_Type = EventCoreTurnStatus, ed_ResourceRefs = [], ed_Data = data\<rparr> = None"
proof -
  have "validateBoundedText ''event type'' EventCoreTurnStatus MaxEventTypeBytes = None" by code_simp
  with assms show ?thesis by (simp add: EventDraft_Validate_def fail_if_def)
qed

lemma status_payload_json: "json_Valid (status_payload status b r d)"
  unfolding status_payload_def
  by (rule json_Valid_object) (auto intro: json_value_text_string json_value_text_true)

lemma status_payload_not_empty: "status_payload status b r d \<noteq> []"
  by (simp add: status_payload_def json_object_def)

lemma length_status_payload:
  assumes "TurnStatus_Valid status" "length r \<le> 1000" "length d \<le> 1000"
  shows "length (status_payload status b r d) \<le> 20000"
proof -
  have "length (TurnStatus_string status) \<le> 10" using assms(1) by (cases status) auto
  with assms(2,3) length_json_string [of "TurnStatus_string status"] length_json_string [of r]
    length_json_string [of d] length_json_string [of "''status''"] length_json_string [of "''cancellationRequested''"]
    length_json_string [of "''settlementReviewId''"] length_json_string [of "''settlementReviewDigest''"]
  show ?thesis by (simp add: status_payload_def json_object_def json_member_def)
qed

lemma status_draft_valid:
  "TurnStatus_Valid status \<Longrightarrow> \<exists>d. statusEvent status b = Inr d \<and> EventDraft_Validate d = None
     \<and> ed_Type d = EventCoreTurnStatus \<and> ed_Data d = status_payload status b [] []"
  using status_payload_json [of status b] status_payload_not_empty [of status b] length_status_payload [of status "[]" "[]" b]
  by (simp add: statusEvent_def statusEventWithSettlementReview_def core_draft_valid)

lemma cancel_draft_valid:
  "\<exists>d. cancelRequestedEvent = Inr d \<and> EventDraft_Validate d = None \<and> ed_Type d = EventCoreTurnStatus
     \<and> ed_Data d = json_object [json_member ''cancellationRequested'' ''true'']"
proof -
  let ?p = "json_object [json_member ''cancellationRequested'' ''true'']"
  have "json_Valid ?p" by code_simp
  moreover have "?p \<noteq> [] \<and> length ?p \<le> 100" by code_simp
  ultimately show ?thesis by (simp add: cancelRequestedEvent_def core_draft_valid)
qed

subsection \<open>Admission\<close>

lemma hex_byte_visible:
  "list_all visible_char (hex_byte upper_hex_digit c)"
proof -
  have "visible_char (upper_hex_digit d)" if "d < 16" for d
    using that by (auto simp: visible_char_def upper_hex_digit_def)
  moreover have "of_char c div 16 < (16::nat)" "of_char c mod 16 < (16::nat)"
    using mod_less_divisor [of 256 "of_char c"] by (simp_all add: less_mult_imp_div_less)
  ultimately show ?thesis by (simp add: hex_byte_def)
qed

lemma PathEscape_visible: "list_all visible_char (PathEscape s)"
proof -
  have "visible_char c" if "path_unescaped c" for c
    using that by (auto simp: path_unescaped_def visible_char_def Let_def)
  then show ?thesis
    using hex_byte_visible by (auto simp: PathEscape_def list_all_iff visible_char_def)
qed

lemma defaultStreamURL_text:
  "TrimSpace (defaultStreamURL th i) = defaultStreamURL th i" "defaultStreamURL th i \<noteq> []"
  by (rule TrimSpace_visible, simp_all add: defaultStreamURL_def PathEscape_visible visible_char_def)

lemma admission_valid:
  "Turn_Validate t = None \<Longrightarrow> StartAdmissionResult_Validate (admission_of t) = None"
  by (auto simp: StartAdmissionResult_Validate_def admission_of_def Turn_Validate_def err_simps
      defaultStreamURL_text dest: validatePathSegment_imp_text)

lemma start_candidate_ok:
  assumes "StartCommand_Validate c = None" "validatePathSegment ''turnId'' i MaxTurnIDBytes = None" "now \<noteq> 0"
  shows "Turn_Validate (start_candidate i c now) = None" "fresh_lifecycle (start_candidate i c now)"
  using assms by (auto simp: Turn_Validate_def StartCommand_Validate_def start_candidate_def err_simps
      before_opt_def after_opt_def IsZero_def fresh_lifecycle_def)

lemma start_candidate_sel [simp]:
  "t_ID (start_candidate i c now) = i" "t_CommandDigest (start_candidate i c now) = sc_CommandDigest c"
  "t_Status (start_candidate i c now) = TurnStatusQueued"
  by (simp_all add: start_candidate_def)

text \<open>A call of \<open>Start\<close> that reaches the store: the command, the context, the mint and the clock pass.\<close>

definition start_ready :: "('s, 'a) Service \<Rightarrow> go_env \<Rightarrow> go_context \<Rightarrow> StartCommand \<Rightarrow> TurnID \<Rightarrow> bool" where
  "start_ready sv env ctx c i \<longleftrightarrow> StartCommand_Validate c = None \<and> (\<forall>n \<in> {0, 1, 2}. contextError (ctx n) = None)
     \<and> sv_newTurnID sv env = Inr i \<and> validatePathSegment ''turnId'' i MaxTurnIDBytes = None
     \<and> sv_now sv env \<noteq> 0"

definition start_scope :: "StartCommand \<Rightarrow> idempotencyScope" where
  "start_scope c = (sc_PrincipalID c, sr_ThreadID (sc_Request c), sr_IdempotencyKey (sc_Request c))"

lemma start_candidate_scope [simp]: "admit_scope (start_candidate i c now) = start_scope c"
  by (simp add: admit_scope_def start_candidate_def start_scope_def)

lemma Start_ready:
  assumes "start_ready sv env ctx c i"
  shows "\<exists>d. EventDraft_Validate d = None \<and> ed_Type d = EventCoreTurnStatus
    \<and> ed_Data d = status_payload TurnStatusQueued False [] []
    \<and> Start sv env ctx c s =
      start_reply (so_Admit (sv_store sv) (\<lambda>n. ctx (Suc n)) (start_candidate i c (sv_now sv env)) d s)"
proof -
  obtain d where d: "statusEvent TurnStatusQueued False = Inr d" "EventDraft_Validate d = None"
    "ed_Type d = EventCoreTurnStatus" "ed_Data d = status_payload TurnStatusQueued False [] []"
    using status_draft_valid [of TurnStatusQueued False] by auto
  then show ?thesis
    using assms by (intro exI [of _ d])
      (simp add: start_ready_def Start_def start_def reject_def bind_result_def fail_if_def IsZero_def Let_def
        wrap_error_def)
qed

lemma start_reply_Inr:
  "start_reply x = (Inr r, s') \<longleftrightarrow> (\<exists>a. x = (Inr a, s') \<and> StartAdmissionResult_Validate (admission_of (adm_Turn a)) = None
     \<and> r = \<lparr>sres_Admission = admission_of (adm_Turn a), sres_Turn = adm_Turn a, sres_IdempotentReplay = (\<not> adm_Created a)\<rparr>)"
  by (cases x) (auto simp: start_reply_def reject_Inr_iff wrap_error_def split: sum.split)

lemma start_reply_valid:
  "StartAdmissionResult_Validate (admission_of (adm_Turn a)) = None \<Longrightarrow> start_reply (Inr a, s) =
     (Inr \<lparr>sres_Admission = admission_of (adm_Turn a), sres_Turn = adm_Turn a, sres_IdempotentReplay = (\<not> adm_Created a)\<rparr>, s)"
  by (simp add: start_reply_Inr)

context turn_store
begin

lemma start_known:
  assumes "sv_store sv = S" "inv s" "turn_at s j = Some t" "start_scope c = admit_scope t" "start_ready sv env ctx c i"
  shows "Start sv env ctx c s =
    (if sc_CommandDigest c = t_CommandDigest t
     then (Inr \<lparr>sres_Admission = admission_of t, sres_Turn = t, sres_IdempotentReplay = True\<rparr>, s)
     else (Inl (Wrapf ''admit'' ErrIdempotencyConflict), s))"
proof -
  from Start_ready [OF assms(5)] obtain d where d: "EventDraft_Validate d = None"
    and st: "Start sv env ctx c s =
      start_reply (so_Admit S (\<lambda>n. ctx (Suc n)) (start_candidate i c (sv_now sv env)) d s)"
    unfolding assms(1) by blast
  have "so_Admit S (\<lambda>n. ctx (Suc n)) (start_candidate i c (sv_now sv env)) d s =
      (if t_CommandDigest t = sc_CommandDigest c then (Inr \<lparr>adm_Turn = t, adm_Created = False\<rparr>, s)
       else (Inl (Wrapf ''admit'' ErrIdempotencyConflict), s))"
    using admit_known [of s j t "start_candidate i c (sv_now sv env)" "\<lambda>n. ctx (Suc n)" d] assms d
      start_candidate_ok [of c i "sv_now sv env"]
    by (simp add: start_ready_def numeral_2_eq_2)
  then show ?thesis
    using admission_valid turn_at_id [OF assms(2,3)] by (simp add: st start_reply_valid, simp add: start_reply_def)
qed

lemma start_new:
  assumes "sv_store sv = S" "inv s" "start_ready sv env ctx c i" "turn_at s i = None"
    and "\<And>j t. turn_at s j = Some t \<Longrightarrow> admit_scope t \<noteq> start_scope c"
  shows "\<exists>s' e. Start sv env ctx c s =
      (Inr \<lparr>sres_Admission = admission_of (start_candidate i c (sv_now sv env)),
            sres_Turn = start_candidate i c (sv_now sv env), sres_IdempotentReplay = False\<rparr>, s')
    \<and> turn_at s' i = Some (start_candidate i c (sv_now sv env)) \<and> log_at s' i = [e] \<and> ev_Sequence e = 1
    \<and> ev_Type e = EventCoreTurnStatus \<and> ev_Data e = status_payload TurnStatusQueued False [] []"
proof -
  let ?c = "start_candidate i c (sv_now sv env)"
  have ok: "Turn_Validate ?c = None" "fresh_lifecycle ?c"
    using start_candidate_ok [of c i "sv_now sv env"] assms(3) by (simp_all add: start_ready_def)
  from Start_ready [OF assms(3), of s] obtain d where d: "EventDraft_Validate d = None"
    "ed_Type d = EventCoreTurnStatus" "ed_Data d = status_payload TurnStatusQueued False [] []"
    and st: "Start sv env ctx c s =
      start_reply (so_Admit S (\<lambda>n. ctx (Suc n)) ?c d s)"
    unfolding assms(1) by blast
  have live: "contextError (ctx (Suc 0)) = None" "contextError (ctx (Suc (Suc 0))) = None"
    using assms(3) by (simp_all add: start_ready_def numeral_2_eq_2)
  obtain s' e where "so_Admit S (\<lambda>n. ctx (Suc n)) ?c d s = (Inr \<lparr>adm_Turn = ?c, adm_Created = True\<rparr>, s')"
    "turn_at s' i = Some ?c" "log_at s' i = [e]" "ev_Sequence e = 1" "ev_Type e = ed_Type d" "ev_Data e = ed_Data d"
    using admit_new [of s ?c "\<lambda>n. ctx (Suc n)" d] assms(2,4,5) ok d live by auto
  then show ?thesis using d admission_valid [OF ok(1)] by (simp add: st start_reply_valid)
qed

lemma start_stored:
  assumes "sv_store sv = S" "inv s" "Start sv env ctx c s = (Inr r, s')"
  shows "turn_at s' (t_ID (sres_Turn r)) = Some (sres_Turn r) \<and> admit_scope (sres_Turn r) = start_scope c
    \<and> t_CommandDigest (sres_Turn r) = sc_CommandDigest c \<and> inv s' \<and> store_step S s s'"
proof -
  from assms(1,3) obtain i d a where a:
    "so_Admit S (\<lambda>n. ctx (Suc n)) (start_candidate i c (sv_now sv env)) d s = (Inr a, s')"
    "sres_Turn r = adm_Turn a"
    by (auto simp: Start_def start_def reject_Inr_iff bind_result_Inr_iff Let_def start_reply_Inr)
  from a(1) have "store_step S s s'" by (rule store_step.admit)
  with admit_stored [OF assms(2) a(1)] a(2) step_inv [OF _ assms(2)] show ?thesis by auto
qed

text \<open>A start repeated after any history finds the same Turn, and a different command is refused.\<close>

lemma start_again:
  assumes "sv_store sv = S" "inv s" "Start sv env ctx c s = (Inr r, s1)" "(store_step S)\<^sup>*\<^sup>* s1 s2"
    and "start_ready sv env' ctx' c' i'" "start_scope c' = start_scope c"
  shows "\<exists>t. turn_at s2 (t_ID (sres_Turn r)) = Some t \<and> same_identity t (sres_Turn r)
    \<and> Start sv env' ctx' c' s2 =
      (if sc_CommandDigest c' = sc_CommandDigest c
       then (Inr \<lparr>sres_Admission = admission_of t, sres_Turn = t, sres_IdempotentReplay = True\<rparr>, s2)
       else (Inl (Wrapf ''admit'' ErrIdempotencyConflict), s2))"
proof -
  note st = start_stored [OF assms(1-3)]
  from steps_identity [OF assms(4)] st obtain t where t: "turn_at s2 (t_ID (sres_Turn r)) = Some t"
    "same_identity t (sres_Turn r)" by blast
  moreover have "inv s2" using steps_inv [OF assms(4)] st by blast
  ultimately show ?thesis
    using start_known [OF assms(1) _ t(1) _ assms(5)] st assms(6) by (auto simp: same_identity_def)
qed

end

subsection \<open>Calls of the service are calls of its store\<close>

lemma service_step_store:
  assumes "service_step sv s s'"
  shows "s' = s \<or> store_step (sv_store sv) s s'"
  using assms
proof cases
  case (start env ctx c r)
  then consider "s' = s" | i d x where "start_reply (so_Admit (sv_store sv) (\<lambda>n. ctx (Suc n)) i d s) = (x, s')"
    by (auto simp: Start_def start_def reject_def bind_result_def Let_def split: option.splits sum.splits)
  then show ?thesis
  proof cases
    case (2 i d x)
    obtain a u where a: "so_Admit (sv_store sv) (\<lambda>n. ctx (Suc n)) i d s = (a, u)" by fastforce
    with 2 have "u = s'" by (auto simp: start_reply_def reject_def split: sum.splits option.splits)
    with a show ?thesis by (auto intro: store_step.admit)
  qed simp
next
  case (append ctx i d r)
  then show ?thesis by (auto simp: AppendDomainEvent_def reject_def intro: store_step.append
      split: option.splits if_splits)
next
  case (transition env ctx i to r)
  then show ?thesis by (auto simp: Service_Transition_def reject_def bind_result_def intro: store_step.transition
      split: option.splits sum.splits)
next
  case (cancel env ctx cc r)
  then show ?thesis by (auto simp: Cancel_def reject_def bind_result_def intro: store_step.cancel
      split: option.splits sum.splits)
qed

lemma service_steps_store: "(service_step sv)\<^sup>*\<^sup>* s s' \<Longrightarrow> (store_step (sv_store sv))\<^sup>*\<^sup>* s s'"
  by (induction rule: rtranclp_induct) (auto dest: service_step_store)

subsection \<open>The log reports the status\<close>

text \<open>
  An event of the status type reports a status unless it is the cancellation notice. The last
  report of a Turn's log is the one \<open>statusEvent\<close> writes for the durable status of the Turn, so an
  observer of the log alone knows it.
\<close>

abbreviation cancel_payload :: string where
  "cancel_payload \<equiv> json_object [json_member ''cancellationRequested'' ''true'']"

definition status_report :: "EventEnvelope \<Rightarrow> bool" where
  "status_report e \<longleftrightarrow> ev_Type e = EventCoreTurnStatus \<and> ev_Data e \<noteq> cancel_payload"

definition log_reports :: "Turn \<Rightarrow> EventEnvelope list \<Rightarrow> bool" where
  "log_reports t es \<longleftrightarrow> filter status_report es \<noteq> []
     \<and> ev_Data (last (filter status_report es)) = status_payload (t_Status t) (t_Status t = TurnStatusStopped) [] []"

definition store_reports :: "MemoryStore \<Rightarrow> bool" where
  "store_reports s \<longleftrightarrow> (\<forall>i t. ms_turns s i = Some t \<longrightarrow> log_reports t (log_of s i))"

lemma status_payload_not_cancel: "status_payload status b r d \<noteq> cancel_payload"
proof -
  have "json_string ''status'' = CHR 0x22 # ''status'' @ [CHR 0x22]"
    "json_string ''cancellationRequested'' = CHR 0x22 # ''cancellationRequested'' @ [CHR 0x22]"
    by code_simp+
  then show ?thesis by (simp add: status_payload_def json_object_def json_member_def)
qed

lemma nextEventLocked_draft:
  "nextEventLocked s t d = Inr e \<Longrightarrow> ev_Type e = ed_Type d \<and> ev_Data e = ed_Data d"
  by (auto simp: nextEventLocked_def Let_def dest!: buildEvent_Inr split: if_splits)

lemma log_reports_snoc_status:
  "ev_Type e = EventCoreTurnStatus \<Longrightarrow> ev_Data e = status_payload (t_Status t) (t_Status t = TurnStatusStopped) [] [] \<Longrightarrow>
   log_reports t (es @ [e])"
  by (simp add: log_reports_def status_report_def status_payload_not_cancel)

lemma log_reports_snoc_other: "\<not> status_report e \<Longrightarrow> log_reports t (es @ [e]) = log_reports t es"
  by (simp add: log_reports_def)

lemma log_reports_status_cong: "t_Status t = t_Status u \<Longrightarrow> log_reports t es = log_reports u es"
  by (simp add: log_reports_def)

lemma store_reports_new: "store_reports NewMemoryStore"
  by (simp add: store_reports_def NewMemoryStore_def)

lemma store_reportsD: "store_reports s \<Longrightarrow> ms_turns s i = Some t \<Longrightarrow> log_reports t (log_of s i)"
  by (simp add: store_reports_def)

lemma store_reports_commit:
  assumes "store_reports s" and "log_reports t' (log_of s i @ [e])"
  shows "store_reports (append_event i e (s\<lparr>ms_turns := (ms_turns s)(i \<mapsto> t')\<rparr>))"
  using assms by (auto simp: store_reports_def)

lemma store_reports_admit:
  assumes "store_reports s" "Admit ctx c d s = (r, s')" "ed_Type d = EventCoreTurnStatus"
    "ed_Data d = status_payload TurnStatusQueued False [] []"
  shows "store_reports s'"
proof (cases r)
  case (Inl e)
  with assms(1,2) show ?thesis by (auto dest: op_Inl)
next
  case (Inr a)
  with assms(2) have adm: "Admit ctx c d s = (Inr a, s')" by simp
  show ?thesis
  proof (cases "adm_Created a")
    case True
    with Admit_Inr [OF adm] obtain e where e: "buildEvent c 1 d = Inr e" and c: "t_Status c = TurnStatusQueued"
      and s': "ms_turns s' = (ms_turns s)(t_ID c \<mapsto> c)" "ms_events s' = (ms_events s)(t_ID c \<mapsto> [e])"
      by (auto simp: fresh_lifecycle_def)
    have "log_reports c ([] @ [e])"
      using buildEvent_Inr [OF e] assms(3,4) c by (intro log_reports_snoc_status) simp_all
    with assms(1) s' show ?thesis by (auto simp: store_reports_def)
  next
    case False
    with Admit_Inr(3) [OF adm] assms(1) show ?thesis by simp
  qed
qed

lemma store_reports_append:
  assumes "store_reports s" "AppendEvent ctx i d s = (r, s')" "ed_Type d \<noteq> EventCoreTurnStatus"
  shows "store_reports s'"
proof (cases r)
  case (Inr e)
  with assms(2) AppendEvent_Inr obtain t where t: "ms_turns s i = Some t" "nextEventLocked s t d = Inr e"
    "s' = append_event i e s" by blast
  then have "\<not> status_report e" using assms(3) nextEventLocked_draft [OF t(2)] by (simp add: status_report_def)
  with store_reportsD [OF assms(1) t(1)] have "log_reports t (log_of s i @ [e])" by (simp add: log_reports_snoc_other)
  from store_reports_commit [OF assms(1) this] t(1,3) show ?thesis by (simp add: fun_upd_idem)
qed (use assms in \<open>auto dest: op_Inl\<close>)

lemma store_reports_transition:
  assumes "store_reports s" "Transition ctx i to now d s = (r, s')" "ed_Type d = EventCoreTurnStatus"
    "ed_Data d = status_payload to (to = TurnStatusStopped) [] []"
  shows "store_reports s'"
proof (cases r)
  case (Inr a)
  with assms(2) Transition_Inr obtain t where t: "ms_turns s i = Some t"
    "tres_Changed a \<Longrightarrow> \<exists>e. nextEventLocked s (transitioned t to now) d = Inr e
       \<and> s' = append_event i e (s\<lparr>ms_turns := (ms_turns s)(i \<mapsto> transitioned t to now)\<rparr>)"
    "\<not> tres_Changed a \<Longrightarrow> s' = s" by meson
  show ?thesis
  proof (cases "tres_Changed a")
    case True
    with t(2) obtain e where e: "nextEventLocked s (transitioned t to now) d = Inr e"
      "s' = append_event i e (s\<lparr>ms_turns := (ms_turns s)(i \<mapsto> transitioned t to now)\<rparr>)" by blast
    have "log_reports (transitioned t to now) (log_of s i @ [e])"
      using nextEventLocked_draft [OF e(1)] assms(3,4) by (intro log_reports_snoc_status) simp_all
    from store_reports_commit [OF assms(1) this] e(2) show ?thesis by simp
  qed (use t(3) assms(1) in simp)
qed (use assms in \<open>auto dest: op_Inl\<close>)

lemma store_reports_cancel:
  assumes "store_reports s" "RequestCancel ctx p th i now d s = (r, s')" "ed_Data d = cancel_payload"
  shows "store_reports s'"
proof (cases r)
  case (Inr a)
  with assms(2) RequestCancel_Inr obtain t where t: "ms_turns s i = Some t"
    "cres_NewlyRequested a \<Longrightarrow> \<exists>e. nextEventLocked s (cancelled t now) d = Inr e
       \<and> s' = append_event i e (s\<lparr>ms_turns := (ms_turns s)(i \<mapsto> cancelled t now)\<rparr>)"
    "\<not> cres_NewlyRequested a \<Longrightarrow> s' = s" by meson
  show ?thesis
  proof (cases "cres_NewlyRequested a")
    case True
    with t(2) obtain e where e: "nextEventLocked s (cancelled t now) d = Inr e"
      "s' = append_event i e (s\<lparr>ms_turns := (ms_turns s)(i \<mapsto> cancelled t now)\<rparr>)" by blast
    then have "\<not> status_report e" using assms(3) nextEventLocked_draft [OF e(1)] by (simp add: status_report_def)
    then have "log_reports (cancelled t now) (log_of s i @ [e])"
      using store_reportsD [OF assms(1) t(1)]
      by (simp add: log_reports_snoc_other log_reports_status_cong [of "cancelled t now" t])
    from store_reports_commit [OF assms(1) this] e(2) show ?thesis by simp
  qed (use t(3) assms(1) in simp)
qed (use assms in \<open>auto dest: op_Inl\<close>)

lemma service_step_reports:
  assumes "service_step sv s s'" "sv_store sv = MemoryStore_methods" "store_reports s"
  shows "store_reports s'"
  using assms(1)
proof cases
  case (start env ctx c r)
  obtain d where d: "statusEvent TurnStatusQueued False = Inr d" "ed_Type d = EventCoreTurnStatus"
    "ed_Data d = status_payload TurnStatusQueued False [] []"
    using status_draft_valid [of TurnStatusQueued False] by auto
  with start assms(2) consider "s' = s" | i x where "start_reply (Admit (\<lambda>n. ctx (Suc n)) i d s) = (x, s')"
    by (auto simp: Start_def start_def reject_def bind_result_def Let_def split: option.splits sum.splits)
  then show ?thesis
  proof cases
    case (2 i x)
    obtain a u where a: "Admit (\<lambda>n. ctx (Suc n)) i d s = (a, u)" by fastforce
    with 2 have "u = s'" by (auto simp: start_reply_def reject_def split: sum.splits option.splits)
    with store_reports_admit [OF assms(3) a d(2,3)] show ?thesis by simp
  qed (use assms(3) in simp)
next
  case (append ctx i d r)
  have "ed_Type d \<noteq> EventCoreTurnStatus" if "\<not> HasPrefix (ed_Type d) ''core.''"
    using that by (auto simp: HasPrefix_def)
  with append assms(2,3) show ?thesis
    by (auto simp: AppendDomainEvent_def reject_def intro: store_reports_append split: option.splits if_splits)
next
  case (transition env ctx i to r)
  then consider "s' = s" | d where "statusEvent to (to = TurnStatusStopped) = Inr d" "TurnStatus_Valid to"
      "Transition ctx i to (sv_now sv env) d s = (r, s')"
    using assms(2) by (auto simp: Service_Transition_def reject_def bind_result_def fail_if_def
        split: option.splits sum.splits if_splits)
  then show ?thesis
  proof cases
    case (2 d)
    with status_draft_valid [of to "to = TurnStatusStopped"] store_reports_transition [OF assms(3) 2(3)]
    show ?thesis by auto
  qed (use assms(3) in simp)
next
  case (cancel env ctx cc r)
  obtain d where d: "cancelRequestedEvent = Inr d" "ed_Data d = cancel_payload"
    using cancel_draft_valid by blast
  show ?thesis
  proof (cases "CancelCommand_Validate cc")
    case None
    have "RequestCancel ctx (cc_PrincipalID cc) (cc_ThreadID cc)
        (cr_TurnID (cc_Request cc)) (sv_now sv env) d s = (r, s')"
      using cancel assms(2) None unfolding Cancel_def d(1) by (simp add: reject_def bind_result_def)
    from store_reports_cancel [OF assms(3) this d(2)] show ?thesis .
  qed (use cancel assms(3) in \<open>simp add: Cancel_def reject_def\<close>)
qed

lemma service_steps_reports:
  "(service_step sv)\<^sup>*\<^sup>* s s' \<Longrightarrow> sv_store sv = MemoryStore_methods \<Longrightarrow> store_reports s \<Longrightarrow> store_reports s'"
  by (induction rule: rtranclp_induct) (auto intro: service_step_reports)

subsection \<open>Stopping a cancelled Turn\<close>

lemma transition_stop:
  assumes "store_ok s" "ms_turns s i = Some t" "\<not> TurnStatus_Terminal (t_Status t)" "t_CancelRequestedAt t \<noteq> None"
    and "t_UpdatedAt t \<le> sv_now sv env" "sv_now sv env \<noteq> 0" "length (log_of s i) < unat MaxDurableSequence"
    and "contextError (ctx 0) = None" "contextError (ctx 1) = None" "sv_store sv = MemoryStore_methods"
  shows "\<exists>r s'. Service_Transition sv env ctx i TurnStatusStopped s = (Inr r, s')
    \<and> tres_Changed r \<and> ms_turns s' i = Some (tres_Turn r) \<and> t_Status (tres_Turn r) = TurnStatusStopped"
proof -
  from store_okD [OF assms(1,2)] have v: "Turn_Validate t = None" "t_ID t = i" by (auto simp: turn_ok_def)
  then have path: "validatePathSegment ''turnId'' i MaxTurnIDBytes = None"
    by (simp add: Turn_Validate_def first_error_None_iff)
  have can: "CanTransition (t_Status t) TurnStatusStopped" "t_Status t \<noteq> TurnStatusStopped"
    using open_status_cases [OF v(1) assms(3)] by (auto simp: CanTransition_iff)
  obtain d where d: "statusEvent TurnStatusStopped True = Inr d" "EventDraft_Validate d = None"
    using status_draft_valid [of TurnStatusStopped True] by auto
  from Transition_succeeds [OF assms(1,2) can(1,2) _ assms(5,6) d(2) assms(7-9)] assms(4)
  obtain r s' where r: "Transition ctx i TurnStatusStopped (sv_now sv env) d s = (Inr r, s')" "tres_Changed r"
    by auto
  from memory.transition_result [unfolded MemoryStore_methods_sel, OF r(1)] r d(1) path assms(10) show ?thesis
    by (auto simp: Service_Transition_def reject_def bind_result_def fail_if_def)
qed

subsection \<open>Properties of the service over the reference store\<close>

definition sample_service :: "(MemoryStore, unit) Service" where
  "sample_service = \<lparr>sv_store = MemoryStore_methods, sv_newTurnID = randomTurnID, sv_now = env_now,
     sv_replayPageLimit = 256\<rparr>"

definition sample_env :: go_env where
  "sample_env = \<lparr>env_entropy = Inr ''0123456789abcdef'', env_now = 20\<rparr>"

definition sample_command :: StartCommand where
  "sample_command = \<lparr>sc_PrincipalID = ''alice'',
     sc_Request = \<lparr>sr_ThreadID = ''thread-1'', sr_IdempotencyKey = ''key-1''\<rparr>, sc_CommandDigest = ''sha256:0'',
     sc_Plugin = \<lparr>pr_ID = ''p'', pr_Version = ''1'', pr_ReleaseDigest = ''d''\<rparr>\<rparr>"

abbreviation sample_minted :: TurnID where
  "sample_minted \<equiv> ''turn_30313233343536373839616263646566''"

lemma sample_start_ready:
  "start_ready sample_service sample_env live_ctx sample_command sample_minted"
proof -
  have "StartCommand_Validate sample_command = None"
    "randomTurnID sample_env = Inr sample_minted" "validatePathSegment ''turnId'' sample_minted MaxTurnIDBytes = None"
    by code_simp+
  then show ?thesis by (simp add: start_ready_def live_ctx_def sample_service_def sample_env_def)
qed

lemma sample_service_store [simp]: "sv_store sample_service = MemoryStore_methods"
  by (simp add: sample_service_def)

lemma sample_started:
  "\<exists>r s'. Start sample_service sample_env live_ctx sample_command NewMemoryStore = (Inr r, s')"
  using memory.start_new [OF sample_service_store store_ok_new sample_start_ready]
  by (auto simp: NewMemoryStore_def)

text \<open>
  C7. Admission: a valid command in a fresh idempotency scope with a fresh minted id is always
  admitted. The answer carries the queued Turn and its stream URL, and the store then holds
  exactly that Turn with one event, the queued status event with sequence 1.
\<close>

theorem start_admits:
  assumes "sv_store sv = MemoryStore_methods" "store_ok s" "start_ready sv env ctx c i" "ms_turns s i = None"
    and "\<And>j t. ms_turns s j = Some t \<Longrightarrow> admit_scope t \<noteq> start_scope c"
  shows "\<exists>s' e. Start sv env ctx c s =
      (Inr \<lparr>sres_Admission = admission_of (start_candidate i c (sv_now sv env)),
            sres_Turn = start_candidate i c (sv_now sv env), sres_IdempotentReplay = False\<rparr>, s')
    \<and> store_ok s' \<and> ms_turns s' i = Some (start_candidate i c (sv_now sv env)) \<and> log_of s' i = [e]
    \<and> ev_Sequence e = 1 \<and> ev_Type e = EventCoreTurnStatus
    \<and> ev_Data e = status_payload TurnStatusQueued False [] []"
  using memory.start_new [OF assms] memory.start_stored [OF assms(1,2)] by meson

theorem start_admits_witness:
  "\<exists>s' e. Start sample_service sample_env live_ctx sample_command NewMemoryStore =
      (Inr \<lparr>sres_Admission = admission_of (start_candidate sample_minted sample_command (sv_now sample_service sample_env)),
            sres_Turn = start_candidate sample_minted sample_command (sv_now sample_service sample_env),
            sres_IdempotentReplay = False\<rparr>, s')
    \<and> store_ok s' \<and> ms_turns s' sample_minted
        = Some (start_candidate sample_minted sample_command (sv_now sample_service sample_env))
    \<and> log_of s' sample_minted = [e] \<and> ev_Sequence e = 1 \<and> ev_Type e = EventCoreTurnStatus
    \<and> ev_Data e = status_payload TurnStatusQueued False [] []"
  by (rule start_admits [OF sample_service_store store_ok_new sample_start_ready]) (simp_all add: NewMemoryStore_def)

text \<open>
  C8. Admission is idempotent over any history: once a start has succeeded, a later start
  in the same scope after any calls on the store returns the same Turn (its current row) as
  an idempotent replay when the command digest agrees and an idempotency conflict otherwise, and
  changes nothing in either case.
\<close>

theorem start_idempotent:
  assumes "sv_store sv = MemoryStore_methods" "store_ok s" "Start sv env ctx c s = (Inr r, s1)"
    and "mem_step\<^sup>*\<^sup>* s1 s2" "start_ready sv env' ctx' c' i'" "start_scope c' = start_scope c"
  shows "\<exists>t. ms_turns s2 (t_ID (sres_Turn r)) = Some t \<and> same_identity t (sres_Turn r)
    \<and> Start sv env' ctx' c' s2 =
      (if sc_CommandDigest c' = sc_CommandDigest c
       then (Inr \<lparr>sres_Admission = admission_of t, sres_Turn = t, sres_IdempotentReplay = True\<rparr>, s2)
       else (Inl (Wrapf ''admit'' ErrIdempotencyConflict), s2))"
proof -
  have "store_step (MemoryStore_methods :: (MemoryStore, 'a) Store) = mem_step"
    by (intro ext) (simp add: store_step_memory)
  with assms(4) have "(store_step (MemoryStore_methods :: (MemoryStore, 'a) Store))\<^sup>*\<^sup>* s1 s2" by simp
  from memory.start_again [OF assms(1-3) this assms(5,6)] show ?thesis .
qed

theorem start_idempotent_witness:
  "\<exists>r s1 t. Start sample_service sample_env live_ctx sample_command NewMemoryStore = (Inr r, s1)
    \<and> Start sample_service sample_env live_ctx sample_command s1
      = (Inr \<lparr>sres_Admission = admission_of t, sres_Turn = t, sres_IdempotentReplay = True\<rparr>, s1)"
proof -
  obtain r s1 where st: "Start sample_service sample_env live_ctx sample_command NewMemoryStore = (Inr r, s1)"
    using sample_started by blast
  from start_idempotent [OF sample_service_store store_ok_new this rtranclp.rtrancl_refl sample_start_ready refl] st
  show ?thesis by auto
qed

text \<open>
  Cancellation records intent only: a successful cancel leaves the status as it was and
  records the request on an open Turn of that owner; from there the Turn can always be stopped, at
  any later clock reading, as long as the log has room.
\<close>

theorem cancel_then_stop:
  assumes "sv_store sv = MemoryStore_methods" "store_ok s" "Cancel sv env ctx c s = (Inr r, s1)"
    and "\<not> TurnStatus_Terminal (t_Status (cres_Turn r))"
    and "t_UpdatedAt (cres_Turn r) \<le> sv_now sv env'" "sv_now sv env' \<noteq> 0"
    and "length (log_of s1 (cr_TurnID (cc_Request c))) < unat MaxDurableSequence"
    and "contextError (ctx' 0) = None" "contextError (ctx' 1) = None"
  shows "(\<exists>t. ms_turns s (cr_TurnID (cc_Request c)) = Some t \<and> t_PrincipalID t = cc_PrincipalID c
        \<and> t_ThreadID t = cc_ThreadID c \<and> t_Status (cres_Turn r) = t_Status t)
    \<and> ms_turns s1 (cr_TurnID (cc_Request c)) = Some (cres_Turn r) \<and> t_CancelRequestedAt (cres_Turn r) \<noteq> None
    \<and> (\<exists>r2 s2. Service_Transition sv env' ctx' (cr_TurnID (cc_Request c)) TurnStatusStopped s1 = (Inr r2, s2)
        \<and> tres_Changed r2 \<and> ms_turns s2 (cr_TurnID (cc_Request c)) = Some (tres_Turn r2)
        \<and> t_Status (tres_Turn r2) = TurnStatusStopped)"
proof -
  from assms(1,3) obtain d where ca: "RequestCancel ctx (cc_PrincipalID c) (cc_ThreadID c)
      (cr_TurnID (cc_Request c)) (sv_now sv env) d s = (Inr r, s1)"
    by (auto simp: Cancel_def reject_Inr_iff bind_result_Inr_iff)
  note res = memory.cancel_result [unfolded MemoryStore_methods_sel, OF ca]
  with assms(4) have now: "ms_turns s1 (cr_TurnID (cc_Request c)) = Some (cres_Turn r)"
    "t_CancelRequestedAt (cres_Turn r) \<noteq> None" by auto
  have "store_ok s1" by (rule mem_step_store_ok [OF mem_step.cancel [OF ca] assms(2)])
  from transition_stop [OF this now(1) assms(4) now(2) assms(5-9) assms(1)] res now show ?thesis by auto
qed

theorem cancel_then_stop_witness:
  "\<exists>r s1 r2 s2. Cancel sample_service sample_env live_ctx
       \<lparr>cc_PrincipalID = ''alice'', cc_ThreadID = ''thread-1'', cc_Request = \<lparr>cr_TurnID = ''turn-1''\<rparr>\<rparr> sample_store = (Inr r, s1)
    \<and> Service_Transition sample_service (sample_env\<lparr>env_now := 30\<rparr>) live_ctx ''turn-1'' TurnStatusStopped s1 = (Inr r2, s2)
    \<and> t_Status (tres_Turn r2) = TurnStatusStopped"
proof -
  let ?c = "\<lparr>cc_PrincipalID = ''alice'', cc_ThreadID = ''thread-1'', cc_Request = \<lparr>cr_TurnID = ''turn-1''\<rparr>\<rparr>"
  obtain d where d: "cancelRequestedEvent = Inr d" "EventDraft_Validate d = None" using cancel_draft_valid by blast
  have own: "t_PrincipalID sample_turn = ''alice''" "t_ThreadID sample_turn = ''thread-1''"
    "t_UpdatedAt sample_turn \<le> 20" "\<not> TurnStatus_Terminal (t_Status sample_turn)" by code_simp+
  from RequestCancel_succeeds [OF sample_store_ok sample_store_turn(2) own(3) _ d(2), of live_ctx]
  obtain r s1 where r: "RequestCancel live_ctx ''alice'' ''thread-1'' ''turn-1'' 20 d sample_store = (Inr r, s1)"
    "t_UpdatedAt (cres_Turn r) \<le> 20" "length (log_of s1 ''turn-1'') \<le> 2" "t_Status (cres_Turn r) = t_Status sample_turn"
    by (auto simp: own sample_store_turn(3) unat_MaxDurableSequence live_ctx_def)
  have "CancelCommand_Validate ?c = None" by code_simp
  then have ca: "Cancel sample_service sample_env live_ctx ?c sample_store = (Inr r, s1)"
    using r(1) unfolding Cancel_def d(1) by (simp add: reject_def bind_result_def sample_service_def sample_env_def)
  have "sv_now sample_service (sample_env\<lparr>env_now := 30\<rparr>) = 30" "contextError (live_ctx n) = None" for n
    by (simp_all add: sample_service_def live_ctx_def)
  with cancel_then_stop [OF sample_service_store sample_store_ok ca, of "sample_env\<lparr>env_now := 30\<rparr>" live_ctx] r own
  show ?thesis by (auto simp: ca unat_MaxDurableSequence)
qed

text \<open>
  C9. The log tells the status: in every state a service over the reference store reaches, the
  last status report in the log of a Turn, cancellation notices aside, is the payload of its durable
  status. Domain events cannot forge one, since \<open>core.\<close> event types are refused.
\<close>

theorem log_tells_status:
  assumes "sv_store sv = MemoryStore_methods" "(service_step sv)\<^sup>*\<^sup>* NewMemoryStore s" "ms_turns s i = Some t"
  shows "filter status_report (log_of s i) \<noteq> []
    \<and> ev_Data (last (filter status_report (log_of s i)))
      = status_payload (t_Status t) (t_Status t = TurnStatusStopped) [] []"
  using store_reportsD [OF service_steps_reports [OF assms(2,1) store_reports_new] assms(3)]
  by (simp add: log_reports_def)

theorem log_tells_status_witness:
  "\<exists>s t. ms_turns s sample_minted = Some t \<and> filter status_report (log_of s sample_minted) \<noteq> []
    \<and> ev_Data (last (filter status_report (log_of s sample_minted)))
      = status_payload (t_Status t) (t_Status t = TurnStatusStopped) [] []"
proof -
  obtain r s1 where st: "Start sample_service sample_env live_ctx sample_command NewMemoryStore = (Inr r, s1)"
    and t: "ms_turns s1 sample_minted \<noteq> None"
    using memory.start_new [OF sample_service_store store_ok_new sample_start_ready]
    by (auto simp: NewMemoryStore_def)
  have "(service_step sample_service)\<^sup>*\<^sup>* NewMemoryStore s1"
    using service_step.start [OF st] by (rule r_into_rtranclp)
  from log_tells_status [OF sample_service_store this] t show ?thesis by blast
qed

end
