(* ===== verification/Event_Stream.thy ===== *)
theory Event_Stream
  imports Turn_Store
begin

text \<open>
  Replay-to-live observation of a Turn, \<^verbatim>\<open>server/service/agentturn/event_stream.go\<close>: the
  wake-up broker, the stream options, and a subscription with its \<open>Next\<close> loop.

  A subscription is used by one goroutine; the store moves on meanwhile. One pass of the loop in
  \<^verbatim>\<open>Next\<close> is \<open>next_iter\<close>, and what the environment shows it is a \<open>stream_iter\<close>: whether the
  subscription has been closed, the context, the store state the page is read from and what
  ends the wait. \<open>Next\<close> runs over a list of such observations; it returns no outcome when the list
  ends while the loop still waits. A channel with one buffered slot is a flag; a broker holds the
  channels of its waiters by number.
\<close>

subsection \<open>The broker\<close>

record TurnEventBroker =
  br_waiters :: "TurnID \<rightharpoonup> nat list"
  br_pending :: "nat \<Rightarrow> bool"
  br_made :: nat

definition NewTurnEventBroker :: TurnEventBroker where
  "NewTurnEventBroker = \<lparr>br_waiters = Map.empty, br_pending = (\<lambda>_. False), br_made = 0\<rparr>"

definition Watch :: "TurnID \<Rightarrow> TurnEventBroker \<Rightarrow> nat \<times> TurnEventBroker" where
  "Watch turnID b =
     (let signal = br_made b in
      (signal, b\<lparr>br_waiters := (br_waiters b)(turnID \<mapsto> map_get [] (br_waiters b) turnID @ [signal]),
                 br_pending := (br_pending b)(signal := False), br_made := Suc signal\<rparr>))"

definition release :: "TurnID \<Rightarrow> nat \<Rightarrow> TurnEventBroker \<Rightarrow> TurnEventBroker" where
  "release turnID signal b =
     (let remaining = filter (\<lambda>candidate. candidate \<noteq> signal) (map_get [] (br_waiters b) turnID)
      in b\<lparr>br_waiters := (br_waiters b)(turnID := if remaining = [] then None else Some remaining)\<rparr>)"

definition NotifyTurnEvent :: "TurnID \<Rightarrow> TurnEventBroker \<Rightarrow> TurnEventBroker" where
  "NotifyTurnEvent turnID b =
     b\<lparr>br_pending := fold (\<lambda>signal p. p(signal := True)) (map_get [] (br_waiters b) turnID) (br_pending b)\<rparr>"

subsection \<open>Options\<close>

definition DefaultStreamPollInterval :: duration where "DefaultStreamPollInterval = 250000000"
definition MaxStreamPollInterval :: duration where "MaxStreamPollInterval = 10 * Second"
definition DefaultStreamPageLimit :: int where "DefaultStreamPageLimit = 64"

text \<open>The optional broker is a flag here: whether one is configured.\<close>

record EventStreamOptions =
  eo_PollInterval :: duration
  eo_PageLimit :: int
  eo_Broker :: bool

definition applyDefaults :: "EventStreamOptions \<Rightarrow> EventStreamOptions" where
  "applyDefaults o1 =
     (let o2 = (if eo_PollInterval o1 \<le> 0 then o1\<lparr>eo_PollInterval := DefaultStreamPollInterval\<rparr> else o1)
      in (if eo_PageLimit o2 \<le> 0 then o2\<lparr>eo_PageLimit := DefaultStreamPageLimit\<rparr> else o2))"

definition EventStreamOptions_Validate :: "EventStreamOptions \<Rightarrow> go_error option" where
  "EventStreamOptions_Validate options = first_error
     [fail_if (eo_PollInterval options \<le> 0 \<or> eo_PollInterval options > MaxStreamPollInterval)
        (Errorf ''pollInterval is out of range''),
      ReplayQuery_Validate \<lparr>rq_Cursor = \<lparr>rc_LastEventID = [], rc_AfterSequence = None\<rparr>,
                            rq_Limit = eo_PageLimit options\<rparr>]"

subsection \<open>Streams and subscriptions\<close>

type_synonym 's ReplayReader =
  "go_context \<Rightarrow> PrincipalID \<Rightarrow> ThreadID \<Rightarrow> TurnID \<Rightarrow> ReplayQuery \<Rightarrow> 's \<Rightarrow> ReplayRecord result"

record 's TurnEventStream =
  es_reader :: "'s ReplayReader"
  es_options :: EventStreamOptions

definition NewTurnEventStream :: "'s ReplayReader option \<Rightarrow> EventStreamOptions \<Rightarrow> 's TurnEventStream result" where
  "NewTurnEventStream reader options =
     (case reader of
        None \<Rightarrow> Inl (Errorf ''turn event stream requires a replay reader'')
      | Some rd \<Rightarrow>
     (case EventStreamOptions_Validate (applyDefaults options) of
        Some e \<Rightarrow> Inl e
      | None \<Rightarrow> Inr \<lparr>es_reader = rd, es_options = applyDefaults options\<rparr>))"

record 's TurnSubscription =
  sb_stream :: "'s TurnEventStream"
  sb_principalID :: PrincipalID
  sb_threadID :: ThreadID
  sb_turnID :: TurnID
  sb_cursor :: Sequence
  sb_buffered :: "EventEnvelope list"
  sb_latest :: Sequence
  sb_terminal :: bool
  sb_closed :: bool

definition Subscribe ::
  "'s TurnEventStream \<Rightarrow> go_context \<Rightarrow> AttachCommand \<Rightarrow> 's \<Rightarrow> 's TurnSubscription result"
where
  "Subscribe stream ctx command s =
     (case first_error [contextError (ctx 0), AttachCommand_Validate command] of
        Some e \<Rightarrow> Inl e
      | None \<Rightarrow>
     (case es_reader stream (\<lambda>n. ctx (Suc n)) (ac_PrincipalID command) (ac_ThreadID command)
             (ar_TurnID (ac_Request command))
             \<lparr>rq_Cursor = ar_Cursor (ac_Request command), rq_Limit = eo_PageLimit (es_options stream)\<rparr> s of
        Inl e \<Rightarrow> Inl e
      | Inr first \<Rightarrow> Inr
          \<lparr>sb_stream = stream, sb_principalID = ac_PrincipalID command, sb_threadID = ac_ThreadID command,
           sb_turnID = ar_TurnID (ac_Request command), sb_cursor = rr_AfterSequence first,
           sb_buffered = rr_Events first, sb_latest = rw_LatestSequence (rr_Window first),
           sb_terminal = TurnStatus_Terminal (t_Status (rr_Turn first)), sb_closed = False\<rparr>))"

definition advance :: "go_context \<Rightarrow> 's \<Rightarrow> 's TurnSubscription \<Rightarrow> bool result \<times> 's TurnSubscription" where
  "advance ctx s sub =
     (case es_reader (sb_stream sub) ctx (sb_principalID sub) (sb_threadID sub) (sb_turnID sub)
             \<lparr>rq_Cursor = \<lparr>rc_LastEventID = [], rc_AfterSequence = Some (sb_cursor sub)\<rparr>,
              rq_Limit = eo_PageLimit (es_options (sb_stream sub))\<rparr> s of
        Inl e \<Rightarrow> (Inl e, sub)
      | Inr r \<Rightarrow>
          let sub' = sub\<lparr>sb_latest := rw_LatestSequence (rr_Window r),
                         sb_terminal := TurnStatus_Terminal (t_Status (rr_Turn r))\<rparr>
          in if rr_Events r = [] then (Inr False, sub')
             else (Inr True, sub'\<lparr>sb_buffered := sb_buffered sub' @ rr_Events r\<rparr>))"

fun pop_buffer :: "Sequence \<Rightarrow> EventEnvelope list \<Rightarrow> EventEnvelope option \<times> EventEnvelope list" where
  "pop_buffer cursor [] = (None, [])"
| "pop_buffer cursor (event # rest) =
     (if ev_Sequence event \<le> cursor then pop_buffer cursor rest else (Some event, rest))"

definition pop :: "'s TurnSubscription \<Rightarrow> EventEnvelope option \<times> 's TurnSubscription" where
  "pop sub =
     (case pop_buffer (sb_cursor sub) (sb_buffered sub) of
        (None, rest) \<Rightarrow> (None, sub\<lparr>sb_buffered := rest\<rparr>)
      | (Some event, rest) \<Rightarrow> (Some event, sub\<lparr>sb_buffered := rest, sb_cursor := ev_Sequence event\<rparr>))"

definition finished :: "'s TurnSubscription \<Rightarrow> bool" where
  "finished sub \<longleftrightarrow> sb_terminal sub \<and> length (sb_buffered sub) = 0 \<and> sb_cursor sub \<ge> sb_latest sub"

definition Close :: "'s TurnSubscription \<Rightarrow> 's TurnSubscription" where
  "Close sub = sub\<lparr>sb_closed := True\<rparr>"

subsection \<open>Next\<close>

datatype stream_wake = WakeSignal | WakeTimer | WakeDone go_error

record 's stream_iter =
  it_closed :: bool
  it_ctx :: go_context
  it_store :: 's
  it_wake :: stream_wake

text \<open>What a pass does towards the broker and the store, in order.\<close>

datatype stream_act = ActWatch | ActRead | ActWait | ActRelease

definition watched :: "'s TurnSubscription \<Rightarrow> stream_act list \<Rightarrow> stream_act list" where
  "watched sub acts = (if eo_Broker (es_options (sb_stream sub)) then ActWatch # acts @ [ActRelease] else acts)"

definition next_iter ::
  "'s TurnSubscription \<Rightarrow> 's stream_iter \<Rightarrow> stream_act list \<times> 's TurnSubscription \<times> EventEnvelope result option"
where
  "next_iter sub0 it =
     (let sub = (if it_closed it then Close sub0 else sub0) in
      if sb_closed sub then ([], sub, Some (Inl ErrSubscriptionClosed))
      else case contextError (it_ctx it 0) of
        Some e \<Rightarrow> ([], sub, Some (Inl e))
      | None \<Rightarrow>
     (case pop sub of
        (Some event, sub1) \<Rightarrow> ([], sub1, Some (Inr event))
      | (None, sub1) \<Rightarrow>
          if finished sub1 then ([], sub1, Some (Inl IoEOF))
          else case advance (\<lambda>n. it_ctx it (Suc n)) (it_store it) sub1 of
            (Inl e, sub2) \<Rightarrow> (watched sub [ActRead], sub2, Some (Inl e))
          | (Inr True, sub2) \<Rightarrow> (watched sub [ActRead], sub2, None)
          | (Inr False, sub2) \<Rightarrow>
              (watched sub [ActRead, ActWait], sub2,
               case it_wake it of WakeDone e \<Rightarrow> Some (Inl e) | _ \<Rightarrow> None)))"

fun Next ::
  "'s TurnSubscription \<Rightarrow> 's stream_iter list
     \<Rightarrow> stream_act list \<times> 's TurnSubscription \<times> EventEnvelope result option"
where
  "Next sub [] = ([], sub, None)"
| "Next sub (it # its) =
     (case next_iter sub it of
        (acts, sub', Some r) \<Rightarrow> (acts, sub', Some r)
      | (acts, sub', None) \<Rightarrow> (case Next sub' its of (acts', out) \<Rightarrow> (acts @ acts', out)))"

text \<open>The events a sequence of calls of \<open>Next\<close> hands out; the caller may go on after an error.\<close>

fun deliveries ::
  "'s TurnSubscription \<Rightarrow> 's stream_iter list list \<Rightarrow> EventEnvelope list \<times> 's TurnSubscription"
where
  "deliveries sub [] = ([], sub)"
| "deliveries sub (call # calls) =
     (case Next sub call of
        (acts, sub', Some (Inr e)) \<Rightarrow> (case deliveries sub' calls of (es, z) \<Rightarrow> (e # es, z))
      | (acts, sub', _) \<Rightarrow> deliveries sub' calls)"

subsection \<open>The position of an observer\<close>

text \<open>
  Against the row \<open>t\<close> and the log \<open>es\<close>: from the start \<open>a\<close> the events \<open>ds\<close> have been handed out,
  they are the log right after \<open>a\<close>, the buffer continues them, and a terminal mark means that the
  log is complete.
\<close>

definition sub_ok :: "Turn \<Rightarrow> EventEnvelope list \<Rightarrow> 's TurnSubscription \<Rightarrow> Sequence \<Rightarrow> EventEnvelope list \<Rightarrow> bool" where
  "sub_ok t es sub a ds \<longleftrightarrow>
     t_PrincipalID t = sb_principalID sub \<and> t_ThreadID t = sb_threadID sub
     \<and> 0 < eo_PageLimit (es_options (sb_stream sub)) \<and> eo_PageLimit (es_options (sb_stream sub)) \<le> 1000
     \<and> unat a + length ds \<le> length es \<and> unat (sb_cursor sub) = unat a + length ds
     \<and> ds = take (length ds) (drop (unat a) es)
     \<and> prefix (sb_buffered sub) (drop (unat a + length ds) es)
     \<and> (sb_terminal sub \<longrightarrow> TurnStatus_Terminal (t_Status t) \<and> unat (sb_latest sub) = length es)"

lemma prefix_drop: "prefix xs ys \<Longrightarrow> n \<le> length xs \<Longrightarrow> prefix (drop n xs) (drop n ys)"
  by (auto simp: prefix_def)

lemma sub_ok_evolves:
  assumes "sub_ok t es sub a ds" "evolves t es t' es'"
  shows "sub_ok t' es' sub a ds"
proof -
  from assms have pre: "prefix es es'" and le: "unat a + length ds \<le> length es"
    by (auto simp: evolves_def sub_ok_def)
  from pre obtain zs where es': "es' = es @ zs" by (auto simp: prefix_def)
  with le have tk: "take (length ds) (drop (unat a) es') = take (length ds) (drop (unat a) es)" by simp
  have "prefix (drop (unat a + length ds) es) (drop (unat a + length ds) es')"
    using pre le by (rule prefix_drop)
  with assms le show ?thesis
    unfolding sub_ok_def tk
    by (auto simp: evolves_def same_identity_def admit_scope_def es' intro: prefix_order.trans)
qed

lemma sub_ok_closed [simp]: "sub_ok t es (Close sub) a ds = sub_ok t es sub a ds"
  by (simp add: sub_ok_def Close_def)

text \<open>The first buffered event is the next event of the log.\<close>

lemma sub_ok_buffered:
  assumes "sub_ok t es sub a ds" "log_ok t es" "sb_buffered sub = e # rest"
  shows "e = es ! (unat a + length ds)" "unat a + length ds < length es"
    "unat (ev_Sequence e) = Suc (unat a + length ds)"
proof -
  from assms obtain zs where d: "drop (unat a + length ds) es = e # rest @ zs"
    by (auto simp: sub_ok_def prefix_def)
  then show lt: "unat a + length ds < length es" by (metis drop_all linorder_not_less list.distinct(1))
  with d show e: "e = es ! (unat a + length ds)" by (metis hd_drop_conv_nth list.sel(1))
  show "unat (ev_Sequence e) = Suc (unat a + length ds)"
    unfolding e by (rule log_ok_unat [OF assms(2) lt])
qed

lemma pop_sub_ok:
  assumes ok: "sub_ok t es sub a ds" and log: "log_ok t es"
  shows "sb_buffered sub = [] \<Longrightarrow> pop sub = (None, sub)"
    and "sb_buffered sub \<noteq> [] \<Longrightarrow> \<exists>sub'. pop sub = (Some (es ! (unat a + length ds)), sub')
      \<and> unat a + length ds < length es
      \<and> sub_ok t es sub' a (ds @ [es ! (unat a + length ds)]) \<and> sb_turnID sub' = sb_turnID sub
      \<and> sb_stream sub' = sb_stream sub"
proof -
  show "sb_buffered sub = [] \<Longrightarrow> pop sub = (None, sub)" by (simp add: pop_def)
  assume "sb_buffered sub \<noteq> []"
  then obtain e rest where b: "sb_buffered sub = e # rest" by (cases "sb_buffered sub") auto
  let ?n = "unat a + length ds"
  note nx = sub_ok_buffered [OF ok log b]
  have "\<not> ev_Sequence e \<le> sb_cursor sub" using nx(3) ok by (simp add: sub_ok_def word_le_nat_alt)
  then have p: "pop sub = (Some e, sub\<lparr>sb_buffered := rest, sb_cursor := ev_Sequence e\<rparr>)"
    by (simp add: pop_def b)
  have d: "drop ?n es = e # drop (Suc ?n) es" using nx(1,2) by (simp add: Cons_nth_drop_Suc)
  have "prefix rest (drop (Suc ?n) es)" using ok by (simp add: sub_ok_def b d)
  moreover have "take (Suc (length ds)) (drop (unat a) es) = ds @ [e]"
    using ok nx(1,2) by (simp add: sub_ok_def take_Suc_conv_app_nth)
  ultimately have "sub_ok t es (sub\<lparr>sb_buffered := rest, sb_cursor := ev_Sequence e\<rparr>) a (ds @ [e])"
    using ok nx(2,3) by (auto simp: sub_ok_def)
  with p nx(1,2) show "\<exists>sub'. pop sub = (Some (es ! ?n), sub') \<and> ?n < length es
      \<and> sub_ok t es sub' a (ds @ [es ! ?n]) \<and> sb_turnID sub' = sb_turnID sub \<and> sb_stream sub' = sb_stream sub" by auto
qed

lemma finished_complete:
  assumes "sub_ok t es sub a ds" "finished sub"
  shows "TurnStatus_Terminal (t_Status t) \<and> unat a + length ds = length es"
  using assms by (auto simp: sub_ok_def finished_def word_le_nat_alt)

text \<open>The context of a pass ends, if it does, with an error other than \<^verbatim>\<open>io.EOF\<close>.\<close>

definition iter_ok :: "'s stream_iter \<Rightarrow> bool" where
  "iter_ok it \<longleftrightarrow> (\<forall>n. contextError (it_ctx it n) \<noteq> Some IoEOF) \<and> it_wake it \<noteq> WakeDone IoEOF"

text \<open>A pass on an open subscription and a live context.\<close>

definition live_iter :: "'s stream_iter \<Rightarrow> bool" where
  "live_iter it \<longleftrightarrow> \<not> it_closed it \<and> (\<forall>n. contextError (it_ctx it n) = None) \<and> (\<forall>e. it_wake it \<noteq> WakeDone e)"

fun chained :: "('s \<Rightarrow> 's \<Rightarrow> bool) \<Rightarrow> 's \<Rightarrow> 's list \<Rightarrow> bool" where
  "chained R s [] = True"
| "chained R s (x # xs) = (R\<^sup>*\<^sup>* s x \<and> chained R x xs)"

text \<open>The states of all reads of a sequence of calls, and the last of them.\<close>

definition read_states :: "'s stream_iter list list \<Rightarrow> 's list" where
  "read_states calls = concat (map (map it_store) calls)"

definition end_state :: "'s \<Rightarrow> 's list \<Rightarrow> 's" where
  "end_state s xs = last (s # xs)"

lemma end_state_simps [simp]:
  "end_state s [] = s" "end_state s (x # xs) = end_state x xs" "end_state s (xs @ ys) = end_state (end_state s xs) ys"
  by (auto simp: end_state_def last_append)

lemma read_states_simps [simp]:
  "read_states [] = []" "read_states (c # cs) = map it_store c @ read_states cs"
  "read_states (cs @ ds) = read_states cs @ read_states ds"
  by (simp_all add: read_states_def)

lemma chained_last: "chained R s xs \<Longrightarrow> R\<^sup>*\<^sup>* s (end_state s xs)"
  by (induction xs arbitrary: s) (auto intro: rtranclp_trans)

lemma chained_append: "chained R s (xs @ ys) \<longleftrightarrow> chained R s xs \<and> chained R (end_state s xs) ys"
  by (induction xs arbitrary: s) auto

text \<open>A subscription to Turn \<open>i\<close> of a reader, at an exact position of the log in state \<open>s\<close>.\<close>

definition follows :: "'s ReplayReader \<Rightarrow> 's TurnSubscription \<Rightarrow> TurnID \<Rightarrow> bool" where
  "follows reader sub i \<longleftrightarrow> es_reader (sb_stream sub) = reader \<and> sb_turnID sub = i"

definition position ::
  "'s ReplayReader \<Rightarrow> ('s \<Rightarrow> bool) \<Rightarrow> ('s \<Rightarrow> TurnID \<Rightarrow> Turn option) \<Rightarrow> ('s \<Rightarrow> TurnID \<Rightarrow> EventEnvelope list)
     \<Rightarrow> 's \<Rightarrow> TurnID \<Rightarrow> 's TurnSubscription \<Rightarrow> Sequence \<Rightarrow> EventEnvelope list \<Rightarrow> bool"
where
  "position reader ok turn_at log_at s i sub a ds \<longleftrightarrow>
     ok s \<and> follows reader sub i \<and> (\<exists>t. turn_at s i = Some t \<and> sub_ok t (log_at s i) sub a ds)"

context turn_store
begin

abbreviation at :: "'s \<Rightarrow> TurnID \<Rightarrow> 's TurnSubscription \<Rightarrow> Sequence \<Rightarrow> EventEnvelope list \<Rightarrow> bool" where
  "at \<equiv> position (so_Replay S) inv turn_at log_at"

lemma at_steps:
  assumes "at s i sub a ds" "(store_step S)\<^sup>*\<^sup>* s s'"
  shows "at s' i sub a ds"
proof -
  from assms(1) obtain t where t: "inv s" "follows (so_Replay S) sub i" "turn_at s i = Some t" "sub_ok t (log_at s i) sub a ds"
    by (auto simp: position_def)
  from steps_evolve [OF assms(2) t(1,3)] obtain t' where "turn_at s' i = Some t'"
    "evolves t (log_at s i) t' (log_at s' i)" by blast
  with sub_ok_evolves [OF t(4)] steps_inv [OF assms(2) t(1)] t(2) show ?thesis by (auto simp: position_def)
qed

lemma query_valid:
  assumes "sub_ok t es sub a ds" "log_ok t es"
  shows "ReplayQuery_Validate \<lparr>rq_Cursor = \<lparr>rc_LastEventID = [], rc_AfterSequence = Some (sb_cursor sub)\<rparr>,
    rq_Limit = eo_PageLimit (es_options (sb_stream sub))\<rparr> = None"
proof -
  have "unat (sb_cursor sub) \<le> unat MaxDurableSequence"
    using assms by (simp add: sub_ok_def log_ok_def)
  then show ?thesis
    using assms(1) by (simp add: ReplayQuery_Validate_def ReplayCursor_Validate_def err_simps TrimSpace_visible
        sub_ok_def word_less_nat_alt)
qed

lemma advance_at:
  assumes "at s i sub a ds" "turn_at s i = Some t" "contextError (ctx 0) = None" "sb_buffered sub = []"
  shows "\<exists>sub'. advance ctx s sub = (Inr (unat a + length ds < length (log_at s i)), sub') \<and> at s i sub' a ds
    \<and> (sb_buffered sub' = [] \<longleftrightarrow> \<not> unat a + length ds < length (log_at s i))
    \<and> sb_closed sub' = sb_closed sub \<and> sb_terminal sub' = TurnStatus_Terminal (t_Status t)
    \<and> unat (sb_latest sub') = length (log_at s i)"
proof -
  let ?es = "log_at s i" and ?n = "unat a + length ds" and ?l = "eo_PageLimit (es_options (sb_stream sub))"
  have ok: "inv s" "follows (so_Replay S) sub i" "sub_ok t ?es sub a ds" using assms(1,2) by (auto simp: position_def)
  have log: "log_ok t ?es" by (rule replay_log_ok [OF ok(1) assms(2)])
  have len: "unat (of_nat (length ?es) :: Sequence) = length ?es"
    using log by (intro word_of_length) (simp add: log_ok_def)
  have n: "unat (sb_cursor sub) = ?n" "?n \<le> length ?es" "0 < ?l"
    and own: "t_PrincipalID t = sb_principalID sub" "t_ThreadID t = sb_threadID sub"
    using ok(3) by (auto simp: sub_ok_def)
  let ?page = "take (nat ?l) (drop ?n ?es)"
  let ?q = "\<lparr>rq_Cursor = \<lparr>rc_LastEventID = [], rc_AfterSequence = Some (sb_cursor sub)\<rparr>, rq_Limit = ?l\<rparr>"
  have "resolve_cursor (rq_Cursor ?q) ?es = Inr (sb_cursor sub)" by (simp add: resolve_cursor_def)
  from replay_owned [where ctx = ctx and q = ?q, OF ok(1) assms(2) own assms(3) query_valid [OF ok(3) log] this]
  have r: "es_reader (sb_stream sub) ctx (sb_principalID sub) (sb_threadID sub) (sb_turnID sub) ?q s =
      Inr \<lparr>rr_Turn = t, rr_AfterSequence = sb_cursor sub,
        rr_Window = \<lparr>rw_OldestSequence = 1, rw_LatestSequence = of_nat (length ?es)\<rparr>, rr_Events = ?page,
        rr_HasMore = (?n + nat ?l < length ?es)\<rparr>"
    using n(2) ok(2) by (simp add: replay_result_def n(1) follows_def)
  let ?sub = "sub\<lparr>sb_latest := of_nat (length ?es), sb_terminal := TurnStatus_Terminal (t_Status t), sb_buffered := ?page\<rparr>"
  have "(?page = []) \<longleftrightarrow> \<not> ?n < length ?es" using n(3) by (simp add: not_less)
  then have adv: "advance ctx s sub = (Inr (?n < length ?es), ?sub)"
    using assms(4) by (simp add: advance_def r Let_def)
  have "prefix ?page (drop ?n ?es)" by (rule take_is_prefix)
  then have "sub_ok t ?es ?sub a ds" using ok(3) len by (simp add: sub_ok_def)
  then have "at s i ?sub a ds" using ok(1,2) assms(2) by (auto simp: position_def follows_def)
  with adv \<open>(?page = []) \<longleftrightarrow> \<not> ?n < length ?es\<close> len show ?thesis by auto
qed

text \<open>One pass: the position stays exact, an end of stream means everything has been handed out.\<close>

lemma next_iter_at:
  assumes at: "at (it_store it) i sub a ds" and it: "iter_ok it"
    and nx: "next_iter sub it = (acts, sub', out)"
  shows "at (it_store it) i sub' a (case out of Some (Inr e) \<Rightarrow> ds @ [e] | _ \<Rightarrow> ds)"
    and "out = Some (Inl IoEOF) \<Longrightarrow> \<exists>t. turn_at (it_store it) i = Some t \<and> TurnStatus_Terminal (t_Status t)
      \<and> unat a + length ds = length (log_at (it_store it) i)"
proof -
  let ?s = "it_store it" and ?sub = "if it_closed it then Close sub else sub"
  from at obtain t where t: "inv ?s" "turn_at ?s i = Some t" "sub_ok t (log_at ?s i) sub a ds" "follows (so_Replay S) sub i"
    by (auto simp: position_def)
  note log = replay_log_ok [OF t(1,2)]
  have ok: "sub_ok t (log_at ?s i) ?sub a ds" "follows (so_Replay S) ?sub i" using t(3,4) by (auto simp: follows_def) (simp_all add: Close_def)
  then have at': "at ?s i ?sub a ds" using t by (auto simp: position_def)
  have "at ?s i sub' a (case out of Some (Inr e) \<Rightarrow> ds @ [e] | _ \<Rightarrow> ds) \<and>
    (out = Some (Inl IoEOF) \<longrightarrow> TurnStatus_Terminal (t_Status t) \<and> unat a + length ds = length (log_at ?s i))"
  proof (cases "sb_closed ?sub \<or> contextError (it_ctx it 0) \<noteq> None")
    case True
    with nx at' it show ?thesis
      by (auto simp: next_iter_def Let_def iter_ok_def split: if_splits option.splits)
  next
    case live: False
    show ?thesis
    proof (cases "sb_buffered ?sub = []")
      case False
      from pop_sub_ok(2) [OF ok(1) log this] obtain sub1 where
        "pop ?sub = (Some (log_at ?s i ! (unat a + length ds)), sub1)"
        "sub_ok t (log_at ?s i) sub1 a (ds @ [log_at ?s i ! (unat a + length ds)])"
        "sb_turnID sub1 = sb_turnID ?sub" "sb_stream sub1 = sb_stream ?sub" by blast
      with nx live t ok(2) show ?thesis by (auto simp: next_iter_def Let_def position_def follows_def)
    next
      case True
      note pop = pop_sub_ok(1) [OF ok(1) log True]
      show ?thesis
      proof (cases "finished ?sub")
        case fin: True
        with nx live pop at' finished_complete [OF ok(1) fin] show ?thesis by (auto simp: next_iter_def Let_def)
      next
        case unfin: False
        show ?thesis
        proof (cases "contextError (it_ctx it (Suc 0))")
          case None
          from advance_at [OF at' t(2) _ True, of "\<lambda>n. it_ctx it (Suc n)"] None obtain b sub2 where
            "advance (\<lambda>n. it_ctx it (Suc n)) ?s ?sub = (Inr b, sub2)" "at ?s i sub2 a ds" by auto
          with nx live pop unfin it show ?thesis
            by (cases b) (auto simp: next_iter_def Let_def iter_ok_def split: stream_wake.splits)
        next
          case (Some e)
          then have "advance (\<lambda>n. it_ctx it (Suc n)) ?s ?sub = (Inl e, ?sub)"
            using replay_context [of "\<lambda>n. it_ctx it (Suc n)" e] ok(2) by (simp add: advance_def follows_def)
          with nx live pop unfin it Some at' show ?thesis
            by (auto simp: next_iter_def Let_def iter_ok_def)
        qed
      qed
    qed
  qed
  then show "at ?s i sub' a (case out of Some (Inr e) \<Rightarrow> ds @ [e] | _ \<Rightarrow> ds)"
    "out = Some (Inl IoEOF) \<Longrightarrow> \<exists>t. turn_at ?s i = Some t \<and> TurnStatus_Terminal (t_Status t)
      \<and> unat a + length ds = length (log_at ?s i)" using t(2) by auto
qed

lemma Next_at:
  assumes "at s i sub a ds" "chained (store_step S) s (map it_store its)" "\<forall>it \<in> set its. iter_ok it"
    and "Next sub its = (acts, sub', out)"
  shows "at (end_state s (map it_store its)) i sub' a (case out of Some (Inr e) \<Rightarrow> ds @ [e] | _ \<Rightarrow> ds)
    \<and> (out = Some (Inl IoEOF) \<longrightarrow> (\<exists>t. turn_at (end_state s (map it_store its)) i = Some t
        \<and> TurnStatus_Terminal (t_Status t) \<and> unat a + length ds = length (log_at (end_state s (map it_store its)) i)))"
  using assms
proof (induction its arbitrary: s sub acts)
  case Nil
  then show ?case by simp
next
  case (Cons it its)
  let ?u = "it_store it" and ?v = "end_state (it_store it) (map it_store its)"
  have steps: "(store_step S)\<^sup>*\<^sup>* s ?u" and ch: "chained (store_step S) ?u (map it_store its)"
    using Cons.prems(2) by simp_all
  then have uv: "(store_step S)\<^sup>*\<^sup>* ?u ?v" by (intro chained_last)
  have at_u: "at ?u i sub a ds" by (rule at_steps [OF Cons.prems(1) steps])
  obtain acts1 sub1 out1 where nx: "next_iter sub it = (acts1, sub1, out1)" by (cases "next_iter sub it")
  have it: "iter_ok it" using Cons.prems(3) by simp
  note pass = next_iter_at [OF at_u it nx]
  show ?case
  proof (cases out1)
    case None
    with pass(1) have "at ?u i sub1 a ds" by simp
    moreover obtain acts2 where "Next sub1 its = (acts2, sub', out)"
      using Cons.prems(4) nx None by (cases "Next sub1 its") auto
    ultimately show ?thesis using Cons.IH [OF _ ch] Cons.prems(3) by simp
  next
    case (Some r)
    with Cons.prems(4) nx have eq: "out = out1" "sub' = sub1" by auto
    have "\<exists>t. turn_at ?v i = Some t \<and> TurnStatus_Terminal (t_Status t) \<and> unat a + length ds = length (log_at ?v i)"
      if eof: "out1 = Some (Inl IoEOF)"
    proof -
      from pass(2) [OF eof] obtain t where t: "turn_at ?u i = Some t" "TurnStatus_Terminal (t_Status t)"
        "unat a + length ds = length (log_at ?u i)" by blast
      moreover have "inv ?u" using at_u by (simp add: position_def)
      ultimately show ?thesis using steps_evolve [OF uv] by (fastforce simp: evolves_def)
    qed
    with at_steps [OF pass(1) uv] eq show ?thesis by simp
  qed
qed

lemma deliveries_at:
  assumes "at s i sub a ds" "chained (store_step S) s (read_states calls)"
    and "\<forall>call \<in> set calls. \<forall>it \<in> set call. iter_ok it" "deliveries sub calls = (es, sub')"
  shows "at (end_state s (read_states calls)) i sub' a (ds @ es)"
  using assms
proof (induction calls arbitrary: s sub ds es)
  case Nil
  then show ?case by simp
next
  case (Cons call calls)
  let ?u = "end_state s (map it_store call)"
  obtain acts sub1 out where nx: "Next sub call = (acts, sub1, out)" by (cases "Next sub call")
  have ch: "chained (store_step S) s (map it_store call)" "chained (store_step S) ?u (read_states calls)"
    using Cons.prems(2) by (simp_all add: chained_append)
  have at1: "at ?u i sub1 a (case out of Some (Inr e) \<Rightarrow> ds @ [e] | _ \<Rightarrow> ds)"
    using Next_at [OF Cons.prems(1) ch(1) _ nx] Cons.prems(3) by simp
  obtain fs where fs: "deliveries sub1 calls = (fs, sub')"
    "es = (case out of Some (Inr e) \<Rightarrow> e # fs | _ \<Rightarrow> fs)"
    using Cons.prems(4) nx by (auto split: option.splits sum.splits prod.splits)
  have "at (end_state ?u (read_states calls)) i sub' a
      ((case out of Some (Inr e) \<Rightarrow> ds @ [e] | _ \<Rightarrow> ds) @ fs)"
    using Cons.IH [OF at1 ch(2) _ fs(1)] Cons.prems(3) by simp
  then show ?case unfolding fs(2) by (simp split: option.splits sum.splits)
qed

text \<open>Two passes are enough to hand out the next event, or to end a complete stream.\<close>

lemma next_iter_live:
  assumes at: "at (it_store it) i sub a ds" and it: "live_iter it" "\<not> sb_closed sub"
    and t: "turn_at (it_store it) i = Some t"
    and n: "n = unat a + length ds"
  shows "sb_buffered sub \<noteq> [] \<Longrightarrow>
      \<exists>sub'. next_iter sub it = ([], sub', Some (Inr (log_at (it_store it) i ! n))) \<and> n < length (log_at (it_store it) i)"
    and "sb_buffered sub = [] \<Longrightarrow> finished sub \<Longrightarrow> next_iter sub it = ([], sub, Some (Inl IoEOF))"
    and "sb_buffered sub = [] \<Longrightarrow> \<not> finished sub \<Longrightarrow>
      \<exists>acts sub'. next_iter sub it = (acts, sub', None) \<and> at (it_store it) i sub' a ds \<and> \<not> sb_closed sub'
        \<and> (sb_buffered sub' = [] \<longleftrightarrow> \<not> n < length (log_at (it_store it) i))
        \<and> (\<not> n < length (log_at (it_store it) i) \<and> TurnStatus_Terminal (t_Status t) \<longrightarrow> finished sub')"
proof -
  let ?s = "it_store it"
  have ok: "sub_ok t (log_at ?s i) sub a ds" "inv ?s" using at t by (auto simp: position_def)
  note log = replay_log_ok [OF ok(2) t]
  have live: "\<not> it_closed it" "contextError (it_ctx it k) = None" for k using it(1) by (auto simp: live_iter_def)
  show "sb_buffered sub \<noteq> [] \<Longrightarrow>
      \<exists>sub'. next_iter sub it = ([], sub', Some (Inr (log_at ?s i ! n))) \<and> n < length (log_at ?s i)"
    using pop_sub_ok(2) [OF ok(1) log] it(2) live by (auto simp: next_iter_def Let_def n)
  assume b: "sb_buffered sub = []"
  note pop = pop_sub_ok(1) [OF ok(1) log b]
  show "finished sub \<Longrightarrow> next_iter sub it = ([], sub, Some (Inl IoEOF))"
    using it(2) live by (simp add: next_iter_def Let_def pop)
  assume unfin: "\<not> finished sub"
  from advance_at [OF at t _ b, of "\<lambda>k. it_ctx it (Suc k)"] live(2) obtain sub2 where adv:
    "advance (\<lambda>k. it_ctx it (Suc k)) ?s sub = (Inr (n < length (log_at ?s i)), sub2)" "at ?s i sub2 a ds"
    "sb_buffered sub2 = [] \<longleftrightarrow> \<not> n < length (log_at ?s i)" "sb_closed sub2 = sb_closed sub"
    "sb_terminal sub2 = TurnStatus_Terminal (t_Status t)" "unat (sb_latest sub2) = length (log_at ?s i)"
    by (auto simp: n)
  have cur: "unat (sb_cursor sub2) = n" using adv(2) by (auto simp: position_def sub_ok_def n)
  have "\<exists>acts. next_iter sub it = (acts, sub2, None)"
    using it live unfin adv(1)
    by (cases "n < length (log_at ?s i)"; cases "it_wake it") (auto simp: next_iter_def Let_def pop live_iter_def)
  moreover have "finished sub2" if "\<not> n < length (log_at ?s i) \<and> TurnStatus_Terminal (t_Status t)"
    using that adv(3,5,6) cur by (simp add: finished_def word_le_nat_alt)
  ultimately show "\<exists>acts sub'. next_iter sub it = (acts, sub', None) \<and> at ?s i sub' a ds \<and> \<not> sb_closed sub'
        \<and> (sb_buffered sub' = [] \<longleftrightarrow> \<not> n < length (log_at ?s i))
        \<and> (\<not> n < length (log_at ?s i) \<and> TurnStatus_Terminal (t_Status t) \<longrightarrow> finished sub')"
    using adv(2,3,4) it(2) by blast
qed

lemma Next_progress:
  assumes at: "at (it_store it) i sub a ds" and steps: "(store_step S)\<^sup>*\<^sup>* (it_store it) (it_store it')"
    and live: "live_iter it" "live_iter it'" "\<not> sb_closed sub" and t: "turn_at (it_store it) i = Some t"
    and n: "n = unat a + length ds"
  shows "n < length (log_at (it_store it) i) \<Longrightarrow>
      \<exists>acts sub2. Next sub [it, it'] = (acts, sub2, Some (Inr (log_at (it_store it') i ! n)))"
    and "n = length (log_at (it_store it) i) \<Longrightarrow> TurnStatus_Terminal (t_Status t) \<Longrightarrow>
      \<exists>acts sub2. Next sub [it, it'] = (acts, sub2, Some (Inl IoEOF))"
proof -
  let ?s = "it_store it" and ?s' = "it_store it'"
  note pass = next_iter_live [OF at live(1,3) t n]
  have ok: "inv ?s" "sub_ok t (log_at ?s i) sub a ds" using at t by (auto simp: position_def)
  from steps_evolve [OF steps ok(1) t] obtain t' where t': "turn_at ?s' i = Some t'" "prefix (log_at ?s i) (log_at ?s' i)"
    by (auto simp: evolves_def)
  have same: "log_at ?s i ! n = log_at ?s' i ! n" if "n < length (log_at ?s i)"
    using t'(2) that by (auto simp: prefix_def nth_append)
  show "\<exists>acts sub2. Next sub [it, it'] = (acts, sub2, Some (Inr (log_at ?s' i ! n)))"
    if lt: "n < length (log_at ?s i)"
  proof (cases "sb_buffered sub = []")
    case False
    with pass(1) lt same show ?thesis by auto
  next
    case True
    have "\<not> finished sub" using finished_complete [OF ok(2)] lt n by auto
    with pass(3) True lt obtain acts sub1 where p: "next_iter sub it = (acts, sub1, None)" "at ?s i sub1 a ds"
      "\<not> sb_closed sub1" "sb_buffered sub1 \<noteq> []" by blast
    from next_iter_live(1) [OF at_steps [OF p(2) steps] live(2) p(3) t'(1) n p(4)] p(1) show ?thesis by auto
  qed
  show "\<exists>acts sub2. Next sub [it, it'] = (acts, sub2, Some (Inl IoEOF))"
    if eq: "n = length (log_at ?s i)" and fin: "TurnStatus_Terminal (t_Status t)"
  proof (cases "sb_buffered sub = []")
    case False
    with pass(1) eq show ?thesis by auto
  next
    case True
    show ?thesis
    proof (cases "finished sub")
      case True
      with pass(2) \<open>sb_buffered sub = []\<close> show ?thesis by auto
    next
      case False
      with pass(3) True eq fin obtain acts sub1 where p: "next_iter sub it = (acts, sub1, None)" "at ?s i sub1 a ds"
        "\<not> sb_closed sub1" "sb_buffered sub1 = []" "finished sub1" by blast
      from next_iter_live(2) [OF at_steps [OF p(2) steps] live(2) p(3) t'(1) n p(4,5)] p(1) show ?thesis by auto
    qed
  qed
qed

lemma subscribe_at:
  assumes "inv s" "es_reader stream = so_Replay S" "Subscribe stream ctx c s = Inr sub"
  shows "at s (ar_TurnID (ac_Request c)) sub (sb_cursor sub) []" "\<not> sb_closed sub"
proof -
  let ?i = "ar_TurnID (ac_Request c)"
  let ?q = "\<lparr>rq_Cursor = ar_Cursor (ac_Request c), rq_Limit = eo_PageLimit (es_options stream)\<rparr>"
  from assms(2,3) obtain r where r: "so_Replay S (\<lambda>n. ctx (Suc n)) (ac_PrincipalID c) (ac_ThreadID c) ?i ?q s = Inr r"
    and sub: "sub = \<lparr>sb_stream = stream, sb_principalID = ac_PrincipalID c, sb_threadID = ac_ThreadID c,
      sb_turnID = ?i, sb_cursor = rr_AfterSequence r, sb_buffered = rr_Events r,
      sb_latest = rw_LatestSequence (rr_Window r), sb_terminal = TurnStatus_Terminal (t_Status (rr_Turn r)),
      sb_closed = False\<rparr>"
    by (auto simp: Subscribe_def split: option.splits sum.splits)
  from replay_Inr [OF assms(1) r] obtain t a where t: "turn_at s ?i = Some t" "t_PrincipalID t = ac_PrincipalID c"
    "t_ThreadID t = ac_ThreadID c" "ReplayQuery_Validate ?q = None"
    "replay_result t (log_at s ?i) a (rq_Limit ?q) = Inr r" by blast
  have "unat (of_nat (length (log_at s ?i)) :: Sequence) = length (log_at s ?i)"
    using replay_log_ok [OF assms(1) t(1)] by (intro word_of_length) (simp add: log_ok_def)
  then have "sub_ok t (log_at s ?i) sub (sb_cursor sub) []"
    using t(2-5) by (auto simp: sub_ok_def sub replay_result_def ReplayQuery_Validate_def err_simps take_is_prefix
        split: if_splits)
  with t(1) assms(1,2) sub show "at s ?i sub (sb_cursor sub) []" "\<not> sb_closed sub"
    by (auto simp: position_def follows_def)
qed

end

subsection \<open>Properties over the reference store\<close>

abbreviation plain_memory :: "(MemoryStore, unit) Store" where
  "plain_memory \<equiv> MemoryStore_methods"

lemma chained_memory:
  "chained mem_step s xs \<Longrightarrow> chained (store_step (MemoryStore_methods :: (MemoryStore, 'a) Store)) s xs"
proof -
  have "store_step (MemoryStore_methods :: (MemoryStore, 'a) Store) = mem_step"
    by (intro ext) (simp add: store_step_memory)
  then show "chained mem_step s xs \<Longrightarrow> chained (store_step (MemoryStore_methods :: (MemoryStore, 'a) Store)) s xs" by simp
qed

definition sample_stream :: "MemoryStore TurnEventStream" where
  "sample_stream = \<lparr>es_reader = Replay, es_options = applyDefaults \<lparr>eo_PollInterval = 0, eo_PageLimit = 0, eo_Broker = True\<rparr>\<rparr>"

definition sample_attach :: "Sequence \<Rightarrow> AttachCommand" where
  "sample_attach a = \<lparr>ac_PrincipalID = ''alice'', ac_ThreadID = ''thread-1'', ac_Request = \<lparr>ar_TurnID = ''turn-1'',
     ar_Cursor = \<lparr>rc_LastEventID = [], rc_AfterSequence = Some a\<rparr>\<rparr>\<rparr>"

definition sample_iter :: "MemoryStore stream_iter" where
  "sample_iter = \<lparr>it_closed = False, it_ctx = live_ctx, it_store = sample_store, it_wake = WakeTimer\<rparr>"

lemma sample_reader: "es_reader sample_stream = so_Replay MemoryStore_methods"
  by (simp add: sample_stream_def)

lemma sample_iter_ok: "iter_ok sample_iter" "live_iter sample_iter"
  by (simp_all add: iter_ok_def live_iter_def sample_iter_def live_ctx_def)

lemma sample_attach_sel [simp]:
  "ac_PrincipalID (sample_attach a) = ''alice''" "ac_ThreadID (sample_attach a) = ''thread-1''"
  "ar_TurnID (ac_Request (sample_attach a)) = ''turn-1''"
  "ar_Cursor (ac_Request (sample_attach a)) = \<lparr>rc_LastEventID = [], rc_AfterSequence = Some a\<rparr>"
  by (simp_all add: sample_attach_def)

lemma sample_subscribed:
  assumes "store_ok s" "ms_turns s ''turn-1'' = Some t" "t_PrincipalID t = ''alice''" "t_ThreadID t = ''thread-1''"
    and "unat a \<le> length (log_of s ''turn-1'')"
  shows "\<exists>sub. Subscribe sample_stream live_ctx (sample_attach a) s = Inr sub \<and> sb_cursor sub = a
    \<and> \<not> sb_closed sub"
proof -
  let ?q = "\<lparr>rq_Cursor = \<lparr>rc_LastEventID = [], rc_AfterSequence = Some a\<rparr>, rq_Limit = 64\<rparr>"
  have v: "validateBoundedText ''principalId'' ''alice'' MaxPrincipalIDBytes = None"
    "validatePathSegment ''threadId'' ''thread-1'' MaxThreadIDBytes = None" "validateIdentifier ''turnId'' ''turn-1'' = None"
    "validatePathSegment ''turnId'' ''turn-1'' MaxTurnIDBytes = None" "eo_PageLimit (es_options sample_stream) = 64"
    by code_simp+
  then have att: "AttachCommand_Validate (sample_attach a) = None"
    by (simp add: AttachCommand_Validate_def AttachRequest_Validate_def ReplayCursor_Validate_def TrimSpace_visible)
  from store_okD [OF assms(1,2)] have "length (log_of s ''turn-1'') \<le> unat MaxDurableSequence"
    by (auto simp: turn_ok_def log_ok_def)
  with assms(5) have "\<not> MaxDurableSequence < a" by (simp add: word_less_nat_alt)
  then have "ReplayQuery_Validate ?q = None"
    by (simp add: ReplayQuery_Validate_def ReplayCursor_Validate_def err_simps TrimSpace_visible)
  then have r: "Replay live_ctx ''alice'' ''thread-1'' ''turn-1'' ?q s = replay_result t (log_of s ''turn-1'') a 64"
    using Replay_owned [where q = ?q and after = a and ctx = live_ctx, OF assms(1), of _ _ "''turn-1''" t]
      assms(2-4) by (simp add: resolve_cursor_def live_ctx_def)
  have "(\<lambda>n. live_ctx (Suc n)) = live_ctx" "contextError (live_ctx 0) = None" by (simp_all add: live_ctx_def)
  moreover have "es_reader sample_stream = Replay" by (simp add: sample_stream_def)
  ultimately show ?thesis
    using v(5) att r assms(5) by (simp add: Subscribe_def replay_result_def)
qed

text \<open>A store whose only Turn has failed, with two events.\<close>

definition sample_failed :: MemoryStore where
  "sample_failed = snd (Transition live_ctx ''turn-1'' TurnStatusFailed 12 sample_draft sample_store)"

lemma sample_failed_turn:
  "store_ok sample_failed" "ms_turns sample_failed ''turn-1'' = Some (transitioned sample_turn TurnStatusFailed 12)"
  "length (log_of sample_failed ''turn-1'') = 2"
proof -
  have c: "CanTransition (t_Status sample_turn) TurnStatusFailed" "t_Status sample_turn \<noteq> TurnStatusFailed"
    "t_UpdatedAt sample_turn \<le> 12" by code_simp+
  have "contextError (live_ctx n) = None" for n by (simp add: live_ctx_def)
  with Transition_succeeds [OF sample_store_ok sample_store_turn(2) c(1,2) _ c(3) _ sample_admitted(3), of live_ctx]
  obtain r s' where r: "Transition live_ctx ''turn-1'' TurnStatusFailed 12 sample_draft sample_store = (Inr r, s')"
    "tres_Changed r" by (auto simp: sample_store_turn(3) unat_MaxDurableSequence)
  then have s': "sample_failed = s'" by (simp add: sample_failed_def)
  show "store_ok sample_failed"
    unfolding s' by (rule mem_step_store_ok [OF mem_step.transition [OF r(1)] sample_store_ok])
  from Transition_Inr [OF r(1)] r(2) sample_store_turn(2,3)
  show "ms_turns sample_failed ''turn-1'' = Some (transitioned sample_turn TurnStatusFailed 12)"
    "length (log_of sample_failed ''turn-1'') = 2" by (auto simp: s')
qed

lemma sample_owner:
  "t_PrincipalID sample_turn = ''alice''" "t_ThreadID sample_turn = ''thread-1''"
  "t_PrincipalID (transitioned sample_turn TurnStatusFailed 12) = ''alice''"
  "t_ThreadID (transitioned sample_turn TurnStatusFailed 12) = ''thread-1''"
  by code_simp+

text \<open>
  C12. An observer sees every event exactly once and in order: whatever calls of the store run
  between the reads, and however often \<open>Next\<close> is called and fails, the events handed out are
  exactly the log right after the cursor of the subscription, without gap or duplicate at the
  seam between history and live output.
\<close>

theorem stream_exactly_once:
  assumes "store_ok s" "es_reader stream = Replay" "Subscribe stream ctx c s = Inr sub"
    and "chained mem_step s (read_states calls)"
    and "\<forall>call \<in> set calls. \<forall>it \<in> set call. iter_ok it" "deliveries sub calls = (es, sub')"
  shows "es = take (length es) (drop (unat (sb_cursor sub))
      (log_of (end_state s (read_states calls)) (ar_TurnID (ac_Request c))))
    \<and> unat (sb_cursor sub') = unat (sb_cursor sub) + length es"
proof -
  have rd: "es_reader stream = so_Replay plain_memory" using assms(2) by simp
  from memory.deliveries_at [OF memory.subscribe_at(1) [OF assms(1) rd assms(3)] chained_memory [OF assms(4)] assms(5,6)]
  show ?thesis by (auto simp: position_def sub_ok_def)
qed

theorem stream_exactly_once_witness:
  "\<exists>sub sub' es. Subscribe sample_stream live_ctx (sample_attach 0) sample_store = Inr sub
    \<and> deliveries sub [[sample_iter], [sample_iter]] = (es, sub')
    \<and> es = take (length es) (drop (unat (sb_cursor sub)) (log_of sample_store ''turn-1''))"
proof -
  obtain sub where sub: "Subscribe sample_stream live_ctx (sample_attach 0) sample_store = Inr sub"
    using sample_subscribed [OF sample_store_ok sample_store_turn(2) sample_owner(1,2), of 0] by auto
  obtain es sub' where d: "deliveries sub [[sample_iter], [sample_iter]] = (es, sub')" by fastforce
  have "chained mem_step sample_store (read_states [[sample_iter], [sample_iter]])"
    by (simp add: sample_iter_def)
  from stream_exactly_once [OF sample_store_ok _ sub this _ d] sample_iter_ok(1) sub d show ?thesis
    by (auto simp: sample_stream_def sample_iter_def)
qed

text \<open>
  C13. End of stream is honest: \<open>Next\<close> reports \<^verbatim>\<open>io.EOF\<close> only when the Turn is terminal and
  every event of its log has been handed out.
\<close>

theorem stream_eof_complete:
  assumes "store_ok s" "es_reader stream = Replay" "Subscribe stream ctx c s = Inr sub"
    and "chained mem_step s (read_states (calls @ [call]))"
    and "\<forall>call \<in> set (calls @ [call]). \<forall>it \<in> set call. iter_ok it"
    and "deliveries sub calls = (es, sub1)" "Next sub1 call = (acts, sub2, Some (Inl IoEOF))"
  shows "\<exists>t. ms_turns (end_state s (read_states (calls @ [call]))) (ar_TurnID (ac_Request c)) = Some t
    \<and> TurnStatus_Terminal (t_Status t)
    \<and> es = drop (unat (sb_cursor sub))
        (log_of (end_state s (read_states (calls @ [call]))) (ar_TurnID (ac_Request c)))"
proof -
  let ?i = "ar_TurnID (ac_Request c)" and ?u = "end_state s (read_states calls)"
  have rd: "es_reader stream = so_Replay plain_memory" using assms(2) by simp
  have ch: "chained mem_step s (read_states calls)" "chained mem_step ?u (map it_store call)"
    using assms(4) by (simp_all add: chained_append)
  have at_u: "position (so_Replay plain_memory) store_ok ms_turns log_of ?u ?i sub1 (sb_cursor sub) ([] @ es)"
    by (rule memory.deliveries_at [OF memory.subscribe_at(1) [OF assms(1) rd assms(3)] chained_memory [OF ch(1)] _ assms(6)])
      (use assms(5) in simp)
  let ?v = "end_state ?u (map it_store call)"
  have "\<forall>it \<in> set call. iter_ok it" using assms(5) by simp
  from memory.Next_at [OF at_u chained_memory [OF ch(2)] this assms(7)]
  obtain t where t: "ms_turns ?v ?i = Some t" "TurnStatus_Terminal (t_Status t)"
    "unat (sb_cursor sub) + length es = length (log_of ?v ?i)" and at_v: "position (so_Replay plain_memory) store_ok ms_turns log_of ?v ?i sub2 (sb_cursor sub) es"
    by auto
  have "es = drop (unat (sb_cursor sub)) (log_of ?v ?i)"
    using at_v t(3) by (auto simp: position_def sub_ok_def)
  then show ?thesis using t by auto
qed

theorem stream_eof_complete_witness:
  "\<exists>sub acts sub2 t. Subscribe sample_stream live_ctx (sample_attach 2) sample_failed = Inr sub
    \<and> Next sub [sample_iter\<lparr>it_store := sample_failed\<rparr>, sample_iter\<lparr>it_store := sample_failed\<rparr>]
      = (acts, sub2, Some (Inl IoEOF))
    \<and> ms_turns sample_failed ''turn-1'' = Some t \<and> TurnStatus_Terminal (t_Status t)
    \<and> [] = drop (unat (sb_cursor sub)) (log_of sample_failed ''turn-1'')"
proof -
  let ?it = "sample_iter\<lparr>it_store := sample_failed\<rparr>"
  obtain sub where sub: "Subscribe sample_stream live_ctx (sample_attach 2) sample_failed = Inr sub"
    "sb_cursor sub = 2" "\<not> sb_closed sub"
    using sample_subscribed [OF sample_failed_turn(1,2) sample_owner(3,4), of 2] sample_failed_turn(3) by auto
  have it: "iter_ok ?it" "live_iter ?it" "it_store ?it = sample_failed"
    using sample_iter_ok by (simp_all add: iter_ok_def live_iter_def)
  have rd: "es_reader sample_stream = so_Replay plain_memory" by (simp add: sample_stream_def)
  have pos: "position (so_Replay plain_memory) store_ok ms_turns log_of (it_store ?it) ''turn-1'' sub 2 []"
    using memory.subscribe_at(1) [OF sample_failed_turn(1) rd sub(1)] sub(2) it(3) by simp
  have "\<exists>acts sub2. Next sub [?it, ?it] = (acts, sub2, Some (Inl IoEOF))"
    by (rule memory.Next_progress(2) [OF pos _ it(2,2) sub(3), where n = 2 and t = "transitioned sample_turn TurnStatusFailed 12"])
      (simp_all add: it(3) sample_failed_turn)
  then obtain acts sub2 where nx: "Next sub [?it, ?it] = (acts, sub2, Some (Inl IoEOF))" by blast
  have "chained mem_step sample_failed (read_states ([] @ [[?it, ?it]]))" by (simp add: it(3))
  from stream_eof_complete [OF sample_failed_turn(1) _ sub(1) this _ _ nx] it(1,3) sub nx show ?thesis
    by (auto simp: sample_stream_def)
qed

text \<open>
  C14. The stream makes progress: on a live context an event that is in the log when \<open>Next\<close>
  reads it is handed out after at most two passes of the loop, and after at most two passes over a
  terminal, fully delivered Turn the stream ends.
\<close>

theorem stream_progress:
  assumes "store_ok s" "es_reader stream = Replay" "Subscribe stream ctx c s = Inr sub"
    and "chained mem_step s (read_states calls @ [it_store it, it_store it'])"
    and "\<forall>call \<in> set calls. \<forall>it \<in> set call. iter_ok it"
    and "deliveries sub calls = (es, sub1)" "\<not> sb_closed sub1" "live_iter it" "live_iter it'"
    and "ms_turns (it_store it) (ar_TurnID (ac_Request c)) = Some t"
    and "n = unat (sb_cursor sub) + length es"
  shows "(n < length (log_of (it_store it) (ar_TurnID (ac_Request c))) \<longrightarrow>
      (\<exists>acts sub2. Next sub1 [it, it'] = (acts, sub2, Some (Inr (log_of (it_store it') (ar_TurnID (ac_Request c)) ! n)))))
    \<and> (n = length (log_of (it_store it) (ar_TurnID (ac_Request c))) \<and> TurnStatus_Terminal (t_Status t) \<longrightarrow>
      (\<exists>acts sub2. Next sub1 [it, it'] = (acts, sub2, Some (Inl IoEOF))))"
proof -
  let ?i = "ar_TurnID (ac_Request c)" and ?u = "end_state s (read_states calls)"
  have rd: "es_reader stream = so_Replay plain_memory" using assms(2) by simp
  have ch: "chained mem_step s (read_states calls)" "mem_step\<^sup>*\<^sup>* ?u (it_store it)"
    "mem_step\<^sup>*\<^sup>* (it_store it) (it_store it')"
    using assms(4) by (simp_all add: chained_append)
  have st: "store_step plain_memory = mem_step"
    by (intro ext) (simp add: store_step_memory)
  have "position (so_Replay plain_memory) store_ok ms_turns log_of ?u ?i sub1 (sb_cursor sub) ([] @ es)"
    by (rule memory.deliveries_at [OF memory.subscribe_at(1) [OF assms(1) rd assms(3)] chained_memory [OF ch(1)] assms(5,6)])
  from memory.at_steps [OF this, unfolded st, OF ch(2)]
  have at1: "position (so_Replay plain_memory) store_ok ms_turns log_of (it_store it) ?i sub1 (sb_cursor sub) es" by simp
  from memory.Next_progress [OF this _ assms(8,9,7,10,11), unfolded st, OF ch(3)] show ?thesis by blast
qed

theorem stream_progress_witness:
  "\<exists>sub acts sub2. Subscribe sample_stream live_ctx (sample_attach 0) sample_store = Inr sub
    \<and> Next sub [sample_iter, sample_iter] = (acts, sub2, Some (Inr (log_of sample_store ''turn-1'' ! 0)))"
proof -
  obtain sub where sub: "Subscribe sample_stream live_ctx (sample_attach 0) sample_store = Inr sub"
    "sb_cursor sub = 0" "\<not> sb_closed sub"
    using sample_subscribed [OF sample_store_ok sample_store_turn(2) sample_owner(1,2), of 0] by auto
  have it: "it_store sample_iter = sample_store" by (simp add: sample_iter_def)
  have "chained mem_step sample_store (read_states [] @ [it_store sample_iter, it_store sample_iter])" by (simp add: it)
  from stream_progress [OF sample_store_ok _ sub(1) this _ _ sub(3) sample_iter_ok(2,2), of "[]" sample_turn 0]
    sample_store_turn(2,3) it sub show ?thesis by (auto simp: sample_stream_def)
qed

subsection \<open>The broker\<close>

lemma fold_set_true: "fold (\<lambda>signal p. p(signal := True)) xs p n = (p n \<or> n \<in> set xs)"
  by (induction xs arbitrary: p) auto

definition broker_ok :: "TurnEventBroker \<Rightarrow> bool" where
  "broker_ok b \<longleftrightarrow> (\<forall>i xs. br_waiters b i = Some xs \<longrightarrow> xs \<noteq> [] \<and> distinct xs \<and> (\<forall>x \<in> set xs. x < br_made b))"

lemma broker_ok_ops:
  "broker_ok NewTurnEventBroker"
  "broker_ok b \<Longrightarrow> broker_ok (snd (Watch i b))"
  "broker_ok b \<Longrightarrow> broker_ok (release i n b)"
  "broker_ok b \<Longrightarrow> broker_ok (NotifyTurnEvent i b)"
proof -
  show "broker_ok NewTurnEventBroker" by (simp add: broker_ok_def NewTurnEventBroker_def)
  assume ok: "broker_ok b"
  then show "broker_ok (snd (Watch i b))"
    by (fastforce simp: broker_ok_def Watch_def Let_def map_get_def less_Suc_eq split: option.splits)
  show "broker_ok (release i n b)"
    using ok by (auto simp: broker_ok_def release_def Let_def map_get_def split: option.splits)
  show "broker_ok (NotifyTurnEvent i b)" using ok by (simp add: broker_ok_def NotifyTurnEvent_def)
qed

text \<open>
  The calls that several observers and writers make on one broker, in the order in which its mutex
  admits them. A watcher is registered for a Turn while its signal is in the list of that Turn.
\<close>

datatype broker_call = BrokerWatch TurnID | BrokerRelease TurnID nat | BrokerNotify TurnID

fun broker_call_step :: "broker_call \<Rightarrow> TurnEventBroker \<Rightarrow> TurnEventBroker" where
  "broker_call_step (BrokerWatch i) b = snd (Watch i b)"
| "broker_call_step (BrokerRelease i n) b = release i n b"
| "broker_call_step (BrokerNotify i) b = NotifyTurnEvent i b"

definition watchers :: "TurnEventBroker \<Rightarrow> TurnID \<Rightarrow> nat set" where
  "watchers b i = set (map_get [] (br_waiters b) i)"

lemma watchers_step:
  "watchers (broker_call_step call b) j = (case call of
     BrokerWatch i \<Rightarrow> watchers b j \<union> (if i = j then {br_made b} else {})
   | BrokerRelease i n \<Rightarrow> watchers b j - (if i = j then {n} else {})
   | BrokerNotify i \<Rightarrow> watchers b j)"
  by (auto simp: watchers_def Watch_def release_def NotifyTurnEvent_def Let_def map_get_def filter_empty_conv
      split: broker_call.split option.splits)

lemma pending_step:
  "br_pending (broker_call_step call b) n = (case call of
     BrokerWatch i \<Rightarrow> n \<noteq> br_made b \<and> br_pending b n
   | BrokerRelease i m \<Rightarrow> br_pending b n
   | BrokerNotify i \<Rightarrow> br_pending b n \<or> n \<in> watchers b i)"
  by (auto simp: watchers_def Watch_def release_def NotifyTurnEvent_def Let_def fold_set_true split: broker_call.split)

lemma made_step: "br_made (broker_call_step call b) = br_made b + (case call of BrokerWatch i \<Rightarrow> 1 | _ \<Rightarrow> 0)"
  by (simp add: Watch_def release_def NotifyTurnEvent_def Let_def split: broker_call.split)

lemma calls_registered:
  assumes "n < br_made b" "\<And>j. n \<in> watchers b j \<longleftrightarrow> j = i" "\<And>j. BrokerRelease j n \<notin> set calls"
  shows "n < br_made (fold broker_call_step calls b) \<and> (\<forall>j. n \<in> watchers (fold broker_call_step calls b) j \<longleftrightarrow> j = i)
    \<and> (br_pending (fold broker_call_step calls b) n \<longleftrightarrow> br_pending b n \<or> BrokerNotify i \<in> set calls)"
  using assms
proof (induction calls arbitrary: b)
  case (Cons call calls)
  let ?b = "broker_call_step call b"
  have "n < br_made ?b" using Cons.prems(1) by (simp add: made_step)
  moreover have "n \<in> watchers ?b j \<longleftrightarrow> j = i" for j
    using Cons.prems by (auto simp: watchers_step split: broker_call.split)
  moreover have "br_pending ?b n \<longleftrightarrow> br_pending b n \<or> call = BrokerNotify i"
    using Cons.prems(1,2) by (auto simp: pending_step split: broker_call.split)
  ultimately show ?case using Cons.IH [of ?b] Cons.prems(3) by auto
qed simp

lemma calls_released:
  assumes "n < br_made b" "\<And>j. n \<notin> watchers b j"
  shows "(\<forall>j. n \<notin> watchers (fold broker_call_step calls b) j)
    \<and> br_pending (fold broker_call_step calls b) n = br_pending b n"
  using assms
proof (induction calls arbitrary: b)
  case (Cons call calls)
  let ?b = "broker_call_step call b"
  have "n < br_made ?b" using Cons.prems(1) by (simp add: made_step)
  moreover have "n \<notin> watchers ?b j" for j
    using Cons.prems by (auto simp: watchers_step split: broker_call.split)
  moreover have "br_pending ?b n = br_pending b n"
    using Cons.prems by (auto simp: pending_step split: broker_call.split)
  ultimately show ?case using Cons.IH [of ?b] by simp
qed simp

lemma Watch_registers:
  assumes "broker_ok b" "Watch i b = (signal, b1)"
  shows "signal < br_made b1" "signal \<in> watchers b1 j \<longleftrightarrow> j = i" "\<not> br_pending b1 signal"
proof -
  have b1: "b1 = broker_call_step (BrokerWatch i) b" "signal = br_made b" using assms(2) by (auto simp: Watch_def Let_def)
  show "signal < br_made b1" "\<not> br_pending b1 signal" by (simp_all only: b1 made_step pending_step) simp_all
  have "br_made b \<notin> watchers b j"
    using assms(1) unfolding broker_ok_def watchers_def map_get_def by (cases "br_waiters b j") auto
  then show "signal \<in> watchers b1 j \<longleftrightarrow> j = i" unfolding b1 watchers_step by simp
qed

text \<open>
  C15. No wake-up is lost and no registration leaks. After a watcher has registered for a Turn, let
  any observers and writers register, release and notify, for this Turn and others, in any order,
  as long as nobody releases this watcher. Its signal is then pending if and only if one of these
  calls notified its Turn. When it releases itself it is registered nowhere any more and later
  calls do not touch its signal, while every other watcher of every Turn stays registered. Every
  pass of \<open>Next\<close> with a broker registers before it reads and releases at its end.
\<close>

theorem broker_no_lost_wakeup:
  assumes "broker_ok b" "Watch i b = (signal, b1)" "\<And>j. BrokerRelease j signal \<notin> set calls"
  shows "(br_pending (fold broker_call_step calls b1) signal \<longleftrightarrow> BrokerNotify i \<in> set calls)
    \<and> signal \<notin> watchers (fold broker_call_step (calls @ BrokerRelease i signal # later) b1) j
    \<and> (br_pending (fold broker_call_step (calls @ BrokerRelease i signal # later) b1) signal \<longleftrightarrow> BrokerNotify i \<in> set calls)
    \<and> watchers (release i signal (fold broker_call_step calls b1)) j = watchers (fold broker_call_step calls b1) j - {signal}
    \<and> (\<forall>sub it acts sub' out. next_iter sub it = (acts, sub', out) \<and> eo_Broker (es_options (sb_stream sub)) \<longrightarrow>
        acts \<in> {[], [ActWatch, ActRead, ActRelease], [ActWatch, ActRead, ActWait, ActRelease]})"
proof -
  let ?b = "fold broker_call_step calls b1" and ?r = "broker_call_step (BrokerRelease i signal) (fold broker_call_step calls b1)"
  have at: "signal < br_made ?b" "signal \<in> watchers ?b k \<longleftrightarrow> k = i" "br_pending ?b signal \<longleftrightarrow> BrokerNotify i \<in> set calls" for k
    using calls_registered [OF Watch_registers(1,2) [OF assms(1,2)] assms(3)] Watch_registers(3) [OF assms(1,2)] by auto
  have "signal < br_made ?r" "signal \<notin> watchers ?r k" "br_pending ?r signal \<longleftrightarrow> BrokerNotify i \<in> set calls" for k
    unfolding made_step watchers_step pending_step using at by auto
  note rel = this calls_released [OF this(1,2), of later]
  have only: "watchers (release i signal ?b) j = watchers ?b j - {signal}"
    using watchers_step [of "BrokerRelease i signal" ?b j] at(2) [of j] by auto
  have acts: "acts \<in> {[], [ActWatch, ActRead, ActRelease], [ActWatch, ActRead, ActWait, ActRelease]}"
    if "next_iter sub it = (acts, sub', out) \<and> eo_Broker (es_options (sb_stream sub))"
    for sub :: "'z TurnSubscription" and it acts sub' out
    using that by (auto simp: next_iter_def Let_def watched_def Close_def split: if_splits option.splits prod.splits sum.splits bool.splits)
  show ?thesis using at(3) rel only acts by (intro conjI allI impI) (simp_all only: fold_append fold_simps comp_apply simp_thms, blast)
qed

theorem broker_no_lost_wakeup_witness:
  "br_pending (fold broker_call_step [BrokerRelease ''turn-1'' 0, BrokerWatch ''turn-2'', BrokerNotify ''turn-1'']
     (snd (Watch ''turn-1'' (snd (Watch ''turn-1'' NewTurnEventBroker))))) 1"
proof -
  have "Watch ''turn-1'' (snd (Watch ''turn-1'' NewTurnEventBroker)) = (1, snd (Watch ''turn-1'' (snd (Watch ''turn-1'' NewTurnEventBroker))))"
    by (simp add: Watch_def NewTurnEventBroker_def)
  from broker_no_lost_wakeup [OF broker_ok_ops(2) [OF broker_ok_ops(1)] this,
      of "[BrokerRelease ''turn-1'' 0, BrokerWatch ''turn-2'', BrokerNotify ''turn-1'']" "[]" "''turn-1''", THEN conjunct1]
  show ?thesis by simp
qed

end
