(* ===== verification/Execution_Types.thy ===== *)
theory Execution_Types
  imports Settlement
begin

text \<open>
  The data of fenced execution, \<^verbatim>\<open>server/service/agentturn/execution_types.go\<close>: attempts and
  their fences, claim, heartbeat, commit and reconcile commands, effect drafts and records, and
  the reasons for which a Turn is reclaimed. The empty status and the empty intent of Go are
  \<open>TurnStatusOther []\<close> and \<open>SettlementIntentOther []\<close>.
\<close>

abbreviation DefaultAttemptLeaseTTL :: duration where "DefaultAttemptLeaseTTL \<equiv> 30000000000"
abbreviation DefaultClaimNextScanLimit :: int where "DefaultClaimNextScanLimit \<equiv> 16"
abbreviation MaxClaimNextScanLimit :: int where "MaxClaimNextScanLimit \<equiv> 128"
abbreviation DefaultReclaimScanLimit :: int where "DefaultReclaimScanLimit \<equiv> 64"
abbreviation MaxReclaimScanLimit :: int where "MaxReclaimScanLimit \<equiv> 512"
abbreviation MaxWorkerIDBytes :: nat where "MaxWorkerIDBytes \<equiv> 128"
abbreviation MaxWorkerBuildDigestBytes :: nat where "MaxWorkerBuildDigestBytes \<equiv> 128"
abbreviation MaxEffectOutboxIDBytes :: nat where "MaxEffectOutboxIDBytes \<equiv> 64"
abbreviation MaxEffectTopicBytes :: nat where "MaxEffectTopicBytes \<equiv> 128"
abbreviation MaxEffectDedupeKeyBytes :: nat where "MaxEffectDedupeKeyBytes \<equiv> 256"
abbreviation MaxEffectPayloadBytes :: nat where "MaxEffectPayloadBytes \<equiv> 1048576"
abbreviation MaxClaimPluginScopes :: nat where "MaxClaimPluginScopes \<equiv> 32"

subsection \<open>Attempts\<close>

datatype AttemptStatus =
    AttemptStatusRunning | AttemptStatusCompleted | AttemptStatusStopped | AttemptStatusFailed
  | AttemptStatusTimeout | AttemptStatusExpired | AttemptStatusOther string

fun AttemptStatus_string :: "AttemptStatus \<Rightarrow> string" where
  "AttemptStatus_string AttemptStatusRunning = ''running''"
| "AttemptStatus_string AttemptStatusCompleted = ''completed''"
| "AttemptStatus_string AttemptStatusStopped = ''stopped''"
| "AttemptStatus_string AttemptStatusFailed = ''failed''"
| "AttemptStatus_string AttemptStatusTimeout = ''timeout''"
| "AttemptStatus_string AttemptStatusExpired = ''expired''"
| "AttemptStatus_string (AttemptStatusOther s) = s"

fun AttemptStatus_Valid :: "AttemptStatus \<Rightarrow> bool" where
  "AttemptStatus_Valid (AttemptStatusOther s) = False"
| "AttemptStatus_Valid _ = True"

definition AttemptStatus_Terminal :: "AttemptStatus \<Rightarrow> bool" where
  "AttemptStatus_Terminal status \<longleftrightarrow> AttemptStatus_Valid status \<and> status \<noteq> AttemptStatusRunning"

record AttemptFence =
  af_TurnID :: TurnID
  af_AttemptID :: string
  af_FencingToken :: Sequence
  af_WorkerID :: string
  af_WorkerBuildDigest :: string

definition AttemptFence_Validate :: "AttemptFence \<Rightarrow> go_error option" where
  "AttemptFence_Validate f = first_error
     [validatePathSegment ''turnId'' (af_TurnID f) MaxTurnIDBytes,
      validatePrintableASCII ''attemptId'' (af_AttemptID f) MaxAttemptIDBytes,
      fail_if (af_FencingToken f = 0 \<or> af_FencingToken f > MaxDurableSequence)
        (Errorf ''fencingToken is out of range''),
      validatePrintableASCII ''workerId'' (af_WorkerID f) MaxWorkerIDBytes,
      validatePrintableASCII ''workerBuildDigest'' (af_WorkerBuildDigest f) MaxWorkerBuildDigestBytes]"

record TurnAttempt =
  ta_ID :: string
  ta_TurnID :: TurnID
  ta_FencingToken :: Sequence
  ta_Status :: AttemptStatus
  ta_WorkerID :: string
  ta_WorkerBuildDigest :: string
  ta_LeaseExpiresAt :: time
  ta_ClaimedAt :: time
  ta_LastHeartbeatAt :: time
  ta_FinishedAt :: "time option"
  ta_CreatedAt :: time
  ta_UpdatedAt :: time

definition TurnAttempt_Fence :: "TurnAttempt \<Rightarrow> AttemptFence" where
  "TurnAttempt_Fence a = \<lparr>af_TurnID = ta_TurnID a, af_AttemptID = ta_ID a,
     af_FencingToken = ta_FencingToken a, af_WorkerID = ta_WorkerID a,
     af_WorkerBuildDigest = ta_WorkerBuildDigest a\<rparr>"

definition TurnAttempt_Validate :: "TurnAttempt \<Rightarrow> go_error option" where
  "TurnAttempt_Validate a = first_error
     [AttemptFence_Validate (TurnAttempt_Fence a),
      fail_if (\<not> AttemptStatus_Valid (ta_Status a)) (Errorf ''unknown attempt status''),
      fail_if (IsZero (ta_LeaseExpiresAt a) \<or> IsZero (ta_ClaimedAt a) \<or> IsZero (ta_LastHeartbeatAt a)
               \<or> IsZero (ta_CreatedAt a) \<or> IsZero (ta_UpdatedAt a))
        (Errorf ''attempt lease and lifecycle timestamps are required''),
      fail_if (ta_LastHeartbeatAt a < ta_ClaimedAt a \<or> ta_UpdatedAt a < ta_CreatedAt a
               \<or> ta_UpdatedAt a < ta_LastHeartbeatAt a)
        (Errorf ''attempt lifecycle timestamps are out of order''),
      fail_if (\<not> ta_LastHeartbeatAt a < ta_LeaseExpiresAt a)
        (Errorf ''attempt heartbeat must precede lease expiry''),
      fail_if (AttemptStatus_Terminal (ta_Status a) \<noteq> (ta_FinishedAt a \<noteq> None))
        (Errorf ''terminal attempt status and finishedAt must agree''),
      fail_if (before_opt (ta_FinishedAt a) (ta_LastHeartbeatAt a))
        (Errorf ''attempt finishedAt precedes last heartbeat''),
      fail_if (after_opt (ta_FinishedAt a) (ta_UpdatedAt a))
        (Errorf ''attempt updatedAt precedes finishedAt'')]"

subsection \<open>Claims\<close>

fun plugin_scope_loop :: "EventPluginRef set \<Rightarrow> EventPluginRef list \<Rightarrow> go_error option" where
  "plugin_scope_loop seen [] = None"
| "plugin_scope_loop seen (plugin # rest) =
     or_else (first_error
        [wrap_error ''pluginScope'' (EventPluginRef_Validate plugin),
         wrap_error ''pluginScope'' (validatePluginRef plugin),
         fail_if (plugin \<in> seen) (Errorf ''pluginScope repeats a release'')])
       (plugin_scope_loop (insert plugin seen) rest)"

definition validateClaimPluginScope :: "EventPluginRef list \<Rightarrow> go_error option" where
  "validateClaimPluginScope scope = first_error
     [fail_if (length scope > MaxClaimPluginScopes) (Errorf ''pluginScope exceeds the release limit''),
      plugin_scope_loop {} scope]"

definition claimPluginScopeAllows :: "EventPluginRef list \<Rightarrow> EventPluginRef \<Rightarrow> bool" where
  "claimPluginScopeAllows scope plugin =
     (if length scope = 0 then True else list_ex (\<lambda>allowed. allowed = plugin) scope)"

record ClaimAttemptCommand =
  ca_TurnID :: TurnID
  ca_AttemptID :: string
  ca_WorkerID :: string
  ca_WorkerBuildDigest :: string
  ca_PluginScope :: "EventPluginRef list"

definition ClaimAttemptCommand_Validate :: "ClaimAttemptCommand \<Rightarrow> go_error option" where
  "ClaimAttemptCommand_Validate c = first_error
     [AttemptFence_Validate \<lparr>af_TurnID = ca_TurnID c, af_AttemptID = ca_AttemptID c, af_FencingToken = 1,
        af_WorkerID = ca_WorkerID c, af_WorkerBuildDigest = ca_WorkerBuildDigest c\<rparr>,
      validateClaimPluginScope (ca_PluginScope c)]"

record ClaimAttemptResult =
  clr_Turn :: Turn
  clr_Attempt :: TurnAttempt
  clr_Claimed :: bool
  clr_Reclaimed :: bool
  clr_Replay :: bool

record ClaimNextCommand =
  cn_AttemptID :: string
  cn_WorkerID :: string
  cn_WorkerBuildDigest :: string
  cn_ScanLimit :: int
  cn_PluginScope :: "EventPluginRef list"

definition ClaimNextCommand_Validate :: "ClaimNextCommand \<Rightarrow> go_error option" where
  "ClaimNextCommand_Validate c = first_error
     [validatePrintableASCII ''attemptId'' (cn_AttemptID c) MaxAttemptIDBytes,
      validatePrintableASCII ''workerId'' (cn_WorkerID c) MaxWorkerIDBytes,
      validatePrintableASCII ''workerBuildDigest'' (cn_WorkerBuildDigest c) MaxWorkerBuildDigestBytes,
      fail_if (cn_ScanLimit c < 0 \<or> cn_ScanLimit c > MaxClaimNextScanLimit) (Errorf ''scanLimit is out of range''),
      validateClaimPluginScope (cn_PluginScope c)]"

definition ClaimNextCommand_scanLimit :: "ClaimNextCommand \<Rightarrow> int" where
  "ClaimNextCommand_scanLimit c = (if cn_ScanLimit c \<le> 0 then DefaultClaimNextScanLimit else cn_ScanLimit c)"

definition claimFor :: "ClaimNextCommand \<Rightarrow> TurnID \<Rightarrow> ClaimAttemptCommand" where
  "claimFor c turnID = \<lparr>ca_TurnID = turnID, ca_AttemptID = cn_AttemptID c, ca_WorkerID = cn_WorkerID c,
     ca_WorkerBuildDigest = cn_WorkerBuildDigest c, ca_PluginScope = cn_PluginScope c\<rparr>"

record HeartbeatAttemptCommand =
  hb_Fence :: AttemptFence

definition HeartbeatAttemptCommand_Validate :: "HeartbeatAttemptCommand \<Rightarrow> go_error option" where
  "HeartbeatAttemptCommand_Validate c = AttemptFence_Validate (hb_Fence c)"

record HeartbeatAttemptResult =
  hr_Attempt :: TurnAttempt
  hr_CancelRequestedAt :: "time option"

subsection \<open>Reclaiming\<close>

datatype ReclaimReason =
    ReclaimReasonLeaseExpired | ReclaimReasonCancellationPending | ReclaimReasonAttemptsExhausted
  | ReclaimReasonReservationExpired | ReclaimReasonOther string

fun ReclaimReason_string :: "ReclaimReason \<Rightarrow> string" where
  "ReclaimReason_string ReclaimReasonLeaseExpired = ''lease_expired''"
| "ReclaimReason_string ReclaimReasonCancellationPending = ''cancellation_pending''"
| "ReclaimReason_string ReclaimReasonAttemptsExhausted = ''attempts_exhausted''"
| "ReclaimReason_string ReclaimReasonReservationExpired = ''reservation_expired''"
| "ReclaimReason_string (ReclaimReasonOther s) = s"

fun ReclaimReason_Valid :: "ReclaimReason \<Rightarrow> bool" where
  "ReclaimReason_Valid (ReclaimReasonOther s) = False"
| "ReclaimReason_Valid _ = True"

definition ReclaimReason_Actionable :: "ReclaimReason \<Rightarrow> bool" where
  "ReclaimReason_Actionable r \<longleftrightarrow> r = ReclaimReasonCancellationPending \<or> r = ReclaimReasonAttemptsExhausted
     \<or> r = ReclaimReasonReservationExpired"

fun ReclaimReason_TerminalStatus :: "ReclaimReason \<Rightarrow> TurnStatus \<times> bool" where
  "ReclaimReason_TerminalStatus ReclaimReasonCancellationPending = (TurnStatusStopped, True)"
| "ReclaimReason_TerminalStatus ReclaimReasonAttemptsExhausted = (TurnStatusTimeout, True)"
| "ReclaimReason_TerminalStatus ReclaimReasonReservationExpired = (TurnStatusTimeout, True)"
| "ReclaimReason_TerminalStatus _ = (TurnStatusOther '''', False)"

record ReclaimableTurn =
  rt_TurnID :: TurnID
  rt_Status :: TurnStatus
  rt_Reason :: ReclaimReason
  rt_AttemptID :: string
  rt_FencingToken :: Sequence
  rt_WorkerID :: string
  rt_LeaseExpiresAt :: "time option"
  rt_CancelRequestedAt :: "time option"

record ReclaimQuery =
  rcq_Limit :: int
  rcq_ActionableOnly :: bool

definition ReclaimQuery_Validate :: "ReclaimQuery \<Rightarrow> go_error option" where
  "ReclaimQuery_Validate q =
     fail_if (rcq_Limit q < 0 \<or> rcq_Limit q > MaxReclaimScanLimit) (Errorf ''limit is out of range'')"

definition ReclaimQuery_limit :: "ReclaimQuery \<Rightarrow> int" where
  "ReclaimQuery_limit q = (if rcq_Limit q \<le> 0 then DefaultReclaimScanLimit else rcq_Limit q)"

record ReconcileCommand =
  rcc_TurnID :: TurnID
  rcc_Reason :: ReclaimReason
  rcc_ReconcilerID :: string
  rcc_ReconcilerBuildDigest :: string

definition ReconcileCommand_Validate :: "ReconcileCommand \<Rightarrow> go_error option" where
  "ReconcileCommand_Validate c = first_error
     [validatePathSegment ''turnId'' (rcc_TurnID c) MaxTurnIDBytes,
      fail_if (\<not> ReclaimReason_Actionable (rcc_Reason c)) (Errorf ''reconcile reason is not actionable''),
      validatePrintableASCII ''reconcilerId'' (rcc_ReconcilerID c) MaxWorkerIDBytes,
      validatePrintableASCII ''reconcilerBuildDigest'' (rcc_ReconcilerBuildDigest c) MaxWorkerBuildDigestBytes]"

record ReconcileResult =
  rcr_Turn :: Turn
  rcr_Event :: EventEnvelope
  rcr_TerminalStatus :: TurnStatus
  rcr_Changed :: bool
  rcr_FencedAttemptID :: string
  rcr_SettlementReview :: "SettlementReviewRecord option"

subsection \<open>Effects and commits\<close>

record EffectOutboxDraft =
  eod_OutboxID :: string
  eod_Topic :: string
  eod_DedupeKey :: string
  eod_Payload :: string
  eod_AvailableAt :: time

definition EffectOutboxDraft_Validate :: "EffectOutboxDraft \<Rightarrow> go_error option" where
  "EffectOutboxDraft_Validate d = first_error
     [validatePrintableASCII ''effect.outboxId'' (eod_OutboxID d) MaxEffectOutboxIDBytes,
      validatePrintableASCII ''effect.topic'' (eod_Topic d) MaxEffectTopicBytes,
      validateBoundedText ''effect.dedupeKey'' (eod_DedupeKey d) MaxEffectDedupeKeyBytes,
      fail_if (length (eod_Payload d) = 0 \<or> \<not> json_Valid (eod_Payload d))
        (Errorf ''effect payload must contain valid JSON''),
      fail_if (length (eod_Payload d) > MaxEffectPayloadBytes) (Errorf ''effect payload exceeds the byte limit''),
      fail_if (IsZero (eod_AvailableAt d)) (Errorf ''effect availableAt is required'')]"

record EffectOutboxRecord =
  eor_OutboxID :: string
  eor_TurnID :: TurnID
  eor_AttemptID :: string
  eor_FencingToken :: Sequence
  eor_OperationID :: string
  eor_Ordinal :: int
  eor_Topic :: string
  eor_DedupeKey :: string
  eor_Payload :: string
  eor_Status :: string
  eor_AvailableAt :: time

record CommitAttemptCommand =
  cm_Fence :: AttemptFence
  cm_OperationID :: string
  cm_Event :: "EventDraft option"
  cm_TerminalStatus :: TurnStatus
  cm_Effects :: "EffectOutboxDraft list"
  cm_Settlement :: "SettlementRequest option"

definition dedupe_scope :: "EffectOutboxDraft \<Rightarrow> string" where
  "dedupe_scope effect = eod_Topic effect @ CHR 0x00 # eod_DedupeKey effect"

fun commit_effects_loop :: "string set \<Rightarrow> string set \<Rightarrow> EffectOutboxDraft list \<Rightarrow> go_error option" where
  "commit_effects_loop seenOutboxIDs seenDedupeKeys [] = None"
| "commit_effects_loop seenOutboxIDs seenDedupeKeys (effect # rest) =
     or_else (first_error
        [wrap_error ''effect'' (EffectOutboxDraft_Validate effect),
         fail_if (eod_OutboxID effect \<in> seenOutboxIDs) (Errorf ''effect repeats outboxId''),
         fail_if (dedupe_scope effect \<in> seenDedupeKeys) (Errorf ''effect repeats topic and dedupeKey'')])
       (commit_effects_loop (insert (eod_OutboxID effect) seenOutboxIDs)
          (insert (dedupe_scope effect) seenDedupeKeys) rest)"

definition commit_outcome_error :: "CommitAttemptCommand \<Rightarrow> go_error option" where
  "commit_outcome_error c =
     (if cm_TerminalStatus c = TurnStatusOther ''''
      then (case cm_Event c of
              None \<Rightarrow> Some (Errorf ''non-terminal attempt commit requires an event'')
            | Some event \<Rightarrow> first_error
                [EventDraft_Validate event,
                 fail_if (HasPrefix (ed_Type event) ''core.'') ErrReservedEventType])
      else first_error
        [fail_if (\<not> TurnStatus_Valid (cm_TerminalStatus c) \<or> \<not> TurnStatus_Terminal (cm_TerminalStatus c))
           (Errorf ''attempt terminal status must be completed, stopped, failed or timeout''),
         fail_if (cm_Event c \<noteq> None) (Errorf ''terminal attempt event is built by the kernel'')])"

definition commit_settlement_error :: "CommitAttemptCommand \<Rightarrow> go_error option" where
  "commit_settlement_error c =
     (case cm_Settlement c of
        None \<Rightarrow> None
      | Some settlement \<Rightarrow> first_error
          [fail_if (cm_TerminalStatus c = TurnStatusOther '''')
             (Errorf ''settlement requires a terminal attempt commit''),
           fail_if (sq_Intent settlement \<noteq> SettlementIntentOther '''' \<and> \<not> SettlementIntent_Valid (sq_Intent settlement))
             (Errorf ''unknown settlement intent''),
           fail_if (sq_UsedUnits settlement < 0) (Errorf ''settlement usedUnits must not be negative'')])"

definition CommitAttemptCommand_Validate :: "CommitAttemptCommand \<Rightarrow> go_error option" where
  "CommitAttemptCommand_Validate c = first_error
     [AttemptFence_Validate (cm_Fence c),
      validatePrintableASCII ''operationId'' (cm_OperationID c) MaxOperationIDBytes,
      commit_outcome_error c,
      commit_settlement_error c,
      fail_if (length (cm_Effects c) > MaxEffectsPerOperation) (Errorf ''attempt effects exceed the item limit''),
      commit_effects_loop {} {} (cm_Effects c)]"

record CommitAttemptResult =
  cmr_OperationID :: string
  cmr_OperationDigest :: string
  cmr_Event :: EventEnvelope
  cmr_Turn :: Turn
  cmr_Attempt :: TurnAttempt
  cmr_TurnStatus :: TurnStatus
  cmr_Effects :: "EffectOutboxRecord list"
  cmr_SettlementReview :: "SettlementReviewRecord option"
  cmr_Replay :: bool

subsection \<open>Lemmas\<close>

lemma plugin_scope_loop_None_iff:
  "plugin_scope_loop seen ps = None \<longleftrightarrow>
     (\<forall>p \<in> set ps. EventPluginRef_Validate p = None \<and> validatePluginRef p = None \<and> p \<notin> seen) \<and> distinct ps"
  by (induction ps arbitrary: seen) (auto simp: err_simps)

lemma validateClaimPluginScope_None_iff:
  "validateClaimPluginScope ps = None \<longleftrightarrow> length ps \<le> MaxClaimPluginScopes \<and> distinct ps
     \<and> (\<forall>p \<in> set ps. EventPluginRef_Validate p = None \<and> validatePluginRef p = None)"
  by (auto simp: validateClaimPluginScope_def err_simps plugin_scope_loop_None_iff)

lemma claimPluginScopeAllows_iff: "claimPluginScopeAllows ps p \<longleftrightarrow> ps = [] \<or> p \<in> set ps"
  by (auto simp: claimPluginScopeAllows_def list_ex_iff)

text \<open>A valid topic has no NUL byte, so the joined dedupe scope determines both parts.\<close>

lemma printable_no_nul: "validatePrintableASCII n v m = None \<Longrightarrow> CHR 0x00 \<notin> set v"
  by (auto simp: validatePrintableASCII_def err_simps list_ex_iff printable_char_def)

lemma takeWhile_before: "x \<notin> set xs \<Longrightarrow> takeWhile (\<lambda>c. c \<noteq> x) (xs @ x # ys) = xs"
  by (induction xs) auto

lemma dedupe_scope_inject:
  assumes "EffectOutboxDraft_Validate d = None" "EffectOutboxDraft_Validate e = None"
  shows "dedupe_scope d = dedupe_scope e \<longleftrightarrow> eod_Topic d = eod_Topic e \<and> eod_DedupeKey d = eod_DedupeKey e"
proof -
  have "CHR 0x00 \<notin> set (eod_Topic d)" "CHR 0x00 \<notin> set (eod_Topic e)"
    using assms by (auto simp: EffectOutboxDraft_Validate_def first_error_None_iff dest: printable_no_nul)
  then have "takeWhile (\<lambda>c. c \<noteq> CHR 0x00) (dedupe_scope d) = eod_Topic d"
    "takeWhile (\<lambda>c. c \<noteq> CHR 0x00) (dedupe_scope e) = eod_Topic e"
    by (simp_all add: dedupe_scope_def takeWhile_before)
  then show ?thesis by (metis dedupe_scope_def append_same_eq same_append_eq list.inject)
qed

lemma commit_effects_loop_None_iff:
  "commit_effects_loop ids keys es = None \<longleftrightarrow>
     (\<forall>e \<in> set es. EffectOutboxDraft_Validate e = None \<and> eod_OutboxID e \<notin> ids \<and> dedupe_scope e \<notin> keys)
     \<and> distinct (map eod_OutboxID es) \<and> distinct (map dedupe_scope es)"
proof (induction es arbitrary: ids keys)
  case Nil
  then show ?case by simp
next
  case (Cons e es)
  have img: "eod_OutboxID e \<notin> eod_OutboxID ` set es \<longleftrightarrow> (\<forall>x \<in> set es. eod_OutboxID x \<noteq> eod_OutboxID e)"
    "dedupe_scope e \<notin> dedupe_scope ` set es \<longleftrightarrow> (\<forall>x \<in> set es. dedupe_scope x \<noteq> dedupe_scope e)"
    by (metis image_iff)+
  have step: "commit_effects_loop ids keys (e # es) = None \<longleftrightarrow>
      EffectOutboxDraft_Validate e = None \<and> eod_OutboxID e \<notin> ids \<and> dedupe_scope e \<notin> keys
      \<and> commit_effects_loop (insert (eod_OutboxID e) ids) (insert (dedupe_scope e) keys) es = None"
    by (simp only: commit_effects_loop.simps err_simps list.set ball_simps simp_thms conj_assoc)
  show ?case
    unfolding step Cons.IH
    by (simp only: list.set list.map distinct.simps ball_simps set_map img insert_iff de_Morgan_disj) blast
qed

text \<open>
  An accepted commit is well formed: its effects are individually valid and at most 64,
  no two share an outbox id or a pair of topic and dedupe key, a non-terminal commit carries an
  event outside the \<open>core.\<close> namespace and no settlement, and a terminal one has a terminal status and
  no event of its own.
\<close>

theorem commit_command_wellformed:
  assumes "CommitAttemptCommand_Validate c = None"
  shows "distinct (map eod_OutboxID (cm_Effects c))
    \<and> distinct (map (\<lambda>e. (eod_Topic e, eod_DedupeKey e)) (cm_Effects c)) \<and> length (cm_Effects c) \<le> 64
    \<and> (\<forall>e \<in> set (cm_Effects c). EffectOutboxDraft_Validate e = None)
    \<and> (if cm_TerminalStatus c = TurnStatusOther ''''
       then cm_Settlement c = None \<and> (\<exists>d. cm_Event c = Some d \<and> EventDraft_Validate d = None
              \<and> \<not> prefix ''core.'' (ed_Type d))
       else TurnStatus_Terminal (cm_TerminalStatus c) \<and> cm_Event c = None)"
proof -
  have eff: "commit_effects_loop {} {} (cm_Effects c) = None" "length (cm_Effects c) \<le> 64"
    and out: "commit_outcome_error c = None" and set: "commit_settlement_error c = None"
    using assms by (auto simp: CommitAttemptCommand_Validate_def first_error_None_iff fail_if_None_iff)
  have valid: "\<forall>e \<in> set (cm_Effects c). EffectOutboxDraft_Validate e = None"
    and ids: "distinct (map eod_OutboxID (cm_Effects c))" and keys: "distinct (map dedupe_scope (cm_Effects c))"
    using eff(1) by (auto simp: commit_effects_loop_None_iff)
  have "distinct (map (\<lambda>e. (eod_Topic e, eod_DedupeKey e)) (cm_Effects c))"
    using keys valid unfolding distinct_map inj_on_def by (metis dedupe_scope_inject prod.inject)
  moreover have "if cm_TerminalStatus c = TurnStatusOther ''''
       then cm_Settlement c = None \<and> (\<exists>d. cm_Event c = Some d \<and> EventDraft_Validate d = None
              \<and> \<not> prefix ''core.'' (ed_Type d))
       else TurnStatus_Terminal (cm_TerminalStatus c) \<and> cm_Event c = None"
    using out set by (auto simp: commit_outcome_error_def commit_settlement_error_def err_simps HasPrefix_def
        split: option.splits if_splits)
  ultimately show ?thesis using eff(2) valid ids by simp
qed

definition sample_effect :: "string \<Rightarrow> EffectOutboxDraft" where
  "sample_effect i = \<lparr>eod_OutboxID = i, eod_Topic = ''mail'', eod_DedupeKey = i, eod_Payload = ''{}'', eod_AvailableAt = 5\<rparr>"

definition sample_fence :: AttemptFence where
  "sample_fence = \<lparr>af_TurnID = ''turn-1'', af_AttemptID = ''attempt-1'', af_FencingToken = 1,
     af_WorkerID = ''worker-1'', af_WorkerBuildDigest = ''sha256:0''\<rparr>"

definition sample_commit :: CommitAttemptCommand where
  "sample_commit = \<lparr>cm_Fence = sample_fence, cm_OperationID = ''op-1'', cm_Event = None,
     cm_TerminalStatus = TurnStatusCompleted, cm_Effects = [sample_effect ''a'', sample_effect ''b''],
     cm_Settlement = Some \<lparr>sq_Intent = SettlementIntentFinalize, sq_UsedUnits = 3\<rparr>\<rparr>"

lemma sample_effects_valid:
  "EffectOutboxDraft_Validate (sample_effect ''a'') = None" "EffectOutboxDraft_Validate (sample_effect ''b'') = None"
proof -
  have "validatePrintableASCII ''effect.outboxId'' ''a'' MaxEffectOutboxIDBytes = None"
    "validatePrintableASCII ''effect.outboxId'' ''b'' MaxEffectOutboxIDBytes = None"
    "validatePrintableASCII ''effect.topic'' ''mail'' MaxEffectTopicBytes = None"
    "validateBoundedText ''effect.dedupeKey'' ''a'' MaxEffectDedupeKeyBytes = None"
    "validateBoundedText ''effect.dedupeKey'' ''b'' MaxEffectDedupeKeyBytes = None" "json_Valid ''{}''"
    by code_simp+
  then show "EffectOutboxDraft_Validate (sample_effect ''a'') = None" "EffectOutboxDraft_Validate (sample_effect ''b'') = None"
    by (simp_all add: EffectOutboxDraft_Validate_def sample_effect_def fail_if_def IsZero_def)
qed

lemma sample_commit_valid: "CommitAttemptCommand_Validate sample_commit = None"
proof -
  have "AttemptFence_Validate sample_fence = None"
    "validatePrintableASCII ''operationId'' ''op-1'' MaxOperationIDBytes = None"
    "commit_outcome_error sample_commit = None" "commit_settlement_error sample_commit = None"
    "distinct (map eod_OutboxID (cm_Effects sample_commit))" "distinct (map dedupe_scope (cm_Effects sample_commit))"
    by code_simp+
  then show ?thesis
    using sample_effects_valid
    by (simp add: CommitAttemptCommand_Validate_def first_error_None_iff fail_if_None_iff commit_effects_loop_None_iff)
      (simp add: sample_commit_def)
qed

theorem commit_command_wellformed_witness:
  "distinct (map (\<lambda>e. (eod_Topic e, eod_DedupeKey e)) (cm_Effects sample_commit))
    \<and> TurnStatus_Terminal (cm_TerminalStatus sample_commit)"
  using commit_command_wellformed [OF sample_commit_valid] by (simp add: sample_commit_def)

end
