(* ===== verification/Sql_Rows.thy ===== *)
theory Sql_Rows
  imports Turn_Service Execution_Types
begin

text \<open>
  The rows of the SQL store and their conversions, \<^verbatim>\<open>sql_store.go\<close>, \<^verbatim>\<open>sql_execution_store.go\<close>
  and \<^verbatim>\<open>settlement_review.go\<close> of \<^verbatim>\<open>server/service/agentturn\<close>.

  \<^item> An \<^verbatim>\<open>int64\<close> column is an \<open>int\<close>; \<open>wrap64\<close> is Go's wrap-around where the code computes on one.
    The conversions between \<^verbatim>\<open>int64\<close> and \<^verbatim>\<open>Sequence\<close> are \<open>sint\<close> and \<open>word_of_int\<close>.
  \<^item> The string types of Go for a status convert to and from \<^verbatim>\<open>string\<close> without change, so a
    status column has the type of the status.
  \<^item> A JSON column is what \<^verbatim>\<open>decodeStrictJSON\<close> reads from it, \<open>None\<close> if the text does not
    decode. Encoding and decoding replace bytes that are not UTF-8 and compact raw messages;
    a database may rewrite a raw message further (MySQL stores JSON in a normal form), which is
    the parameter \<open>col\<close> of the functions that write one.
\<close>

subsection \<open>Integers and times\<close>

definition wrap64 :: "int \<Rightarrow> int" where
  "wrap64 x = (x + 2 ^ 63) mod 2 ^ 64 - 2 ^ 63"

abbreviation MaxInt64 :: int where "MaxInt64 \<equiv> 9223372036854775807"

text \<open>The first nanosecond of the years 1000 and 10000, counted from the zero time.\<close>

definition sql_first_time :: time where "sql_first_time = 364877 * (86400 * Second)"
definition sql_end_time :: time where "sql_end_time = 3652059 * (86400 * Second)"

definition canonicalExecutionTime :: "time \<Rightarrow> time result" where
  "canonicalExecutionTime v =
     (if IsZero v then Inl (Errorf ''execution clock returned zero time'')
      else let u = v - v mod 1000
           in if u < sql_first_time \<or> u \<ge> sql_end_time
              then Inl (Errorf ''execution time is outside SQL datetime range'') else Inr u)"

abbreviation MaxAttemptLeaseTTL :: duration where "MaxAttemptLeaseTTL \<equiv> 600000000000"
abbreviation DefaultMaxTurnAttempts :: int where "DefaultMaxTurnAttempts \<equiv> 3"
abbreviation MaxTurnAttemptsLimit :: int where "MaxTurnAttemptsLimit \<equiv> 64"
abbreviation DefaultEffectLeaseTTL :: duration where "DefaultEffectLeaseTTL \<equiv> 30000000000"
abbreviation DefaultMaxDeliveryAttempts :: int where "DefaultMaxDeliveryAttempts \<equiv> 5"
abbreviation MaxEffectErrorCodeBytes :: nat where "MaxEffectErrorCodeBytes \<equiv> 64"

definition nextExecutionFence :: "int \<Rightarrow> Sequence result" where
  "nextExecutionFence prev =
     (if prev < 0 \<or> (word_of_int prev :: Sequence) > MaxDurableSequence then Inl ErrStoreIntegrity
      else if (word_of_int prev :: Sequence) = MaxDurableSequence then Inl ErrAttemptFenceExhausted
      else Inr (word_of_int (wrap64 (prev + 1))))"

definition nextSQLSequence :: "int \<Rightarrow> Sequence result" where
  "nextSQLSequence prev =
     (if prev < 1 then Inl ErrStoreIntegrity
      else if (word_of_int prev :: Sequence) \<ge> MaxDurableSequence then Inl ErrSequenceExhausted
      else Inr (word_of_int (wrap64 (prev + 1))))"

definition parseDeterministicEventID :: "TurnID \<Rightarrow> string \<Rightarrow> Sequence \<times> bool" where
  "parseDeterministicEventID turnID eventID =
     (if \<not> HasPrefix eventID (turnID @ '':'') then (0, False)
      else let raw = drop (length (turnID @ '':'')) eventID
           in if raw = '''' \<or> (length raw > 1 \<and> hd raw = CHR ''0'') then (0, False)
              else (case ParseUint raw 63 of
                      None \<Rightarrow> (0, False)
                    | Some parsed \<Rightarrow> if parsed = 0 then (0, False) else (of_nat parsed, True)))"

definition validateOwnedStorageLookup :: "PrincipalID \<Rightarrow> ThreadID \<Rightarrow> TurnID \<Rightarrow> go_error option" where
  "validateOwnedStorageLookup principalID threadID turnID = first_error
     [validateBoundedText ''principalId'' principalID MaxPrincipalIDBytes,
      validatePathSegment ''threadId'' threadID MaxThreadIDBytes,
      validatePathSegment ''turnId'' turnID MaxTurnIDBytes]"

definition classifyIdempotentAdmission :: "Turn \<Rightarrow> Turn \<Rightarrow> AdmissionRecord result" where
  "classifyIdempotentAdmission existing candidate =
     (if t_CommandDigest existing \<noteq> t_CommandDigest candidate then Inl ErrIdempotencyConflict
      else Inr \<lparr>adm_Turn = existing, adm_Created = False\<rparr>)"

subsection \<open>Turn rows\<close>

record sqlTurnRow =
  tr_ID :: nat
  tr_TurnID :: string
  tr_PrincipalID :: string
  tr_ThreadID :: string
  tr_IdempotencyKey :: string
  tr_CommandDigest :: string
  tr_PluginSnapshotJSON :: "EventPluginRef option"
  tr_Status :: TurnStatus
  tr_LastEventSequence :: int
  tr_ActiveAttemptID :: "string option"
  tr_FencingToken :: int
  tr_CancelRequestedAt :: "time option"
  tr_StartedAt :: "time option"
  tr_FinishedAt :: "time option"
  tr_CreatedAt :: time
  tr_UpdatedAt :: time

definition decoded_plugin :: "EventPluginRef \<Rightarrow> EventPluginRef" where
  "decoded_plugin p = \<lparr>pr_ID = utf8_coerce (pr_ID p), pr_Version = utf8_coerce (pr_Version p),
                       pr_ReleaseDigest = utf8_coerce (pr_ReleaseDigest p)\<rparr>"

definition turnToSQLRow :: "Turn \<Rightarrow> Sequence \<Rightarrow> sqlTurnRow" where
  "turnToSQLRow turn lastSeq =
     \<lparr>tr_ID = 0, tr_TurnID = t_ID turn, tr_PrincipalID = t_PrincipalID turn, tr_ThreadID = t_ThreadID turn,
      tr_IdempotencyKey = t_IdempotencyKey turn, tr_CommandDigest = t_CommandDigest turn,
      tr_PluginSnapshotJSON = Some (decoded_plugin (t_Plugin turn)), tr_Status = t_Status turn,
      tr_LastEventSequence = sint lastSeq, tr_ActiveAttemptID = None, tr_FencingToken = 0,
      tr_CancelRequestedAt = t_CancelRequestedAt turn, tr_StartedAt = t_StartedAt turn,
      tr_FinishedAt = t_FinishedAt turn, tr_CreatedAt = t_CreatedAt turn, tr_UpdatedAt = t_UpdatedAt turn\<rparr>"

definition row_turn :: "sqlTurnRow \<Rightarrow> EventPluginRef \<Rightarrow> Turn" where
  "row_turn row plugin =
     \<lparr>t_ID = tr_TurnID row, t_PrincipalID = tr_PrincipalID row, t_ThreadID = tr_ThreadID row,
      t_IdempotencyKey = tr_IdempotencyKey row, t_CommandDigest = tr_CommandDigest row, t_Plugin = plugin,
      t_Status = tr_Status row, t_CancelRequestedAt = tr_CancelRequestedAt row,
      t_CreatedAt = tr_CreatedAt row, t_UpdatedAt = tr_UpdatedAt row, t_StartedAt = tr_StartedAt row,
      t_FinishedAt = tr_FinishedAt row\<rparr>"

definition toTurn :: "sqlTurnRow \<Rightarrow> Turn result" where
  "toTurn row =
     (if tr_LastEventSequence row < 1 \<or> (word_of_int (tr_LastEventSequence row) :: Sequence) > MaxDurableSequence
      then Inl ErrStoreIntegrity
      else if tr_FencingToken row < 0 \<or> (word_of_int (tr_FencingToken row) :: Sequence) > MaxDurableSequence
      then Inl ErrStoreIntegrity
      else if (case tr_ActiveAttemptID row of None \<Rightarrow> False
               | Some attemptID \<Rightarrow> tr_FencingToken row < 1
                   \<or> validatePrintableASCII ''activeAttemptId'' attemptID MaxAttemptIDBytes \<noteq> None)
      then Inl ErrStoreIntegrity
      else (case tr_PluginSnapshotJSON row of
              None \<Rightarrow> Inl ErrStoreIntegrity
            | Some plugin \<Rightarrow>
                if Turn_Validate (row_turn row plugin) \<noteq> None then Inl ErrStoreIntegrity
                else Inr (row_turn row plugin)))"

subsection \<open>Event rows\<close>

record sqlTurnEventRow =
  er_ID :: nat
  er_TurnID :: string
  er_Sequence :: int
  er_EventID :: string
  er_SchemaVersion :: int
  er_EventType :: string
  er_EventJSON :: "EventEnvelope option"
  er_CreatedAt :: time

definition validateStoredEnvelope :: "EventEnvelope \<Rightarrow> go_error option" where
  "validateStoredEnvelope event =
     (if EventEnvelope_Validate event \<noteq> None \<or> ev_Sequence event > MaxDurableSequence then Some ErrStoreIntegrity
      else if validatePluginRef (ev_Plugin event) \<noteq> None then Some ErrStoreIntegrity
      else if EventDraft_Validate \<lparr>ed_Type = ev_Type event, ed_ResourceRefs = ev_ResourceRefs event,
                                   ed_Data = ev_Data event\<rparr> \<noteq> None then Some ErrStoreIntegrity
      else None)"

text \<open>What \<^verbatim>\<open>json.Marshal\<close>, the JSON column and \<^verbatim>\<open>decodeStrictJSON\<close> give back for an envelope.\<close>

definition decoded_event :: "(string \<Rightarrow> string) \<Rightarrow> EventEnvelope \<Rightarrow> EventEnvelope" where
  "decoded_event col event = event\<lparr>ev_EventID := utf8_coerce (ev_EventID event),
     ev_TurnID := utf8_coerce (ev_TurnID event), ev_Plugin := decoded_plugin (ev_Plugin event),
     ev_Type := utf8_coerce (ev_Type event), ev_ResourceRefs := map utf8_coerce (ev_ResourceRefs event),
     ev_Data := col (json_compact (ev_Data event))\<rparr>"

definition eventToSQLRow :: "(string \<Rightarrow> string) \<Rightarrow> EventEnvelope \<Rightarrow> time \<Rightarrow> sqlTurnEventRow result" where
  "eventToSQLRow col event now =
     (case validateStoredEnvelope event of
        Some e \<Rightarrow> Inl e
      | None \<Rightarrow>
          (case canonicalExecutionTime now of
             Inl e \<Rightarrow> Inl ErrStoreIntegrity
           | Inr canonicalNow \<Rightarrow>
               Inr \<lparr>er_ID = 0, er_TurnID = ev_TurnID event, er_Sequence = sint (ev_Sequence event),
                    er_EventID = ev_EventID event, er_SchemaVersion = ev_SchemaVersion event,
                    er_EventType = ev_Type event, er_EventJSON = Some (decoded_event col event),
                    er_CreatedAt = canonicalNow\<rparr>))"

definition toEnvelope :: "sqlTurnEventRow \<Rightarrow> Turn \<Rightarrow> EventEnvelope result" where
  "toEnvelope row turn =
     (if er_Sequence row < 1 \<or> (word_of_int (er_Sequence row) :: Sequence) > MaxDurableSequence
      then Inl ErrStoreIntegrity
      else (case er_EventJSON row of
              None \<Rightarrow> Inl ErrStoreIntegrity
            | Some event \<Rightarrow>
                if ev_TurnID event \<noteq> t_ID turn \<or> ev_Plugin event \<noteq> t_Plugin turn
                   \<or> ev_Sequence event \<noteq> word_of_int (er_Sequence row) \<or> ev_EventID event \<noteq> er_EventID row
                   \<or> ev_SchemaVersion event \<noteq> er_SchemaVersion row \<or> ev_Type event \<noteq> er_EventType row
                   \<or> ev_EventID event \<noteq> deterministicEventID (t_ID turn) (ev_Sequence event)
                then Inl ErrStoreIntegrity
                else if validateStoredEnvelope event \<noteq> None then Inl ErrStoreIntegrity
                else Inr event))"

subsection \<open>Attempt and operation rows\<close>

record sqlTurnAttemptRow =
  at_ID :: nat
  at_AttemptID :: string
  at_TurnID :: string
  at_FencingToken :: int
  at_Status :: AttemptStatus
  at_WorkerID :: string
  at_WorkerBuildDigest :: string
  at_ClaimedAt :: time
  at_LastHeartbeatAt :: time
  at_LeaseExpiresAt :: time
  at_FinishedAt :: "time option"
  at_CreatedAt :: time
  at_UpdatedAt :: time

definition attempt_row :: "TurnAttempt \<Rightarrow> sqlTurnAttemptRow" where
  "attempt_row a =
     \<lparr>at_ID = 0, at_AttemptID = ta_ID a, at_TurnID = ta_TurnID a, at_FencingToken = sint (ta_FencingToken a),
      at_Status = ta_Status a, at_WorkerID = ta_WorkerID a, at_WorkerBuildDigest = ta_WorkerBuildDigest a,
      at_ClaimedAt = ta_ClaimedAt a, at_LastHeartbeatAt = ta_LastHeartbeatAt a,
      at_LeaseExpiresAt = ta_LeaseExpiresAt a, at_FinishedAt = ta_FinishedAt a,
      at_CreatedAt = ta_CreatedAt a, at_UpdatedAt = ta_UpdatedAt a\<rparr>"

definition attemptToSQLRow :: "TurnAttempt \<Rightarrow> sqlTurnAttemptRow result" where
  "attemptToSQLRow a = (case TurnAttempt_Validate a of Some e \<Rightarrow> Inl e | None \<Rightarrow> Inr (attempt_row a))"

definition row_attempt :: "sqlTurnAttemptRow \<Rightarrow> TurnAttempt" where
  "row_attempt row =
     \<lparr>ta_ID = at_AttemptID row, ta_TurnID = at_TurnID row, ta_FencingToken = word_of_int (at_FencingToken row),
      ta_Status = at_Status row, ta_WorkerID = at_WorkerID row, ta_WorkerBuildDigest = at_WorkerBuildDigest row,
      ta_LeaseExpiresAt = at_LeaseExpiresAt row, ta_ClaimedAt = at_ClaimedAt row,
      ta_LastHeartbeatAt = at_LastHeartbeatAt row, ta_FinishedAt = at_FinishedAt row,
      ta_CreatedAt = at_CreatedAt row, ta_UpdatedAt = at_UpdatedAt row\<rparr>"

definition toAttempt :: "sqlTurnAttemptRow \<Rightarrow> TurnAttempt result" where
  "toAttempt row =
     (if at_FencingToken row < 1 \<or> (word_of_int (at_FencingToken row) :: Sequence) > MaxDurableSequence
      then Inl ErrStoreIntegrity
      else if TurnAttempt_Validate (row_attempt row) \<noteq> None then Inl ErrStoreIntegrity
      else Inr (row_attempt row))"

definition attemptMatchesClaim :: "TurnAttempt \<Rightarrow> ClaimAttemptCommand \<Rightarrow> bool" where
  "attemptMatchesClaim a c \<longleftrightarrow> ta_ID a = ca_AttemptID c \<and> ta_TurnID a = ca_TurnID c
     \<and> ta_WorkerID a = ca_WorkerID c \<and> ta_WorkerBuildDigest a = ca_WorkerBuildDigest c"

definition attemptMatchesFence :: "TurnAttempt \<Rightarrow> AttemptFence \<Rightarrow> bool" where
  "attemptMatchesFence a f \<longleftrightarrow> ta_TurnID a = af_TurnID f \<and> ta_ID a = af_AttemptID f
     \<and> ta_FencingToken a = af_FencingToken f \<and> ta_WorkerID a = af_WorkerID f
     \<and> ta_WorkerBuildDigest a = af_WorkerBuildDigest f"

definition turnOwnsAttempt :: "sqlTurnRow \<Rightarrow> TurnAttempt \<Rightarrow> bool" where
  "turnOwnsAttempt row a \<longleftrightarrow> tr_TurnID row = ta_TurnID a \<and> tr_ActiveAttemptID row = Some (ta_ID a)
     \<and> tr_FencingToken row = sint (ta_FencingToken a)"

definition rowOwnsFence :: "sqlTurnRow \<Rightarrow> AttemptFence \<Rightarrow> bool" where
  "rowOwnsFence row f \<longleftrightarrow> tr_TurnID row = af_TurnID f \<and> tr_ActiveAttemptID row = Some (af_AttemptID f)
     \<and> tr_FencingToken row = sint (af_FencingToken f)"

fun attemptStatusForTurn :: "TurnStatus \<Rightarrow> AttemptStatus" where
  "attemptStatusForTurn TurnStatusCompleted = AttemptStatusCompleted"
| "attemptStatusForTurn TurnStatusStopped = AttemptStatusStopped"
| "attemptStatusForTurn TurnStatusFailed = AttemptStatusFailed"
| "attemptStatusForTurn TurnStatusTimeout = AttemptStatusTimeout"
| "attemptStatusForTurn _ = AttemptStatusOther []"

record sqlTurnOperationRow =
  op_ID :: nat
  op_TurnID :: string
  op_OperationID :: string
  op_OperationDigest :: string
  op_AttemptID :: string
  op_FencingToken :: int
  op_EventSequence :: int
  op_TurnStatus :: TurnStatus
  op_EffectCount :: int
  op_CreatedAt :: time

definition validateOperationRow :: "sqlTurnOperationRow \<Rightarrow> go_error option" where
  "validateOperationRow row = first_error
     [validatePathSegment ''turnId'' (op_TurnID row) MaxTurnIDBytes,
      validatePrintableASCII ''operationId'' (op_OperationID row) MaxOperationIDBytes,
      validatePrintableASCII ''operationDigest'' (op_OperationDigest row) MaxCommandDigestBytes,
      validatePrintableASCII ''attemptId'' (op_AttemptID row) MaxAttemptIDBytes,
      fail_if (op_FencingToken row < 1 \<or> (word_of_int (op_FencingToken row) :: Sequence) > MaxDurableSequence
               \<or> op_EventSequence row < 1 \<or> (word_of_int (op_EventSequence row) :: Sequence) > MaxDurableSequence)
        ErrStoreIntegrity,
      fail_if (\<not> TurnStatus_Valid (op_TurnStatus row) \<or> op_EffectCount row < 0
               \<or> op_EffectCount row > int MaxEffectsPerOperation) ErrStoreIntegrity,
      fail_if (IsZero (op_CreatedAt row)) ErrStoreIntegrity]"

subsection \<open>Effect rows\<close>

datatype EffectStatus =
    EffectStatusPending | EffectStatusDelivering | EffectStatusDelivered | EffectStatusDeadLetter
  | EffectStatusReviewHold | EffectStatusOther string

fun EffectStatus_string :: "EffectStatus \<Rightarrow> string" where
  "EffectStatus_string EffectStatusPending = ''pending''"
| "EffectStatus_string EffectStatusDelivering = ''delivering''"
| "EffectStatus_string EffectStatusDelivered = ''delivered''"
| "EffectStatus_string EffectStatusDeadLetter = ''dead_letter''"
| "EffectStatus_string EffectStatusReviewHold = ''review_hold''"
| "EffectStatus_string (EffectStatusOther s) = s"

fun EffectStatus_Valid :: "EffectStatus \<Rightarrow> bool" where
  "EffectStatus_Valid (EffectStatusOther s) = False"
| "EffectStatus_Valid _ = True"

definition EffectStatus_Terminal :: "EffectStatus \<Rightarrow> bool" where
  "EffectStatus_Terminal status \<longleftrightarrow> status = EffectStatusDelivered \<or> status = EffectStatusDeadLetter"

record sqlEffectOutboxRow =
  ef_ID :: nat
  ef_OutboxID :: string
  ef_TurnID :: string
  ef_AttemptID :: string
  ef_TurnFencingToken :: int
  ef_OperationID :: string
  ef_Ordinal :: int
  ef_Topic :: string
  ef_DedupeKey :: string
  ef_PayloadJSON :: string
  ef_Status :: EffectStatus
  ef_AvailableAt :: time
  ef_DeliveryAttempts :: int
  ef_DispatchFencingToken :: int
  ef_LeaseOwnerID :: "string option"
  ef_LeaseExpiresAt :: "time option"
  ef_LastErrorCode :: "string option"
  ef_DeliveredAt :: "time option"
  ef_DeadLetteredAt :: "time option"
  ef_CreatedAt :: time
  ef_UpdatedAt :: time

definition validEffectOutboxState :: "sqlEffectOutboxRow \<Rightarrow> bool" where
  "validEffectOutboxState row =
     (if ef_DeliveryAttempts row < 0 \<or> ef_DispatchFencingToken row < 0 \<or> IsZero (ef_CreatedAt row)
         \<or> IsZero (ef_UpdatedAt row) \<or> ef_UpdatedAt row < ef_CreatedAt row then False
      else if (case ef_LeaseOwnerID row of None \<Rightarrow> False
               | Some owner \<Rightarrow> validatePrintableASCII ''leaseOwnerId'' owner MaxWorkerIDBytes \<noteq> None) then False
      else if (case ef_LastErrorCode row of None \<Rightarrow> False
               | Some code \<Rightarrow> validatePrintableASCII ''lastErrorCode'' code MaxEffectErrorCodeBytes \<noteq> None) then False
      else if (case ef_LeaseExpiresAt row of None \<Rightarrow> False | Some t \<Rightarrow> \<not> t > ef_UpdatedAt row) then False
      else if before_opt (ef_DeliveredAt row) (ef_CreatedAt row) then False
      else if before_opt (ef_DeadLetteredAt row) (ef_CreatedAt row) then False
      else (case ef_Status row of
              EffectStatusPending \<Rightarrow> ef_LeaseOwnerID row = None \<and> ef_LeaseExpiresAt row = None
                \<and> ef_DeliveredAt row = None \<and> ef_DeadLetteredAt row = None
            | EffectStatusDelivering \<Rightarrow> ef_LeaseOwnerID row \<noteq> None \<and> ef_LeaseExpiresAt row \<noteq> None
                \<and> ef_DeliveryAttempts row \<ge> 1 \<and> ef_DispatchFencingToken row \<ge> 1
                \<and> ef_DeliveredAt row = None \<and> ef_DeadLetteredAt row = None
            | EffectStatusDelivered \<Rightarrow> ef_LeaseOwnerID row = None \<and> ef_LeaseExpiresAt row = None
                \<and> ef_DeliveryAttempts row \<ge> 1 \<and> ef_DispatchFencingToken row \<ge> 1
                \<and> ef_DeliveredAt row \<noteq> None \<and> ef_DeadLetteredAt row = None
            | EffectStatusDeadLetter \<Rightarrow> ef_LeaseOwnerID row = None \<and> ef_LeaseExpiresAt row = None
                \<and> ef_DeliveryAttempts row \<ge> 1 \<and> ef_DispatchFencingToken row \<ge> 1
                \<and> ef_DeliveredAt row = None \<and> ef_DeadLetteredAt row \<noteq> None
            | EffectStatusReviewHold \<Rightarrow> ef_LeaseOwnerID row = None \<and> ef_LeaseExpiresAt row = None
                \<and> ef_DeliveredAt row = None \<and> ef_DeadLetteredAt row = None
            | EffectStatusOther s \<Rightarrow> False))"

definition effect_record :: "sqlEffectOutboxRow \<Rightarrow> EffectOutboxRecord" where
  "effect_record row =
     \<lparr>eor_OutboxID = ef_OutboxID row, eor_TurnID = ef_TurnID row, eor_AttemptID = ef_AttemptID row,
      eor_FencingToken = word_of_int (ef_TurnFencingToken row), eor_OperationID = ef_OperationID row,
      eor_Ordinal = ef_Ordinal row, eor_Topic = ef_Topic row, eor_DedupeKey = ef_DedupeKey row,
      eor_Payload = ef_PayloadJSON row, eor_Status = EffectStatus_string (ef_Status row),
      eor_AvailableAt = ef_AvailableAt row\<rparr>"

definition effect_toRecord :: "sqlEffectOutboxRow \<Rightarrow> EffectOutboxRecord result" where
  "effect_toRecord row =
     (if validatePrintableASCII ''outboxId'' (ef_OutboxID row) MaxEffectOutboxIDBytes \<noteq> None
         \<or> validatePathSegment ''turnId'' (ef_TurnID row) MaxTurnIDBytes \<noteq> None
         \<or> validatePrintableASCII ''attemptId'' (ef_AttemptID row) MaxAttemptIDBytes \<noteq> None
         \<or> validatePrintableASCII ''operationId'' (ef_OperationID row) MaxOperationIDBytes \<noteq> None
         \<or> validatePrintableASCII ''topic'' (ef_Topic row) MaxEffectTopicBytes \<noteq> None
         \<or> validateBoundedText ''dedupeKey'' (ef_DedupeKey row) MaxEffectDedupeKeyBytes \<noteq> None
      then Inl ErrStoreIntegrity
      else if ef_TurnFencingToken row < 1 \<or> (word_of_int (ef_TurnFencingToken row) :: Sequence) > MaxDurableSequence
         \<or> ef_Ordinal row < 0 \<or> ef_Ordinal row \<ge> int MaxEffectsPerOperation \<or> length (ef_PayloadJSON row) = 0
         \<or> length (ef_PayloadJSON row) > MaxEffectPayloadBytes \<or> \<not> json_Valid (ef_PayloadJSON row)
         \<or> IsZero (ef_AvailableAt row)
      then Inl ErrStoreIntegrity
      else if \<not> validEffectOutboxState row then Inl ErrStoreIntegrity
      else Inr (effect_record row))"

definition new_effect_row ::
  "TurnAttempt \<Rightarrow> string \<Rightarrow> int \<Rightarrow> EffectOutboxDraft \<Rightarrow> time \<Rightarrow> time \<Rightarrow> sqlEffectOutboxRow"
where
  "new_effect_row attempt operationID ordinal draft availableAt now =
     \<lparr>ef_ID = 0, ef_OutboxID = eod_OutboxID draft, ef_TurnID = ta_TurnID attempt, ef_AttemptID = ta_ID attempt,
      ef_TurnFencingToken = sint (ta_FencingToken attempt), ef_OperationID = operationID, ef_Ordinal = ordinal,
      ef_Topic = eod_Topic draft, ef_DedupeKey = eod_DedupeKey draft, ef_PayloadJSON = eod_Payload draft,
      ef_Status = EffectStatusPending, ef_AvailableAt = availableAt, ef_DeliveryAttempts = 0,
      ef_DispatchFencingToken = 0, ef_LeaseOwnerID = None, ef_LeaseExpiresAt = None, ef_LastErrorCode = None,
      ef_DeliveredAt = None, ef_DeadLetteredAt = None, ef_CreatedAt = now, ef_UpdatedAt = now\<rparr>"

definition buildEffectOutboxRow ::
  "TurnAttempt \<Rightarrow> string \<Rightarrow> int \<Rightarrow> EffectOutboxDraft \<Rightarrow> time \<Rightarrow> (sqlEffectOutboxRow \<times> EffectOutboxRecord) result"
where
  "buildEffectOutboxRow attempt operationID ordinal draft now =
     (if EffectOutboxDraft_Validate draft \<noteq> None \<or> ordinal < 0 \<or> ordinal \<ge> int MaxEffectsPerOperation
      then Inl ErrStoreIntegrity
      else (case canonicalExecutionTime (eod_AvailableAt draft) of
              Inl e \<Rightarrow> Inl e
            | Inr availableAt \<Rightarrow>
                let row = new_effect_row attempt operationID ordinal draft availableAt now
                in map_sum id (Pair row) (effect_toRecord row)))"

subsection \<open>Settlement Review rows\<close>

record sqlSettlementReviewRow =
  sv_ID :: nat
  sv_ReviewID :: string
  sv_TurnID :: string
  sv_SettlementKey :: string
  sv_RequestDigest :: string
  sv_Reason :: string
  sv_Source :: SettlementReviewSource
  sv_TerminalStatus :: TurnStatus
  sv_AttemptID :: "string option"
  sv_FencingToken :: int
  sv_OperationID :: "string option"
  sv_PriorOperationCount :: int
  sv_PriorEffectCount :: int
  sv_PriorProviderUsageCount :: int
  sv_CurrentEffectCount :: int
  sv_Status :: string
  sv_CreatedAt :: time
  sv_UpdatedAt :: time

definition nullable :: "string \<Rightarrow> string option" where
  "nullable s = (if s \<noteq> [] then Some s else None)"

definition null_string :: "string option \<Rightarrow> string" where
  "null_string p = (case p of None \<Rightarrow> [] | Some s \<Rightarrow> s)"

definition row_review :: "sqlSettlementReviewRow \<Rightarrow> SettlementReviewRecord" where
  "row_review row =
     \<lparr>rv_ReviewID = sv_ReviewID row, rv_TurnID = sv_TurnID row, rv_SettlementKey = sv_SettlementKey row,
      rv_RequestDigest = sv_RequestDigest row, rv_Reason = sv_Reason row, rv_Source = sv_Source row,
      rv_TerminalStatus = sv_TerminalStatus row, rv_AttemptID = null_string (sv_AttemptID row),
      rv_FencingToken = word_of_int (sv_FencingToken row), rv_OperationID = null_string (sv_OperationID row),
      rv_Evidence = \<lparr>ue_PriorOperationCount = sv_PriorOperationCount row,
                     ue_PriorEffectCount = sv_PriorEffectCount row,
                     ue_PriorProviderUsageCount = sv_PriorProviderUsageCount row,
                     ue_CurrentEffectCount = sv_CurrentEffectCount row\<rparr>,
      rv_Status = sv_Status row, rv_CreatedAt = sv_CreatedAt row, rv_UpdatedAt = sv_UpdatedAt row\<rparr>"

definition review_toRecord :: "(string \<Rightarrow> string) \<Rightarrow> sqlSettlementReviewRow \<Rightarrow> SettlementReviewRecord result" where
  "review_toRecord sha row =
     (if SettlementReviewRecord_Validate sha (row_review row) \<noteq> None then Inl ErrStoreIntegrity
      else Inr (row_review row))"

definition review_row :: "SettlementReviewRecord \<Rightarrow> sqlSettlementReviewRow" where
  "review_row r =
     \<lparr>sv_ID = 0, sv_ReviewID = rv_ReviewID r, sv_TurnID = rv_TurnID r, sv_SettlementKey = rv_SettlementKey r,
      sv_RequestDigest = rv_RequestDigest r, sv_Reason = rv_Reason r, sv_Source = rv_Source r,
      sv_TerminalStatus = rv_TerminalStatus r, sv_AttemptID = nullable (rv_AttemptID r),
      sv_FencingToken = sint (rv_FencingToken r), sv_OperationID = nullable (rv_OperationID r),
      sv_PriorOperationCount = ue_PriorOperationCount (rv_Evidence r),
      sv_PriorEffectCount = ue_PriorEffectCount (rv_Evidence r),
      sv_PriorProviderUsageCount = ue_PriorProviderUsageCount (rv_Evidence r),
      sv_CurrentEffectCount = ue_CurrentEffectCount (rv_Evidence r), sv_Status = rv_Status r,
      sv_CreatedAt = rv_CreatedAt r, sv_UpdatedAt = rv_UpdatedAt r\<rparr>"

definition settlementReviewToSQLRow ::
  "(string \<Rightarrow> string) \<Rightarrow> SettlementReviewRecord \<Rightarrow> sqlSettlementReviewRow result"
where
  "settlementReviewToSQLRow sha r =
     (case SettlementReviewRecord_Validate sha r of Some e \<Rightarrow> Inl e | None \<Rightarrow> Inr (review_row r))"

end
