(* ===== verification/Sql_Tx.thy ===== *)
theory Sql_Tx
  imports Sql_Rows
begin

text \<open>
  The database as the SQL store of \<^verbatim>\<open>server/service/agentturn\<close> sees it, and its transactions.

  \<^item> A table is the list of its rows; \<open>db_autoinc\<close> numbers new rows. An insert that breaks a
    unique key of the migrations \<^verbatim>\<open>20260665\<close>, \<^verbatim>\<open>20260666\<close> or \<^verbatim>\<open>20260667\<close> fails with an
    opaque driver error. Checks and foreign keys of the schema are not assumed, except the range
    of the dispatch counters; they could only refuse more writes.
  \<^item> Everything the program cannot control is in \<open>sql_io\<close>, read with the number of the next
    exchange with the database: a statement may fail with any error, the clock may return any
    time or error, a commit may fail and yet have been applied, and other sessions may change
    the database between two transactions.
  \<^item> A step of a transaction is a function from the state to a result and a state; \<open>tx_bind\<close>
    stops at the first error, as the Go code returns it. Row locks make a transaction run
    without interference on the rows it reads, so its body runs on one state; an error rolls
    back everything the body wrote.
\<close>

subsection \<open>Database and environment\<close>

record sql_db =
  db_turns :: "sqlTurnRow list"
  db_events :: "sqlTurnEventRow list"
  db_attempts :: "sqlTurnAttemptRow list"
  db_operations :: "sqlTurnOperationRow list"
  db_outbox :: "sqlEffectOutboxRow list"
  db_reviews :: "sqlSettlementReviewRow list"
  db_autoinc :: nat

definition empty_db :: sql_db where
  "empty_db = \<lparr>db_turns = [], db_events = [], db_attempts = [], db_operations = [], db_outbox = [],
               db_reviews = [], db_autoinc = 1\<rparr>"

record sql_state =
  st_db :: sql_db
  st_tick :: nat

record sql_io =
  io_fault :: "nat \<Rightarrow> go_error option"
  io_clock :: "nat \<Rightarrow> time result"
  io_commit :: "nat \<Rightarrow> (go_error \<times> bool) option"
  io_others :: "nat \<Rightarrow> sql_db \<Rightarrow> sql_db"
  io_json :: "string \<Rightarrow> string"
  io_sha :: "string \<Rightarrow> string"

subsection \<open>The store\<close>

datatype sql_dialect = MySQL | SQLite

text \<open>
  The fields of \<^verbatim>\<open>SQLStore\<close> that the operations read. \<open>ss_executionClock\<close> says whether a clock is
  installed. \<open>ss_executionAuthority\<close> is the installed settlement authority as far as it can
  authorize an execution: what its method returns for a Turn in a database at some exchange.
\<close>

record SQLStore =
  ss_dialect :: sql_dialect
  ss_executionClock :: bool
  ss_attemptLeaseTTL :: duration
  ss_maxTurnAttempts :: int
  ss_effectLease :: duration
  ss_maxDeliveryAttempts :: int
  ss_executionAuthority :: "(nat \<Rightarrow> sql_db \<Rightarrow> Turn \<Rightarrow> go_error option) option"
  ss_settlementViolated :: bool

definition NewSQLStore :: "string option \<Rightarrow> SQLStore result" where
  "NewSQLStore dialector =
     (let store = (\<lambda>d. \<lparr>ss_dialect = d, ss_executionClock = True, ss_attemptLeaseTTL = DefaultAttemptLeaseTTL,
            ss_maxTurnAttempts = DefaultMaxTurnAttempts, ss_effectLease = DefaultEffectLeaseTTL,
            ss_maxDeliveryAttempts = DefaultMaxDeliveryAttempts, ss_executionAuthority = None,
            ss_settlementViolated = False\<rparr>)
      in case dialector of
           None \<Rightarrow> Inl (Errorf ''durable turn SQL store requires a configured database'')
         | Some name \<Rightarrow>
             if name = ''mysql'' then Inr (store MySQL)
             else if name = ''sqlite'' then Inr (store SQLite)
             else Inl (Errorf ''durable turn SQL store does not support dialect''))"

definition turnAttemptBudget :: "SQLStore \<Rightarrow> int result" where
  "turnAttemptBudget store =
     (if ss_maxTurnAttempts store \<le> 0 \<or> ss_maxTurnAttempts store > MaxTurnAttemptsLimit then Inl ErrStoreIntegrity
      else Inr (ss_maxTurnAttempts store))"

definition executionLeaseExpiry :: "SQLStore \<Rightarrow> time \<Rightarrow> time result" where
  "executionLeaseExpiry store now =
     (if ss_attemptLeaseTTL store \<le> 0 \<or> ss_attemptLeaseTTL store > MaxAttemptLeaseTTL then Inl ErrStoreIntegrity
      else (case canonicalExecutionTime (now + ss_attemptLeaseTTL store) of
              Inl e \<Rightarrow> Inl ErrStoreIntegrity
            | Inr expiresAt \<Rightarrow> if \<not> expiresAt > now then Inl ErrStoreIntegrity else Inr expiresAt))"

subsection \<open>Error classification\<close>

definition known_errors :: "go_error list" where
  "known_errors =
     [ErrTurnNotFound, ErrTurnIDConflict, ErrIdempotencyConflict,
      ErrInvalidTransition, ErrTurnTerminal, ErrCancellationNotRequested,
      ErrReplayCursorNotFound, ErrReplayCursorAhead, ErrReplayGap,
      ErrSequenceExhausted, ErrAttemptNotFound, ErrAttemptConflict,
      ErrAttemptBusy, ErrAttemptFenced, ErrAttemptLeaseExpired,
      ErrAttemptCancelled, ErrAttemptFenceExhausted, ErrOperationConflict,
      ErrEffectConflict, ErrExecutionFenceRequired,
      ErrAttemptBudgetExhausted, ErrPluginScopeMismatch, ErrReconcilePrecondition,
      ErrEffectNotFound, ErrEffectFenced, ErrEffectTerminal, ErrEffectScopeMismatch,
      ErrSettlementFailed, ErrSettlementUsageUnknown, ErrSettlementReviewFailed,
      ErrSettlementBindingInvalid, ErrSettlementReviewNotFound,
      ErrSettlementReviewResolutionUnavailable, ErrSettlementReviewResolutionConflict,
      ErrSettlementReviewResolutionFailed, ErrSettlementReviewUnitsExceedReserved,
      ErrSettlementReviewUsageUnavailable, ErrSettlementReviewUsageConflict,
      ErrSettlementReviewUsageFailed, ErrSettlementReviewUsagePending,
      ErrSettlementReviewUsageOverflow,
      ErrSettlementCompletedUsageUntrusted,
      ErrTurnReservationAdmissionAuthorityUnavailable,
      ErrTurnReservationAdmissionFailed, ErrTurnReservationBindingInvalid,
      ErrTurnReservationExecutionUnauthorized, ErrTurnReservationExecutionExpired]"

text \<open>\<^verbatim>\<open>SQLStoreError\<close> names its operation and unwraps to its kind.\<close>

definition SQLStoreError :: "string \<Rightarrow> go_error \<Rightarrow> go_error" where
  "SQLStoreError operation kind = Wrapf operation kind"

definition normalize :: "string \<Rightarrow> go_error \<Rightarrow> go_error" where
  "normalize operation err =
     (if errors_is err ContextCanceled \<or> errors_is err ContextDeadlineExceeded then err
      else if list_ex (errors_is err) known_errors then err
      else if errors_is err ErrStoreIntegrity then SQLStoreError operation ErrStoreIntegrity
      else SQLStoreError operation ErrStoreUnavailable)"

subsection \<open>Steps of a transaction\<close>

type_synonym 'a tx = "sql_state \<Rightarrow> 'a result \<times> sql_state"

definition tx_return :: "'a \<Rightarrow> 'a tx" where
  "tx_return x s = (Inr x, s)"

definition tx_fail :: "go_error \<Rightarrow> 'a tx" where
  "tx_fail e s = (Inl e, s)"

definition tx_lift :: "'a result \<Rightarrow> 'a tx" where
  "tx_lift r s = (r, s)"

definition tx_bind :: "'a tx \<Rightarrow> ('a \<Rightarrow> 'b tx) \<Rightarrow> 'b tx" where
  "tx_bind m k s = (case m s of (Inl e, s') \<Rightarrow> (Inl e, s') | (Inr x, s') \<Rightarrow> k x s')"

definition tx_catch :: "'a tx \<Rightarrow> (go_error \<Rightarrow> 'a tx) \<Rightarrow> 'a tx" where
  "tx_catch m h s = (case m s of (Inl e, s') \<Rightarrow> h e s' | (Inr x, s') \<Rightarrow> (Inr x, s'))"

definition tx_try :: "'a tx \<Rightarrow> ('a result \<Rightarrow> 'b tx) \<Rightarrow> 'b tx" where
  "tx_try m k s = (case m s of (r, s') \<Rightarrow> k r s')"

definition tx_check :: "bool \<Rightarrow> go_error \<Rightarrow> 'a tx \<Rightarrow> 'a tx" where
  "tx_check bad e k = (if bad then tx_fail e else k)"

definition tx_guard :: "go_error option \<Rightarrow> 'a tx \<Rightarrow> 'a tx" where
  "tx_guard err k = (case err of Some e \<Rightarrow> tx_fail e | None \<Rightarrow> k)"

definition statement :: "sql_io \<Rightarrow> (sql_db \<Rightarrow> 'a result \<times> sql_db) \<Rightarrow> 'a tx" where
  "statement io f s =
     (case io_fault io (st_tick s) of
        Some e \<Rightarrow> (Inl e, s\<lparr>st_tick := Suc (st_tick s)\<rparr>)
      | None \<Rightarrow> (case f (st_db s) of (r, db) \<Rightarrow> (r, s\<lparr>st_db := db, st_tick := Suc (st_tick s)\<rparr>)))"

definition query :: "sql_io \<Rightarrow> (sql_db \<Rightarrow> 'a) \<Rightarrow> 'a tx" where
  "query io f = statement io (\<lambda>db. (Inr (f db), db))"

text \<open>\<^verbatim>\<open>Take\<close> returns a row that satisfies the predicate, or the sentinel of the object mapper.\<close>

definition take_row :: "sql_io \<Rightarrow> (sql_db \<Rightarrow> 'r list) \<Rightarrow> ('r \<Rightarrow> bool) \<Rightarrow> 'r tx" where
  "take_row io table p = statement io (\<lambda>db.
     (case find p (table db) of None \<Rightarrow> (Inl ErrRecordNotFound, db) | Some row \<Rightarrow> (Inr row, db)))"

text \<open>
  The number of rows an update reports: SQLite counts the rows that match, MySQL those that
  change.
\<close>

definition rows_affected :: "sql_dialect \<Rightarrow> ('r \<Rightarrow> bool) \<Rightarrow> ('r \<Rightarrow> 'r) \<Rightarrow> 'r list \<Rightarrow> nat" where
  "rows_affected d p f rows =
     length (filter (\<lambda>r. p r \<and> (d = MySQL \<longrightarrow> f r \<noteq> r)) rows)"

definition update_rows :: "('r \<Rightarrow> bool) \<Rightarrow> ('r \<Rightarrow> 'r) \<Rightarrow> 'r list \<Rightarrow> 'r list" where
  "update_rows p f rows = map (\<lambda>r. if p r then f r else r) rows"

text \<open>A transaction: begin, body, then commit, or roll back what the body wrote.\<close>

definition sql_begin :: "sql_io \<Rightarrow> unit tx" where
  "sql_begin io s = statement io (\<lambda>db. (Inr (), db)) (s\<lparr>st_db := io_others io (st_tick s) (st_db s)\<rparr>)"

definition sql_commit :: "sql_io \<Rightarrow> sql_db \<Rightarrow> 'a \<Rightarrow> 'a tx" where
  "sql_commit io before x s =
     (let s' = s\<lparr>st_tick := Suc (st_tick s)\<rparr>
      in case io_commit io (st_tick s) of
           None \<Rightarrow> (Inr x, s')
         | Some (e, applied) \<Rightarrow> (Inl e, if applied then s' else s'\<lparr>st_db := before\<rparr>))"

definition Transaction :: "sql_io \<Rightarrow> 'a tx \<Rightarrow> 'a tx" where
  "Transaction io body = tx_bind (sql_begin io) (\<lambda>_ s.
     case body s of
       (Inl e, s') \<Rightarrow> (Inl e, s'\<lparr>st_db := st_db s\<rparr>)
     | (Inr x, s') \<Rightarrow> sql_commit io (st_db s) x s')"

text \<open>The two observations of the context are those before and, for SQLite, after taking the write lock.\<close>

definition writeTransaction :: "SQLStore \<Rightarrow> sql_io \<Rightarrow> ctx_obs \<Rightarrow> ctx_obs \<Rightarrow> 'a tx \<Rightarrow> 'a tx" where
  "writeTransaction store io c1 c2 body =
     tx_guard (contextError c1)
       (tx_guard (if ss_dialect store = SQLite then contextError c2 else None)
         (Transaction io body))"

text \<open>A read outside a transaction sees what other sessions have committed.\<close>

definition outside :: "sql_io \<Rightarrow> 'a tx \<Rightarrow> 'a tx" where
  "outside io m s = m (s\<lparr>st_db := io_others io (st_tick s) (st_db s)\<rparr>)"

subsection \<open>Clock, locks, inserts and updates\<close>

definition executionNow :: "SQLStore \<Rightarrow> sql_io \<Rightarrow> time tx" where
  "executionNow store io s =
     (if \<not> ss_executionClock store then (Inl ErrStoreIntegrity, s)
      else (case io_clock io (st_tick s) of
              Inl e \<Rightarrow> (Inl e, s\<lparr>st_tick := Suc (st_tick s)\<rparr>)
            | Inr now \<Rightarrow> (canonicalExecutionTime now, s\<lparr>st_tick := Suc (st_tick s)\<rparr>)))"

definition not_found_as :: "go_error \<Rightarrow> 'a tx \<Rightarrow> 'a tx" where
  "not_found_as k m = tx_catch m (\<lambda>e. tx_fail (if errors_is e ErrRecordNotFound then k else e))"

definition lockTurn :: "SQLStore \<Rightarrow> sql_io \<Rightarrow> (sqlTurnRow \<Rightarrow> bool) \<Rightarrow> sqlTurnRow tx" where
  "lockTurn store io p =
     (if ss_dialect store = SQLite
      then tx_bind (query io (\<lambda>db. rows_affected SQLite p id (db_turns db))) (\<lambda>n.
           tx_check (n \<noteq> 1) ErrTurnNotFound
             (not_found_as ErrTurnNotFound (take_row io db_turns p)))
      else not_found_as ErrTurnNotFound (take_row io db_turns p))"

definition lockAttempt :: "sql_io \<Rightarrow> string \<Rightarrow> string \<Rightarrow> int \<Rightarrow> sqlTurnAttemptRow tx" where
  "lockAttempt io turnID attemptID fence = not_found_as ErrAttemptNotFound
     (take_row io db_attempts
        (\<lambda>r. at_TurnID r = turnID \<and> at_AttemptID r = attemptID \<and> at_FencingToken r = fence))"

definition lookup_row :: "sql_io \<Rightarrow> (sql_db \<Rightarrow> 'r list) \<Rightarrow> ('r \<Rightarrow> bool) \<Rightarrow> 'r option tx" where
  "lookup_row io table p =
     tx_try (take_row io table p) (\<lambda>r. case r of
        Inr row \<Rightarrow> tx_return (Some row)
      | Inl e \<Rightarrow> if errors_is e ErrRecordNotFound then tx_return None else tx_fail e)"

definition lookupAttemptByIDTx :: "sql_io \<Rightarrow> string \<Rightarrow> sqlTurnAttemptRow option tx" where
  "lookupAttemptByIDTx io attemptID = lookup_row io db_attempts (\<lambda>r. at_AttemptID r = attemptID)"

definition insert_row ::
  "sql_io \<Rightarrow> (sql_db \<Rightarrow> 'r list) \<Rightarrow> ('r \<Rightarrow> 'r \<Rightarrow> bool) \<Rightarrow> ('r \<Rightarrow> sql_db \<Rightarrow> sql_db) \<Rightarrow> 'r \<Rightarrow> unit tx"
where
  "insert_row io table clash add row = statement io (\<lambda>db.
     if list_ex (\<lambda>r. clash r row) (table db) then (Inl (DriverError ''duplicate key''), db)
     else (Inr (), (add row db)\<lparr>db_autoinc := Suc (db_autoinc db)\<rparr>))"

definition same_turn_key :: "sqlTurnRow \<Rightarrow> sqlTurnRow \<Rightarrow> bool" where
  "same_turn_key r row \<longleftrightarrow> tr_TurnID r = tr_TurnID row
     \<or> (tr_PrincipalID r = tr_PrincipalID row \<and> tr_ThreadID r = tr_ThreadID row
        \<and> tr_IdempotencyKey r = tr_IdempotencyKey row)"

definition create_turn :: "sql_io \<Rightarrow> sqlTurnRow \<Rightarrow> unit tx" where
  "create_turn io = insert_row io db_turns same_turn_key
     (\<lambda>row db. db\<lparr>db_turns := db_turns db @ [row\<lparr>tr_ID := db_autoinc db\<rparr>]\<rparr>)"

definition same_event_key :: "sqlTurnEventRow \<Rightarrow> sqlTurnEventRow \<Rightarrow> bool" where
  "same_event_key r row \<longleftrightarrow> er_TurnID r = er_TurnID row
     \<and> (er_Sequence r = er_Sequence row \<or> er_EventID r = er_EventID row)"

definition create_event :: "sql_io \<Rightarrow> sqlTurnEventRow \<Rightarrow> unit tx" where
  "create_event io = insert_row io db_events same_event_key
     (\<lambda>row db. db\<lparr>db_events := db_events db @ [row\<lparr>er_ID := db_autoinc db\<rparr>]\<rparr>)"

definition same_attempt_key :: "sqlTurnAttemptRow \<Rightarrow> sqlTurnAttemptRow \<Rightarrow> bool" where
  "same_attempt_key r row \<longleftrightarrow> at_AttemptID r = at_AttemptID row
     \<or> (at_TurnID r = at_TurnID row \<and> at_FencingToken r = at_FencingToken row)"

definition create_attempt :: "sql_io \<Rightarrow> sqlTurnAttemptRow \<Rightarrow> unit tx" where
  "create_attempt io = insert_row io db_attempts same_attempt_key
     (\<lambda>row db. db\<lparr>db_attempts := db_attempts db @ [row\<lparr>at_ID := db_autoinc db\<rparr>]\<rparr>)"

definition insertEvent :: "sql_io \<Rightarrow> EventEnvelope \<Rightarrow> time \<Rightarrow> unit tx" where
  "insertEvent io event now =
     (case eventToSQLRow (io_json io) event now of
        Inl e \<Rightarrow> tx_fail ErrStoreIntegrity
      | Inr row \<Rightarrow> create_event io row)"

definition updateTurnColumns :: "SQLStore \<Rightarrow> sql_io \<Rightarrow> TurnID \<Rightarrow> (sqlTurnRow \<Rightarrow> sqlTurnRow) \<Rightarrow> unit tx" where
  "updateTurnColumns store io turnID columns =
     tx_bind (statement io (\<lambda>db.
        (Inr (rows_affected (ss_dialect store) (\<lambda>r. tr_TurnID r = turnID) columns (db_turns db)),
         db\<lparr>db_turns := update_rows (\<lambda>r. tr_TurnID r = turnID) columns (db_turns db)\<rparr>)))
       (\<lambda>n. tx_check (n \<noteq> 1) ErrStoreIntegrity (tx_return ()))"

definition updateAttemptColumns :: "sql_io \<Rightarrow> nat \<Rightarrow> (sqlTurnAttemptRow \<Rightarrow> sqlTurnAttemptRow) \<Rightarrow> unit tx" where
  "updateAttemptColumns io i columns = statement io (\<lambda>db.
     (Inr (), db\<lparr>db_attempts := update_rows (\<lambda>r. at_ID r = i) columns (db_attempts db)\<rparr>))"

subsection \<open>A calculus of successful runs\<close>

text \<open>
  \<open>runs m s x s'\<close>: the step \<open>m\<close> started in \<open>s\<close> succeeds with \<open>x\<close> in \<open>s'\<close>. The rules \<open>tx_runs\<close> take
  a run of a composed step apart.
\<close>

definition runs :: "'a tx \<Rightarrow> sql_state \<Rightarrow> 'a \<Rightarrow> sql_state \<Rightarrow> bool" where
  "runs m s x s' \<longleftrightarrow> m s = (Inr x, s')"

named_theorems tx_runs

lemma runs_basic [tx_runs]:
  "runs (tx_return x) s y s' \<longleftrightarrow> y = x \<and> s' = s"
  "runs (tx_fail e) s y s' \<longleftrightarrow> False"
  "runs (tx_lift r) s y s' \<longleftrightarrow> r = Inr y \<and> s' = s"
  by (auto simp: runs_def tx_return_def tx_fail_def tx_lift_def)

lemma runs_bind [tx_runs]: "runs (tx_bind m k) s y s' \<longleftrightarrow> (\<exists>x s1. runs m s x s1 \<and> runs (k x) s1 y s')"
  by (auto simp: runs_def tx_bind_def split: prod.splits sum.splits)

lemma runs_check [tx_runs]: "runs (tx_check b e k) s y s' \<longleftrightarrow> \<not> b \<and> runs k s y s'"
  by (auto simp: tx_check_def runs_basic)

lemma runs_guard [tx_runs]: "runs (tx_guard g k) s y s' \<longleftrightarrow> g = None \<and> runs k s y s'"
  by (cases g) (auto simp: tx_guard_def runs_basic)

lemma runs_try [tx_runs]:
  "runs (tx_try m k) s y s' \<longleftrightarrow>
     (\<exists>x s1. runs m s x s1 \<and> runs (k (Inr x)) s1 y s') \<or> (\<exists>e s1. m s = (Inl e, s1) \<and> runs (k (Inl e)) s1 y s')"
  by (cases "m s"; cases "fst (m s)") (auto simp: runs_def tx_try_def)

lemma runs_catch_fail [tx_runs]: "runs (tx_catch m (\<lambda>e. tx_fail (h e))) s y s' \<longleftrightarrow> runs m s y s'"
  by (auto simp: runs_def tx_catch_def tx_fail_def split: prod.splits sum.splits)

lemma runs_statement [tx_runs]:
  "runs (statement io f) s y s' \<longleftrightarrow>
     io_fault io (st_tick s) = None \<and> (\<exists>db. f (st_db s) = (Inr y, db)
       \<and> s' = s\<lparr>st_db := db, st_tick := Suc (st_tick s)\<rparr>)"
  by (auto simp: runs_def statement_def split: prod.splits option.splits)

lemma runs_query [tx_runs]:
  "runs (query io f) s y s' \<longleftrightarrow>
     io_fault io (st_tick s) = None \<and> y = f (st_db s) \<and> s' = s\<lparr>st_tick := Suc (st_tick s)\<rparr>"
  by (auto simp: query_def runs_statement)

lemma runs_take_row [tx_runs]:
  "runs (take_row io table p) s y s' \<longleftrightarrow>
     io_fault io (st_tick s) = None \<and> find p (table (st_db s)) = Some y \<and> s' = s\<lparr>st_tick := Suc (st_tick s)\<rparr>"
  by (auto simp: take_row_def runs_statement split: option.splits)

lemma runs_not_found_as [tx_runs]: "runs (not_found_as k m) s y s' \<longleftrightarrow> runs m s y s'"
  by (simp add: not_found_as_def runs_catch_fail)

lemma st_updates [simp]:
  "st_db (s\<lparr>st_tick := n\<rparr>) = st_db s" "st_tick (s\<lparr>st_db := db\<rparr>) = st_tick s"
  "s\<lparr>st_db := st_db s\<rparr> = s"
  by simp_all

text \<open>Reads leave the database as it is.\<close>

definition reads :: "'a tx \<Rightarrow> bool" where
  "reads m \<longleftrightarrow> (\<forall>s. st_db (snd (m s)) = st_db s)"

lemma readsD: "reads m \<Longrightarrow> runs m s x s' \<Longrightarrow> st_db s' = st_db s"
  by (metis reads_def runs_def snd_conv)

lemma readsD_fail: "reads m \<Longrightarrow> m s = (r, s') \<Longrightarrow> st_db s' = st_db s"
  by (metis reads_def snd_conv)

named_theorems tx_reads

lemma reads_basic [tx_reads]: "reads (tx_return x)" "reads (tx_fail e)" "reads (tx_lift r)"
  by (auto simp: reads_def tx_return_def tx_fail_def tx_lift_def)

lemma reads_bind [tx_reads]: "reads m \<Longrightarrow> (\<And>x. reads (k x)) \<Longrightarrow> reads (tx_bind m k)"
  by (auto simp: reads_def tx_bind_def split: prod.split sum.split) (metis snd_conv)+

lemma reads_try [tx_reads]: "reads m \<Longrightarrow> (\<And>x. reads (k x)) \<Longrightarrow> reads (tx_try m k)"
  by (auto simp: reads_def tx_try_def split: prod.split) (metis snd_conv)

lemma reads_catch [tx_reads]: "reads m \<Longrightarrow> (\<And>e. reads (h e)) \<Longrightarrow> reads (tx_catch m h)"
  by (auto simp: reads_def tx_catch_def split: prod.split sum.split) (metis snd_conv)+

lemma reads_check [tx_reads]: "reads k \<Longrightarrow> reads (tx_check b e k)"
  by (simp add: tx_check_def reads_basic)

lemma reads_query [tx_reads]: "reads (query io f)"
  by (auto simp: reads_def query_def statement_def split: option.split)

lemma reads_take_row [tx_reads]: "reads (take_row io table p)"
  by (auto simp: reads_def take_row_def statement_def split: option.split)

lemma reads_not_found_as [tx_reads]: "reads m \<Longrightarrow> reads (not_found_as k m)"
  by (simp add: not_found_as_def tx_reads)

lemma reads_lookup_row [tx_reads]: "reads (lookup_row io table p)"
  unfolding lookup_row_def by (intro tx_reads) (simp add: tx_reads split: sum.split)

lemma reads_executionNow [tx_reads]: "reads (executionNow store io)"
  by (auto simp: reads_def executionNow_def split: sum.split)

lemma reads_lockTurn [tx_reads]: "reads (lockTurn store io p)"
  by (simp add: lockTurn_def tx_reads)

lemma reads_lockAttempt [tx_reads]: "reads (lockAttempt io i a f)"
  by (simp add: lockAttempt_def tx_reads)

lemma reads_lookupAttemptByIDTx [tx_reads]: "reads (lookupAttemptByIDTx io i)"
  by (simp add: lookupAttemptByIDTx_def tx_reads)

text \<open>What the reads find.\<close>

lemma runs_executionNow:
  "runs (executionNow store io) s now s' \<Longrightarrow>
     \<exists>t. io_clock io (st_tick s) = Inr t \<and> canonicalExecutionTime t = Inr now \<and> st_db s' = st_db s"
  by (auto simp: runs_def executionNow_def split: sum.splits if_splits)

lemma runs_lockTurn:
  "runs (lockTurn store io p) s row s' \<Longrightarrow> find p (db_turns (st_db s)) = Some row \<and> st_db s' = st_db s"
  by (auto simp: lockTurn_def tx_runs split: if_splits)

lemma runs_lockAttempt:
  "runs (lockAttempt io i a f) s row s' \<Longrightarrow>
     find (\<lambda>r. at_TurnID r = i \<and> at_AttemptID r = a \<and> at_FencingToken r = f) (db_attempts (st_db s)) = Some row
     \<and> st_db s' = st_db s"
  by (auto simp: lockAttempt_def tx_runs)

lemma runs_lookup_row:
  assumes "runs (lookup_row io table p) s found s'"
  shows "(\<forall>row. found = Some row \<longrightarrow> find p (table (st_db s)) = Some row) \<and> st_db s' = st_db s"
  using assms readsD [OF reads_lookup_row assms]
  by (auto simp: lookup_row_def tx_runs split: if_splits)

definition clock_read :: "sql_io \<Rightarrow> time \<Rightarrow> bool" where
  "clock_read io now \<longleftrightarrow> (\<exists>n t. io_clock io n = Inr t \<and> canonicalExecutionTime t = Inr now)"

text \<open>A failure of the driver is not the sentinel that reports an empty result.\<close>

definition honest_io :: "sql_io \<Rightarrow> bool" where
  "honest_io io \<longleftrightarrow> (\<forall>n e. io_fault io n = Some e \<longrightarrow> \<not> errors_is e ErrRecordNotFound)"

lemma runs_lookup_row_None:
  assumes "runs (lookup_row io table p) s None s'" "honest_io io"
  shows "find p (table (st_db s)) = None"
  using assms by (auto simp: lookup_row_def tx_runs take_row_def statement_def honest_io_def
      split: option.splits if_splits)

text \<open>A transaction leaves the database it began on, or the one its body made.\<close>

lemma Transaction_db:
  assumes "P (io_others io (st_tick s) (st_db s))"
    and "\<And>s1 x s2. st_db s1 = io_others io (st_tick s) (st_db s) \<Longrightarrow> runs body s1 x s2 \<Longrightarrow> P (st_db s2)"
  shows "P (st_db (snd (Transaction io body s)))"
proof -
  let ?s1 = "s\<lparr>st_db := io_others io (st_tick s) (st_db s), st_tick := Suc (st_tick s)\<rparr>"
  have "P (st_db s2)" if "body ?s1 = (Inr x, s2)" for x s2
    using assms(2) [of ?s1 x s2] that by (simp add: runs_def)
  then show ?thesis using assms(1)
    by (auto simp: Transaction_def tx_bind_def sql_begin_def statement_def sql_commit_def Let_def
        split: prod.split sum.split option.split)
qed

lemma writeTransaction_db:
  assumes "P (st_db s)" "P (io_others io (st_tick s) (st_db s))"
    and "\<And>s1 x s2. st_db s1 = io_others io (st_tick s) (st_db s) \<Longrightarrow> runs body s1 x s2 \<Longrightarrow> P (st_db s2)"
  shows "P (st_db (snd (writeTransaction store io c1 c2 body s)))"
  using Transaction_db [of P io s body] assms
  by (auto simp: writeTransaction_def tx_guard_def tx_fail_def split: option.split)

lemma writeTransaction_keeps:
  assumes "P (st_db s)" "\<And>n db. P db \<Longrightarrow> P (io_others io n db)"
    and "\<And>s1 x s2. P (st_db s1) \<Longrightarrow> runs body s1 x s2 \<Longrightarrow> P (st_db s2)"
  shows "P (st_db (snd (writeTransaction store io c1 c2 body s)))"
proof (rule writeTransaction_db)
  fix s1 x s2 assume "st_db s1 = io_others io (st_tick s) (st_db s)" "runs body s1 x s2"
  then show "P (st_db s2)" using assms(1,2) assms(3) [of s1 x s2] by metis
qed (use assms in auto)

lemma runs_Transaction:
  assumes "runs (Transaction io body) s x s'"
  shows "\<exists>s1 s2. st_db s1 = io_others io (st_tick s) (st_db s) \<and> runs body s1 x s2 \<and> st_db s' = st_db s2"
proof -
  let ?s1 = "s\<lparr>st_db := io_others io (st_tick s) (st_db s), st_tick := Suc (st_tick s)\<rparr>"
  from assms obtain s2 where "body ?s1 = (Inr x, s2)" "st_db s' = st_db s2"
    by (cases "body ?s1"; cases "fst (body ?s1)")
      (auto simp: Transaction_def runs_def tx_bind_def sql_begin_def statement_def sql_commit_def Let_def
        split: option.splits)
  then show ?thesis by (intro exI [of _ ?s1] exI [of _ s2]) (simp add: runs_def)
qed

lemma runs_writeTransaction:
  assumes "runs (writeTransaction store io c1 c2 body) s x s'"
  shows "\<exists>s1 s2. st_db s1 = io_others io (st_tick s) (st_db s) \<and> runs body s1 x s2 \<and> st_db s' = st_db s2"
  using assms runs_Transaction by (auto simp: writeTransaction_def tx_runs)

lemma find_SomeD: "find p xs = Some x \<Longrightarrow> x \<in> set xs \<and> p x"
  by (induction xs) (auto split: if_splits)

lemma filter_unique:
  assumes "find p xs = Some x" "\<And>y. y \<in> set xs \<Longrightarrow> p y \<Longrightarrow> y = x" "distinct xs"
  shows "filter p xs = [x]"
proof -
  have "set (filter p xs) = {x}" using find_SomeD [OF assms(1)] assms(2) by auto
  moreover have "distinct (filter p xs)" using assms(3) by simp
  ultimately show ?thesis by (metis distinct_card card.empty card_insert_disjoint empty_iff finite.emptyI
        length_Suc_conv length_0_conv list.set_intros(1) singletonD)
qed

text \<open>
  An undisturbed environment: no statement fails, commits succeed and no other session writes.
  There the steps can be run forward.
\<close>

definition quiet_io :: "sql_io \<Rightarrow> bool" where
  "quiet_io io \<longleftrightarrow> (\<forall>n. io_fault io n = None \<and> io_commit io n = None) \<and> io_others io = (\<lambda>_ db. db)"

definition ticked :: "sql_state \<Rightarrow> sql_db \<Rightarrow> sql_state" where
  "ticked s db = \<lparr>st_db = db, st_tick = Suc (st_tick s)\<rparr>"

lemma ticked_db [simp]: "st_db (ticked s db) = db"
  by (simp add: ticked_def)

named_theorems quiet_simps

lemma quiet_statement [quiet_simps]:
  "quiet_io io \<Longrightarrow> statement io f s = (fst (f (st_db s)), ticked s (snd (f (st_db s))))"
  by (auto simp: quiet_io_def statement_def ticked_def split: prod.split)

lemma quiet_query [quiet_simps]: "quiet_io io \<Longrightarrow> query io f s = (Inr (f (st_db s)), ticked s (st_db s))"
  by (simp add: query_def quiet_statement)

lemma quiet_take_row [quiet_simps]:
  "quiet_io io \<Longrightarrow> take_row io table p s =
     (case find p (table (st_db s)) of None \<Rightarrow> Inl ErrRecordNotFound | Some row \<Rightarrow> Inr row, ticked s (st_db s))"
  by (simp add: take_row_def quiet_statement split: option.split)

lemma quiet_lookup_row [quiet_simps]:
  "quiet_io io \<Longrightarrow> lookup_row io table p s = (Inr (find p (table (st_db s))), ticked s (st_db s))"
  by (simp add: lookup_row_def tx_try_def quiet_take_row tx_return_def split: option.split)

lemma quiet_not_found_as [quiet_simps]:
  "quiet_io io \<Longrightarrow> not_found_as k (take_row io table p) s =
     (case find p (table (st_db s)) of None \<Rightarrow> Inl k | Some row \<Rightarrow> Inr row, ticked s (st_db s))"
  by (simp add: not_found_as_def tx_catch_def tx_fail_def quiet_take_row split: option.split)

lemma quiet_executionNow [quiet_simps]:
  "(\<And>n. io_clock io n = Inr t) \<Longrightarrow> canonicalExecutionTime t = Inr now \<Longrightarrow> ss_executionClock store \<Longrightarrow>
     executionNow store io s = (Inr now, ticked s (st_db s))"
  by (simp add: executionNow_def ticked_def)

lemma tx_forward [quiet_simps]:
  "tx_return x s = (Inr x, s)" "tx_fail e s = (Inl e, s)" "tx_lift r s = (r, s)"
  by (simp_all add: tx_return_def tx_fail_def tx_lift_def)

lemma quiet_writeTransaction [quiet_simps]:
  assumes "quiet_io io" "contextError c1 = None" "contextError c2 = None"
  shows "writeTransaction store io c1 c2 body s =
     (case body (ticked s (st_db s)) of
        (Inl e, s') \<Rightarrow> (Inl e, s'\<lparr>st_db := st_db s\<rparr>)
      | (Inr x, s') \<Rightarrow> (Inr x, ticked s' (st_db s')))"
  using assms
  by (auto simp: writeTransaction_def Transaction_def tx_guard_def tx_bind_def sql_begin_def quiet_statement
      sql_commit_def quiet_io_def Let_def ticked_def split: prod.split sum.split)

lemma quiet_lockTurn [quiet_simps]:
  "quiet_io io \<Longrightarrow> find p (db_turns (st_db s)) = Some row \<Longrightarrow>
     (\<And>r. r \<in> set (db_turns (st_db s)) \<Longrightarrow> p r \<Longrightarrow> r = row) \<Longrightarrow> distinct (db_turns (st_db s)) \<Longrightarrow>
     lockTurn store io p s = (Inr row, s\<lparr>st_tick := st_tick s + (if ss_dialect store = SQLite then 2 else 1)\<rparr>)"
proof -
  assume q: "quiet_io io" and f: "find p (db_turns (st_db s)) = Some row"
    and u: "\<And>r. r \<in> set (db_turns (st_db s)) \<Longrightarrow> p r \<Longrightarrow> r = row" and d: "distinct (db_turns (st_db s))"
  have "filter p (db_turns (st_db s)) = [row]" using f u d by (rule filter_unique)
  then show ?thesis using q f
    by (simp add: lockTurn_def tx_bind_def quiet_query quiet_not_found_as tx_check_def rows_affected_def ticked_def)
qed

lemma quiet_lockTurn_id:
  assumes "quiet_io io" "find (\<lambda>r. tr_TurnID r = i) (db_turns (st_db s)) = Some row" "distinct (map tr_TurnID (db_turns (st_db s)))"
  shows "lockTurn store io (\<lambda>r. tr_TurnID r = i) s
    = (Inr row, s\<lparr>st_tick := st_tick s + (if ss_dialect store = SQLite then 2 else 1)\<rparr>)"
proof (rule quiet_lockTurn [OF assms(1,2)])
  fix r assume "r \<in> set (db_turns (st_db s))" "tr_TurnID r = i"
  with find_SomeD [OF assms(2)] assms(3) show "r = row" unfolding distinct_map by (metis inj_onD)
qed (use assms(3) in \<open>simp add: distinct_map\<close>)

subsection \<open>Updates of tables\<close>

lemma update_rows_simps [simp]:
  "length (update_rows p f rows) = length rows"
  "update_rows p f [] = []" "update_rows p f (r # rows) = (if p r then f r else r) # update_rows p f rows"
  by (simp_all add: update_rows_def)

lemma set_update_rows: "r' \<in> set (update_rows p f rows) \<longleftrightarrow> (\<exists>r \<in> set rows. r' = (if p r then f r else r))"
  by (auto simp: update_rows_def)

lemma map_update_rows: "(\<And>r. p r \<Longrightarrow> g (f r) = g r) \<Longrightarrow> map g (update_rows p f rows) = map g rows"
  by (simp add: update_rows_def)

lemma find_update_rows:
  assumes "\<And>r. p r \<Longrightarrow> q (f r) = q r"
  shows "find q (update_rows p f rows) = map_option (\<lambda>r. if p r then f r else r) (find q rows)"
  by (induction rows) (auto simp: assms)

lemma find_unique:
  assumes "x \<in> set xs" "p x" "\<And>y. y \<in> set xs \<Longrightarrow> p y \<Longrightarrow> y = x"
  shows "find p xs = Some x"
proof (cases "find p xs")
  case None
  with assms(1,2) show ?thesis by (auto simp: find_None_iff)
next
  case (Some y)
  with find_SomeD [OF Some] assms(3) show ?thesis by blast
qed

subsection \<open>Rows by key, inserts and updates\<close>

lemma runs_decode [tx_runs]:
  "runs (case r of Inl e \<Rightarrow> tx_fail (f e) | Inr x \<Rightarrow> k x) s y s' \<longleftrightarrow> (\<exists>x. r = Inr x \<and> runs (k x) s y s')"
  by (cases r) (simp_all add: runs_basic)

definition turn_at :: "sql_db \<Rightarrow> string \<Rightarrow> sqlTurnRow option" where
  "turn_at db i = find (\<lambda>r. tr_TurnID r = i) (db_turns db)"

definition attempt_at :: "sql_db \<Rightarrow> string \<Rightarrow> sqlTurnAttemptRow option" where
  "attempt_at db a = find (\<lambda>r. at_AttemptID r = a) (db_attempts db)"

lemma runs_insert_row:
  assumes "runs (insert_row io table clash add row) s u s'"
  shows "(\<forall>r \<in> set (table (st_db s)). \<not> clash r row)
    \<and> st_db s' = (add row (st_db s))\<lparr>db_autoinc := Suc (db_autoinc (st_db s))\<rparr>"
  using assms by (auto simp: insert_row_def tx_runs list_ex_iff split: if_splits)

lemma runs_create_attempt:
  assumes "runs (create_attempt io row) s u s'"
  shows "(\<forall>r \<in> set (db_attempts (st_db s)). \<not> same_attempt_key r row)
    \<and> st_db s' = (st_db s)\<lparr>db_attempts := db_attempts (st_db s) @ [row\<lparr>at_ID := db_autoinc (st_db s)\<rparr>],
         db_autoinc := Suc (db_autoinc (st_db s))\<rparr>"
  using runs_insert_row [OF assms [unfolded create_attempt_def]] by simp

lemma runs_insertEvent:
  assumes "runs (insertEvent io event now) s u s'"
  shows "\<exists>row. eventToSQLRow (io_json io) event now = Inr row
    \<and> (\<forall>r \<in> set (db_events (st_db s)). \<not> same_event_key r row)
    \<and> st_db s' = (st_db s)\<lparr>db_events := db_events (st_db s) @ [row\<lparr>er_ID := db_autoinc (st_db s)\<rparr>],
         db_autoinc := Suc (db_autoinc (st_db s))\<rparr>"
  using assms unfolding insertEvent_def create_event_def by (auto simp: tx_runs dest!: runs_insert_row)

lemma runs_updateAttemptColumns:
  "runs (updateAttemptColumns io i f) s u s' \<Longrightarrow>
     st_db s' = (st_db s)\<lparr>db_attempts := update_rows (\<lambda>r. at_ID r = i) f (db_attempts (st_db s))\<rparr>"
  by (auto simp: updateAttemptColumns_def tx_runs)

lemma runs_updateTurnColumns:
  "runs (updateTurnColumns store io i f) s u s' \<Longrightarrow>
     st_db s' = (st_db s)\<lparr>db_turns := update_rows (\<lambda>r. tr_TurnID r = i) f (db_turns (st_db s))\<rparr>"
  by (auto simp: updateTurnColumns_def tx_runs)

lemma find_append: "find p (xs @ ys) = (case find p xs of None \<Rightarrow> find p ys | Some x \<Rightarrow> Some x)"
  by (induction xs) auto

lemma turn_at_update:
  assumes "db_turns db' = update_rows (\<lambda>r. tr_TurnID r = i) f (db_turns db)" "\<And>r. tr_TurnID (f r) = tr_TurnID r"
  shows "turn_at db' j = map_option (\<lambda>r. if tr_TurnID r = i then f r else r) (turn_at db j)"
  unfolding turn_at_def assms(1) by (rule find_update_rows) (simp add: assms(2))

lemma attempt_at_update:
  assumes "db_attempts db' = update_rows p f (db_attempts db)" "\<And>r. at_AttemptID (f r) = at_AttemptID r"
  shows "attempt_at db' j = map_option (\<lambda>r. if p r then f r else r) (attempt_at db j)"
  unfolding attempt_at_def assms(1) by (rule find_update_rows) (simp add: assms(2))

subsection \<open>A sample store and environment\<close>

definition sample_io :: "time \<Rightarrow> sql_io" where
  "sample_io t = \<lparr>io_fault = (\<lambda>_. None), io_clock = (\<lambda>_. Inr t), io_commit = (\<lambda>_. None),
     io_others = (\<lambda>_ db. db), io_json = (\<lambda>x. x), io_sha = sample_sha\<rparr>"

definition sample_sql :: SQLStore where
  "sample_sql = \<lparr>ss_dialect = MySQL, ss_executionClock = True, ss_attemptLeaseTTL = DefaultAttemptLeaseTTL,
     ss_maxTurnAttempts = DefaultMaxTurnAttempts, ss_effectLease = DefaultEffectLeaseTTL,
     ss_maxDeliveryAttempts = DefaultMaxDeliveryAttempts, ss_executionAuthority = None,
     ss_settlementViolated = False\<rparr>"

abbreviation sample_time :: time where "sample_time \<equiv> 63900000000000000000"

definition sample_turn_row :: sqlTurnRow where
  "sample_turn_row = \<lparr>tr_ID = 1, tr_TurnID = ''turn-1'', tr_PrincipalID = ''p'', tr_ThreadID = ''th'',
     tr_IdempotencyKey = ''k'', tr_CommandDigest = ''d'',
     tr_PluginSnapshotJSON = Some \<lparr>pr_ID = ''a'', pr_Version = ''1'', pr_ReleaseDigest = ''r''\<rparr>,
     tr_Status = TurnStatusRunning, tr_LastEventSequence = 2, tr_ActiveAttemptID = Some ''att-1'',
     tr_FencingToken = 1, tr_CancelRequestedAt = None, tr_StartedAt = Some sample_time, tr_FinishedAt = None,
     tr_CreatedAt = sample_time, tr_UpdatedAt = sample_time\<rparr>"

lemma sample_quiet: "quiet_io (sample_io t)" "honest_io (sample_io t)"
  by (simp_all add: quiet_io_def honest_io_def sample_io_def)

end
