(* ===== verification/Effect_Outbox.thy ===== *)
theory Effect_Outbox
  imports Sql_Tx
begin

text \<open>
  The Effect Outbox, \<^verbatim>\<open>server/service/agentturn/effect_outbox.go\<close>, with the review lookup and the
  review hold of \<^verbatim>\<open>settlement_review.go\<close> that share its rows: leasing of deliverable effects,
  completion of a leased delivery, retry delays and dead letters.

  A claim that leases nothing is \<open>None\<close>. \<^verbatim>\<open>ClaimEffects\<close> returns its deliveries also beside an
  error, so its result is a pair. A topic filter of the scan is the predicate its SQL text
  denotes. Of the context a call reads one observation at each check, in order.
\<close>

abbreviation MaxEffectLeaseTTL :: duration where "MaxEffectLeaseTTL \<equiv> 600000000000"
abbreviation MaxDeliveryAttemptsLimit :: int where "MaxDeliveryAttemptsLimit \<equiv> 64"
abbreviation DefaultEffectClaimBatch :: int where "DefaultEffectClaimBatch \<equiv> 16"
abbreviation MaxEffectClaimBatch :: int where "MaxEffectClaimBatch \<equiv> 128"

definition DefaultEffectRetryBackoff :: duration where "DefaultEffectRetryBackoff = Second"
definition MaxEffectRetryBackoff :: duration where "MaxEffectRetryBackoff = 5 * Minute"

subsection \<open>Commands\<close>

record EffectDispatchFence =
  df_OutboxID :: string
  df_DispatchToken :: int
  df_LeaseOwnerID :: string

definition EffectDispatchFence_Validate :: "EffectDispatchFence \<Rightarrow> go_error option" where
  "EffectDispatchFence_Validate f = first_error
     [validatePrintableASCII ''outboxId'' (df_OutboxID f) MaxEffectOutboxIDBytes,
      fail_if (df_DispatchToken f < 1) (Errorf ''dispatchToken must be at least 1''),
      validatePrintableASCII ''leaseOwnerId'' (df_LeaseOwnerID f) MaxWorkerIDBytes]"

record EffectDelivery =
  dl_OutboxID :: string
  dl_TurnID :: TurnID
  dl_AttemptID :: string
  dl_TurnFencingToken :: Sequence
  dl_OperationID :: string
  dl_Ordinal :: int
  dl_Topic :: string
  dl_DedupeKey :: string
  dl_Payload :: string
  dl_DeliveryAttempts :: int
  dl_Fence :: EffectDispatchFence
  dl_LeaseExpiresAt :: time

datatype DeliveryOutcome =
    DeliveryOutcomeDelivered | DeliveryOutcomeRetry | DeliveryOutcomePermanent | DeliveryOutcomeUnknown
  | DeliveryOutcomeOther string

fun DeliveryOutcome_Valid :: "DeliveryOutcome \<Rightarrow> bool" where
  "DeliveryOutcome_Valid (DeliveryOutcomeOther s) = False"
| "DeliveryOutcome_Valid _ = True"

record DeliveryReport =
  rp_Outcome :: DeliveryOutcome
  rp_ErrorCode :: string
  rp_RetryAfter :: duration
  rp_IdempotentRetrySafe :: bool

definition DeliveryReport_Validate :: "DeliveryReport \<Rightarrow> go_error option" where
  "DeliveryReport_Validate r = first_error
     [fail_if (\<not> DeliveryOutcome_Valid (rp_Outcome r)) (Errorf ''unknown delivery outcome''),
      (if rp_ErrorCode r \<noteq> []
       then validatePrintableASCII ''errorCode'' (rp_ErrorCode r) MaxEffectErrorCodeBytes else None),
      fail_if (rp_Outcome r = DeliveryOutcomeDelivered \<and> rp_ErrorCode r \<noteq> [])
        (Errorf ''a delivered effect cannot carry an error code''),
      fail_if (rp_RetryAfter r < 0 \<or> rp_RetryAfter r > MaxEffectRetryBackoff)
        (Errorf ''retryAfter is out of range'')]"

record ClaimEffectsCommand =
  ce_LeaseOwnerID :: string
  ce_Limit :: int
  ce_Topics :: "string list"

definition ClaimEffectsCommand_Validate :: "ClaimEffectsCommand \<Rightarrow> go_error option" where
  "ClaimEffectsCommand_Validate c = first_error
     ([validatePrintableASCII ''leaseOwnerId'' (ce_LeaseOwnerID c) MaxWorkerIDBytes,
       fail_if (ce_Limit c < 0 \<or> ce_Limit c > MaxEffectClaimBatch) (Errorf ''limit is out of range''),
       fail_if (int (length (ce_Topics c)) > MaxEffectClaimBatch) (Errorf ''topics exceed the entry limit'')]
      @ map (\<lambda>topic. validatePrintableASCII ''topics'' topic MaxEffectTopicBytes) (ce_Topics c))"

definition ClaimEffectsCommand_limit :: "ClaimEffectsCommand \<Rightarrow> int" where
  "ClaimEffectsCommand_limit c = (if ce_Limit c \<le> 0 then DefaultEffectClaimBatch else ce_Limit c)"

record CompleteEffectCommand =
  co_Fence :: EffectDispatchFence
  co_Report :: DeliveryReport

definition CompleteEffectCommand_Validate :: "CompleteEffectCommand \<Rightarrow> go_error option" where
  "CompleteEffectCommand_Validate c = first_error
     [EffectDispatchFence_Validate (co_Fence c), DeliveryReport_Validate (co_Report c)]"

record CompleteEffectResult =
  cer_OutboxID :: string
  cer_Status :: EffectStatus
  cer_DeliveryAttempts :: int
  cer_AvailableAt :: time
  cer_LastErrorCode :: string
  cer_Replay :: bool

subsection \<open>Policy\<close>

definition effectLeaseTTL :: "SQLStore \<Rightarrow> duration" where
  "effectLeaseTTL store =
     (if ss_effectLease store \<le> 0 \<or> ss_effectLease store > MaxEffectLeaseTTL then DefaultEffectLeaseTTL
      else ss_effectLease store)"

definition maxDeliveryAttemptsBudget :: "SQLStore \<Rightarrow> int" where
  "maxDeliveryAttemptsBudget store =
     (if ss_maxDeliveryAttempts store \<le> 0 \<or> ss_maxDeliveryAttempts store > MaxDeliveryAttemptsLimit
      then DefaultMaxDeliveryAttempts else ss_maxDeliveryAttempts store)"

text \<open>The doubling loop: it ends because the index grows towards the number of attempts.\<close>

function retry_doubling :: "int \<Rightarrow> int \<Rightarrow> duration \<Rightarrow> duration" where
  "retry_doubling index attempts delay =
     (if index < attempts \<and> delay < MaxEffectRetryBackoff
      then retry_doubling (index + 1) attempts (delay * 2) else delay)"
  by pat_completeness auto
termination by (relation "measure (\<lambda>(index, attempts, delay). nat (attempts - index))") auto

declare retry_doubling.simps [simp del]

definition effectRetryDelay :: "int \<Rightarrow> duration \<Rightarrow> duration" where
  "effectRetryDelay attempts hint =
     (let d1 = retry_doubling 1 attempts DefaultEffectRetryBackoff;
          d2 = (if d1 > MaxEffectRetryBackoff then MaxEffectRetryBackoff else d1);
          d3 = (if hint > d2 then hint else d2)
      in if d3 > MaxEffectRetryBackoff then MaxEffectRetryBackoff else d3)"

definition effectTopicScopeAllows :: "string list \<Rightarrow> string \<Rightarrow> bool" where
  "effectTopicScopeAllows topics topic =
     (if length topics = 0 then True else list_ex (\<lambda>allowed. allowed = topic) topics)"

definition topicPredicate :: "string list \<Rightarrow> sqlEffectOutboxRow \<Rightarrow> bool" where
  "topicPredicate topics row \<longleftrightarrow> (if length topics = 0 then True else List.member topics (ef_Topic row))"

subsection \<open>Row access\<close>

definition lookupSettlementReviewTx :: "sql_io \<Rightarrow> TurnID \<Rightarrow> SettlementReviewRecord option tx" where
  "lookupSettlementReviewTx io turnID =
     tx_bind (lookup_row io db_reviews (\<lambda>r. sv_TurnID r = turnID)) (\<lambda>found.
     case found of
       None \<Rightarrow> tx_return None
     | Some row \<Rightarrow> tx_bind (tx_lift (review_toRecord (io_sha io) row)) (\<lambda>review. tx_return (Some review)))"

definition lockEffect :: "SQLStore \<Rightarrow> sql_io \<Rightarrow> string \<Rightarrow> sqlEffectOutboxRow tx" where
  "lockEffect store io outboxID =
     (let p = (\<lambda>r. ef_OutboxID r = outboxID);
          read = not_found_as ErrEffectNotFound (take_row io db_outbox p)
      in if ss_dialect store = SQLite
         then tx_bind (query io (\<lambda>db. rows_affected SQLite p id (db_outbox db))) (\<lambda>n.
              tx_check (n \<noteq> 1) ErrEffectNotFound read)
         else read)"

definition counters_fit :: "sqlEffectOutboxRow \<Rightarrow> bool" where
  "counters_fit row \<longleftrightarrow> 0 \<le> ef_DeliveryAttempts row \<and> ef_DeliveryAttempts row \<le> MaxInt64
     \<and> 0 \<le> ef_DispatchFencingToken row \<and> ef_DispatchFencingToken row \<le> MaxInt64"

definition updateEffectColumns ::
  "SQLStore \<Rightarrow> sql_io \<Rightarrow> nat \<Rightarrow> (sqlEffectOutboxRow \<Rightarrow> sqlEffectOutboxRow) \<Rightarrow> unit tx"
where
  "updateEffectColumns store io i columns =
     (let p = (\<lambda>r. ef_ID r = i) in
      tx_bind (statement io (\<lambda>db.
          if list_ex (\<lambda>r. p r \<and> \<not> counters_fit (columns r)) (db_outbox db)
          then (Inl (DriverError ''counter out of range''), db)
          else (Inr (rows_affected (ss_dialect store) p columns (db_outbox db)),
                db\<lparr>db_outbox := update_rows p columns (db_outbox db)\<rparr>)))
        (\<lambda>n. tx_check (n \<noteq> 1) ErrStoreIntegrity (tx_return ())))"

definition holdTurnEffectsForReview :: "sql_io \<Rightarrow> TurnID \<Rightarrow> time \<Rightarrow> unit tx" where
  "holdTurnEffectsForReview io turnID now = statement io (\<lambda>db.
     (Inr (), db\<lparr>db_outbox := update_rows
        (\<lambda>r. ef_TurnID r = turnID \<and> (ef_Status r = EffectStatusPending \<or> ef_Status r = EffectStatusDelivering))
        (\<lambda>r. r\<lparr>ef_Status := EffectStatusReviewHold, ef_LeaseOwnerID := None, ef_LeaseExpiresAt := None,
               ef_UpdatedAt := (if ef_UpdatedAt r > now then ef_UpdatedAt r else now)\<rparr>)
        (db_outbox db)\<rparr>))"

subsection \<open>Claiming\<close>

definition effect_claimable :: "sqlEffectOutboxRow \<Rightarrow> time \<Rightarrow> bool" where
  "effect_claimable row now \<longleftrightarrow>
     (ef_Status row = EffectStatusPending \<and> \<not> ef_AvailableAt row > now)
     \<or> (ef_Status row = EffectStatusDelivering
        \<and> (case ef_LeaseExpiresAt row of None \<Rightarrow> False | Some t \<Rightarrow> \<not> t > now))"

definition effect_leased :: "string \<Rightarrow> time \<Rightarrow> time \<Rightarrow> sqlEffectOutboxRow \<Rightarrow> sqlEffectOutboxRow \<Rightarrow> sqlEffectOutboxRow" where
  "effect_leased leaseOwnerID leaseExpiresAt now row r =
     r\<lparr>ef_Status := EffectStatusDelivering, ef_LeaseOwnerID := Some leaseOwnerID,
       ef_LeaseExpiresAt := Some leaseExpiresAt,
       ef_DeliveryAttempts := wrap64 (ef_DeliveryAttempts row + 1),
       ef_DispatchFencingToken := wrap64 (ef_DispatchFencingToken row + 1), ef_UpdatedAt := now\<rparr>"

definition effect_delivery :: "string \<Rightarrow> time \<Rightarrow> sqlEffectOutboxRow \<Rightarrow> EffectDelivery" where
  "effect_delivery leaseOwnerID leaseExpiresAt row =
     \<lparr>dl_OutboxID = ef_OutboxID row, dl_TurnID = ef_TurnID row, dl_AttemptID = ef_AttemptID row,
      dl_TurnFencingToken = word_of_int (ef_TurnFencingToken row), dl_OperationID = ef_OperationID row,
      dl_Ordinal = ef_Ordinal row, dl_Topic = ef_Topic row, dl_DedupeKey = ef_DedupeKey row,
      dl_Payload = ef_PayloadJSON row, dl_DeliveryAttempts = wrap64 (ef_DeliveryAttempts row + 1),
      dl_Fence = \<lparr>df_OutboxID = ef_OutboxID row,
                  df_DispatchToken = wrap64 (ef_DispatchFencingToken row + 1),
                  df_LeaseOwnerID = leaseOwnerID\<rparr>,
      dl_LeaseExpiresAt = leaseExpiresAt\<rparr>"

text \<open>The decision on a locked row, and the checks before it.\<close>

definition lease_effect ::
  "SQLStore \<Rightarrow> sql_io \<Rightarrow> string \<Rightarrow> bool \<Rightarrow> sqlEffectOutboxRow \<Rightarrow> time \<Rightarrow> EffectDelivery option tx"
where
  "lease_effect store io leaseOwnerID reviewFound row now =
     (if reviewFound
      then (if ef_Status row = EffectStatusReviewHold \<or> EffectStatus_Terminal (ef_Status row)
            then tx_return None else tx_fail ErrStoreIntegrity)
      else if effect_claimable row now
      then (let leaseExpiresAt = now + effectLeaseTTL store in
            tx_bind (updateEffectColumns store io (ef_ID row)
                       (effect_leased leaseOwnerID leaseExpiresAt now row)) (\<lambda>_.
            tx_return (Some (effect_delivery leaseOwnerID leaseExpiresAt row))))
      else tx_return None)"

definition claim_locked ::
  "SQLStore \<Rightarrow> sql_io \<Rightarrow> string \<Rightarrow> string list \<Rightarrow> TurnID \<Rightarrow> bool \<Rightarrow> sqlEffectOutboxRow result \<Rightarrow> EffectDelivery option tx"
where
  "claim_locked store io leaseOwnerID topics identity reviewFound locked =
     (case locked of
        Inl e \<Rightarrow> if errors_is e ErrEffectNotFound then tx_return None else tx_fail e
      | Inr row \<Rightarrow>
          tx_check (ef_TurnID row \<noteq> identity) ErrStoreIntegrity (
          tx_check (\<not> effectTopicScopeAllows topics (ef_Topic row)) ErrEffectScopeMismatch (
          tx_bind (executionNow store io) (\<lambda>now.
          tx_check (\<not> EffectStatus_Valid (ef_Status row)) ErrStoreIntegrity (
          lease_effect store io leaseOwnerID reviewFound row now)))))"

definition claimEffect_tx ::
  "SQLStore \<Rightarrow> sql_io \<Rightarrow> string \<Rightarrow> string \<Rightarrow> string list \<Rightarrow> TurnID \<Rightarrow> EffectDelivery option tx"
where
  "claimEffect_tx store io outboxID leaseOwnerID topics identity =
     tx_bind (lockTurn store io (\<lambda>r. tr_TurnID r = identity)) (\<lambda>_.
     tx_bind (lookupSettlementReviewTx io identity) (\<lambda>review.
     tx_try (lockEffect store io outboxID)
       (claim_locked store io leaseOwnerID topics identity (review \<noteq> None))))"

definition claimEffect ::
  "SQLStore \<Rightarrow> sql_io \<Rightarrow> ctx_obs \<Rightarrow> ctx_obs \<Rightarrow> string \<Rightarrow> string \<Rightarrow> string list \<Rightarrow> EffectDelivery option tx"
where
  "claimEffect store io c1 c2 outboxID leaseOwnerID topics =
     tx_bind (outside io (lookup_row io db_outbox (\<lambda>r. ef_OutboxID r = outboxID))) (\<lambda>found. case found of
       None \<Rightarrow> tx_return None
     | Some identity \<Rightarrow>
         tx_check (validatePathSegment ''turnId'' (ef_TurnID identity) MaxTurnIDBytes \<noteq> None) ErrStoreIntegrity
           (writeTransaction store io c1 c2
              (claimEffect_tx store io outboxID leaseOwnerID topics (ef_TurnID identity))))"

text \<open>The order of the scan is by time and then by id; sorting is stable.\<close>

definition claimable_scan :: "ClaimEffectsCommand \<Rightarrow> time \<Rightarrow> sql_db \<Rightarrow> string list" where
  "claimable_scan c now db = map ef_OutboxID (take (nat (ClaimEffectsCommand_limit c))
     (sort_key ef_AvailableAt (sort_key ef_ID
        (filter (\<lambda>r. ((ef_Status r = EffectStatusPending \<and> ef_AvailableAt r \<le> now)
                      \<or> (ef_Status r = EffectStatusDelivering
                         \<and> (case ef_LeaseExpiresAt r of None \<Rightarrow> False | Some t \<Rightarrow> t \<le> now)))
                     \<and> topicPredicate (ce_Topics c) r) (db_outbox db)))))"

definition scanClaimableEffects :: "SQLStore \<Rightarrow> sql_io \<Rightarrow> ClaimEffectsCommand \<Rightarrow> string list tx" where
  "scanClaimableEffects store io c =
     tx_bind (executionNow store io) (\<lambda>now.
     tx_bind (outside io (query io (claimable_scan c now))) (\<lambda>ids.
     tx_check (list_ex (\<lambda>i. validatePrintableASCII ''outboxId'' i MaxEffectOutboxIDBytes \<noteq> None) ids)
       ErrStoreIntegrity (tx_return ids)))"

fun claim_loop ::
  "SQLStore \<Rightarrow> sql_io \<Rightarrow> go_context \<Rightarrow> nat \<Rightarrow> ClaimEffectsCommand \<Rightarrow> EffectDelivery list \<Rightarrow> string list \<Rightarrow> sql_state
     \<Rightarrow> (EffectDelivery list \<times> go_error option) \<times> sql_state"
where
  "claim_loop store io ctx k c deliveries [] s =
     (if length deliveries = 0 then (([], Some ErrNoClaimableEffects), s) else ((deliveries, None), s))"
| "claim_loop store io ctx k c deliveries (outboxID # rest) s =
     (case contextError (ctx k) of
        Some e \<Rightarrow> ((deliveries, Some e), s)
      | None \<Rightarrow>
          (case claimEffect store io (ctx (k + 1)) (ctx (k + 2)) outboxID (ce_LeaseOwnerID c) (ce_Topics c) s of
             (Inl e, s') \<Rightarrow> ((deliveries, Some (normalize ''claim-effects'' e)), s')
           | (Inr None, s') \<Rightarrow> claim_loop store io ctx (k + 3) c deliveries rest s'
           | (Inr (Some delivery), s') \<Rightarrow> claim_loop store io ctx (k + 3) c (deliveries @ [delivery]) rest s'))"

definition ClaimEffects ::
  "SQLStore \<Rightarrow> sql_io \<Rightarrow> go_context \<Rightarrow> ClaimEffectsCommand \<Rightarrow> sql_state
     \<Rightarrow> (EffectDelivery list \<times> go_error option) \<times> sql_state"
where
  "ClaimEffects store io ctx c s =
     (case first_error [contextError (ctx 0), ClaimEffectsCommand_Validate c] of
        Some e \<Rightarrow> (([], Some e), s)
      | None \<Rightarrow>
          (case scanClaimableEffects store io c s of
             (Inl e, s') \<Rightarrow> (([], Some (normalize ''claim-effects'' e)), s')
           | (Inr candidates, s') \<Rightarrow> claim_loop store io ctx 1 c [] candidates s'))"

subsection \<open>Completion\<close>

definition effectResultFromRow :: "sqlEffectOutboxRow \<Rightarrow> bool \<Rightarrow> CompleteEffectResult" where
  "effectResultFromRow row replay =
     \<lparr>cer_OutboxID = ef_OutboxID row, cer_Status = ef_Status row, cer_DeliveryAttempts = ef_DeliveryAttempts row,
      cer_AvailableAt = ef_AvailableAt row, cer_LastErrorCode = null_string (ef_LastErrorCode row),
      cer_Replay = replay\<rparr>"

record effectCompletion =
  ec_columns :: "sqlEffectOutboxRow \<Rightarrow> sqlEffectOutboxRow"
  ec_result :: CompleteEffectResult

definition completion_base :: "DeliveryReport \<Rightarrow> time \<Rightarrow> sqlEffectOutboxRow \<Rightarrow> sqlEffectOutboxRow" where
  "completion_base report now r = r\<lparr>ef_LeaseOwnerID := None, ef_LeaseExpiresAt := None,
     ef_LastErrorCode := nullable (rp_ErrorCode report), ef_UpdatedAt := now\<rparr>"

definition completion_result :: "sqlEffectOutboxRow \<Rightarrow> DeliveryReport \<Rightarrow> CompleteEffectResult" where
  "completion_result row report =
     \<lparr>cer_OutboxID = ef_OutboxID row, cer_Status = EffectStatusOther [],
      cer_DeliveryAttempts = ef_DeliveryAttempts row, cer_AvailableAt = 0,
      cer_LastErrorCode = rp_ErrorCode report, cer_Replay = False\<rparr>"

definition completion_retry :: "sqlEffectOutboxRow \<Rightarrow> DeliveryReport \<Rightarrow> time \<Rightarrow> effectCompletion" where
  "completion_retry row report now =
     (let availableAt = now + effectRetryDelay (ef_DeliveryAttempts row) (rp_RetryAfter report) in
      \<lparr>ec_columns = (\<lambda>r. (completion_base report now r)\<lparr>ef_Status := EffectStatusPending, ef_AvailableAt := availableAt\<rparr>),
       ec_result = (completion_result row report)\<lparr>cer_Status := EffectStatusPending, cer_AvailableAt := availableAt\<rparr>\<rparr>)"

definition completion_dead :: "sqlEffectOutboxRow \<Rightarrow> DeliveryReport \<Rightarrow> time \<Rightarrow> effectCompletion" where
  "completion_dead row report now =
     \<lparr>ec_columns = (\<lambda>r. (completion_base report now r)\<lparr>ef_Status := EffectStatusDeadLetter, ef_DeadLetteredAt := Some now\<rparr>),
      ec_result = (completion_result row report)\<lparr>cer_Status := EffectStatusDeadLetter\<rparr>\<rparr>"

definition completion_delivered :: "sqlEffectOutboxRow \<Rightarrow> DeliveryReport \<Rightarrow> time \<Rightarrow> effectCompletion" where
  "completion_delivered row report now =
     \<lparr>ec_columns = (\<lambda>r. (completion_base report now r)\<lparr>ef_Status := EffectStatusDelivered,
                          ef_DeliveredAt := Some now, ef_LastErrorCode := None\<rparr>),
      ec_result = (completion_result row report)\<lparr>cer_Status := EffectStatusDelivered, cer_LastErrorCode := []\<rparr>\<rparr>"

definition resolveEffectCompletion ::
  "SQLStore \<Rightarrow> sqlEffectOutboxRow \<Rightarrow> DeliveryReport \<Rightarrow> time \<Rightarrow> effectCompletion result"
where
  "resolveEffectCompletion store row report now =
     (let budget = maxDeliveryAttemptsBudget store in
      case rp_Outcome report of
        DeliveryOutcomeDelivered \<Rightarrow> Inr (completion_delivered row report now)
      | DeliveryOutcomePermanent \<Rightarrow> Inr (completion_dead row report now)
      | DeliveryOutcomeRetry \<Rightarrow>
          Inr (if ef_DeliveryAttempts row \<ge> budget then completion_dead row report now
               else completion_retry row report now)
      | DeliveryOutcomeUnknown \<Rightarrow>
          Inr (if \<not> rp_IdempotentRetrySafe report \<or> ef_DeliveryAttempts row \<ge> budget
               then completion_dead row report now else completion_retry row report now)
      | DeliveryOutcomeOther s \<Rightarrow> Inl (Errorf ''unknown delivery outcome''))"

definition completeEffect_tx :: "SQLStore \<Rightarrow> sql_io \<Rightarrow> CompleteEffectCommand \<Rightarrow> CompleteEffectResult tx" where
  "completeEffect_tx store io c =
     tx_bind (lockEffect store io (df_OutboxID (co_Fence c))) (\<lambda>row.
     tx_check (\<not> EffectStatus_Valid (ef_Status row)) ErrStoreIntegrity (
     tx_check (ef_DispatchFencingToken row \<noteq> df_DispatchToken (co_Fence c)) ErrEffectFenced (
     if EffectStatus_Terminal (ef_Status row) then tx_return (effectResultFromRow row True)
     else
     tx_check (ef_Status row \<noteq> EffectStatusDelivering
               \<or> ef_LeaseOwnerID row \<noteq> Some (df_LeaseOwnerID (co_Fence c))) ErrEffectFenced (
     tx_bind (executionNow store io) (\<lambda>now.
     tx_bind (tx_lift (resolveEffectCompletion store row (co_Report c) now)) (\<lambda>nxt.
     tx_bind (updateEffectColumns store io (ef_ID row) (ec_columns nxt)) (\<lambda>_.
     tx_return (ec_result nxt))))))))"

definition CompleteEffect ::
  "SQLStore \<Rightarrow> sql_io \<Rightarrow> go_context \<Rightarrow> CompleteEffectCommand \<Rightarrow> CompleteEffectResult tx"
where
  "CompleteEffect store io ctx c =
     tx_guard (first_error [contextError (ctx 0), CompleteEffectCommand_Validate c])
       (tx_catch (writeTransaction store io (ctx 1) (ctx 2) (completeEffect_tx store io c))
          (\<lambda>e. tx_fail (normalize ''complete-effect'' e)))"

subsection \<open>What the transactions do\<close>

lemma reads_lockEffect [tx_reads]: "reads (lockEffect store io i)"
  by (simp add: lockEffect_def Let_def tx_reads)

lemma reads_lookupSettlementReviewTx [tx_reads]: "reads (lookupSettlementReviewTx io i)"
  unfolding lookupSettlementReviewTx_def by (intro tx_reads) (simp add: tx_reads split: option.split)

lemma runs_lockEffect:
  "runs (lockEffect store io i) s row s' \<Longrightarrow>
     find (\<lambda>r. ef_OutboxID r = i) (db_outbox (st_db s)) = Some row \<and> st_db s' = st_db s"
  by (auto simp: lockEffect_def Let_def tx_runs split: if_splits)

lemma runs_lookupSettlementReviewTx_None:
  assumes "runs (lookupSettlementReviewTx io i) s None s'" "honest_io io"
  shows "\<forall>r \<in> set (db_reviews (st_db s)). sv_TurnID r \<noteq> i"
proof -
  have "runs (lookup_row io db_reviews (\<lambda>r. sv_TurnID r = i)) s None s'"
    using assms(1) by (auto simp: lookupSettlementReviewTx_def tx_runs split: option.splits)
  from runs_lookup_row_None [OF this assms(2)] show ?thesis by (auto simp: find_None_iff)
qed

lemma runs_updateEffectColumns:
  assumes "runs (updateEffectColumns store io i f) s u s'"
  shows "(\<forall>r \<in> set (db_outbox (st_db s)). ef_ID r = i \<longrightarrow> counters_fit (f r))
    \<and> st_db s' = (st_db s)\<lparr>db_outbox := update_rows (\<lambda>r. ef_ID r = i) f (db_outbox (st_db s))\<rparr>"
  using assms by (auto simp: updateEffectColumns_def Let_def tx_runs list_ex_iff split: if_splits)

definition outbox_at :: "sql_db \<Rightarrow> string \<Rightarrow> sqlEffectOutboxRow option" where
  "outbox_at db i = find (\<lambda>r. ef_OutboxID r = i) (db_outbox db)"

definition set_effect :: "nat \<Rightarrow> (sqlEffectOutboxRow \<Rightarrow> sqlEffectOutboxRow) \<Rightarrow> sql_db \<Rightarrow> sql_db" where
  "set_effect i f db = db\<lparr>db_outbox := update_rows (\<lambda>r. ef_ID r = i) f (db_outbox db)\<rparr>"

lemma claimEffect_tx_cases:
  assumes "runs (claimEffect_tx store io i owner topics turn) s x s'"
  shows "(x = None \<and> st_db s' = st_db s)
    \<or> (\<exists>row now. outbox_at (st_db s) i = Some row \<and> ef_TurnID row = turn
        \<and> effectTopicScopeAllows topics (ef_Topic row) \<and> effect_claimable row now
        \<and> clock_read io now \<and> (honest_io io \<longrightarrow> (\<forall>r \<in> set (db_reviews (st_db s)). sv_TurnID r \<noteq> turn))
        \<and> x = Some (effect_delivery owner (now + effectLeaseTTL store) row)
        \<and> st_db s' = set_effect (ef_ID row) (effect_leased owner (now + effectLeaseTTL store) now row) (st_db s)
        \<and> (\<forall>r \<in> set (db_outbox (st_db s)). ef_ID r = ef_ID row
             \<longrightarrow> counters_fit (effect_leased owner (now + effectLeaseTTL store) now row r)))"
proof -
  from assms obtain t s1 review s2 where
    s1: "runs (lockTurn store io (\<lambda>r. tr_TurnID r = turn)) s t s1" and
    s2: "runs (lookupSettlementReviewTx io turn) s1 review s2" and
    rest: "runs (tx_try (lockEffect store io i) (claim_locked store io owner topics turn (review \<noteq> None))) s2 x s'"
    unfolding claimEffect_tx_def runs_bind by blast
  have db: "st_db s2 = st_db s"
    using readsD [OF reads_lockTurn s1] readsD [OF reads_lookupSettlementReviewTx s2] by simp
  from rest consider
      (miss) e where "lockEffect store io i s2 = (Inl e, s')" "x = None"
    | (row) row s3 now s4 where "runs (lockEffect store io i) s2 row s3" "ef_TurnID row = turn"
        "effectTopicScopeAllows topics (ef_Topic row)" "runs (executionNow store io) s3 now s4"
        "runs (lease_effect store io owner (review \<noteq> None) row now) s4 x s'"
    unfolding runs_try by (auto simp: claim_locked_def runs_check runs_bind runs_basic split: if_splits)
  then show ?thesis
  proof cases
    case miss
    with db readsD_fail [OF reads_lockEffect miss(1)] show ?thesis by simp
  next
    case row
    have d: "outbox_at (st_db s) i = Some row" "st_db s4 = st_db s"
      using runs_lockEffect [OF row(1)] readsD [OF reads_executionNow row(4)] db by (auto simp: outbox_at_def)
    have now: "clock_read io now" using runs_executionNow [OF row(4)] by (auto simp: clock_read_def)
    show ?thesis
    proof (cases "review = None \<and> effect_claimable row now")
      case False
      with row(5) d(2) show ?thesis by (auto simp: lease_effect_def runs_basic split: if_splits)
    next
      case True
      with row(5) obtain s5 where
        up: "runs (updateEffectColumns store io (ef_ID row) (effect_leased owner (now + effectLeaseTTL store) now row)) s4 () s5"
        and x: "x = Some (effect_delivery owner (now + effectLeaseTTL store) row)" "s' = s5"
        by (auto simp: lease_effect_def runs_bind runs_basic Let_def)
      have none: "\<forall>r \<in> set (db_reviews (st_db s)). sv_TurnID r \<noteq> turn" if "honest_io io"
        using runs_lookupSettlementReviewTx_None [of io turn s1 s2] s2 True that readsD [OF reads_lockTurn s1] by simp
      from runs_updateEffectColumns [OF up] d row(2,3) True x now none show ?thesis
        by (auto simp: set_effect_def)
    qed
  qed
qed

lemma completeEffect_tx_cases:
  assumes "runs (completeEffect_tx store io c) s x s'"
  shows "\<exists>row. outbox_at (st_db s) (df_OutboxID (co_Fence c)) = Some row
    \<and> ef_DispatchFencingToken row = df_DispatchToken (co_Fence c)
    \<and> ((EffectStatus_Terminal (ef_Status row) \<and> x = effectResultFromRow row True \<and> st_db s' = st_db s)
       \<or> (ef_Status row = EffectStatusDelivering \<and> ef_LeaseOwnerID row = Some (df_LeaseOwnerID (co_Fence c))
          \<and> (\<exists>now nxt. clock_read io now \<and> resolveEffectCompletion store row (co_Report c) now = Inr nxt
               \<and> x = ec_result nxt \<and> st_db s' = set_effect (ef_ID row) (ec_columns nxt) (st_db s))))"
proof -
  from assms obtain row s1 where lock: "runs (lockEffect store io (df_OutboxID (co_Fence c))) s row s1"
    and tok: "ef_DispatchFencingToken row = df_DispatchToken (co_Fence c)"
    and rest: "runs (if EffectStatus_Terminal (ef_Status row) then tx_return (effectResultFromRow row True)
     else
     tx_check (ef_Status row \<noteq> EffectStatusDelivering
               \<or> ef_LeaseOwnerID row \<noteq> Some (df_LeaseOwnerID (co_Fence c))) ErrEffectFenced (
     tx_bind (executionNow store io) (\<lambda>now.
     tx_bind (tx_lift (resolveEffectCompletion store row (co_Report c) now)) (\<lambda>nxt.
     tx_bind (updateEffectColumns store io (ef_ID row) (ec_columns nxt)) (\<lambda>_.
     tx_return (ec_result nxt)))))) s1 x s'"
    unfolding completeEffect_tx_def runs_bind runs_check by blast
  have row: "outbox_at (st_db s) (df_OutboxID (co_Fence c)) = Some row" and db: "st_db s1 = st_db s"
    using runs_lockEffect [OF lock] by (auto simp: outbox_at_def)
  show ?thesis
  proof (cases "EffectStatus_Terminal (ef_Status row)")
    case True
    with rest row tok db show ?thesis by (auto simp: runs_basic)
  next
    case False
    with rest obtain now s2 nxt s3 where st: "ef_Status row = EffectStatusDelivering"
        "ef_LeaseOwnerID row = Some (df_LeaseOwnerID (co_Fence c))"
      and clk: "runs (executionNow store io) s1 now s2"
      and res: "resolveEffectCompletion store row (co_Report c) now = Inr nxt"
      and up: "runs (updateEffectColumns store io (ef_ID row) (ec_columns nxt)) s2 () s3"
      and x: "x = ec_result nxt" "s' = s3"
      by (auto simp: runs_check runs_bind runs_basic)
    have "st_db s3 = set_effect (ef_ID row) (ec_columns nxt) (st_db s)"
      using runs_updateEffectColumns [OF up] readsD [OF reads_executionNow clk] db by (simp add: set_effect_def)
    moreover have "clock_read io now" using runs_executionNow [OF clk] by (auto simp: clock_read_def)
    ultimately show ?thesis using row tok st res x by blast
  qed
qed

subsection \<open>Histories of the outbox\<close>

text \<open>
  The committed transactions of the outbox, in any order and by any dispatchers: the unit of
  interleaving is one transaction, since a transaction that fails changes nothing.
\<close>

inductive outbox_step :: "SQLStore \<Rightarrow> sql_db \<Rightarrow> sql_db \<Rightarrow> bool" for store where
  claim: "runs (claimEffect_tx store io i owner topics turn) s x s' \<Longrightarrow> outbox_step store (st_db s) (st_db s')"
| complete: "runs (completeEffect_tx store io c) s r s' \<Longrightarrow> outbox_step store (st_db s) (st_db s')"
| hold: "runs (holdTurnEffectsForReview io turn now) s u s' \<Longrightarrow> outbox_step store (st_db s) (st_db s')"

definition outbox_keys :: "sql_db \<Rightarrow> bool" where
  "outbox_keys db \<longleftrightarrow> distinct (map ef_ID (db_outbox db)) \<and> distinct (map ef_OutboxID (db_outbox db))
     \<and> (\<forall>r \<in> set (db_outbox db). counters_fit r)"

definition same_effect :: "sqlEffectOutboxRow \<Rightarrow> sqlEffectOutboxRow \<Rightarrow> bool" where
  "same_effect r' r \<longleftrightarrow> ef_ID r' = ef_ID r \<and> ef_OutboxID r' = ef_OutboxID r \<and> ef_TurnID r' = ef_TurnID r
     \<and> ef_AttemptID r' = ef_AttemptID r \<and> ef_TurnFencingToken r' = ef_TurnFencingToken r
     \<and> ef_OperationID r' = ef_OperationID r \<and> ef_Ordinal r' = ef_Ordinal r \<and> ef_Topic r' = ef_Topic r
     \<and> ef_DedupeKey r' = ef_DedupeKey r \<and> ef_PayloadJSON r' = ef_PayloadJSON r
     \<and> ef_CreatedAt r' = ef_CreatedAt r"

text \<open>
  How a row may evolve: its content is fixed, the dispatch token and the attempts only grow, a
  terminal or held row stays as it is, and no lease appears or changes without a new token.
\<close>

definition effect_evolves :: "sqlEffectOutboxRow \<Rightarrow> sqlEffectOutboxRow \<Rightarrow> bool" where
  "effect_evolves r r' \<longleftrightarrow> same_effect r' r
     \<and> ef_DispatchFencingToken r \<le> ef_DispatchFencingToken r' \<and> ef_DeliveryAttempts r \<le> ef_DeliveryAttempts r'
     \<and> (EffectStatus_Terminal (ef_Status r) \<or> ef_Status r = EffectStatusReviewHold \<longrightarrow> r' = r)
     \<and> (ef_DispatchFencingToken r' = ef_DispatchFencingToken r \<and> ef_Status r' = EffectStatusDelivering \<longrightarrow> r' = r)"

lemma effect_evolves_refl [simp]: "effect_evolves r r"
  by (simp add: effect_evolves_def same_effect_def)

lemma effect_evolves_token: "effect_evolves r r' \<Longrightarrow> ef_DispatchFencingToken r \<le> ef_DispatchFencingToken r'"
  unfolding effect_evolves_def by blast

lemma effect_evolves_same: "effect_evolves r r' \<Longrightarrow> same_effect r' r"
  unfolding effect_evolves_def by blast

lemma effect_evolves_final:
  "effect_evolves r r' \<Longrightarrow> EffectStatus_Terminal (ef_Status r) \<or> ef_Status r = EffectStatusReviewHold \<Longrightarrow> r' = r"
  unfolding effect_evolves_def by blast

lemma effect_evolves_trans: "effect_evolves a b \<Longrightarrow> effect_evolves b c \<Longrightarrow> effect_evolves a c"
  by (auto simp: effect_evolves_def same_effect_def)

lemma wrap64_fits: "0 \<le> x \<Longrightarrow> x \<le> MaxInt64 \<Longrightarrow> 0 \<le> wrap64 (x + 1) \<Longrightarrow> wrap64 (x + 1) = x + 1"
  by (cases "x = MaxInt64") (simp_all add: wrap64_def)

lemma leased_evolves:
  assumes "counters_fit r" "counters_fit (effect_leased owner expires now r r)" "effect_claimable r t"
  shows "effect_evolves r (effect_leased owner expires now r r)
    \<and> ef_DispatchFencingToken (effect_leased owner expires now r r) = ef_DispatchFencingToken r + 1
    \<and> wrap64 (ef_DispatchFencingToken r + 1) = ef_DispatchFencingToken r + 1"
  using assms wrap64_fits [of "ef_DispatchFencingToken r"] wrap64_fits [of "ef_DeliveryAttempts r"]
  by (auto simp: counters_fit_def effect_leased_def effect_evolves_def same_effect_def effect_claimable_def
      EffectStatus_Terminal_def)

lemma resolveEffectCompletion_cases:
  assumes "resolveEffectCompletion store r report now = Inr nxt"
  shows "nxt \<in> {completion_delivered r report now, completion_dead r report now, completion_retry r report now}"
  using assms by (simp add: resolveEffectCompletion_def Let_def split: DeliveryOutcome.splits if_splits)

lemmas completion_defs = completion_delivered_def completion_dead_def completion_retry_def completion_base_def
  completion_result_def

lemma completion_evolves:
  assumes "resolveEffectCompletion store r report now = Inr nxt" "ef_Status r = EffectStatusDelivering"
  shows "effect_evolves r (ec_columns nxt r)" "ef_DispatchFencingToken (ec_columns nxt r) = ef_DispatchFencingToken r"
    "ef_DeliveryAttempts (ec_columns nxt r) = ef_DeliveryAttempts r"
proof -
  have "nxt = completion_delivered r report now \<or> nxt = completion_dead r report now \<or> nxt = completion_retry r report now"
    using resolveEffectCompletion_cases [OF assms(1)] by simp
  then have "effect_evolves r (ec_columns nxt r) \<and> ef_DispatchFencingToken (ec_columns nxt r) = ef_DispatchFencingToken r
    \<and> ef_DeliveryAttempts (ec_columns nxt r) = ef_DeliveryAttempts r"
    using assms(2)
    by (elim disjE) (simp_all add: completion_defs Let_def effect_evolves_def same_effect_def EffectStatus_Terminal_def)
  then show "effect_evolves r (ec_columns nxt r)" "ef_DispatchFencingToken (ec_columns nxt r) = ef_DispatchFencingToken r"
    "ef_DeliveryAttempts (ec_columns nxt r) = ef_DeliveryAttempts r" by blast+
qed

text \<open>An update by id touches the one row with that id.\<close>

lemma outbox_at_member: "outbox_at db i = Some r \<Longrightarrow> r \<in> set (db_outbox db) \<and> ef_OutboxID r = i"
  by (auto simp: outbox_at_def dest: find_SomeD)

lemma outbox_keys_id: "outbox_keys db \<Longrightarrow> a \<in> set (db_outbox db) \<Longrightarrow> b \<in> set (db_outbox db) \<Longrightarrow>
   ef_ID a = ef_ID b \<Longrightarrow> a = b"
  unfolding outbox_keys_def distinct_map by (blast dest: inj_onD)

lemma outbox_keys_outbox_id: "outbox_keys db \<Longrightarrow> a \<in> set (db_outbox db) \<Longrightarrow> b \<in> set (db_outbox db) \<Longrightarrow>
   ef_OutboxID a = ef_OutboxID b \<Longrightarrow> a = b"
  unfolding outbox_keys_def distinct_map by (blast dest: inj_onD)

lemma outbox_at_keys: "outbox_keys db \<Longrightarrow> r \<in> set (db_outbox db) \<Longrightarrow> outbox_at db (ef_OutboxID r) = Some r"
  unfolding outbox_at_def by (rule find_unique) (blast dest: outbox_keys_outbox_id)+

lemma set_effect_keys:
  assumes "outbox_keys db" "row \<in> set (db_outbox db)" "same_effect (f row) row" "counters_fit (f row)"
  shows "outbox_keys (set_effect (ef_ID row) f db)
    \<and> outbox_at (set_effect (ef_ID row) f db) (ef_OutboxID row) = Some (f row)
    \<and> (\<forall>i. i \<noteq> ef_OutboxID row \<longrightarrow> outbox_at (set_effect (ef_ID row) f db) i = outbox_at db i)"
proof -
  have upd: "db_outbox (set_effect (ef_ID row) f db) = map (\<lambda>r. if r = row then f row else r) (db_outbox db)"
    using outbox_keys_id [OF assms(1) _ assms(2)] by (auto simp: set_effect_def update_rows_def)
  have ids: "ef_ID (f row) = ef_ID row" "ef_OutboxID (f row) = ef_OutboxID row"
    using assms(3) by (auto simp: same_effect_def)
  have m: "map g (map (\<lambda>r. if r = row then f row else r) rows) = map g rows" if "g (f row) = g row" for g :: "sqlEffectOutboxRow \<Rightarrow> 'b" and rows
    using that by (induction rows) auto
  have keys: "outbox_keys (set_effect (ef_ID row) f db)"
    using assms(1,4) unfolding outbox_keys_def upd by (auto simp only: m [OF ids(1)] m [OF ids(2)]) (auto split: if_splits)
  moreover have "f row \<in> set (db_outbox (set_effect (ef_ID row) f db))"
    using assms(2) by (auto simp: upd)
  ultimately have "outbox_at (set_effect (ef_ID row) f db) (ef_OutboxID row) = Some (f row)"
    using outbox_at_keys ids(2) by metis
  moreover have "outbox_at (set_effect (ef_ID row) f db) i = outbox_at db i" if "i \<noteq> ef_OutboxID row" for i
  proof -
    have "find (\<lambda>r. ef_OutboxID r = i) (map (\<lambda>r. if r = row then f row else r) rows) = find (\<lambda>r. ef_OutboxID r = i) rows" for rows
      using that ids(2) by (induction rows) auto
    then show ?thesis by (simp add: outbox_at_def upd)
  qed
  ultimately show ?thesis using keys by blast
qed

lemma hold_keys:
  assumes "outbox_keys db" "outbox_keys_upd = db\<lparr>db_outbox := update_rows p f (db_outbox db)\<rparr>"
    and "\<And>r. p r \<Longrightarrow> same_effect (f r) r \<and> counters_fit (f r) = counters_fit r"
  shows "outbox_keys outbox_keys_upd
    \<and> (\<forall>i. outbox_at outbox_keys_upd i = map_option (\<lambda>r. if p r then f r else r) (outbox_at db i))"
  using assms
  by (auto simp: outbox_keys_def outbox_at_def map_update_rows same_effect_def set_update_rows find_update_rows)

lemma set_effect_evolves:
  assumes "outbox_keys db" "outbox_at db j = Some row" "effect_evolves row (f row)" "counters_fit (f row)"
    and db': "db' = set_effect (ef_ID row) f db"
  shows "outbox_keys db' \<and> outbox_at db' j = Some (f row)
    \<and> (\<forall>i r. outbox_at db i = Some r \<longrightarrow> (\<exists>r'. outbox_at db' i = Some r' \<and> effect_evolves r r'))"
proof -
  have m: "row \<in> set (db_outbox db)" "ef_OutboxID row = j" using outbox_at_member [OF assms(2)] by auto
  have "same_effect (f row) row" using assms(3) by (simp add: effect_evolves_def)
  note u = set_effect_keys [where f = f, OF assms(1) m(1) this assms(4), folded db', unfolded m(2)]
  have "\<exists>r'. outbox_at db' i = Some r' \<and> effect_evolves r r'" if r: "outbox_at db i = Some r" for i r
  proof (cases "i = j")
    case True
    with r assms(2,3) u show ?thesis by auto
  next
    case False
    with r u show ?thesis by auto
  qed
  with u show ?thesis by blast
qed

lemma outbox_step_evolves:
  assumes "outbox_step store db db'" "outbox_keys db"
  shows "outbox_keys db' \<and> (\<forall>i r. outbox_at db i = Some r \<longrightarrow> (\<exists>r'. outbox_at db' i = Some r' \<and> effect_evolves r r'))"
  using assms
proof (cases rule: outbox_step.cases)
  case (claim io i owner topics turn s x s')
  from claimEffect_tx_cases [OF claim(3)] show ?thesis
  proof (elim disjE exE conjE)
    fix row now assume row: "outbox_at (st_db s) i = Some row" "effect_claimable row now"
      and db': "st_db s' = set_effect (ef_ID row) (effect_leased owner (now + effectLeaseTTL store) now row) (st_db s)"
      and fit: "\<forall>r \<in> set (db_outbox (st_db s)). ef_ID r = ef_ID row
             \<longrightarrow> counters_fit (effect_leased owner (now + effectLeaseTTL store) now row r)"
    let ?f = "effect_leased owner (now + effectLeaseTTL store) now row"
    have m: "row \<in> set (db_outbox (st_db s))" using outbox_at_member [OF row(1)] by simp
    have fits: "counters_fit (?f row)" using fit m by blast
    have "effect_evolves row (?f row)"
      using leased_evolves [OF _ fits row(2)] m assms(2) claim(1) by (simp add: outbox_keys_def)
    from set_effect_evolves [where f = ?f, OF _ row(1) this fits db'] assms(2) claim(1,2) show ?thesis by simp
  qed (use assms(2) claim in auto)
next
  case (complete io c s x s')
  from completeEffect_tx_cases [OF complete(3)] show ?thesis
  proof (elim disjE exE conjE)
    fix row now nxt assume row: "outbox_at (st_db s) (df_OutboxID (co_Fence c)) = Some row"
      "ef_Status row = EffectStatusDelivering"
      and res: "resolveEffectCompletion store row (co_Report c) now = Inr nxt"
      and db': "st_db s' = set_effect (ef_ID row) (ec_columns nxt) (st_db s)"
    have m: "row \<in> set (db_outbox (st_db s))" using outbox_at_member [OF row(1)] by simp
    note e = completion_evolves [OF res row(2)]
    have fits: "counters_fit (ec_columns nxt row)"
      using assms(2) m e(2,3) complete(1) by (auto simp: outbox_keys_def counters_fit_def)
    from set_effect_evolves [where f = "ec_columns nxt", OF _ row(1) e(1) fits db'] assms(2) complete(1,2) show ?thesis by simp
  qed (use assms(2) complete in auto)
next
  case (hold io turn now s u s')
  let ?p = "\<lambda>r. ef_TurnID r = turn \<and> (ef_Status r = EffectStatusPending \<or> ef_Status r = EffectStatusDelivering)"
  let ?f = "\<lambda>r. r\<lparr>ef_Status := EffectStatusReviewHold, ef_LeaseOwnerID := None, ef_LeaseExpiresAt := None,
               ef_UpdatedAt := (if ef_UpdatedAt r > now then ef_UpdatedAt r else now)\<rparr>"
  have db': "db' = db\<lparr>db_outbox := update_rows ?p ?f (db_outbox db)\<rparr>"
    using hold by (auto simp: holdTurnEffectsForReview_def tx_runs)
  have e: "effect_evolves r (if ?p r then ?f r else r)" for r
    by (auto simp: effect_evolves_def same_effect_def EffectStatus_Terminal_def)
  from hold_keys [OF assms(2) db'] e show ?thesis by (auto simp: same_effect_def counters_fit_def)
qed

lemma outbox_steps_evolve:
  assumes "(outbox_step store)\<^sup>*\<^sup>* db db'" "outbox_keys db"
  shows "outbox_keys db' \<and> (\<forall>i r. outbox_at db i = Some r \<longrightarrow> (\<exists>r'. outbox_at db' i = Some r' \<and> effect_evolves r r'))"
  using assms(1)
proof (induction rule: rtranclp_induct)
  case (step y z)
  with outbox_step_evolves [OF step(2)] show ?case by (meson effect_evolves_trans)
qed (use assms(2) in auto)

text \<open>A lease that was handed out stands in the row, under a token of its own.\<close>

lemma claimed_row:
  assumes "runs (claimEffect_tx store io i owner topics turn) s (Some d) s'" "outbox_keys (st_db s)"
  shows "\<exists>r r'. outbox_at (st_db s) i = Some r \<and> outbox_at (st_db s') i = Some r' \<and> same_effect r' r
    \<and> df_DispatchToken (dl_Fence d) = ef_DispatchFencingToken r + 1 \<and> ef_DispatchFencingToken r' = ef_DispatchFencingToken r + 1
    \<and> ef_Status r' = EffectStatusDelivering \<and> ef_LeaseOwnerID r' = Some owner \<and> df_LeaseOwnerID (dl_Fence d) = owner
    \<and> df_OutboxID (dl_Fence d) = i \<and> dl_DedupeKey d = ef_DedupeKey r \<and> dl_Payload d = ef_PayloadJSON r"
proof -
  from claimEffect_tx_cases [OF assms(1)] obtain row now where row: "outbox_at (st_db s) i = Some row"
      "effect_claimable row now" "d = effect_delivery owner (now + effectLeaseTTL store) row"
    and db': "st_db s' = set_effect (ef_ID row) (effect_leased owner (now + effectLeaseTTL store) now row) (st_db s)"
    and fit: "\<forall>r \<in> set (db_outbox (st_db s)). ef_ID r = ef_ID row
             \<longrightarrow> counters_fit (effect_leased owner (now + effectLeaseTTL store) now row r)" by auto
  let ?f = "effect_leased owner (now + effectLeaseTTL store) now row"
  have m: "row \<in> set (db_outbox (st_db s))" "ef_OutboxID row = i" using outbox_at_member [OF row(1)] by auto
  have fits: "counters_fit (?f row)" using fit m by blast
  note e = leased_evolves [OF _ fits row(2)]
  have c: "counters_fit row" using assms(2) m by (simp add: outbox_keys_def)
  have "outbox_at (st_db s') i = Some (?f row)"
    using set_effect_evolves [where f = ?f, OF assms(2) row(1) _ fits db'] e [OF c] by blast
  moreover have "same_effect (?f row) row" using e [OF c] by (simp add: effect_evolves_def)
  moreover have w: "wrap64 (ef_DispatchFencingToken row + 1) = ef_DispatchFencingToken row + 1" using e [OF c] by simp
  ultimately show ?thesis using row(1,3) m(2)
    by (intro exI [of _ row] exI [of _ "?f row"]) (simp add: effect_delivery_def effect_leased_def)
qed

lemma stale_fence_fails:
  assumes "outbox_at (st_db s) (df_OutboxID (co_Fence c)) = Some r" "ef_DispatchFencingToken r \<noteq> df_DispatchToken (co_Fence c)"
  shows "\<not> runs (completeEffect_tx store io c) s x s'"
  using completeEffect_tx_cases [of store io c s x s'] assms by auto

lemma completed_row:
  assumes "runs (completeEffect_tx store io c) s r s'" "outbox_keys (st_db s)" "EffectStatus_Terminal (cer_Status r)"
  obtains row where "outbox_at (st_db s') (df_OutboxID (co_Fence c)) = Some row"
    "ef_DispatchFencingToken row = df_DispatchToken (co_Fence c)" "ef_Status row = cer_Status r"
proof -
  from completeEffect_tx_cases [OF assms(1)] obtain row where
    row: "outbox_at (st_db s) (df_OutboxID (co_Fence c)) = Some row"
      "ef_DispatchFencingToken row = df_DispatchToken (co_Fence c)"
    and cases: "(EffectStatus_Terminal (ef_Status row) \<and> r = effectResultFromRow row True \<and> st_db s' = st_db s)
       \<or> (ef_Status row = EffectStatusDelivering
          \<and> (\<exists>now nxt. resolveEffectCompletion store row (co_Report c) now = Inr nxt
               \<and> r = ec_result nxt \<and> st_db s' = set_effect (ef_ID row) (ec_columns nxt) (st_db s)))" by blast
  from cases show thesis
  proof (elim disjE exE conjE)
    assume "r = effectResultFromRow row True" "st_db s' = st_db s"
    with row that show thesis by (simp add: effectResultFromRow_def)
  next
    fix now nxt assume st: "ef_Status row = EffectStatusDelivering"
      and res: "resolveEffectCompletion store row (co_Report c) now = Inr nxt"
      and r: "r = ec_result nxt" "st_db s' = set_effect (ef_ID row) (ec_columns nxt) (st_db s)"
    note e = completion_evolves [OF res st]
    have fits: "counters_fit (ec_columns nxt row)"
      using assms(2) outbox_at_member [OF row(1)] e(2,3) by (auto simp: outbox_keys_def counters_fit_def)
    have "outbox_at (st_db s') (df_OutboxID (co_Fence c)) = Some (ec_columns nxt row)"
      using set_effect_evolves [where f = "ec_columns nxt", OF assms(2) row(1) e(1) fits r(2)] by blast
    moreover have "ef_Status (ec_columns nxt row) = cer_Status r"
      using resolveEffectCompletion_cases [OF res] r(1) by (auto simp: completion_defs Let_def)
    ultimately show thesis using that e(2) row(2) by simp
  qed
qed

lemma runs_CompleteEffect:
  "runs (CompleteEffect store io ctx c) s r s' \<Longrightarrow>
     CompleteEffectCommand_Validate c = None
     \<and> runs (writeTransaction store io (ctx 1) (ctx 2) (completeEffect_tx store io c)) s r s'"
  unfolding CompleteEffect_def runs_guard runs_catch_fail by (simp add: first_error_None_iff)

subsection \<open>States of the rows\<close>

lemma canonicalExecutionTime_positive: "canonicalExecutionTime t = Inr now \<Longrightarrow> now > 0"
  by (auto simp: canonicalExecutionTime_def sql_first_time_def Second_def Let_def split: if_splits)

lemma leased_valid:
  assumes "validEffectOutboxState r" "effect_claimable r now" "ef_CreatedAt r \<le> now" "now > 0" "ttl > 0"
    and "counters_fit r" "counters_fit (effect_leased owner (now + ttl) now r r)"
    and "validatePrintableASCII ''leaseOwnerId'' owner MaxWorkerIDBytes = None"
  shows "validEffectOutboxState (effect_leased owner (now + ttl) now r r)"
proof -
  have "wrap64 (ef_DispatchFencingToken r + 1) = ef_DispatchFencingToken r + 1"
      "wrap64 (ef_DeliveryAttempts r + 1) = ef_DeliveryAttempts r + 1"
    using assms(6,7) wrap64_fits [of "ef_DispatchFencingToken r"] wrap64_fits [of "ef_DeliveryAttempts r"]
    by (simp_all add: counters_fit_def effect_leased_def)
  with assms show ?thesis
    by (auto simp: validEffectOutboxState_def effect_leased_def effect_claimable_def IsZero_def before_opt_def
        counters_fit_def split: if_splits)
qed

lemma completion_valid:
  assumes "validEffectOutboxState r" "ef_Status r = EffectStatusDelivering" "ef_CreatedAt r \<le> now" "now > 0"
    and "DeliveryReport_Validate report = None" "resolveEffectCompletion store r report now = Inr nxt"
  shows "validEffectOutboxState (ec_columns nxt r)"
proof -
  have code: "rp_ErrorCode report \<noteq> [] \<Longrightarrow>
      validatePrintableASCII ''lastErrorCode'' (rp_ErrorCode report) MaxEffectErrorCodeBytes = None"
    using assms(5) by (auto simp: DeliveryReport_Validate_def err_simps validatePrintableASCII_def)
  from resolveEffectCompletion_cases [OF assms(6)]
  have "nxt = completion_delivered r report now \<or> nxt = completion_dead r report now \<or> nxt = completion_retry r report now"
    by simp
  then show ?thesis using assms(1-4) code
    by (elim disjE) (simp_all add: validEffectOutboxState_def completion_defs Let_def IsZero_def before_opt_def
        nullable_def split: if_splits)
qed

definition outbox_valid :: "time \<Rightarrow> sql_db \<Rightarrow> bool" where
  "outbox_valid T db \<longleftrightarrow> outbox_keys db
     \<and> (\<forall>r \<in> set (db_outbox db). validEffectOutboxState r \<and> ef_CreatedAt r \<le> T)"

lemma set_effect_valid:
  assumes "outbox_valid T db" "outbox_at db j = Some row" "effect_evolves row (f row)" "counters_fit (f row)"
    and "validEffectOutboxState (f row)" "db' = set_effect (ef_ID row) f db"
  shows "outbox_valid T db'"
proof -
  have keys: "outbox_keys db" and m: "row \<in> set (db_outbox db)"
    using assms(1) outbox_at_member [OF assms(2)] by (auto simp: outbox_valid_def)
  have "validEffectOutboxState r' \<and> ef_CreatedAt r' \<le> T" if "r' \<in> set (db_outbox db')" for r'
  proof -
    from that assms(6) obtain r where r: "r \<in> set (db_outbox db)" "r' = (if ef_ID r = ef_ID row then f r else r)"
      by (auto simp: set_effect_def set_update_rows)
    show ?thesis
    proof (cases "ef_ID r = ef_ID row")
      case True
      with outbox_keys_id [OF keys r(1) m] have "r' = f row" using r(2) by simp
      with assms(1,3,5) m show ?thesis by (simp add: effect_evolves_def same_effect_def outbox_valid_def)
    next
      case False
      with r assms(1) show ?thesis by (simp add: outbox_valid_def)
    qed
  qed
  with set_effect_evolves [where f = f, OF keys assms(2-4,6)] show ?thesis by (simp add: outbox_valid_def)
qed

lemma effectLeaseTTL_bounds: "0 < effectLeaseTTL store" "effectLeaseTTL store \<le> MaxEffectLeaseTTL"
  by (auto simp: effectLeaseTTL_def)

lemma claimEffect_tx_valid:
  assumes "runs (claimEffect_tx store io i owner topics turn) s x s'" "outbox_valid T (st_db s)"
    and clk: "\<And>now. clock_read io now \<Longrightarrow> T \<le> now"
    and owner: "validatePrintableASCII ''leaseOwnerId'' owner MaxWorkerIDBytes = None"
  shows "outbox_valid T (st_db s')"
  using claimEffect_tx_cases [OF assms(1)]
proof (elim disjE exE conjE)
  fix row now assume row: "outbox_at (st_db s) i = Some row" "effect_claimable row now" and now: "clock_read io now"
    and db': "st_db s' = set_effect (ef_ID row) (effect_leased owner (now + effectLeaseTTL store) now row) (st_db s)"
    and fit: "\<forall>r \<in> set (db_outbox (st_db s)). ef_ID r = ef_ID row
             \<longrightarrow> counters_fit (effect_leased owner (now + effectLeaseTTL store) now row r)"
  let ?f = "effect_leased owner (now + effectLeaseTTL store) now row"
  have m: "row \<in> set (db_outbox (st_db s))" using outbox_at_member [OF row(1)] by simp
  have fits: "counters_fit (?f row)" "counters_fit row" using fit m assms(2) by (auto simp: outbox_valid_def outbox_keys_def)
  have pos: "now > 0" using now canonicalExecutionTime_positive by (auto simp: clock_read_def)
  have "ef_CreatedAt row \<le> now" "validEffectOutboxState row"
    using assms(2) m clk [OF now] by (auto simp: outbox_valid_def)
  from leased_valid [OF this(2) row(2) this(1) pos effectLeaseTTL_bounds(1) fits(2,1) owner]
  show ?thesis
    using set_effect_valid [where f = ?f, OF assms(2) row(1) _ fits(1) _ db'] leased_evolves [OF fits(2,1) row(2)] by blast
qed (use assms(2) in simp)

lemma completeEffect_tx_valid:
  assumes "runs (completeEffect_tx store io c) s x s'" "outbox_valid T (st_db s)"
    and clk: "\<And>now. clock_read io now \<Longrightarrow> T \<le> now" and v: "CompleteEffectCommand_Validate c = None"
  shows "outbox_valid T (st_db s')"
  using completeEffect_tx_cases [OF assms(1)]
proof (elim disjE exE conjE)
  fix row now nxt assume row: "outbox_at (st_db s) (df_OutboxID (co_Fence c)) = Some row"
      "ef_Status row = EffectStatusDelivering" and now: "clock_read io now"
    and res: "resolveEffectCompletion store row (co_Report c) now = Inr nxt"
    and db': "st_db s' = set_effect (ef_ID row) (ec_columns nxt) (st_db s)"
  have m: "row \<in> set (db_outbox (st_db s))" using outbox_at_member [OF row(1)] by simp
  note e = completion_evolves [OF res row(2)]
  have fits: "counters_fit (ec_columns nxt row)"
    using assms(2) m e(2,3) by (auto simp: outbox_valid_def outbox_keys_def counters_fit_def)
  have pos: "now > 0" using now canonicalExecutionTime_positive by (auto simp: clock_read_def)
  have "ef_CreatedAt row \<le> now" "validEffectOutboxState row" "DeliveryReport_Validate (co_Report c) = None"
    using assms(2) m clk [OF now] v by (auto simp: outbox_valid_def CompleteEffectCommand_Validate_def err_simps)
  from completion_valid [OF this(2) row(2) this(1) pos this(3) res]
  show ?thesis
    using set_effect_valid [where f = "ec_columns nxt", OF assms(2) row(1) e(1) fits _ db'] by blast
qed (use assms(2) in simp)

lemma claimEffect_keeps:
  assumes "P (st_db s)" "\<And>n db. P db \<Longrightarrow> P (io_others io n db)"
    and "\<And>turn s1 x s2. P (st_db s1) \<Longrightarrow> runs (claimEffect_tx store io i owner topics turn) s1 x s2 \<Longrightarrow> P (st_db s2)"
  shows "P (st_db (snd (claimEffect store io c1 c2 i owner topics s)))"
proof -
  let ?s0 = "s\<lparr>st_db := io_others io (st_tick s) (st_db s)\<rparr>"
  obtain r s1 where look: "lookup_row io db_outbox (\<lambda>r. ef_OutboxID r = i) ?s0 = (r, s1)" by fastforce
  have p1: "P (st_db s1)" using readsD_fail [OF reads_lookup_row look] assms(1,2) by simp
  have "P (st_db (snd (writeTransaction store io c1 c2 (claimEffect_tx store io i owner topics turn) s1)))" for turn
    by (rule writeTransaction_keeps) (use p1 assms(2,3) in blast)+
  with p1 look show ?thesis
    by (auto simp: claimEffect_def tx_bind_def outside_def tx_check_def tx_return_def tx_fail_def
        split: sum.split option.split)
qed

lemma claim_loop_keeps:
  assumes "P (st_db s)"
    and "\<And>c1 c2 i s. P (st_db s) \<Longrightarrow> P (st_db (snd (claimEffect store io c1 c2 i (ce_LeaseOwnerID c) (ce_Topics c) s)))"
  shows "P (st_db (snd (claim_loop store io ctx k c ds ids s)))"
  using assms(1)
proof (induction ids arbitrary: k ds s)
  case (Cons i ids)
  have "P (st_db (snd (claimEffect store io (ctx (k + 1)) (ctx (k + 2)) i (ce_LeaseOwnerID c) (ce_Topics c) s)))"
    using assms(2) Cons.prems by blast
  then show ?case using Cons by (auto split: option.split prod.split sum.split)
qed auto

lemma ClaimEffects_keeps:
  assumes "P (st_db s)" "\<And>n db. P db \<Longrightarrow> P (io_others io n db)"
    and "\<And>i turn s1 x s2. ClaimEffectsCommand_Validate c = None \<Longrightarrow> P (st_db s1) \<Longrightarrow>
      runs (claimEffect_tx store io i (ce_LeaseOwnerID c) (ce_Topics c) turn) s1 x s2 \<Longrightarrow> P (st_db s2)"
  shows "P (st_db (snd (ClaimEffects store io ctx c s)))"
proof (cases "first_error [contextError (ctx 0), ClaimEffectsCommand_Validate c]")
  case None
  then have v: "ClaimEffectsCommand_Validate c = None" by (simp add: first_error_None_iff)
  obtain r s1 where scan: "scanClaimableEffects store io c s = (r, s1)" by fastforce
  have p1: "P (st_db s1)"
  proof -
    obtain now s0 where n: "executionNow store io s = (now, s0)" by fastforce
    have s0: "st_db s0 = st_db s" by (rule readsD_fail [OF reads_executionNow n])
    have "P (st_db (snd (outside io (query io f) s0)))" for f :: "sql_db \<Rightarrow> string list"
      using assms(1,2) s0 by (auto simp: outside_def query_def statement_def split: option.split)
    then show ?thesis using scan n s0 assms(1)
      by (auto simp: scanClaimableEffects_def tx_bind_def tx_check_def tx_return_def tx_fail_def
          split: sum.splits prod.splits if_splits) (metis snd_conv)+
  qed
  have "P (st_db (snd (claim_loop store io ctx 1 c [] ids s1)))" for ids
    by (rule claim_loop_keeps [where P = P, OF p1], rule claimEffect_keeps [where P = P]) (use assms(2,3) v in auto)
  with None scan p1 show ?thesis by (auto simp: ClaimEffects_def split: sum.split)
qed (use assms(1) in \<open>simp add: ClaimEffects_def\<close>)

lemma CompleteEffect_keeps:
  assumes "P (st_db s)" "\<And>n db. P db \<Longrightarrow> P (io_others io n db)"
    and "\<And>s1 x s2. CompleteEffectCommand_Validate c = None \<Longrightarrow> P (st_db s1) \<Longrightarrow>
      runs (completeEffect_tx store io c) s1 x s2 \<Longrightarrow> P (st_db s2)"
  shows "P (st_db (snd (CompleteEffect store io ctx c s)))"
proof (cases "first_error [contextError (ctx 0), CompleteEffectCommand_Validate c]")
  case None
  then have v: "CompleteEffectCommand_Validate c = None" by (simp add: first_error_None_iff)
  have "P (st_db (snd (writeTransaction store io (ctx 1) (ctx 2) (completeEffect_tx store io c) s)))"
    by (rule writeTransaction_keeps) (use assms v in blast)+
  with None show ?thesis
    by (auto simp: CompleteEffect_def tx_guard_def tx_catch_def tx_fail_def split: prod.split sum.split)
qed (use assms(1) in \<open>simp add: CompleteEffect_def tx_guard_def tx_fail_def\<close>)

subsection \<open>Running forward\<close>

lemma quiet_lockEffect:
  assumes "quiet_io io" "outbox_keys (st_db s)" "outbox_at (st_db s) i = Some row"
  shows "\<exists>s1. lockEffect store io i s = (Inr row, s1) \<and> st_db s1 = st_db s"
proof -
  have "filter (\<lambda>r. ef_OutboxID r = i) (db_outbox (st_db s)) = [row]"
  proof (rule filter_unique)
    show "find (\<lambda>r. ef_OutboxID r = i) (db_outbox (st_db s)) = Some row" using assms(3) by (simp add: outbox_at_def)
    show "distinct (db_outbox (st_db s))" using assms(2) by (auto simp: outbox_keys_def distinct_map)
  qed (use outbox_keys_outbox_id [OF assms(2)] outbox_at_member [OF assms(3)] in auto)
  with assms show ?thesis
    by (auto simp: lockEffect_def Let_def tx_bind_def tx_check_def quiet_simps rows_affected_def outbox_at_def)
qed

lemma quiet_updateEffectColumns:
  assumes "quiet_io io" "outbox_keys (st_db s)" "row \<in> set (db_outbox (st_db s))" "counters_fit (f row)" "f row \<noteq> row"
  shows "updateEffectColumns store io (ef_ID row) f s = (Inr (), ticked s (set_effect (ef_ID row) f (st_db s)))"
proof -
  have u: "r = row" if "r \<in> set (db_outbox (st_db s))" "ef_ID r = ef_ID row" for r
    using outbox_keys_id [OF assms(2) that(1) assms(3) that(2)] .
  have "filter (\<lambda>r. ef_ID r = ef_ID row \<and> (ss_dialect store = MySQL \<longrightarrow> f r \<noteq> r)) (db_outbox (st_db s)) = [row]"
  proof (rule filter_unique)
    show "find (\<lambda>r. ef_ID r = ef_ID row \<and> (ss_dialect store = MySQL \<longrightarrow> f r \<noteq> r)) (db_outbox (st_db s)) = Some row"
      by (rule find_unique) (use assms(3,5) u in auto)
    show "distinct (db_outbox (st_db s))" using assms(2) by (auto simp: outbox_keys_def distinct_map)
  qed (use u in auto)
  moreover have "\<not> list_ex (\<lambda>r. ef_ID r = ef_ID row \<and> \<not> counters_fit (f r)) (db_outbox (st_db s))"
    using u assms(4) by (auto simp: list_ex_iff)
  ultimately show ?thesis using assms(1)
    by (simp add: updateEffectColumns_def Let_def tx_bind_def quiet_simps rows_affected_def tx_check_def set_effect_def)
qed

text \<open>The policy of a completion, as a table.\<close>

definition delivery_verdict :: "SQLStore \<Rightarrow> sqlEffectOutboxRow \<Rightarrow> DeliveryReport \<Rightarrow> EffectStatus" where
  "delivery_verdict store row report =
     (if rp_Outcome report = DeliveryOutcomeDelivered then EffectStatusDelivered
      else if rp_Outcome report = DeliveryOutcomePermanent
           \<or> (rp_Outcome report = DeliveryOutcomeUnknown \<and> \<not> rp_IdempotentRetrySafe report)
           \<or> ef_DeliveryAttempts row \<ge> maxDeliveryAttemptsBudget store then EffectStatusDeadLetter
      else EffectStatusPending)"

lemma resolveEffectCompletion_verdict:
  assumes "DeliveryOutcome_Valid (rp_Outcome report)"
  shows "\<exists>nxt. resolveEffectCompletion store row report now = Inr nxt
    \<and> cer_Status (ec_result nxt) = delivery_verdict store row report
    \<and> ef_Status (ec_columns nxt row) = delivery_verdict store row report
    \<and> ef_LeaseOwnerID (ec_columns nxt row) = None
    \<and> (delivery_verdict store row report = EffectStatusPending \<longrightarrow>
         ef_AvailableAt (ec_columns nxt row) = now + effectRetryDelay (ef_DeliveryAttempts row) (rp_RetryAfter report))"
  using assms
  by (cases "rp_Outcome report")
    (simp_all add: resolveEffectCompletion_def delivery_verdict_def completion_defs Let_def)

lemma quiet_complete:
  assumes q: "quiet_io io" and ctx: "contextError (ctx 0) = None" "contextError (ctx 1) = None" "contextError (ctx 2) = None"
    and v: "CompleteEffectCommand_Validate c = None"
    and clk: "\<And>n. io_clock io n = Inr t" "canonicalExecutionTime t = Inr now" "ss_executionClock store"
    and keys: "outbox_keys (st_db s)" and row: "outbox_at (st_db s) (df_OutboxID (co_Fence c)) = Some row"
    and tok: "ef_DispatchFencingToken row = df_DispatchToken (co_Fence c)"
    and st: "ef_Status row = EffectStatusDelivering" "ef_LeaseOwnerID row = Some (df_LeaseOwnerID (co_Fence c))"
    and res: "resolveEffectCompletion store row (co_Report c) now = Inr nxt"
    and lease: "ef_LeaseOwnerID (ec_columns nxt row) = None"
  shows "\<exists>s'. CompleteEffect store io ctx c s = (Inr (ec_result nxt), s')
    \<and> st_db s' = set_effect (ef_ID row) (ec_columns nxt) (st_db s)
    \<and> outbox_at (st_db s') (df_OutboxID (co_Fence c)) = Some (ec_columns nxt row)"
proof -
  let ?s0 = "ticked s (st_db s)"
  from quiet_lockEffect [OF q, of ?s0 _ row store] keys row obtain s1 where
    lock: "lockEffect store io (df_OutboxID (co_Fence c)) ?s0 = (Inr row, s1)" and s1: "st_db s1 = st_db s"
    unfolding ticked_db by blast
  have m: "row \<in> set (db_outbox (st_db s))" using outbox_at_member [OF row] by simp
  note e = completion_evolves [OF res st(1)]
  have fits: "counters_fit (ec_columns nxt row)" using keys m e(2,3) by (auto simp: outbox_keys_def counters_fit_def)
  have ne: "ec_columns nxt row \<noteq> row" using st(2) lease by auto
  let ?s2 = "ticked s1 (st_db s1)"
  have up: "updateEffectColumns store io (ef_ID row) (ec_columns nxt) ?s2
      = (Inr (), ticked ?s2 (set_effect (ef_ID row) (ec_columns nxt) (st_db s)))"
    using quiet_updateEffectColumns [OF q, of ?s2 row "ec_columns nxt"] keys m fits ne s1 by simp
  have now: "executionNow store io s1 = (Inr now, ?s2)" using clk by (simp add: quiet_executionNow)
  have body: "completeEffect_tx store io c ?s0
      = (Inr (ec_result nxt), ticked ?s2 (set_effect (ef_ID row) (ec_columns nxt) (st_db s)))"
    using lock tok st res up now
    by (simp add: completeEffect_tx_def tx_bind_def tx_check_def EffectStatus_Terminal_def quiet_simps)
  have "outbox_at (set_effect (ef_ID row) (ec_columns nxt) (st_db s)) (df_OutboxID (co_Fence c)) = Some (ec_columns nxt row)"
    using set_effect_evolves [where f = "ec_columns nxt", OF keys row e(1) fits refl] by blast
  with body show ?thesis using q ctx v
    by (simp add: CompleteEffect_def tx_guard_def tx_catch_def quiet_writeTransaction)
qed

subsection \<open>Retry delays\<close>

lemma retry_doubling_closed:
  assumes "1 \<le> delay" "delay \<le> MaxEffectRetryBackoff"
  shows "min MaxEffectRetryBackoff (retry_doubling index attempts delay)
    = min MaxEffectRetryBackoff (delay * 2 ^ nat (attempts - index)) \<and> delay \<le> retry_doubling index attempts delay"
  using assms
proof (induction index attempts delay rule: retry_doubling.induct)
  case (1 index attempts delay)
  show ?case
  proof (cases "index < attempts \<and> delay < MaxEffectRetryBackoff")
    case False
    moreover have "min MaxEffectRetryBackoff (delay * 2 ^ n) = MaxEffectRetryBackoff" if "delay = MaxEffectRetryBackoff" for n :: nat
      using that mult_left_mono [of 1 "2 ^ n" delay] 1(2) by (simp add: min_def)
    ultimately show ?thesis using 1(2,3) by (subst (1 2) retry_doubling.simps) auto
  next
    case True
    have p: "(2::int) ^ nat (attempts - index) = 2 * 2 ^ nat (attempts - (index + 1))"
      using True by (simp flip: power_Suc add: Suc_nat_eq_nat_zadd1)
    show ?thesis
    proof (cases "delay * 2 \<le> MaxEffectRetryBackoff")
      case le: True
      from 1(1) [OF True] 1(2) le True p show ?thesis
        by (subst (1 2) retry_doubling.simps) (auto simp: mult.assoc)
    next
      case False
      have r: "retry_doubling (index + 1) attempts (delay * 2) = delay * 2"
        using False by (subst retry_doubling.simps) simp
      have le2: "delay * 2 \<le> delay * 2 ^ nat (attempts - index)"
        using mult_left_mono [of 1 "2 ^ nat (attempts - (index + 1))" "delay * 2"] 1(2) unfolding p by simp
      have "MaxEffectRetryBackoff \<le> delay * 2 ^ nat (attempts - index)" using le2 False by linarith
      moreover have "retry_doubling index attempts delay = delay * 2"
        using True r by (subst retry_doubling.simps) simp
      ultimately show ?thesis using False 1(2) by (simp add: min_absorb1)
    qed
  qed
qed

lemma effectRetryDelay_closed:
  "effectRetryDelay attempts hint =
     min MaxEffectRetryBackoff (max (DefaultEffectRetryBackoff * 2 ^ nat (attempts - 1)) hint)"
proof -
  let ?d = "retry_doubling 1 attempts DefaultEffectRetryBackoff"
  have d: "min MaxEffectRetryBackoff ?d = min MaxEffectRetryBackoff (DefaultEffectRetryBackoff * 2 ^ nat (attempts - 1))"
    using retry_doubling_closed [of DefaultEffectRetryBackoff 1 attempts]
    by (simp add: DefaultEffectRetryBackoff_def MaxEffectRetryBackoff_def Second_def Minute_def)
  have "effectRetryDelay attempts hint = min MaxEffectRetryBackoff (max (min MaxEffectRetryBackoff ?d) hint)"
    by (simp add: effectRetryDelay_def Let_def min_def max_def)
  then show ?thesis unfolding d by (simp add: min_def max_def)
qed

subsection \<open>A sample outbox\<close>

definition sample_effect_row :: sqlEffectOutboxRow where
  "sample_effect_row = \<lparr>ef_ID = 7, ef_OutboxID = ''e-1'', ef_TurnID = ''turn-1'', ef_AttemptID = ''att-1'',
     ef_TurnFencingToken = 1, ef_OperationID = ''op-1'', ef_Ordinal = 0, ef_Topic = ''mail'', ef_DedupeKey = ''key-1'',
     ef_PayloadJSON = ''{}'', ef_Status = EffectStatusPending, ef_AvailableAt = sample_time,
     ef_DeliveryAttempts = 0, ef_DispatchFencingToken = 0, ef_LeaseOwnerID = None, ef_LeaseExpiresAt = None,
     ef_LastErrorCode = None, ef_DeliveredAt = None, ef_DeadLetteredAt = None,
     ef_CreatedAt = sample_time, ef_UpdatedAt = sample_time\<rparr>"

definition sample_outbox :: sql_state where
  "sample_outbox = \<lparr>st_db = empty_db\<lparr>db_turns := [sample_turn_row], db_outbox := [sample_effect_row]\<rparr>, st_tick = 0\<rparr>"

definition sample_claim :: "string \<Rightarrow> time \<Rightarrow> sql_state \<Rightarrow> EffectDelivery option result \<times> sql_state" where
  "sample_claim owner t s = claimEffect_tx sample_sql (sample_io t) ''e-1'' owner [] ''turn-1'' s"

definition sample_delivery :: "string \<Rightarrow> time \<Rightarrow> int \<Rightarrow> EffectDelivery" where
  "sample_delivery owner t n = effect_delivery owner (t + 30 * Second)
     (sample_effect_row\<lparr>ef_DeliveryAttempts := n - 1, ef_DispatchFencingToken := n - 1\<rparr>)"

definition sample_leased :: sql_state where
  "sample_leased = snd (sample_claim ''w-1'' sample_time sample_outbox)"

definition sample_released :: sql_state where
  "sample_released = snd (sample_claim ''w-2'' (sample_time + 31 * Second) sample_leased)"

definition sample_delivered :: sql_state where
  "sample_delivered = snd (CompleteEffect sample_sql (sample_io (sample_time + Second)) live_ctx
     \<lparr>co_Fence = dl_Fence (sample_delivery ''w-1'' sample_time 1),
      co_Report = \<lparr>rp_Outcome = DeliveryOutcomeDelivered, rp_ErrorCode = [], rp_RetryAfter = 0, rp_IdempotentRetrySafe = False\<rparr>\<rparr>
     sample_leased)"

lemma sample_keys: "outbox_keys (st_db sample_outbox)"
  by code_simp

lemma sample_claim_first:
  "runs (claimEffect_tx sample_sql (sample_io sample_time) ''e-1'' ''w-1'' [] ''turn-1'') sample_outbox
     (Some (sample_delivery ''w-1'' sample_time 1)) sample_leased"
proof -
  have "fst (sample_claim ''w-1'' sample_time sample_outbox) = Inr (Some (sample_delivery ''w-1'' sample_time 1))"
    by code_simp
  then show ?thesis unfolding runs_def sample_leased_def sample_claim_def by (simp add: prod_eq_iff)
qed

lemma sample_claim_second:
  "runs (claimEffect_tx sample_sql (sample_io (sample_time + 31 * Second)) ''e-1'' ''w-2'' [] ''turn-1'') sample_leased
     (Some (sample_delivery ''w-2'' (sample_time + 31 * Second) 2)) sample_released"
proof -
  have "fst (sample_claim ''w-2'' (sample_time + 31 * Second) sample_leased)
      = Inr (Some (sample_delivery ''w-2'' (sample_time + 31 * Second) 2))"
    by code_simp
  then show ?thesis unfolding runs_def sample_released_def sample_claim_def by (simp add: prod_eq_iff)
qed

subsection \<open>Properties\<close>

text \<open>
  C16. History of an effect. Whatever transactions of claiming, completing and review holding
  commit, in whatever order and by whatever dispatchers, an effect stays in the outbox with the
  same topic, payload and provider key; its dispatch token never decreases; once delivered,
  dead-lettered or held for review it never changes again; and a lease stands under one token
  only, so a row that is delivering under the same token is the same row.
\<close>

theorem effect_history:
  assumes "(outbox_step store)\<^sup>*\<^sup>* db db'" "outbox_keys db" "outbox_at db i = Some r"
  shows "\<exists>r'. outbox_at db' i = Some r' \<and> ef_Topic r' = ef_Topic r \<and> ef_PayloadJSON r' = ef_PayloadJSON r
    \<and> ef_DedupeKey r' = ef_DedupeKey r \<and> ef_DispatchFencingToken r \<le> ef_DispatchFencingToken r'
    \<and> (ef_Status r \<in> {EffectStatusDelivered, EffectStatusDeadLetter, EffectStatusReviewHold} \<longrightarrow> r' = r)
    \<and> (ef_Status r' = EffectStatusDelivering \<and> ef_DispatchFencingToken r' = ef_DispatchFencingToken r \<longrightarrow> r' = r)"
proof -
  from outbox_steps_evolve [OF assms(1,2)] assms(3) obtain r' where
    "outbox_at db' i = Some r'" "effect_evolves r r'" by blast
  then show ?thesis by (auto simp: effect_evolves_def same_effect_def EffectStatus_Terminal_def)
qed

theorem effect_history_witness:
  "\<exists>r'. outbox_at (st_db sample_leased) ''e-1'' = Some r' \<and> ef_DedupeKey r' = ''key-1'' \<and> ef_DispatchFencingToken r' \<ge> 0"
proof -
  have steps: "(outbox_step sample_sql)\<^sup>*\<^sup>* (st_db sample_outbox) (st_db sample_leased)"
    by (rule r_into_rtranclp) (rule outbox_step.claim [OF sample_claim_first])
  have at: "outbox_at (st_db sample_outbox) ''e-1'' = Some sample_effect_row" by code_simp
  from effect_history [OF steps sample_keys at] show ?thesis by (auto simp: sample_effect_row_def)
qed

text \<open>
  C17. Exclusive delivery. When an effect is claimed a second time, the second lease carries a
  larger token with the same provider key and payload, and from then on, whatever else commits,
  a completion under the first lease never succeeds.
\<close>

theorem late_dispatcher_fenced:
  assumes "outbox_keys (st_db s0)"
    and "runs (claimEffect_tx store io1 i owner1 topics1 turn1) s0 (Some d1) s1"
    and "(outbox_step store)\<^sup>*\<^sup>* (st_db s1) (st_db s2)"
    and "runs (claimEffect_tx store io2 i owner2 topics2 turn2) s2 (Some d2) s3"
    and "(outbox_step store)\<^sup>*\<^sup>* (st_db s3) (st_db s4)"
    and "(outbox_step store)\<^sup>*\<^sup>* (st_db s4) (io_others io (st_tick s4) (st_db s4))"
    and "co_Fence c = dl_Fence d1"
  shows "df_DispatchToken (dl_Fence d1) < df_DispatchToken (dl_Fence d2) \<and> dl_DedupeKey d2 = dl_DedupeKey d1
    \<and> dl_Payload d2 = dl_Payload d1 \<and> \<not> runs (CompleteEffect store io ctx c) s4 r s5"
proof -
  have k1: "outbox_keys (st_db s1)"
    using outbox_step_evolves [OF outbox_step.claim [OF assms(2)] assms(1)] by simp
  have k2: "outbox_keys (st_db s2)" using outbox_steps_evolve [OF assms(3) k1] by simp
  have k3: "outbox_keys (st_db s3)"
    using outbox_step_evolves [OF outbox_step.claim [OF assms(4)] k2] by simp
  from claimed_row [OF assms(2,1)] obtain a a' where a: "outbox_at (st_db s1) i = Some a'" "same_effect a' a"
      "df_DispatchToken (dl_Fence d1) = ef_DispatchFencingToken a'" "df_OutboxID (dl_Fence d1) = i"
      "dl_DedupeKey d1 = ef_DedupeKey a" "dl_Payload d1 = ef_PayloadJSON a" by auto
  from claimed_row [OF assms(4) k2] obtain b b' where b: "outbox_at (st_db s2) i = Some b" "outbox_at (st_db s3) i = Some b'"
      "same_effect b' b" "df_DispatchToken (dl_Fence d2) = ef_DispatchFencingToken b + 1"
      "ef_DispatchFencingToken b' = ef_DispatchFencingToken b + 1"
      "dl_DedupeKey d2 = ef_DedupeKey b" "dl_Payload d2 = ef_PayloadJSON b" by auto
  from outbox_steps_evolve [OF assms(3) k1] a(1) b(1) have ab: "effect_evolves a' b"
    by (metis option.inject)
  have "(outbox_step store)\<^sup>*\<^sup>* (st_db s3) (io_others io (st_tick s4) (st_db s4))" using assms(5,6) by simp
  from outbox_steps_evolve [OF this k3] b(2) obtain e where
    e: "outbox_at (io_others io (st_tick s4) (st_db s4)) i = Some e" "effect_evolves b' e" by blast
  have lt: "df_DispatchToken (dl_Fence d1) < ef_DispatchFencingToken e"
    using effect_evolves_token [OF e(2)] effect_evolves_token [OF ab] b(5) a(3) by linarith
  have "\<not> runs (CompleteEffect store io ctx c) s4 r s5"
  proof
    assume "runs (CompleteEffect store io ctx c) s4 r s5"
    from runs_CompleteEffect [OF this] have
      "runs (writeTransaction store io (ctx 1) (ctx 2) (completeEffect_tx store io c)) s4 r s5" ..
    from runs_writeTransaction [OF this] obtain t1 t2 where
      "st_db t1 = io_others io (st_tick s4) (st_db s4)" "runs (completeEffect_tx store io c) t1 r t2" by blast
    with stale_fence_fails [of t1 c e] e(1) lt a(4) assms(7) show False by simp
  qed
  moreover have "same_effect b a'" "ef_DispatchFencingToken a' \<le> ef_DispatchFencingToken b"
    using effect_evolves_same [OF ab] effect_evolves_token [OF ab] .
  ultimately show ?thesis using a(2,3,5,6) b(4,6,7) unfolding same_effect_def by simp
qed

theorem late_dispatcher_fenced_witness:
  "\<forall>r s5. \<not> runs (CompleteEffect sample_sql (sample_io sample_time) live_ctx
       \<lparr>co_Fence = dl_Fence (sample_delivery ''w-1'' sample_time 1),
        co_Report = \<lparr>rp_Outcome = DeliveryOutcomeDelivered, rp_ErrorCode = [], rp_RetryAfter = 0, rp_IdempotentRetrySafe = False\<rparr>\<rparr>)
     sample_released r s5"
proof -
  have others: "(outbox_step sample_sql)\<^sup>*\<^sup>* (st_db sample_released)
      (io_others (sample_io sample_time) (st_tick sample_released) (st_db sample_released))"
    by (simp add: sample_io_def)
  from late_dispatcher_fenced [OF sample_keys sample_claim_first rtranclp.rtrancl_refl sample_claim_second
      rtranclp.rtrancl_refl others] show ?thesis by simp
qed

text \<open>
  C18. Completion. In an undisturbed environment a completion under the current lease always
  succeeds, releases the lease and moves the effect to the state the policy names: delivered if
  the provider accepted it; a dead letter if no retry can help, if the outcome is unknown and no
  idempotent retry was declared, or if the attempts are used up; otherwise pending again, not
  before the retry delay has passed. The provider key and the payload are kept.
\<close>

theorem complete_decides:
  assumes "quiet_io io" "contextError (ctx 0) = None" "contextError (ctx 1) = None" "contextError (ctx 2) = None"
    and "CompleteEffectCommand_Validate c = None"
    and "\<And>n. io_clock io n = Inr t" "canonicalExecutionTime t = Inr now" "ss_executionClock store"
    and "outbox_keys (st_db s)" "outbox_at (st_db s) (df_OutboxID (co_Fence c)) = Some row"
    and "ef_DispatchFencingToken row = df_DispatchToken (co_Fence c)"
    and "ef_Status row = EffectStatusDelivering" "ef_LeaseOwnerID row = Some (df_LeaseOwnerID (co_Fence c))"
  shows "\<exists>r s' row'. CompleteEffect store io ctx c s = (Inr r, s')
    \<and> outbox_at (st_db s') (df_OutboxID (co_Fence c)) = Some row'
    \<and> cer_Status r = delivery_verdict store row (co_Report c) \<and> ef_Status row' = cer_Status r
    \<and> ef_LeaseOwnerID row' = None \<and> ef_DedupeKey row' = ef_DedupeKey row \<and> ef_PayloadJSON row' = ef_PayloadJSON row
    \<and> (ef_Status row' = EffectStatusPending \<longrightarrow>
         ef_AvailableAt row' = now + effectRetryDelay (ef_DeliveryAttempts row) (rp_RetryAfter (co_Report c)))"
proof -
  have "DeliveryOutcome_Valid (rp_Outcome (co_Report c))"
    using assms(5) by (simp add: CompleteEffectCommand_Validate_def DeliveryReport_Validate_def err_simps)
  from resolveEffectCompletion_verdict [OF this] obtain nxt where
    res: "resolveEffectCompletion store row (co_Report c) now = Inr nxt" and
    n: "cer_Status (ec_result nxt) = delivery_verdict store row (co_Report c)"
      "ef_Status (ec_columns nxt row) = delivery_verdict store row (co_Report c)"
      "ef_LeaseOwnerID (ec_columns nxt row) = None"
      "delivery_verdict store row (co_Report c) = EffectStatusPending \<longrightarrow>
         ef_AvailableAt (ec_columns nxt row) = now + effectRetryDelay (ef_DeliveryAttempts row) (rp_RetryAfter (co_Report c))"
    by blast
  from quiet_complete [OF assms res n(3)] obtain s' where
    "CompleteEffect store io ctx c s = (Inr (ec_result nxt), s')"
    "outbox_at (st_db s') (df_OutboxID (co_Fence c)) = Some (ec_columns nxt row)" by blast
  moreover have "same_effect (ec_columns nxt row) row"
    using completion_evolves(1) [OF res assms(12)] by (simp add: effect_evolves_def)
  ultimately show ?thesis using n by (auto simp: same_effect_def)
qed

theorem complete_decides_witness:
  "\<exists>r s'. CompleteEffect sample_sql (sample_io (sample_time + Second)) live_ctx
       \<lparr>co_Fence = dl_Fence (sample_delivery ''w-1'' sample_time 1),
        co_Report = \<lparr>rp_Outcome = DeliveryOutcomeUnknown, rp_ErrorCode = ''timeout'', rp_RetryAfter = 0, rp_IdempotentRetrySafe = False\<rparr>\<rparr>
     sample_leased = (Inr r, s') \<and> cer_Status r = EffectStatusDeadLetter"
proof -
  let ?c = "\<lparr>co_Fence = dl_Fence (sample_delivery ''w-1'' sample_time 1),
    co_Report = \<lparr>rp_Outcome = DeliveryOutcomeUnknown, rp_ErrorCode = ''timeout'', rp_RetryAfter = 0, rp_IdempotentRetrySafe = False\<rparr>\<rparr>"
  let ?row = "effect_leased ''w-1'' (sample_time + 30 * Second) sample_time sample_effect_row sample_effect_row"
  have keys: "outbox_keys (st_db sample_leased)" by code_simp
  have v: "CompleteEffectCommand_Validate ?c = None" by code_simp
  have at: "outbox_at (st_db sample_leased) (df_OutboxID (co_Fence ?c)) = Some ?row" by code_simp
  have tok: "ef_DispatchFencingToken ?row = df_DispatchToken (co_Fence ?c)" by code_simp
  have st: "ef_Status ?row = EffectStatusDelivering" "ef_LeaseOwnerID ?row = Some (df_LeaseOwnerID (co_Fence ?c))"
    by code_simp+
  have now: "canonicalExecutionTime (sample_time + Second) = Inr (sample_time + Second)" by code_simp
  have clk: "\<And>n. io_clock (sample_io (sample_time + Second)) n = Inr (sample_time + Second)" "ss_executionClock sample_sql"
    by (simp_all add: sample_io_def sample_sql_def)
  have verdict: "delivery_verdict sample_sql ?row (co_Report ?c) = EffectStatusDeadLetter" by code_simp
  from complete_decides [where ctx = live_ctx, OF sample_quiet(1) live_ctx_None live_ctx_None live_ctx_None v clk(1) now clk(2)
      keys at tok st, unfolded verdict]
  show ?thesis by blast
qed

text \<open>
  Repeated completion. When a completion ended in a delivered or dead-lettered effect, then
  at any later time the same command, repeated in an undisturbed environment because its first
  answer was lost, succeeds as a replay with the same final status and changes nothing.
\<close>

theorem completion_repeats:
  assumes "outbox_keys (io_others io0 (st_tick s0) (st_db s0))"
    and "runs (CompleteEffect store io0 ctx0 c) s0 r s1" "EffectStatus_Terminal (cer_Status r)"
    and "(outbox_step store)\<^sup>*\<^sup>* (st_db s1) (st_db s)"
    and "quiet_io io" "contextError (ctx 0) = None" "contextError (ctx 1) = None" "contextError (ctx 2) = None"
  shows "\<exists>r' s'. CompleteEffect store io ctx c s = (Inr r', s') \<and> st_db s' = st_db s
    \<and> cer_Status r' = cer_Status r \<and> cer_Replay r'"
proof -
  let ?i = "df_OutboxID (co_Fence c)"
  from runs_CompleteEffect [OF assms(2)] have v: "CompleteEffectCommand_Validate c = None"
    and "runs (writeTransaction store io0 (ctx0 1) (ctx0 2) (completeEffect_tx store io0 c)) s0 r s1" by auto
  from runs_writeTransaction [OF this(2)] obtain t1 t2 where t: "st_db t1 = io_others io0 (st_tick s0) (st_db s0)"
    and body: "runs (completeEffect_tx store io0 c) t1 r t2" and db: "st_db s1 = st_db t2" by blast
  have k1: "outbox_keys (st_db t2)"
    using outbox_step_evolves [OF outbox_step.complete [OF body]] assms(1) t by simp
  obtain row where row: "outbox_at (st_db t2) ?i = Some row" "ef_DispatchFencingToken row = df_DispatchToken (co_Fence c)"
      "ef_Status row = cer_Status r"
    by (rule completed_row [OF body _ assms(3)]) (use assms(1) t in simp)
  note later = outbox_steps_evolve [OF assms(4), unfolded db, OF k1]
  then have k: "outbox_keys (st_db s)" by blast
  from later row(1) obtain row' where "outbox_at (st_db s) ?i = Some row'" "effect_evolves row row'" by blast
  with row(3) assms(3) have at: "outbox_at (st_db s) ?i = Some row" using effect_evolves_final by metis
  from quiet_lockEffect [OF assms(5), of "ticked s (st_db s)" ?i row store] k at obtain s2 where
    "lockEffect store io ?i (ticked s (st_db s)) = (Inr row, s2)" "st_db s2 = st_db s" unfolding ticked_db by blast
  then show ?thesis using assms(3,5-8) v row(2,3)
    by (auto simp: CompleteEffect_def tx_guard_def tx_catch_def quiet_writeTransaction completeEffect_tx_def tx_bind_def
        tx_check_def quiet_simps EffectStatus_Terminal_def effectResultFromRow_def)
qed

theorem completion_repeats_witness:
  "\<exists>r' s'. CompleteEffect sample_sql (sample_io (sample_time + Second)) live_ctx
       \<lparr>co_Fence = dl_Fence (sample_delivery ''w-1'' sample_time 1),
        co_Report = \<lparr>rp_Outcome = DeliveryOutcomeDelivered, rp_ErrorCode = [], rp_RetryAfter = 0, rp_IdempotentRetrySafe = False\<rparr>\<rparr>
     sample_delivered = (Inr r', s') \<and> st_db s' = st_db sample_delivered \<and> cer_Replay r'"
proof -
  let ?c = "\<lparr>co_Fence = dl_Fence (sample_delivery ''w-1'' sample_time 1),
    co_Report = \<lparr>rp_Outcome = DeliveryOutcomeDelivered, rp_ErrorCode = [], rp_RetryAfter = 0, rp_IdempotentRetrySafe = False\<rparr>\<rparr>"
  have keys: "outbox_keys (io_others (sample_io (sample_time + Second)) (st_tick sample_leased) (st_db sample_leased))"
    by code_simp
  have "fst (CompleteEffect sample_sql (sample_io (sample_time + Second)) live_ctx ?c sample_leased)
      = Inr \<lparr>cer_OutboxID = ''e-1'', cer_Status = EffectStatusDelivered, cer_DeliveryAttempts = 1, cer_AvailableAt = 0,
             cer_LastErrorCode = [], cer_Replay = False\<rparr>"
    by code_simp
  then have run: "runs (CompleteEffect sample_sql (sample_io (sample_time + Second)) live_ctx ?c) sample_leased
      \<lparr>cer_OutboxID = ''e-1'', cer_Status = EffectStatusDelivered, cer_DeliveryAttempts = 1, cer_AvailableAt = 0,
       cer_LastErrorCode = [], cer_Replay = False\<rparr> sample_delivered"
    unfolding runs_def sample_delivered_def by (simp add: prod_eq_iff)
  have fin: "EffectStatus_Terminal (cer_Status \<lparr>cer_OutboxID = ''e-1'', cer_Status = EffectStatusDelivered,
      cer_DeliveryAttempts = 1, cer_AvailableAt = 0, cer_LastErrorCode = [], cer_Replay = False\<rparr>)"
    by (simp add: EffectStatus_Terminal_def)
  from completion_repeats [where ctx = live_ctx, OF keys run fin rtranclp.rtrancl_refl sample_quiet(1) [of "sample_time + Second"]
      live_ctx_None live_ctx_None live_ctx_None]
  show ?thesis by blast
qed

text \<open>
  Well-formed rows. If the clock is not behind the creation of the effects and other sessions
  keep the rows well formed, then a call of \<^verbatim>\<open>ClaimEffects\<close> and a call of \<^verbatim>\<open>CompleteEffect\<close>,
  whatever fails in them, leave every row of the outbox in a state that \<^verbatim>\<open>validEffectOutboxState\<close>
  accepts, with unique keys.
\<close>

theorem outbox_states_kept:
  assumes "outbox_valid T (st_db s)" "\<And>now. clock_read io now \<Longrightarrow> T \<le> now"
    and "\<And>n db. outbox_valid T db \<Longrightarrow> outbox_valid T (io_others io n db)"
  shows "outbox_valid T (st_db (snd (ClaimEffects store io ctx c s)))
    \<and> outbox_valid T (st_db (snd (CompleteEffect store io ctx d s)))"
proof
  show "outbox_valid T (st_db (snd (ClaimEffects store io ctx c s)))"
  proof (rule ClaimEffects_keeps [where P = "outbox_valid T"])
    fix i turn s1 x s2 assume v: "ClaimEffectsCommand_Validate c = None" and "outbox_valid T (st_db s1)"
      and "runs (claimEffect_tx store io i (ce_LeaseOwnerID c) (ce_Topics c) turn) s1 x s2"
    moreover from v have "validatePrintableASCII ''leaseOwnerId'' (ce_LeaseOwnerID c) MaxWorkerIDBytes = None"
      by (simp add: ClaimEffectsCommand_Validate_def err_simps)
    ultimately show "outbox_valid T (st_db s2)" using claimEffect_tx_valid assms(2) by blast
  qed (use assms(1,3) in auto)
  show "outbox_valid T (st_db (snd (CompleteEffect store io ctx d s)))"
  proof (rule CompleteEffect_keeps [where P = "outbox_valid T"])
    fix s1 x s2 assume "CompleteEffectCommand_Validate d = None" "outbox_valid T (st_db s1)"
      "runs (completeEffect_tx store io d) s1 x s2"
    then show "outbox_valid T (st_db s2)" using completeEffect_tx_valid assms(2) by blast
  qed (use assms(1,3) in auto)
qed

theorem outbox_states_kept_witness:
  "outbox_valid sample_time (st_db (snd (ClaimEffects sample_sql (sample_io sample_time) live_ctx
       \<lparr>ce_LeaseOwnerID = ''w-1'', ce_Limit = 0, ce_Topics = []\<rparr> sample_outbox)))"
proof -
  have v: "outbox_valid sample_time (st_db sample_outbox)" by code_simp
  have now: "canonicalExecutionTime sample_time = Inr sample_time" by code_simp
  have clk: "clock_read (sample_io sample_time) n \<Longrightarrow> sample_time \<le> n" for n
    using now by (auto simp: clock_read_def sample_io_def)
  have others: "outbox_valid sample_time db \<Longrightarrow> outbox_valid sample_time (io_others (sample_io sample_time) n db)" for n db
    by (simp add: sample_io_def)
  from outbox_states_kept [OF v clk others] show ?thesis by blast
qed

text \<open>
  Commercial hold. A Turn with a Settlement Review in the ledger gives no lease: whatever
  state a row of the outbox was left in, a claim of one of its effects changes nothing and hands
  out no delivery.
\<close>

theorem reviewed_effects_not_leased:
  assumes "honest_io io" "review \<in> set (db_reviews (st_db s))" "sv_TurnID review = turn"
    and "claimEffect_tx store io i owner topics turn s = (r, s')"
  shows "st_db s' = st_db s \<and> (\<forall>d. r \<noteq> Inr (Some d))"
proof (cases r)
  case (Inr x)
  with assms(4) have "runs (claimEffect_tx store io i owner topics turn) s x s'" by (simp add: runs_def)
  from claimEffect_tx_cases [OF this] assms(1-3) Inr show ?thesis by auto
next
  case (Inl e)
  have w: "reads (claim_locked store io owner topics turn True locked)" for locked
    by (auto simp: claim_locked_def lease_effect_def intro!: tx_reads split: sum.split)
  have "st_db s' = st_db s"
  proof -
    obtain t s1 where l: "lockTurn store io (\<lambda>r. tr_TurnID r = turn) s = (t, s1)" by fastforce
    have s1: "st_db s1 = st_db s" by (rule readsD_fail [OF reads_lockTurn l])
    obtain v s2 where k: "lookupSettlementReviewTx io turn s1 = (v, s2)" by fastforce
    have s2: "st_db s2 = st_db s1" by (rule readsD_fail [OF reads_lookupSettlementReviewTx k])
    have found: "v \<noteq> Inr None"
      using runs_lookupSettlementReviewTx_None [of io turn s1 s2] k assms(1-3) s1 by (auto simp: runs_def)
    have "reads (tx_try (lockEffect store io i) (claim_locked store io owner topics turn True))"
      by (intro tx_reads w)
    then have "st_db (snd (tx_try (lockEffect store io i) (claim_locked store io owner topics turn True) s2)) = st_db s2"
      by (simp add: reads_def)
    with l k found s1 s2 assms(4) show ?thesis
      by (cases t; cases v) (auto simp: claimEffect_tx_def tx_bind_def)
  qed
  with Inl show ?thesis by simp
qed

theorem reviewed_effects_not_leased_witness:
  "let s = sample_outbox\<lparr>st_db := (st_db sample_outbox)\<lparr>db_reviews := [(review_row sample_review)\<lparr>sv_TurnID := ''turn-1''\<rparr>]\<rparr>\<rparr> in
   st_db (snd (claimEffect_tx sample_sql (sample_io sample_time) ''e-1'' ''w-1'' [] ''turn-1'' s)) = st_db s"
proof -
  let ?s = "sample_outbox\<lparr>st_db := (st_db sample_outbox)\<lparr>db_reviews := [(review_row sample_review)\<lparr>sv_TurnID := ''turn-1''\<rparr>]\<rparr>\<rparr>"
  have mem: "(review_row sample_review)\<lparr>sv_TurnID := ''turn-1''\<rparr> \<in> set (db_reviews (st_db ?s))" by simp
  have id: "sv_TurnID ((review_row sample_review)\<lparr>sv_TurnID := ''turn-1''\<rparr>) = ''turn-1''" by simp
  from reviewed_effects_not_leased [OF sample_quiet(2) mem id surjective_pairing] show ?thesis by (simp add: Let_def)
qed

text \<open>
  Retry delay. The delay is one second doubled for each further attempt, or the provider's
  hint if that is longer, capped at five minutes. So it is never below a second nor above the cap,
  never shorter than a valid hint, and never shrinks as attempts accumulate.
\<close>

theorem retry_delay_bounds:
  assumes "0 \<le> hint" "hint \<le> MaxEffectRetryBackoff" "attempts \<le> attempts'"
  shows "effectRetryDelay attempts hint = min MaxEffectRetryBackoff (max (Second * 2 ^ nat (attempts - 1)) hint)
    \<and> Second \<le> effectRetryDelay attempts hint \<and> effectRetryDelay attempts hint \<le> 5 * Minute
    \<and> hint \<le> effectRetryDelay attempts hint \<and> effectRetryDelay attempts hint \<le> effectRetryDelay attempts' hint"
proof -
  have one: "Second \<le> Second * 2 ^ n" for n :: nat
    using mult_left_mono [of 1 "2 ^ n" Second] by (simp add: Second_def)
  have "(2::int) ^ nat (attempts - 1) \<le> 2 ^ nat (attempts' - 1)"
    using assms(3) by (intro power_increasing) auto
  then have "Second * 2 ^ nat (attempts - 1) \<le> Second * 2 ^ nat (attempts' - 1)"
    by (intro mult_left_mono) (simp_all add: Second_def)
  moreover have "Second \<le> MaxEffectRetryBackoff" "MaxEffectRetryBackoff = 5 * Minute"
    by (simp_all add: MaxEffectRetryBackoff_def Second_def Minute_def)
  ultimately show ?thesis using assms(2) one [of "nat (attempts - 1)"]
    unfolding effectRetryDelay_closed DefaultEffectRetryBackoff_def by (auto simp: min_def max_def)
qed

theorem retry_delay_bounds_witness:
  "effectRetryDelay 3 0 = 4 * Second \<and> effectRetryDelay 3 0 \<le> effectRetryDelay 9 0"
proof -
  have h: "0 \<le> (0::int)" "0 \<le> MaxEffectRetryBackoff" "(3::int) \<le> 9"
    by (simp_all add: MaxEffectRetryBackoff_def Minute_def)
  have "min MaxEffectRetryBackoff (max (Second * 2 ^ nat (3 - 1)) 0) = 4 * Second" by code_simp
  with retry_delay_bounds [OF h] show ?thesis by simp
qed

text \<open>
  Progress. In an undisturbed environment a claim of an effect that is due, of a Turn that
  exists and has no Review, in the dispatcher's topics, hands out a delivery with the row's content
  under the next token, and the row is leased to the caller until the lease runs out.
\<close>

theorem due_effect_is_leased:
  assumes q: "quiet_io io" and clk: "\<And>n. io_clock io n = Inr t" "canonicalExecutionTime t = Inr now" "ss_executionClock store"
    and keys: "outbox_keys (st_db s)" and row: "outbox_at (st_db s) i = Some row" "effect_claimable row now"
    and turn: "find (\<lambda>r. tr_TurnID r = ef_TurnID row) (db_turns (st_db s)) = Some turn" "distinct (map tr_TurnID (db_turns (st_db s)))"
    and free: "find (\<lambda>r. sv_TurnID r = ef_TurnID row) (db_reviews (st_db s)) = None"
    and scope: "effectTopicScopeAllows topics (ef_Topic row)"
    and room: "ef_DispatchFencingToken row < MaxInt64" "ef_DeliveryAttempts row < MaxInt64"
  shows "\<exists>d s' row'. claimEffect_tx store io i owner topics (ef_TurnID row) s = (Inr (Some d), s')
    \<and> outbox_at (st_db s') i = Some row' \<and> ef_Status row' = EffectStatusDelivering
    \<and> ef_LeaseOwnerID row' = Some owner \<and> ef_LeaseExpiresAt row' = Some (dl_LeaseExpiresAt d)
    \<and> now < dl_LeaseExpiresAt d \<and> ef_DispatchFencingToken row' = ef_DispatchFencingToken row + 1
    \<and> df_DispatchToken (dl_Fence d) = ef_DispatchFencingToken row + 1
    \<and> dl_DedupeKey d = ef_DedupeKey row \<and> dl_Payload d = ef_PayloadJSON row \<and> dl_Topic d = ef_Topic row"
proof -
  let ?exp = "now + effectLeaseTTL store" and ?f = "effect_leased owner (now + effectLeaseTTL store) now row"
  have m: "row \<in> set (db_outbox (st_db s))" using outbox_at_member [OF row(1)] by simp
  have c: "counters_fit row" using keys m by (simp add: outbox_keys_def)
  have w: "wrap64 (ef_DispatchFencingToken row + 1) = ef_DispatchFencingToken row + 1"
      "wrap64 (ef_DeliveryAttempts row + 1) = ef_DeliveryAttempts row + 1"
    using c room by (auto simp: wrap64_def counters_fit_def)
  have fits: "counters_fit (?f row)" using c room w by (simp add: counters_fit_def effect_leased_def)
  have ne: "?f row \<noteq> row"
    using w(1) by (metis effect_leased_def sqlEffectOutboxRow.ext_inject sqlEffectOutboxRow.surjective
        sqlEffectOutboxRow.update_convs(14) add_cancel_right_right zero_neq_one leased_evolves [OF c fits row(2)])
  let ?s1 = "s\<lparr>st_tick := st_tick s + (if ss_dialect store = SQLite then 2 else 1)\<rparr>"
  have lock: "lockTurn store io (\<lambda>r. tr_TurnID r = ef_TurnID row) s = (Inr turn, ?s1)"
    by (rule quiet_lockTurn_id [OF q turn])
  have look: "lookupSettlementReviewTx io (ef_TurnID row) ?s1 = (Inr None, ticked ?s1 (st_db s))"
    using q free by (simp add: lookupSettlementReviewTx_def tx_bind_def quiet_simps)
  from quiet_lockEffect [OF q, of "ticked ?s1 (st_db s)" i row store] keys row(1) obtain s2 where
    s2: "lockEffect store io i (ticked ?s1 (st_db s)) = (Inr row, s2)" "st_db s2 = st_db s"
    unfolding ticked_db by blast
  have up: "updateEffectColumns store io (ef_ID row) ?f (ticked s2 (st_db s2))
      = (Inr (), ticked (ticked s2 (st_db s2)) (set_effect (ef_ID row) ?f (st_db s)))"
    using quiet_updateEffectColumns [OF q, of "ticked s2 (st_db s2)" row ?f] keys m fits ne s2(2) by simp
  have valid: "EffectStatus_Valid (ef_Status row)" using row(2) by (auto simp: effect_claimable_def)
  have run: "claimEffect_tx store io i owner topics (ef_TurnID row) s
      = (Inr (Some (effect_delivery owner ?exp row)), ticked (ticked s2 (st_db s2)) (set_effect (ef_ID row) ?f (st_db s)))"
    using lock look s2(1) up scope row(2) valid quiet_executionNow [OF clk]
    by (simp add: claimEffect_tx_def tx_bind_def tx_try_def claim_locked_def tx_check_def lease_effect_def Let_def quiet_simps)
  have "outbox_at (set_effect (ef_ID row) ?f (st_db s)) i = Some (?f row)"
    using set_effect_evolves [where f = ?f, OF keys row(1) _ fits refl] leased_evolves [OF c fits row(2)] by blast
  with run show ?thesis using effectLeaseTTL_bounds(1) [of store] w
    by (intro exI [of _ "effect_delivery owner ?exp row"] exI [of _ "?f row"] exI
          [of _ "ticked (ticked s2 (st_db s2)) (set_effect (ef_ID row) ?f (st_db s))"])
      (simp add: effect_delivery_def effect_leased_def)
qed

theorem due_effect_is_leased_witness:
  "\<exists>d s'. claimEffect_tx sample_sql (sample_io sample_time) ''e-1'' ''w-9'' [] ''turn-1'' sample_outbox = (Inr (Some d), s')
     \<and> dl_DedupeKey d = ''key-1''"
proof -
  have clk: "\<And>n. io_clock (sample_io sample_time) n = Inr sample_time" "ss_executionClock sample_sql"
    by (simp_all add: sample_io_def sample_sql_def)
  have now: "canonicalExecutionTime sample_time = Inr sample_time" by code_simp
  have at: "outbox_at (st_db sample_outbox) ''e-1'' = Some sample_effect_row" by code_simp
  have due: "effect_claimable sample_effect_row sample_time" by code_simp
  have turn: "find (\<lambda>r. tr_TurnID r = ef_TurnID sample_effect_row) (db_turns (st_db sample_outbox)) = Some sample_turn_row"
    "distinct (map tr_TurnID (db_turns (st_db sample_outbox)))"
    by (simp_all add: sample_outbox_def empty_db_def sample_turn_row_def sample_effect_row_def)
  have free: "find (\<lambda>r. sv_TurnID r = ef_TurnID sample_effect_row) (db_reviews (st_db sample_outbox)) = None"
    by (simp add: sample_outbox_def empty_db_def)
  have scope: "effectTopicScopeAllows [] (ef_Topic sample_effect_row)" by code_simp
  have room: "ef_DispatchFencingToken sample_effect_row < MaxInt64" "ef_DeliveryAttempts sample_effect_row < MaxInt64"
    by (simp_all add: sample_effect_row_def)
  have id: "ef_TurnID sample_effect_row = ''turn-1''" by (simp add: sample_effect_row_def)
  from due_effect_is_leased [where owner = "''w-9''", OF sample_quiet(1) clk(1) now clk(2) sample_keys at due turn free scope room]
  show ?thesis unfolding id by (auto simp: sample_effect_row_def)
qed

end
