(* ===== verification/Sql_Codec.thy ===== *)
theory Sql_Codec
  imports Sql_Rows
begin

text \<open>
  Round trips between the records of the kernel and the rows of its tables, and between sequence
  numbers and event ids: what is written is read back, and what is read was written.
\<close>

subsection \<open>Sequence numbers as 64-bit columns\<close>

lemma uint_MaxDurableSequence: "uint MaxDurableSequence = 2 ^ 63 - 1"
  by (simp add: MaxDurableSequence_def)

lemma sint_of_Max: "(w :: Sequence) \<le> MaxDurableSequence \<Longrightarrow> sint w = uint w"
  unfolding sint_uint word_le_def uint_MaxDurableSequence
  by (rule signed_take_bit_int_eq_self) (simp_all add: order_trans [OF _ uint_ge_0])

lemma sint_positive: "(w :: Sequence) \<le> MaxDurableSequence \<Longrightarrow> w \<noteq> 0 \<Longrightarrow> 1 \<le> sint w"
  using uint_ge_0 [of w] uint_0_iff [of w] sint_of_Max [of w] by linarith

lemma word_of_column: "0 \<le> i \<Longrightarrow> i < 2 ^ 63 \<Longrightarrow> sint (word_of_int i :: Sequence) = i"
  by (simp add: sint_uint signed_take_bit_int_eq_self uint_word_of_int)

lemma column_le_Max_iff:
  "0 \<le> i \<Longrightarrow> i < 2 ^ 64 \<Longrightarrow> (word_of_int i :: Sequence) \<le> MaxDurableSequence \<longleftrightarrow> i < 2 ^ 63"
  by (auto simp: word_le_def uint_MaxDurableSequence uint_word_of_int)

lemma column_word:
  assumes "1 \<le> j" "j < 2 ^ 63"
  shows "sint (word_of_int j :: Sequence) = j" "uint (word_of_int j :: Sequence) = j"
    "(word_of_int j :: Sequence) \<le> MaxDurableSequence" "(word_of_int j :: Sequence) \<noteq> 0"
proof -
  show "sint (word_of_int j :: Sequence) = j" using assms by (simp add: word_of_column)
  show u: "uint (word_of_int j :: Sequence) = j" using assms by (simp add: uint_word_of_int)
  show "(word_of_int j :: Sequence) \<le> MaxDurableSequence" using assms by (simp add: column_le_Max_iff)
  show "(word_of_int j :: Sequence) \<noteq> 0" using u assms(1) by (metis unsigned_0 not_one_le_zero)
qed

lemma nextSQLSequence_Inr:
  assumes "nextSQLSequence i = Inr q" "i < 2 ^ 64"
  shows "1 \<le> i \<and> i < 2 ^ 63 - 1 \<and> sint q = i + 1 \<and> uint q = i + 1 \<and> q \<le> MaxDurableSequence \<and> q \<noteq> 0"
proof -
  have i: "1 \<le> i" "(word_of_int i :: Sequence) < MaxDurableSequence" and q: "q = word_of_int (wrap64 (i + 1))"
    using assms(1) by (auto simp: nextSQLSequence_def not_le split: if_splits)
  have "i < 2 ^ 63 - 1" using i assms(2) by (simp add: word_less_def uint_MaxDurableSequence uint_word_of_int)
  moreover from this i have "wrap64 (i + 1) = i + 1" by (simp add: wrap64_def)
  ultimately show ?thesis using i(1) column_word [of "i + 1"] unfolding q by (simp del: of_int_add)
qed

lemma nextSQLSequence_total: "1 \<le> i \<Longrightarrow> i < 2 ^ 63 - 1 \<Longrightarrow> nextSQLSequence i = Inr (word_of_int (i + 1))"
  by (simp add: nextSQLSequence_def wrap64_def word_le_def uint_MaxDurableSequence uint_word_of_int)

lemma nextExecutionFence_Inr:
  assumes "nextExecutionFence i = Inr q" "i < 2 ^ 64"
  shows "0 \<le> i \<and> i < 2 ^ 63 - 1 \<and> sint q = i + 1 \<and> q \<le> MaxDurableSequence \<and> q \<noteq> 0"
proof -
  have i: "0 \<le> i" "(word_of_int i :: Sequence) < MaxDurableSequence" and q: "q = word_of_int (wrap64 (i + 1))"
    using assms(1) by (auto simp: nextExecutionFence_def not_less order_less_le split: if_splits)
  have "i < 2 ^ 63 - 1" using i assms(2) by (simp add: word_less_def uint_MaxDurableSequence uint_word_of_int)
  moreover from this i have "wrap64 (i + 1) = i + 1" by (simp add: wrap64_def)
  ultimately show ?thesis using i(1) column_word [of "i + 1"] unfolding q by (simp del: of_int_add)
qed

lemma nextExecutionFence_total: "0 \<le> i \<Longrightarrow> i < 2 ^ 63 - 1 \<Longrightarrow> nextExecutionFence i = Inr (word_of_int (i + 1))"
  by (simp add: nextExecutionFence_def wrap64_def word_less_def uint_MaxDurableSequence uint_word_of_int word_uint_eq_iff
      del: of_int_add)

subsection \<open>Event ids\<close>

lemma print_nat_digits_value:
  "list_all is_digit s \<Longrightarrow> s \<noteq> [] \<Longrightarrow> hd s \<noteq> CHR ''0'' \<Longrightarrow> print_nat (digits_value s) = s \<and> digits_value s > 0"
proof (induction s rule: rev_induct)
  case (snoc c s)
  have c: "is_digit c" using snoc.prems by simp
  then have d: "digit_char (of_char c - 48) = c" "(of_char c :: nat) - 48 < 10"
    by (auto simp: digit_char_def is_digit_def)
  show ?case
  proof (cases "s = []")
    case True
    have "c \<noteq> CHR ''0''" using snoc.prems True by simp
    then have "(of_char c :: nat) \<noteq> of_char (CHR ''0'')" by (simp only: of_char_eq_iff not_False_eq_True)
    then have "(of_char c :: nat) \<noteq> 48" by simp
    with c True d show ?thesis
      by (subst print_nat.simps) (auto simp: digits_value_def is_digit_def)
  next
    case False
    with snoc have s: "print_nat (digits_value s) = s" "digits_value s > 0" by auto
    then show ?thesis using d
      by (subst print_nat.simps) (simp add: digits_value_snoc)
  qed
qed simp

lemma digit_char_0: "digit_char 0 = CHR ''0''"
  by code_simp

lemma parse_format:
  assumes "q \<noteq> 0" "q \<le> MaxDurableSequence"
  shows "parseDeterministicEventID i (deterministicEventID i q) = (q, True)"
proof -
  have u: "unat q > 0" "unat q < 2 ^ 63"
    using assms by (simp_all add: unat_gt_0 word_le_nat_alt unat_MaxDurableSequence)
  then have "ParseUint (print_nat (unat q)) 63 = Some (unat q)" by (simp add: ParseUint_print_nat)
  moreover have "hd (print_nat (unat q)) \<noteq> CHR ''0''" using print_nat_leading_zero [OF u(1)] by (simp add: digit_char_0)
  ultimately show ?thesis using u
    by (simp add: parseDeterministicEventID_def deterministicEventID_def HasPrefix_def Let_def)
qed

lemma parse_only_format:
  assumes "parseDeterministicEventID i e = (q, True)"
  shows "e = deterministicEventID i q \<and> q \<noteq> 0 \<and> q \<le> MaxDurableSequence"
proof -
  define raw where "raw = drop (length (i @ '':'')) e"
  have pre: "HasPrefix e (i @ '':'')"
    and raw: "raw \<noteq> []" "\<not> (length raw > 1 \<and> hd raw = CHR ''0'')"
    and parse: "ParseUint raw 63 = Some (unat q)" "unat q \<noteq> 0"
    using assms by (auto simp: parseDeterministicEventID_def raw_def Let_def ParseUint_def unat_of_nat
        split: if_splits option.splits)
  have e: "e = i @ '':'' @ raw" using pre unfolding raw_def HasPrefix_def prefix_def by auto
  have v: "list_all is_digit raw" "digits_value raw = unat q" "unat q < 2 ^ 63"
    using parse(1) by (auto simp: ParseUint_def split: if_splits)
  have "hd raw \<noteq> CHR ''0''"
  proof
    assume z: "hd raw = CHR ''0''"
    with raw have "raw = ''0''" by (cases raw; cases "tl raw") auto
    with v(2) parse(2) show False by (simp add: digits_value_def)
  qed
  with print_nat_digits_value [OF v(1) raw(1)] have "print_nat (unat q) = raw" by (simp add: v(2))
  moreover have "q \<le> MaxDurableSequence" using v(3) by (simp add: word_le_nat_alt unat_MaxDurableSequence)
  ultimately show ?thesis using e parse(2) by (auto simp: deterministicEventID_def)
qed

subsection \<open>Rows\<close>

text \<open>The database numbers a row when it inserts it; the number plays no part in the conversions.\<close>

lemma row_attempt_row [simp]: "row_attempt ((attempt_row a)\<lparr>at_ID := n\<rparr>) = a"
  by (simp add: row_attempt_def attempt_row_def)

lemma toAttempt_row:
  assumes "TurnAttempt_Validate a = None"
  shows "toAttempt ((attempt_row a)\<lparr>at_ID := n\<rparr>) = Inr a"
proof -
  have f: "ta_FencingToken a \<noteq> 0" "ta_FencingToken a \<le> MaxDurableSequence"
    using assms by (simp_all add: TurnAttempt_Validate_def AttemptFence_Validate_def TurnAttempt_Fence_def err_simps not_less)
  then show ?thesis using assms sint_positive [OF f(2,1)]
    by (simp add: toAttempt_def) (simp add: attempt_row_def)
qed

lemma attempt_row_of:
  assumes "toAttempt row = Inr a" "at_FencingToken row < 2 ^ 63"
  shows "attemptToSQLRow a = Inr (row\<lparr>at_ID := 0\<rparr>)"
proof -
  have a: "a = row_attempt row" "1 \<le> at_FencingToken row" "TurnAttempt_Validate a = None"
    using assms(1) by (auto simp: toAttempt_def split: if_splits)
  moreover have "attempt_row a = row\<lparr>at_ID := 0\<rparr>"
    using a(2) assms(2) by (simp add: a(1) row_attempt_def attempt_row_def word_of_column)
  ultimately show ?thesis by (simp add: attemptToSQLRow_def)
qed

lemma row_review_row [simp]: "row_review ((review_row r)\<lparr>sv_ID := n\<rparr>) = r"
  by (simp add: row_review_def review_row_def nullable_def null_string_def)

lemma review_toRecord_row:
  "settlementReviewToSQLRow sha r = Inr row \<Longrightarrow> review_toRecord sha (row\<lparr>sv_ID := n\<rparr>) = Inr r"
  by (auto simp: settlementReviewToSQLRow_def review_toRecord_def split: option.splits)

lemma toTurn_row:
  assumes "Turn_Validate t = None" "decoded_plugin (t_Plugin t) = t_Plugin t" "q \<noteq> 0" "q \<le> MaxDurableSequence"
  shows "toTurn ((turnToSQLRow t q)\<lparr>tr_ID := n\<rparr>) = Inr t"
proof -
  have "row_turn ((turnToSQLRow t q)\<lparr>tr_ID := n\<rparr>) (t_Plugin t) = t"
    by (simp add: row_turn_def turnToSQLRow_def)
  moreover have "(0 :: Sequence) \<le> MaxDurableSequence" by simp
  ultimately show ?thesis using assms sint_positive [OF assms(4,3)]
    by (simp add: toTurn_def) (simp add: turnToSQLRow_def)
qed

lemma toAttempt_Inr: "toAttempt r = Inr a \<Longrightarrow> a = row_attempt r \<and> TurnAttempt_Validate a = None \<and> 1 \<le> at_FencingToken r"
  by (auto simp: toAttempt_def split: if_splits)

lemma row_attempt_sel [simp]:
  "ta_ID (row_attempt r) = at_AttemptID r" "ta_TurnID (row_attempt r) = at_TurnID r" "ta_Status (row_attempt r) = at_Status r"
  "ta_LeaseExpiresAt (row_attempt r) = at_LeaseExpiresAt r" "ta_LastHeartbeatAt (row_attempt r) = at_LastHeartbeatAt r"
  "ta_WorkerID (row_attempt r) = at_WorkerID r" "ta_WorkerBuildDigest (row_attempt r) = at_WorkerBuildDigest r"
  "ta_FencingToken (row_attempt r) = word_of_int (at_FencingToken r)"
  by (simp_all add: row_attempt_def)

lemma toTurn_Inr:
  "toTurn row = Inr turn \<Longrightarrow> (\<exists>p. tr_PluginSnapshotJSON row = Some p \<and> turn = row_turn row p) \<and> Turn_Validate turn = None
     \<and> 0 \<le> tr_FencingToken row \<and> 1 \<le> tr_LastEventSequence row"
  by (auto simp: toTurn_def split: if_splits option.splits)

text \<open>An event the kernel builds for a valid Turn is accepted for storage.\<close>

lemma built_event:
  assumes "buildEvent t q d = Inr e"
  shows "ev_TurnID e = t_ID t" "ev_Plugin e = t_Plugin t" "ev_Sequence e = q" "ev_Type e = ed_Type d"
    "ev_ResourceRefs e = ed_ResourceRefs d" "ev_Data e = ed_Data d" "ev_EventID e = deterministicEventID (t_ID t) q"
    "EventEnvelope_Validate e = None" "q \<noteq> 0" "q \<le> MaxDurableSequence"
  using assms by (auto simp: buildEvent_def Let_def not_less split: if_splits option.splits)

lemma built_event_stored:
  assumes "buildEvent t q d = Inr e" "Turn_Validate t = None" "EventDraft_Validate d = None"
  shows "validateStoredEnvelope e = None"
proof -
  have p: "validatePluginRef (t_Plugin t) = None" using assms(2) by (simp add: Turn_Validate_def err_simps)
  have d: "EventDraft_Validate \<lparr>ed_Type = ev_Type e, ed_ResourceRefs = ev_ResourceRefs e, ed_Data = ev_Data e\<rparr> = None"
    using assms(3) by (cases d) (simp add: built_event [OF assms(1)])
  show ?thesis unfolding validateStoredEnvelope_def d using p built_event(2,3,8,10) [OF assms(1)] by (simp add: not_less)
qed

lemma eventToSQLRow_total:
  assumes "validateStoredEnvelope e = None" "canonicalExecutionTime now = Inr u"
  shows "eventToSQLRow col e now = Inr \<lparr>er_ID = 0, er_TurnID = ev_TurnID e, er_Sequence = sint (ev_Sequence e),
    er_EventID = ev_EventID e, er_SchemaVersion = ev_SchemaVersion e, er_EventType = ev_Type e,
    er_EventJSON = Some (decoded_event col e), er_CreatedAt = u\<rparr>"
  using assms by (simp add: eventToSQLRow_def)

subsection \<open>Events and their JSON column\<close>

text \<open>
  Strings that are encoded as UTF-8 survive encoding and decoding. The data of an event is a raw
  JSON message: it is compacted when the event is encoded, and a native JSON column may lay it out
  anew; \<open>column_text\<close> is the text that is read back. The reader accepts it if it still is JSON
  within the byte limit, \<open>data_fits\<close>.
\<close>

function utf8_valid :: "string \<Rightarrow> bool" where
  "utf8_valid [] = True"
| "utf8_valid (c # s) =
     (if (of_char c :: nat) < 128 then utf8_valid s
      else if utf8_len (c # s) = 0 then False
      else utf8_valid (drop (utf8_len (c # s)) (c # s)))"
  by pat_completeness auto
termination by (relation "measure length") auto

lemma utf8_valid_replace: "utf8_valid s \<Longrightarrow> length s \<le> n \<Longrightarrow> utf8_replace n s = s"
proof (induction s arbitrary: n rule: utf8_valid.induct)
  case 1
  then show ?case by (cases n) simp_all
next
  case (2 c s)
  then obtain m where n: "n = Suc m" "length s \<le> m" by (cases n) auto
  show ?case
  proof (cases "(of_char c :: nat) < 128")
    case False
    let ?u = "utf8_len (c # s)"
    have u: "?u \<noteq> 0" "utf8_valid (drop ?u (c # s))" using "2.prems"(1) False by (auto split: if_splits)
    have "length (drop ?u (c # s)) \<le> m" using n(2) u(1) by simp
    then have "utf8_replace m (drop ?u (c # s)) = drop ?u (c # s)" using "2.IH"(2) [OF False u(1) u(2)] by blast
    then show ?thesis using n False u(1) by (simp only: utf8_replace.simps if_False append_take_drop_id)
  qed (use 2 n in auto)
qed

lemma utf8_coerce_valid: "utf8_valid s \<Longrightarrow> utf8_coerce s = s"
  by (simp add: utf8_coerce_def utf8_valid_replace)

lemma utf8_len_append:
  assumes "utf8_len s \<noteq> 0"
  shows "utf8_len (s @ t) = utf8_len s \<and> utf8_len s \<le> length s"
  using assms
proof (cases s rule: utf8_len.cases)
  case (1 a b c d s)
  then show ?thesis by (simp split: if_splits)
next
  case (2 a b c)
  then show ?thesis using assms by (cases t) (simp_all split: if_splits, blast)
next
  case (3 a b)
  then show ?thesis using assms by (cases t; cases "tl t") (simp_all split: if_splits)
qed auto

lemma utf8_valid_append: "utf8_valid s \<Longrightarrow> utf8_valid t \<Longrightarrow> utf8_valid (s @ t)"
proof (induction s rule: utf8_valid.induct)
  case (2 c s)
  let ?u = "utf8_len (c # s)"
  show ?case
  proof (cases "(of_char c :: nat) < 128")
    case False
    then have u: "?u \<noteq> 0" "utf8_valid (drop ?u (c # s))" using "2.prems"(1) by (auto split: if_splits)
    have "drop ?u ((c # s) @ t) = drop ?u (c # s) @ t" using utf8_len_append [OF u(1), of t] by (simp only: drop_append)
        (simp only: diff_is_0_eq' drop_0)
    moreover have "utf8_len (c # s @ t) = ?u" using utf8_len_append [OF u(1), of t] by simp
    ultimately show ?thesis using False u "2.IH"(2) [OF False u(1) u(2) "2.prems"(2)] by simp
  qed (use 2 in simp)
qed simp

lemma utf8_valid_ascii: "list_all (\<lambda>c. (of_char c :: nat) < 128) s \<Longrightarrow> utf8_valid s"
  by (induction s) simp_all

lemma utf8_valid_event_id: "utf8_valid i \<Longrightarrow> utf8_valid (deterministicEventID i q)"
proof -
  assume i: "utf8_valid i"
  have "list_all (\<lambda>c. (of_char c :: nat) < 128) ('':'' @ print_nat (unat q))"
    using print_nat_digits [of "unat q"] by (auto simp: list_all_iff is_digit_def)
  from utf8_valid_append [OF i utf8_valid_ascii [OF this]] show ?thesis by (simp add: deterministicEventID_def)
qed

definition utf8_turn :: "Turn \<Rightarrow> bool" where
  "utf8_turn t \<longleftrightarrow> utf8_valid (t_ID t) \<and> utf8_valid (pr_ID (t_Plugin t)) \<and> utf8_valid (pr_Version (t_Plugin t))
     \<and> utf8_valid (pr_ReleaseDigest (t_Plugin t))"

definition utf8_draft :: "EventDraft \<Rightarrow> bool" where
  "utf8_draft d \<longleftrightarrow> utf8_valid (ed_Type d) \<and> list_all utf8_valid (ed_ResourceRefs d)"

definition column_text :: "(string \<Rightarrow> string) \<Rightarrow> string \<Rightarrow> string" where
  "column_text col data = col (json_compact data)"

definition data_fits :: "(string \<Rightarrow> string) \<Rightarrow> EventDraft \<Rightarrow> bool" where
  "data_fits col d \<longleftrightarrow> json_Valid (column_text col (ed_Data d)) \<and> length (column_text col (ed_Data d)) \<le> MaxEventDataBytes"

abbreviation column_event :: "(string \<Rightarrow> string) \<Rightarrow> EventEnvelope \<Rightarrow> EventEnvelope" where
  "column_event col e \<equiv> e\<lparr>ev_Data := column_text col (ev_Data e)\<rparr>"

abbreviation column_draft :: "(string \<Rightarrow> string) \<Rightarrow> EventDraft \<Rightarrow> EventDraft" where
  "column_draft col d \<equiv> d\<lparr>ed_Data := column_text col (ed_Data d)\<rparr>"

lemma utf8_turn_plugin: "utf8_turn t \<Longrightarrow> decoded_plugin (t_Plugin t) = t_Plugin t"
  by (simp add: utf8_turn_def decoded_plugin_def utf8_coerce_valid)

lemma json_Valid_Nil: "\<not> json_Valid []"
  by code_simp

lemma decoded_built:
  assumes "buildEvent t q d = Inr e" "utf8_turn t" "utf8_draft d"
  shows "decoded_event col e = column_event col e"
proof -
  have "utf8_coerce (deterministicEventID (t_ID t) q) = deterministicEventID (t_ID t) q" "utf8_coerce (t_ID t) = t_ID t"
    using assms(2) by (simp_all add: utf8_turn_def utf8_valid_event_id utf8_coerce_valid)
  moreover have "utf8_coerce (ed_Type d) = ed_Type d" "map utf8_coerce (ed_ResourceRefs d) = ed_ResourceRefs d"
    using assms(3) by (auto simp: utf8_draft_def list_all_iff utf8_coerce_valid intro: map_idI)
  ultimately show ?thesis
    by (simp add: decoded_event_def built_event [OF assms(1)] utf8_turn_plugin [OF assms(2)] column_text_def)
qed

lemma column_draft_valid: "EventDraft_Validate d = None \<Longrightarrow> data_fits col d \<Longrightarrow> EventDraft_Validate (column_draft col d) = None"
  by (auto simp: EventDraft_Validate_def err_simps data_fits_def json_Valid_Nil)

text \<open>An event that was stored is the event that is read, but for the text of its data, which is the column's.\<close>

lemma column_event_stored:
  assumes "validateStoredEnvelope e = None" "ed_Data d = ev_Data e"
  shows "validateStoredEnvelope (column_event col e) = (if data_fits col d then None else Some ErrStoreIntegrity)"
proof -
  have "EventEnvelope_Validate e = None" "ev_Sequence e \<le> MaxDurableSequence" "validatePluginRef (ev_Plugin e) = None"
    "EventDraft_Validate \<lparr>ed_Type = ev_Type e, ed_ResourceRefs = ev_ResourceRefs e, ed_Data = ev_Data e\<rparr> = None"
    using assms(1) by (simp_all add: validateStoredEnvelope_def not_less split: if_splits)
  then show ?thesis using assms(2)
    by (auto simp: validateStoredEnvelope_def EventEnvelope_Validate_def EventDraft_Validate_def data_fits_def err_simps json_Valid_Nil)
qed

lemma toEnvelope_row:
  assumes "eventToSQLRow col e now = Inr row" "buildEvent t q d = Inr e" "utf8_turn t" "utf8_draft d"
    and "t_ID u = t_ID t" "t_Plugin u = t_Plugin t"
  shows "toEnvelope (row\<lparr>er_ID := n\<rparr>) u = (if data_fits col d then Inr (column_event col e) else Inl ErrStoreIntegrity)"
proof -
  note b = built_event [OF assms(2)]
  have v: "validateStoredEnvelope e = None" using assms(1) by (simp add: eventToSQLRow_def split: option.splits)
  have row: "er_Sequence row = sint q" "er_EventID row = ev_EventID e" "er_EventJSON row = Some (column_event col e)"
      "er_SchemaVersion row = ev_SchemaVersion e" "er_EventType row = ev_Type e"
    using assms(1) v decoded_built [OF assms(2-4)] b(3) by (auto simp: eventToSQLRow_def split: sum.splits)
  have "\<not> sint q < 1" using sint_positive [OF b(10,9)] by simp
  moreover have "\<not> q > MaxDurableSequence" using b(10) by simp
  ultimately show ?thesis using column_event_stored [OF v, of d col]
    unfolding toEnvelope_def by (simp add: row b assms(5,6))
qed

text \<open>
  A sample column in the manner of MySQL, which writes a space after each colon and comma outside
  strings, and an event whose data it changes.
\<close>

fun sample_column :: "bool \<Rightarrow> bool \<Rightarrow> string \<Rightarrow> string" where
  "sample_column quoted escaped [] = []"
| "sample_column quoted escaped (c # s) =
     (c # (if \<not> quoted \<and> (c = CHR '':'' \<or> c = CHR '','') then '' '' else []))
     @ sample_column (if c = CHR 0x22 \<and> \<not> escaped then \<not> quoted else quoted) (c = CHR 0x5C \<and> \<not> escaped) s"

definition sample_status :: EventDraft where
  "sample_status = \<lparr>ed_Type = ''turn.status'', ed_ResourceRefs = [], ed_Data = ''{\"status\":\"queued\", \"n\":1}''\<rparr>"

lemma sample_utf8: "utf8_turn sample_turn" "utf8_draft sample_status"
  by code_simp+

lemma sample_column_text:
  "column_text (sample_column False False) (ed_Data sample_status) = ''{\"status\": \"queued\", \"n\": 1}''"
  "data_fits (sample_column False False) sample_status" "EventDraft_Validate sample_status = None"
proof -
  show t: "column_text (sample_column False False) (ed_Data sample_status) = ''{\"status\": \"queued\", \"n\": 1}''"
    by code_simp
  have "json_Valid ''{\"status\": \"queued\", \"n\": 1}''" by code_simp
  then show "data_fits (sample_column False False) sample_status" unfolding data_fits_def t by simp
  have "validateBoundedText ''event type'' (ed_Type sample_status) MaxEventTypeBytes = None"
    "json_Valid (ed_Data sample_status)" by code_simp+
  then show "EventDraft_Validate sample_status = None"
    by (simp add: EventDraft_Validate_def fail_if_def sample_status_def)
qed

subsection \<open>Properties\<close>

text \<open>
  Event ids. The parser of event ids accepts exactly the ids the kernel derives: it returns
  sequence number \<open>q\<close> for a Turn and a text if and only if the text is the id of event \<open>q\<close> of that
  Turn and \<open>q\<close> is in the durable range. No other spelling, such as one with leading zeros, is read.
\<close>

theorem event_ids_round_trip:
  "parseDeterministicEventID i e = (q, True)
     \<longleftrightarrow> e = deterministicEventID i q \<and> q \<noteq> 0 \<and> q \<le> MaxDurableSequence"
  using parse_only_format parse_format by blast

text \<open>
  C19. Rows. A record that is accepted for storage is read back from the row that was inserted for
  it. Attempts and Settlement Reviews come back unchanged, and so do valid Turns whose id and plugin
  reference are UTF-8. For an event that the kernel built of UTF-8 texts, whatever the JSON column
  makes of its data: if the column's text for the compacted data is valid JSON within the byte limit
  of event data, the event comes back with that text as its data and every other field unchanged,
  and otherwise the read is an integrity error. An attempt that is read from a row is also the one
  whose row it is.
\<close>

theorem rows_round_trip:
  assumes "attemptToSQLRow a = Inr row" "settlementReviewToSQLRow sha r = Inr review_row'"
    and "Turn_Validate t = None" "utf8_turn t" "buildEvent t q d = Inr e" "utf8_draft d"
    and "eventToSQLRow col e now = Inr event_row"
    and "toAttempt stored = Inr a'" "at_FencingToken stored < 2 ^ 63"
  shows "toAttempt (row\<lparr>at_ID := n\<rparr>) = Inr a \<and> review_toRecord sha (review_row'\<lparr>sv_ID := n\<rparr>) = Inr r
    \<and> toTurn ((turnToSQLRow t q)\<lparr>tr_ID := n\<rparr>) = Inr t
    \<and> toEnvelope (event_row\<lparr>er_ID := n\<rparr>) t
        = (if json_Valid (col (json_compact (ed_Data d))) \<and> length (col (json_compact (ed_Data d))) \<le> MaxEventDataBytes
           then Inr (e\<lparr>ev_Data := col (json_compact (ed_Data d))\<rparr>) else Inl ErrStoreIntegrity)
    \<and> attemptToSQLRow a' = Inr (stored\<lparr>at_ID := 0\<rparr>)"
proof -
  have a: "TurnAttempt_Validate a = None" "row = attempt_row a"
    using assms(1) by (auto simp: attemptToSQLRow_def split: option.splits)
  note b = built_event [OF assms(5)]
  show ?thesis using toAttempt_row [OF a(1)] review_toRecord_row [OF assms(2)] toTurn_row [OF assms(3) utf8_turn_plugin [OF assms(4)] b(9,10)]
      toEnvelope_row [OF assms(7,5,4,6) refl refl] attempt_row_of [OF assms(8,9)] a(2) b(6) by (simp add: data_fits_def column_text_def)
qed

theorem rows_round_trip_witness:
  "\<exists>e row. buildEvent sample_turn 1 sample_status = Inr e \<and> eventToSQLRow (sample_column False False) e 63900000000000000000 = Inr row
     \<and> toTurn ((turnToSQLRow sample_turn 1)\<lparr>tr_ID := 4\<rparr>) = Inr sample_turn
     \<and> toEnvelope (row\<lparr>er_ID := 4\<rparr>) sample_turn = Inr (e\<lparr>ev_Data := ''{\"status\": \"queued\", \"n\": 1}''\<rparr>)"
proof -
  let ?a = "\<lparr>ta_ID = ''attempt-1'', ta_TurnID = ''turn-1'', ta_FencingToken = 2, ta_Status = AttemptStatusRunning,
    ta_WorkerID = ''w'', ta_WorkerBuildDigest = ''b'', ta_LeaseExpiresAt = 9, ta_ClaimedAt = 5, ta_LastHeartbeatAt = 5,
    ta_FinishedAt = None, ta_CreatedAt = 5, ta_UpdatedAt = 5\<rparr>"
  note d = sample_column_text(3)
  obtain e where e: "buildEvent sample_turn 1 sample_status = Inr e"
    using buildEvent_valid [OF sample_admitted(1) d, of 1] by (auto simp: MaxDurableSequence_def)
  have "canonicalExecutionTime 63900000000000000000 = Inr 63900000000000000000" by code_simp
  note row = eventToSQLRow_total [OF built_event_stored [OF e sample_admitted(1) d] this, of "sample_column False False"]
  have a: "attemptToSQLRow ?a = Inr (attempt_row ?a)" by code_simp
  have r: "settlementReviewToSQLRow sample_sha sample_review = Inr (review_row sample_review)" by code_simp
  have st: "toAttempt (attempt_row ?a) = Inr ?a" by code_simp
  have lt: "at_FencingToken (attempt_row ?a) < 2 ^ 63" by (simp add: attempt_row_def)
  from rows_round_trip [OF a r sample_admitted(1) sample_utf8(1) e sample_utf8(2) row st lt, of 4] sample_column_text(1,2)
  show ?thesis using e row by (auto simp: data_fits_def column_text_def)
qed

end
