(* ===== verification/Sql_Attempts.thy ===== *)
theory Sql_Attempts
  imports Sql_Tx Sql_Codec "HOL-Library.Product_Lexorder"
begin

text \<open>
  Ownership of execution, \<^verbatim>\<open>sql_execution_store.go\<close>, \<^verbatim>\<open>sql_claim_next.go\<close> and the gate of
  \<^verbatim>\<open>reservation_admission.go\<close>: a worker claims a Turn for one execution epoch, extends its lease
  by heartbeats, and discovers work by scanning; a reconciler lists the Turns that no live worker
  owns.

  A transaction is split at the points where the Go function branches: the replay of a claim that
  is already bound (\<open>claim_replay\<close>), the guards of a fresh epoch (\<open>claim_guards\<close>), the attempt it
  supersedes (\<open>claim_superseded\<close>) and the writes (\<open>claim_epoch\<close>).
\<close>

subsection \<open>Claims\<close>

definition authorizeTurnReservationExecution :: "SQLStore \<Rightarrow> Turn \<Rightarrow> unit tx" where
  "authorizeTurnReservationExecution store turn s =
     (case ss_executionAuthority store of
        None \<Rightarrow> (Inr (), s)
      | Some authority \<Rightarrow>
          if ss_settlementViolated store then (Inl ErrSettlementBindingInvalid, s)
          else (case authority (st_tick s) (st_db s) turn of
                  None \<Rightarrow> (Inr (), s\<lparr>st_tick := Suc (st_tick s)\<rparr>)
                | Some e \<Rightarrow>
                    (Inl (if errors_is e ErrTurnReservationExecutionExpired then ErrTurnReservationExecutionExpired
                          else ErrTurnReservationExecutionUnauthorized), s\<lparr>st_tick := Suc (st_tick s)\<rparr>)))"

definition claim_replay ::
  "SQLStore \<Rightarrow> sql_io \<Rightarrow> ClaimAttemptCommand \<Rightarrow> sqlTurnRow \<Rightarrow> Turn \<Rightarrow> sqlTurnAttemptRow \<Rightarrow> ClaimAttemptResult tx"
where
  "claim_replay store io c row turn existing =
     (case toAttempt existing of
        Inl e \<Rightarrow> tx_fail ErrStoreIntegrity
      | Inr attempt \<Rightarrow>
          tx_check (\<not> attemptMatchesClaim attempt c) ErrAttemptConflict (
          tx_check (\<not> turnOwnsAttempt row attempt \<or> ta_Status attempt \<noteq> AttemptStatusRunning) ErrAttemptFenced (
          tx_bind (executionNow store io) (\<lambda>now.
          tx_check (\<not> ta_LeaseExpiresAt attempt > now) ErrAttemptLeaseExpired (
          tx_return \<lparr>clr_Turn = turn, clr_Attempt = attempt, clr_Claimed = False, clr_Reclaimed = False,
                     clr_Replay = True\<rparr>)))))"

definition claim_guards :: "SQLStore \<Rightarrow> sqlTurnRow \<Rightarrow> Turn \<Rightarrow> unit tx" where
  "claim_guards store row turn =
     tx_check (TurnStatus_Terminal (t_Status turn)) ErrTurnTerminal (
     tx_check (t_Status turn \<noteq> TurnStatusQueued \<and> t_Status turn \<noteq> TurnStatusRunning) ErrStoreIntegrity (
     tx_check (t_CancelRequestedAt turn \<noteq> None) ErrAttemptCancelled (
     tx_check ((word_of_int (tr_FencingToken row) :: Sequence) = MaxDurableSequence) ErrAttemptFenceExhausted (
     tx_bind (tx_lift (turnAttemptBudget store)) (\<lambda>budget.
     tx_check (tr_FencingToken row \<ge> budget) ErrAttemptBudgetExhausted (
     tx_check (tr_ActiveAttemptID row = None \<and> tr_FencingToken row > 0) ErrStoreIntegrity (
     tx_check (tr_ActiveAttemptID row \<noteq> None \<and> t_Status turn \<noteq> TurnStatusRunning) ErrStoreIntegrity (
     tx_return ()))))))))"

definition claim_superseded :: "sql_io \<Rightarrow> sqlTurnRow \<Rightarrow> time \<Rightarrow> sqlTurnAttemptRow option tx" where
  "claim_superseded io row now =
     (case tr_ActiveAttemptID row of
        None \<Rightarrow> tx_return None
      | Some active \<Rightarrow>
          tx_bind (lockAttempt io (tr_TurnID row) active (tr_FencingToken row)) (\<lambda>current.
          case toAttempt current of
            Inl e \<Rightarrow> tx_fail ErrStoreIntegrity
          | Inr attempt \<Rightarrow>
              tx_check (\<not> turnOwnsAttempt row attempt \<or> ta_Status attempt \<noteq> AttemptStatusRunning) ErrStoreIntegrity (
              tx_check (ta_LeaseExpiresAt attempt > now) ErrAttemptBusy (
              tx_return (Some current)))))"

definition new_attempt :: "ClaimAttemptCommand \<Rightarrow> Sequence \<Rightarrow> time \<Rightarrow> time \<Rightarrow> TurnAttempt" where
  "new_attempt c fence leaseExpiresAt now =
     \<lparr>ta_ID = ca_AttemptID c, ta_TurnID = ca_TurnID c, ta_FencingToken = fence, ta_Status = AttemptStatusRunning,
      ta_WorkerID = ca_WorkerID c, ta_WorkerBuildDigest = ca_WorkerBuildDigest c,
      ta_LeaseExpiresAt = leaseExpiresAt, ta_ClaimedAt = now, ta_LastHeartbeatAt = now, ta_FinishedAt = None,
      ta_CreatedAt = now, ta_UpdatedAt = now\<rparr>"

definition expired_columns :: "time \<Rightarrow> sqlTurnAttemptRow \<Rightarrow> sqlTurnAttemptRow" where
  "expired_columns now r = r\<lparr>at_Status := AttemptStatusExpired, at_FinishedAt := Some now, at_UpdatedAt := now\<rparr>"

definition owned_columns :: "TurnAttempt \<Rightarrow> time \<Rightarrow> sqlTurnRow \<Rightarrow> sqlTurnRow" where
  "owned_columns attempt now r = r\<lparr>tr_ActiveAttemptID := Some (ta_ID attempt),
     tr_FencingToken := sint (ta_FencingToken attempt), tr_UpdatedAt := now\<rparr>"

definition started_columns :: "Sequence \<Rightarrow> time \<Rightarrow> sqlTurnRow \<Rightarrow> sqlTurnRow" where
  "started_columns seq now r = r\<lparr>tr_Status := TurnStatusRunning, tr_StartedAt := Some now,
     tr_LastEventSequence := sint seq\<rparr>"

definition claim_started :: "sql_io \<Rightarrow> sqlTurnRow \<Rightarrow> Turn \<Rightarrow> time \<Rightarrow> (Turn \<times> (sqlTurnRow \<Rightarrow> sqlTurnRow)) tx" where
  "claim_started io row turn now =
     (let nextTurn = turn\<lparr>t_UpdatedAt := now\<rparr> in
      if t_Status turn = TurnStatusQueued
      then let nextTurn = nextTurn\<lparr>t_Status := TurnStatusRunning, t_StartedAt := Some now\<rparr> in
           tx_bind (tx_lift (nextSQLSequence (tr_LastEventSequence row))) (\<lambda>seq.
           tx_bind (tx_lift (statusEvent TurnStatusRunning False)) (\<lambda>draft.
           tx_bind (tx_lift (buildEvent nextTurn seq draft)) (\<lambda>event.
           tx_bind (insertEvent io event now) (\<lambda>_.
           tx_return (nextTurn, started_columns seq now)))))
      else tx_return (nextTurn, id))"

definition claim_epoch ::
  "SQLStore \<Rightarrow> sql_io \<Rightarrow> ClaimAttemptCommand \<Rightarrow> sqlTurnRow \<Rightarrow> Turn \<Rightarrow> time \<Rightarrow> sqlTurnAttemptRow option
     \<Rightarrow> ClaimAttemptResult tx"
where
  "claim_epoch store io c row turn now expiredAttempt =
     tx_bind (authorizeTurnReservationExecution store turn) (\<lambda>_.
     tx_bind (case expiredAttempt of None \<Rightarrow> tx_return ()
              | Some expired \<Rightarrow> updateAttemptColumns io (at_ID expired) (expired_columns now)) (\<lambda>_.
     tx_bind (tx_lift (nextExecutionFence (tr_FencingToken row))) (\<lambda>fence.
     tx_bind (tx_lift (executionLeaseExpiry store now)) (\<lambda>leaseExpiresAt.
     let attempt = new_attempt c fence leaseExpiresAt now in
     case attemptToSQLRow attempt of
       Inl e \<Rightarrow> tx_fail ErrStoreIntegrity
     | Inr attemptRow \<Rightarrow>
         tx_bind (create_attempt io attemptRow) (\<lambda>_.
         tx_bind (claim_started io row turn now) (\<lambda>(nextTurn, columns).
         tx_check (Turn_Validate nextTurn \<noteq> None) ErrStoreIntegrity (
         tx_bind (updateTurnColumns store io (ca_TurnID c) (\<lambda>r. columns (owned_columns attempt now r))) (\<lambda>_.
         tx_return \<lparr>clr_Turn = nextTurn, clr_Attempt = attempt, clr_Claimed = True,
                    clr_Reclaimed = (expiredAttempt \<noteq> None), clr_Replay = False\<rparr>))))))))"

definition claim_fresh ::
  "SQLStore \<Rightarrow> sql_io \<Rightarrow> ClaimAttemptCommand \<Rightarrow> sqlTurnRow \<Rightarrow> Turn \<Rightarrow> ClaimAttemptResult tx"
where
  "claim_fresh store io c row turn =
     tx_bind (executionNow store io) (\<lambda>now.
     tx_bind (claim_guards store row turn) (\<lambda>_.
     tx_bind (claim_superseded io row now) (\<lambda>expiredAttempt.
     claim_epoch store io c row turn now expiredAttempt)))"

definition claimAttempt_tx :: "SQLStore \<Rightarrow> sql_io \<Rightarrow> ClaimAttemptCommand \<Rightarrow> ClaimAttemptResult tx" where
  "claimAttempt_tx store io c =
     tx_bind (lockTurn store io (\<lambda>r. tr_TurnID r = ca_TurnID c)) (\<lambda>row.
     case toTurn row of
       Inl e \<Rightarrow> tx_fail ErrStoreIntegrity
     | Inr turn \<Rightarrow>
         tx_check (\<not> claimPluginScopeAllows (ca_PluginScope c) (t_Plugin turn)) ErrPluginScopeMismatch (
         tx_bind (lookupAttemptByIDTx io (ca_AttemptID c)) (\<lambda>found. case found of
           Some existing \<Rightarrow> claim_replay store io c row turn existing
         | None \<Rightarrow> claim_fresh store io c row turn)))"

text \<open>After a failed transaction the claim may nevertheless have been committed.\<close>

definition resolveClaim :: "SQLStore \<Rightarrow> sql_io \<Rightarrow> ClaimAttemptCommand \<Rightarrow> ClaimAttemptResult option tx" where
  "resolveClaim store io c =
     tx_bind (outside io (lookup_row io db_attempts (\<lambda>r. at_AttemptID r = ca_AttemptID c))) (\<lambda>found. case found of
       None \<Rightarrow> tx_return None
     | Some attemptRow \<Rightarrow>
         (case toAttempt attemptRow of
            Inl e \<Rightarrow> tx_fail ErrStoreIntegrity
          | Inr attempt \<Rightarrow>
              tx_check (\<not> attemptMatchesClaim attempt c) ErrAttemptConflict (
              tx_bind (outside io (take_row io db_turns (\<lambda>r. tr_TurnID r = ca_TurnID c))) (\<lambda>turnRow.
              case toTurn turnRow of
                Inl e \<Rightarrow> tx_fail ErrStoreIntegrity
              | Inr turn \<Rightarrow>
                  tx_check (\<not> claimPluginScopeAllows (ca_PluginScope c) (t_Plugin turn)) ErrPluginScopeMismatch (
                  tx_check (\<not> turnOwnsAttempt turnRow attempt \<or> ta_Status attempt \<noteq> AttemptStatusRunning) ErrAttemptFenced (
                  tx_bind (executionNow store io) (\<lambda>now.
                  tx_check (\<not> ta_LeaseExpiresAt attempt > now) ErrAttemptLeaseExpired (
                  tx_return (Some \<lparr>clr_Turn = turn, clr_Attempt = attempt, clr_Claimed = False,
                                   clr_Reclaimed = False, clr_Replay = True\<rparr>)))))))))"

definition ClaimAttempt :: "SQLStore \<Rightarrow> sql_io \<Rightarrow> go_context \<Rightarrow> ClaimAttemptCommand \<Rightarrow> ClaimAttemptResult tx" where
  "ClaimAttempt store io ctx c =
     tx_guard (first_error [contextError (ctx 0), ClaimAttemptCommand_Validate c])
       (tx_try (writeTransaction store io (ctx 1) (ctx 2) (claimAttempt_tx store io c)) (\<lambda>r. case r of
          Inr result \<Rightarrow> tx_return result
        | Inl txErr \<Rightarrow>
            tx_guard (contextError (ctx 3))
              (tx_try (resolveClaim store io c) (\<lambda>q. case q of
                 Inl e \<Rightarrow> tx_fail (normalize ''claim-attempt'' e)
               | Inr (Some replay) \<Rightarrow> tx_return replay
               | Inr None \<Rightarrow> tx_fail (normalize ''claim-attempt'' txErr)))))"

subsection \<open>Heartbeats\<close>

definition heartbeat_columns :: "time \<Rightarrow> time \<Rightarrow> sqlTurnAttemptRow \<Rightarrow> sqlTurnAttemptRow" where
  "heartbeat_columns now leaseExpiresAt r =
     r\<lparr>at_LastHeartbeatAt := now, at_LeaseExpiresAt := leaseExpiresAt, at_UpdatedAt := now\<rparr>"

definition heartbeatAttempt_tx :: "SQLStore \<Rightarrow> sql_io \<Rightarrow> AttemptFence \<Rightarrow> HeartbeatAttemptResult tx" where
  "heartbeatAttempt_tx store io f =
     tx_bind (lockTurn store io (\<lambda>r. tr_TurnID r = af_TurnID f)) (\<lambda>turnRow.
     case toTurn turnRow of
       Inl e \<Rightarrow> tx_fail ErrStoreIntegrity
     | Inr turn \<Rightarrow>
         tx_check (\<not> rowOwnsFence turnRow f \<or> TurnStatus_Terminal (t_Status turn)) ErrAttemptFenced (
         tx_bind (tx_catch (lockAttempt io (af_TurnID f) (af_AttemptID f) (sint (af_FencingToken f)))
                    (\<lambda>e. tx_fail (if errors_is e ErrAttemptNotFound then ErrAttemptFenced else e))) (\<lambda>attemptRow.
         case toAttempt attemptRow of
           Inl e \<Rightarrow> tx_fail ErrStoreIntegrity
         | Inr attempt \<Rightarrow>
             tx_check (\<not> attemptMatchesFence attempt f \<or> ta_Status attempt \<noteq> AttemptStatusRunning) ErrAttemptFenced (
             tx_bind (executionNow store io) (\<lambda>now.
             tx_check (\<not> ta_LeaseExpiresAt attempt > now) ErrAttemptLeaseExpired (
             tx_check (now < ta_LastHeartbeatAt attempt) ErrStoreIntegrity (
             tx_bind (tx_lift (executionLeaseExpiry store now)) (\<lambda>leaseExpiresAt.
             tx_bind (updateAttemptColumns io (at_ID attemptRow) (heartbeat_columns now leaseExpiresAt)) (\<lambda>_.
             tx_return \<lparr>hr_Attempt = attempt\<lparr>ta_LastHeartbeatAt := now, ta_LeaseExpiresAt := leaseExpiresAt,
                                               ta_UpdatedAt := now\<rparr>,
                        hr_CancelRequestedAt = t_CancelRequestedAt turn\<rparr>)))))))))"

definition HeartbeatAttempt ::
  "SQLStore \<Rightarrow> sql_io \<Rightarrow> go_context \<Rightarrow> HeartbeatAttemptCommand \<Rightarrow> HeartbeatAttemptResult tx"
where
  "HeartbeatAttempt store io ctx c =
     tx_guard (first_error [contextError (ctx 0), HeartbeatAttemptCommand_Validate c])
       (tx_catch (writeTransaction store io (ctx 1) (ctx 2) (heartbeatAttempt_tx store io (hb_Fence c)))
          (\<lambda>e. tx_fail (normalize ''heartbeat-attempt'' e)))"

subsection \<open>Discovery of work\<close>

definition claimNextSkips :: "go_error \<Rightarrow> bool" where
  "claimNextSkips err = list_ex (errors_is err)
     [ErrAttemptBusy, ErrTurnTerminal, ErrTurnNotFound, ErrAttemptCancelled, ErrAttemptFenceExhausted,
      ErrAttemptBudgetExhausted, ErrTurnReservationExecutionExpired]"

text \<open>
  The predicate compares the fields of the stored snapshot byte by byte. A snapshot that does not
  decode is taken to match no release; the store itself only writes snapshots that decode.
\<close>

definition claimPluginScopePredicate :: "EventPluginRef list \<Rightarrow> (sqlTurnRow \<Rightarrow> bool) result" where
  "claimPluginScopePredicate scope =
     (if length scope = 0 then Inr (\<lambda>_. True)
      else (case validateClaimPluginScope scope of
              Some e \<Rightarrow> Inl e
            | None \<Rightarrow> Inr (\<lambda>r. case tr_PluginSnapshotJSON r of
                None \<Rightarrow> False
              | Some p \<Rightarrow> list_ex (\<lambda>q. pr_ID p = pr_ID q \<and> pr_Version p = pr_Version q
                                      \<and> pr_ReleaseDigest p = pr_ReleaseDigest q) scope)))"

text \<open>The left join of a Turn with its active attempt; attempt ids are unique.\<close>

definition active_join :: "sql_db \<Rightarrow> sqlTurnRow \<Rightarrow> sqlTurnAttemptRow option" where
  "active_join db t = find (\<lambda>a. at_TurnID a = tr_TurnID t \<and> tr_ActiveAttemptID t = Some (at_AttemptID a)) (db_attempts db)"

definition lapsed :: "sqlTurnAttemptRow option \<Rightarrow> time \<Rightarrow> bool" where
  "lapsed a now = (case a of None \<Rightarrow> False
     | Some r \<Rightarrow> at_Status r = AttemptStatusRunning \<and> at_LeaseExpiresAt r \<le> now)"

definition claimable_turn :: "sql_db \<Rightarrow> int \<Rightarrow> time \<Rightarrow> sqlTurnRow \<Rightarrow> bool" where
  "claimable_turn db budget now t \<longleftrightarrow> tr_CancelRequestedAt t = None \<and> tr_FencingToken t < budget
     \<and> ((tr_Status t = TurnStatusQueued \<and> tr_ActiveAttemptID t = None)
        \<or> (tr_Status t = TurnStatusRunning \<and> tr_ActiveAttemptID t \<noteq> None \<and> lapsed (active_join db t) now))"

definition oldest_first :: "nat \<Rightarrow> sqlTurnRow list \<Rightarrow> sqlTurnRow list" where
  "oldest_first n rows = take n (sort_key (\<lambda>r. (tr_CreatedAt r, tr_ID r)) rows)"

definition scanClaimableTurns :: "SQLStore \<Rightarrow> sql_io \<Rightarrow> int \<Rightarrow> EventPluginRef list \<Rightarrow> TurnID list tx" where
  "scanClaimableTurns store io limit pluginScope =
     tx_bind (executionNow store io) (\<lambda>now.
     tx_bind (tx_lift (turnAttemptBudget store)) (\<lambda>budget.
     tx_bind (tx_lift (claimPluginScopePredicate pluginScope)) (\<lambda>plugin.
     tx_bind (outside io (query io (\<lambda>db. map tr_TurnID (oldest_first (nat limit)
       (filter (\<lambda>t. claimable_turn db budget now t \<and> plugin t) (db_turns db)))))) (\<lambda>ids.
     tx_check (list_ex (\<lambda>i. validatePathSegment ''turnId'' i MaxTurnIDBytes \<noteq> None) ids)
       ErrStoreIntegrity (tx_return ids)))))"

definition lookupAttemptByID :: "sql_io \<Rightarrow> string \<Rightarrow> sqlTurnAttemptRow option tx" where
  "lookupAttemptByID io attemptID = outside io (lookup_row io db_attempts (\<lambda>r. at_AttemptID r = attemptID))"

fun claim_next_loop ::
  "SQLStore \<Rightarrow> sql_io \<Rightarrow> go_context \<Rightarrow> nat \<Rightarrow> ClaimNextCommand \<Rightarrow> TurnID list \<Rightarrow> ClaimAttemptResult tx"
where
  "claim_next_loop store io ctx k c [] = tx_fail ErrNoClaimableTurn"
| "claim_next_loop store io ctx k c (turnID # rest) =
     tx_try (ClaimAttempt store io (\<lambda>n. ctx (k + n)) (claimFor c turnID)) (\<lambda>r. case r of
       Inr result \<Rightarrow> tx_return result
     | Inl claimErr \<Rightarrow>
         tx_guard (contextError (ctx (k + 4)))
           (if claimNextSkips claimErr then claim_next_loop store io ctx (k + 5) c rest
            else tx_fail claimErr))"

definition ClaimNext :: "SQLStore \<Rightarrow> sql_io \<Rightarrow> go_context \<Rightarrow> ClaimNextCommand \<Rightarrow> ClaimAttemptResult tx" where
  "ClaimNext store io ctx c =
     tx_guard (first_error [contextError (ctx 0), ClaimNextCommand_Validate c])
       (tx_bind (tx_catch (lookupAttemptByID io (cn_AttemptID c)) (\<lambda>e. tx_fail (normalize ''claim-next'' e)))
          (\<lambda>found. case found of
             Some existing \<Rightarrow> ClaimAttempt store io (\<lambda>n. ctx (1 + n)) (claimFor c (at_TurnID existing))
           | None \<Rightarrow>
               tx_bind (tx_catch (scanClaimableTurns store io (ClaimNextCommand_scanLimit c) (cn_PluginScope c))
                          (\<lambda>e. tx_fail (normalize ''claim-next'' e)))
                 (claim_next_loop store io ctx 1 c)))"

subsection \<open>Turns without a live executor\<close>

record sqlReclaimableRow =
  rr_TurnID :: string
  rr_TurnStatus :: TurnStatus
  rr_FencingToken :: int
  rr_CancelRequestedAt :: "time option"
  rr_AttemptID :: "string option"
  rr_WorkerID :: "string option"
  rr_LeaseExpiresAt :: "time option"

definition reclaim_reason :: "sqlReclaimableRow \<Rightarrow> int \<Rightarrow> ReclaimReason option" where
  "reclaim_reason row budget =
     (if rr_CancelRequestedAt row \<noteq> None then Some ReclaimReasonCancellationPending
      else if rr_FencingToken row \<ge> budget then Some ReclaimReasonAttemptsExhausted
      else if rr_AttemptID row \<noteq> None then Some ReclaimReasonLeaseExpired
      else None)"

definition toReclaimableTurn :: "sqlReclaimableRow \<Rightarrow> int \<Rightarrow> ReclaimableTurn result" where
  "toReclaimableTurn row budget =
     (if validatePathSegment ''turnId'' (rr_TurnID row) MaxTurnIDBytes \<noteq> None
         \<or> \<not> TurnStatus_Valid (rr_TurnStatus row) \<or> TurnStatus_Terminal (rr_TurnStatus row)
         \<or> rr_FencingToken row < 0 \<or> (word_of_int (rr_FencingToken row) :: Sequence) > MaxDurableSequence
         \<or> (case rr_AttemptID row of None \<Rightarrow> False
             | Some a \<Rightarrow> rr_LeaseExpiresAt row = None \<or> validatePrintableASCII ''attemptId'' a MaxAttemptIDBytes \<noteq> None)
      then Inl ErrStoreIntegrity
      else (case reclaim_reason row budget of
              None \<Rightarrow> Inl ErrStoreIntegrity
            | Some reason \<Rightarrow>
                if \<not> ReclaimReason_Valid reason then Inl ErrStoreIntegrity
                else Inr \<lparr>rt_TurnID = rr_TurnID row, rt_Status = rr_TurnStatus row, rt_Reason = reason,
                          rt_AttemptID = null_string (rr_AttemptID row),
                          rt_FencingToken = word_of_int (rr_FencingToken row),
                          rt_WorkerID = (if rr_AttemptID row = None then [] else null_string (rr_WorkerID row)),
                          rt_LeaseExpiresAt = (if rr_AttemptID row = None then None else rr_LeaseExpiresAt row),
                          rt_CancelRequestedAt = rr_CancelRequestedAt row\<rparr>))"

definition reclaimable_row :: "sql_db \<Rightarrow> sqlTurnRow \<Rightarrow> sqlReclaimableRow" where
  "reclaimable_row db t = (let a = active_join db t in
     \<lparr>rr_TurnID = tr_TurnID t, rr_TurnStatus = tr_Status t, rr_FencingToken = tr_FencingToken t,
      rr_CancelRequestedAt = tr_CancelRequestedAt t, rr_AttemptID = map_option at_AttemptID a,
      rr_WorkerID = map_option at_WorkerID a, rr_LeaseExpiresAt = map_option at_LeaseExpiresAt a\<rparr>)"

definition reclaimable_turn :: "sql_db \<Rightarrow> int \<Rightarrow> time \<Rightarrow> sqlTurnRow \<Rightarrow> bool" where
  "reclaimable_turn db budget now t \<longleftrightarrow> (tr_Status t = TurnStatusQueued \<or> tr_Status t = TurnStatusRunning)
     \<and> (tr_ActiveAttemptID t = None \<or> lapsed (active_join db t) now)
     \<and> (tr_CancelRequestedAt t \<noteq> None \<or> tr_FencingToken t \<ge> budget \<or> tr_ActiveAttemptID t \<noteq> None)"

fun reclaim_loop :: "bool \<Rightarrow> int \<Rightarrow> sqlReclaimableRow list \<Rightarrow> ReclaimableTurn list result" where
  "reclaim_loop actionableOnly budget [] = Inr []"
| "reclaim_loop actionableOnly budget (row # rest) =
     (case toReclaimableTurn row budget of
        Inl e \<Rightarrow> Inl e
      | Inr entry \<Rightarrow>
          map_sum id (\<lambda>entries. if actionableOnly \<and> \<not> ReclaimReason_Actionable (rt_Reason entry) then entries
                                else entry # entries)
            (reclaim_loop actionableOnly budget rest))"

definition ListReclaimableTurns ::
  "SQLStore \<Rightarrow> sql_io \<Rightarrow> go_context \<Rightarrow> ReclaimQuery \<Rightarrow> ReclaimableTurn list tx"
where
  "ListReclaimableTurns store io ctx q =
     tx_guard (first_error [contextError (ctx 0), ReclaimQuery_Validate q])
       (tx_catch
          (tx_bind (executionNow store io) (\<lambda>now.
           tx_bind (tx_lift (turnAttemptBudget store)) (\<lambda>budget.
           tx_bind (outside io (query io (\<lambda>db. map (reclaimable_row db)
             (oldest_first (nat (ReclaimQuery_limit q)) (filter (reclaimable_turn db budget now) (db_turns db)))))) (\<lambda>rows.
           case reclaim_loop (rcq_ActionableOnly q) budget rows of
             Inl e \<Rightarrow> tx_fail ErrStoreIntegrity
           | Inr entries \<Rightarrow> tx_return entries))))
          (\<lambda>e. tx_fail (normalize ''list-reclaimable'' e)))"

subsection \<open>What the transactions do\<close>

text \<open>
  Reading a transaction backwards. A claim that succeeds either returns an attempt that is already
  bound and live, without writing, or opens an epoch: \<open>opens_epoch\<close> says what it found and wrote.
\<close>

definition epoch_attempts ::
  "sqlTurnAttemptRow option \<Rightarrow> time \<Rightarrow> sqlTurnAttemptRow \<Rightarrow> sqlTurnAttemptRow list \<Rightarrow> sqlTurnAttemptRow list"
where
  "epoch_attempts expired now fresh rows =
     (case expired of None \<Rightarrow> rows | Some e \<Rightarrow> update_rows (\<lambda>r. at_ID r = at_ID e) (expired_columns now) rows) @ [fresh]"

definition free_turn :: "SQLStore \<Rightarrow> sqlTurnRow \<Rightarrow> Turn \<Rightarrow> bool" where
  "free_turn store row turn \<longleftrightarrow> (t_Status turn = TurnStatusQueued \<or> t_Status turn = TurnStatusRunning)
     \<and> t_CancelRequestedAt turn = None \<and> (\<exists>budget. turnAttemptBudget store = Inr budget \<and> tr_FencingToken row < budget)
     \<and> (tr_ActiveAttemptID row = None \<longrightarrow> tr_FencingToken row \<le> 0)
     \<and> (tr_ActiveAttemptID row \<noteq> None \<longrightarrow> t_Status turn = TurnStatusRunning)"

lemma runs_claim_guards: "runs (claim_guards store row turn) s u s' \<Longrightarrow> free_turn store row turn \<and> s' = s"
  unfolding claim_guards_def by (auto simp: tx_runs free_turn_def)

definition superseded :: "sql_db \<Rightarrow> sqlTurnRow \<Rightarrow> time \<Rightarrow> sqlTurnAttemptRow option \<Rightarrow> bool" where
  "superseded db row now expired = (case tr_ActiveAttemptID row of
     None \<Rightarrow> expired = None
   | Some active \<Rightarrow> (\<exists>r attempt. expired = Some r
       \<and> find (\<lambda>r. at_TurnID r = tr_TurnID row \<and> at_AttemptID r = active \<and> at_FencingToken r = tr_FencingToken row)
           (db_attempts db) = Some r
       \<and> toAttempt r = Inr attempt \<and> turnOwnsAttempt row attempt \<and> at_Status r = AttemptStatusRunning
       \<and> at_LeaseExpiresAt r \<le> now))"

lemma runs_claim_superseded:
  assumes "runs (claim_superseded io row now) s expired s'"
  shows "superseded (st_db s) row now expired \<and> st_db s' = st_db s"
proof (cases "tr_ActiveAttemptID row")
  case None
  with assms show ?thesis by (simp add: claim_superseded_def superseded_def tx_runs)
next
  case (Some active)
  with assms show ?thesis
    by (auto simp: claim_superseded_def superseded_def tx_runs not_less dest!: runs_lockAttempt)
      (metis toAttempt_Inr row_attempt_sel(3,4))+
qed

definition epoch_db ::
  "sql_db \<Rightarrow> ClaimAttemptCommand \<Rightarrow> sqlTurnAttemptRow option \<Rightarrow> time \<Rightarrow> TurnAttempt \<Rightarrow> nat \<Rightarrow> (sqlTurnRow \<Rightarrow> sqlTurnRow) \<Rightarrow> sql_db \<Rightarrow> bool"
where
  "epoch_db db c expired now attempt n columns db' \<longleftrightarrow>
     db_attempts db' = epoch_attempts expired now ((attempt_row attempt)\<lparr>at_ID := n\<rparr>) (db_attempts db)
     \<and> db_turns db' = update_rows (\<lambda>r. tr_TurnID r = ca_TurnID c) (\<lambda>r. columns (owned_columns attempt now r)) (db_turns db)
     \<and> db_outbox db' = db_outbox db \<and> db_reviews db' = db_reviews db \<and> db_operations db' = db_operations db
     \<and> n = db_autoinc db \<and> db_autoinc db < db_autoinc db'
     \<and> (\<forall>r \<in> set (db_attempts db). at_AttemptID r \<noteq> ca_AttemptID c)"


definition authorized :: "SQLStore \<Rightarrow> sql_db \<Rightarrow> Turn \<Rightarrow> bool" where
  "authorized store db turn \<longleftrightarrow> (\<forall>authority. ss_executionAuthority store = Some authority \<longrightarrow>
     \<not> ss_settlementViolated store \<and> (\<exists>n. authority n db turn = None))"

lemma runs_authorize:
  "runs (authorizeTurnReservationExecution store turn) s u s' \<Longrightarrow> st_db s' = st_db s \<and> authorized store (st_db s) turn"
  by (auto simp: authorizeTurnReservationExecution_def runs_def authorized_def split: option.splits if_splits)

text \<open>What a first claim adds to the Turn: it starts, and its log gets the event that says so.\<close>

definition starts_turn :: "sql_io \<Rightarrow> sqlTurnRow \<Rightarrow> Turn \<Rightarrow> time \<Rightarrow> Turn \<Rightarrow> (sqlTurnRow \<Rightarrow> sqlTurnRow) \<Rightarrow> sqlTurnEventRow list \<Rightarrow> bool"
where
  "starts_turn io row turn now nextTurn columns new_events \<longleftrightarrow>
     (if t_Status turn = TurnStatusQueued
      then nextTurn = turn\<lparr>t_UpdatedAt := now, t_Status := TurnStatusRunning, t_StartedAt := Some now\<rparr>
        \<and> (\<exists>seq draft event r n. nextSQLSequence (tr_LastEventSequence row) = Inr seq
            \<and> statusEvent TurnStatusRunning False = Inr draft \<and> buildEvent nextTurn seq draft = Inr event
            \<and> eventToSQLRow (io_json io) event now = Inr r
            \<and> columns = started_columns seq now \<and> new_events = [r\<lparr>er_ID := n\<rparr>])
      else nextTurn = turn\<lparr>t_UpdatedAt := now\<rparr> \<and> columns = id \<and> new_events = [])"

lemma runs_claim_started:
  assumes "runs (claim_started io row turn now) s (nextTurn, columns) s'"
  shows "\<exists>new_events k. starts_turn io row turn now nextTurn columns new_events
    \<and> st_db s' = (st_db s)\<lparr>db_events := db_events (st_db s) @ new_events, db_autoinc := db_autoinc (st_db s) + k\<rparr>"
proof (cases "t_Status turn = TurnStatusQueued")
  case True
  let ?n = "turn\<lparr>t_UpdatedAt := now, t_Status := TurnStatusRunning, t_StartedAt := Some now\<rparr>"
  from assms True obtain seq draft event where steps: "nextSQLSequence (tr_LastEventSequence row) = Inr seq"
      "statusEvent TurnStatusRunning False = Inr draft" "buildEvent ?n seq draft = Inr event"
      "runs (insertEvent io event now) s () s'" "nextTurn = ?n" "columns = started_columns seq now"
    unfolding claim_started_def Let_def by (auto simp: runs_bind runs_basic)
  from runs_insertEvent [OF steps(4)] obtain r where "eventToSQLRow (io_json io) event now = Inr r"
      "st_db s' = (st_db s)\<lparr>db_events := db_events (st_db s) @ [r\<lparr>er_ID := db_autoinc (st_db s)\<rparr>],
         db_autoinc := db_autoinc (st_db s) + 1\<rparr>" by auto
  with steps True show ?thesis
    by (intro exI [of _ "[r\<lparr>er_ID := db_autoinc (st_db s)\<rparr>]"] exI [of _ 1]) (auto simp: starts_turn_def)
next
  case False
  with assms show ?thesis
    by (intro exI [of _ "[]"] exI [of _ 0]) (auto simp: claim_started_def starts_turn_def Let_def tx_runs)
qed

definition opens_epoch :: "SQLStore \<Rightarrow> sql_io \<Rightarrow> ClaimAttemptCommand \<Rightarrow> sql_db \<Rightarrow> sqlTurnRow \<Rightarrow> Turn \<Rightarrow> time \<Rightarrow> TurnAttempt
    \<Rightarrow> sqlTurnAttemptRow option \<Rightarrow> Turn \<Rightarrow> sql_db \<Rightarrow> bool"
where
  "opens_epoch store io c db row turn now attempt expired nextTurn db' \<longleftrightarrow>
     clock_read io now \<and> free_turn store row turn \<and> superseded db row now expired \<and> authorized store db turn
     \<and> (\<exists>fence expiry. nextExecutionFence (tr_FencingToken row) = Inr fence \<and> executionLeaseExpiry store now = Inr expiry
          \<and> attempt = new_attempt c fence expiry now)
     \<and> TurnAttempt_Validate attempt = None \<and> Turn_Validate nextTurn = None
     \<and> (\<exists>n columns new_events. epoch_db db c expired now attempt n columns db'
          \<and> starts_turn io row turn now nextTurn columns new_events \<and> db_events db' = db_events db @ new_events)"

lemma runs_claim_epoch:
  assumes "runs (claim_epoch store io c row turn now expired) s r s'" "clock_read io now"
    and "free_turn store row turn" "superseded (st_db s) row now expired"
    and "\<forall>r \<in> set (db_attempts (st_db s)). at_AttemptID r \<noteq> ca_AttemptID c"
  shows "opens_epoch store io c (st_db s) row turn now (clr_Attempt r) expired (clr_Turn r) (st_db s')
    \<and> clr_Claimed r \<and> \<not> clr_Replay r \<and> clr_Reclaimed r = (expired \<noteq> None)"
proof -
  from assms(1) obtain s1 s2 s3 s4 fence expiry attempt nextTurn columns where
    steps: "runs (authorizeTurnReservationExecution store turn) s () s1"
      "runs (case expired of None \<Rightarrow> tx_return () | Some e \<Rightarrow> updateAttemptColumns io (at_ID e) (expired_columns now)) s1 () s2"
      "nextExecutionFence (tr_FencingToken row) = Inr fence" "executionLeaseExpiry store now = Inr expiry"
      "attempt = new_attempt c fence expiry now" "attemptToSQLRow attempt = Inr (attempt_row attempt)"
      "TurnAttempt_Validate attempt = None"
      "runs (create_attempt io (attempt_row attempt)) s2 () s3" "runs (claim_started io row turn now) s3 (nextTurn, columns) s4"
      "Turn_Validate nextTurn = None"
      "runs (updateTurnColumns store io (ca_TurnID c) (\<lambda>r. columns (owned_columns attempt now r))) s4 () s'"
      "r = \<lparr>clr_Turn = nextTurn, clr_Attempt = attempt, clr_Claimed = True, clr_Reclaimed = (expired \<noteq> None), clr_Replay = False\<rparr>"
    unfolding claim_epoch_def Let_def
    by (auto simp: runs_bind runs_basic runs_decode runs_check attemptToSQLRow_def split: option.splits)
  have s2: "st_db s2 = (st_db s)\<lparr>db_attempts := (case expired of None \<Rightarrow> db_attempts (st_db s)
      | Some e \<Rightarrow> update_rows (\<lambda>r. at_ID r = at_ID e) (expired_columns now) (db_attempts (st_db s)))\<rparr>"
    using steps(2) runs_authorize [OF steps(1)] runs_updateAttemptColumns
    by (cases expired) (auto simp: runs_basic dest!: runs_updateAttemptColumns)
  note s3 = runs_create_attempt [OF steps(8)]
  from runs_claim_started [OF steps(9)] obtain new_events k where
    s4: "starts_turn io row turn now nextTurn columns new_events"
      "st_db s4 = (st_db s3)\<lparr>db_events := db_events (st_db s3) @ new_events, db_autoinc := db_autoinc (st_db s3) + k\<rparr>"
    by blast
  have "epoch_db (st_db s) c expired now attempt (db_autoinc (st_db s)) columns (st_db s')"
    unfolding epoch_db_def epoch_attempts_def runs_updateTurnColumns [OF steps(11)] s4(2)
    using s3 s2 assms(5) by (cases expired) simp_all
  moreover have "db_events (st_db s') = db_events (st_db s) @ new_events"
    unfolding runs_updateTurnColumns [OF steps(11)] s4(2) using s3 s2 by simp
  ultimately show ?thesis using steps s4(1) assms(2-4) runs_authorize [OF steps(1)] unfolding opens_epoch_def by auto
qed

lemma claimAttempt_tx_cases:
  assumes "runs (claimAttempt_tx store io c) s r s'" "honest_io io"
  obtains (replay) row turn now where "turn_at (st_db s) (ca_TurnID c) = Some row" "toTurn row = Inr turn"
      "attempt_at (st_db s) (ca_AttemptID c) \<noteq> None" "clr_Replay r" "\<not> clr_Claimed r" "clr_Turn r = turn"
      "attemptMatchesClaim (clr_Attempt r) c" "turnOwnsAttempt row (clr_Attempt r)"
      "ta_Status (clr_Attempt r) = AttemptStatusRunning" "clock_read io now" "now < ta_LeaseExpiresAt (clr_Attempt r)"
      "map_option toAttempt (attempt_at (st_db s) (ca_AttemptID c)) = Some (Inr (clr_Attempt r))"
      "st_db s' = st_db s"
    | (epoch) row turn now expired where "turn_at (st_db s) (ca_TurnID c) = Some row" "toTurn row = Inr turn"
      "claimPluginScopeAllows (ca_PluginScope c) (t_Plugin turn)"
      "opens_epoch store io c (st_db s) row turn now (clr_Attempt r) expired (clr_Turn r) (st_db s')"
      "clr_Claimed r" "\<not> clr_Replay r" "clr_Reclaimed r = (expired \<noteq> None)"
proof -
  from assms(1) obtain row s1 turn found s2 where
    steps: "runs (lockTurn store io (\<lambda>r. tr_TurnID r = ca_TurnID c)) s row s1" "toTurn row = Inr turn"
      "claimPluginScopeAllows (ca_PluginScope c) (t_Plugin turn)"
      "runs (lookupAttemptByIDTx io (ca_AttemptID c)) s1 found s2"
      "runs (case found of Some existing \<Rightarrow> claim_replay store io c row turn existing
             | None \<Rightarrow> claim_fresh store io c row turn) s2 r s'"
    unfolding claimAttempt_tx_def by (auto simp: runs_bind runs_decode runs_check)
  have row: "turn_at (st_db s) (ca_TurnID c) = Some row" "st_db s1 = st_db s"
    using runs_lockTurn [OF steps(1)] by (auto simp: turn_at_def)
  note look = runs_lookup_row [OF steps(4) [unfolded lookupAttemptByIDTx_def]]
  have s2: "st_db s2 = st_db s" using look row(2) by simp
  show thesis
  proof (cases found)
    case None
    have none: "\<forall>r \<in> set (db_attempts (st_db s)). at_AttemptID r \<noteq> ca_AttemptID c"
      using runs_lookup_row_None [of io db_attempts _ s1 s2] steps(4) None assms(2) row(2)
      by (auto simp: lookupAttemptByIDTx_def find_None_iff)
    from steps(5) None obtain now s3 s4 expired where
      fresh: "runs (executionNow store io) s2 now s3" "free_turn store row turn"
        "runs (claim_superseded io row now) s3 expired s4" "runs (claim_epoch store io c row turn now expired) s4 r s'"
      unfolding claim_fresh_def by (auto simp: runs_bind dest!: runs_claim_guards)
    have clk: "clock_read io now" "st_db s3 = st_db s"
      using runs_executionNow [OF fresh(1)] s2 by (auto simp: clock_read_def)
    have sup: "superseded (st_db s4) row now expired" "st_db s4 = st_db s"
      using runs_claim_superseded [OF fresh(3)] clk(2) by simp_all
    note e = runs_claim_epoch [OF fresh(4) clk(1) fresh(2) sup(1), unfolded sup(2), OF none]
    show thesis by (rule epoch [OF row(1) steps(2,3), where now = now and expired = expired]) (simp_all add: e)
  next
    case (Some existing)
    have found: "attempt_at (st_db s) (ca_AttemptID c) = Some existing"
      using look Some row(2) by (simp add: attempt_at_def)
    from steps(5) Some obtain attempt now s3 where
      again: "toAttempt existing = Inr attempt" "attemptMatchesClaim attempt c" "turnOwnsAttempt row attempt"
        "ta_Status attempt = AttemptStatusRunning" "runs (executionNow store io) s2 now s3"
        "now < ta_LeaseExpiresAt attempt" "s' = s3"
        "r = \<lparr>clr_Turn = turn, clr_Attempt = attempt, clr_Claimed = False, clr_Reclaimed = False, clr_Replay = True\<rparr>"
      unfolding claim_replay_def by (auto simp: runs_bind runs_basic runs_decode runs_check)
    have "clock_read io now" "st_db s' = st_db s"
      using runs_executionNow [OF again(5)] s2 again(7) by (auto simp: clock_read_def)
    with again found row(1) steps(2) show thesis by (intro replay) simp_all
  qed
qed

lemma heartbeatAttempt_tx_cases:
  assumes "runs (heartbeatAttempt_tx store io f) s r s'"
  obtains row turn a now expiry where "turn_at (st_db s) (af_TurnID f) = Some row" "toTurn row = Inr turn"
    "rowOwnsFence row f" "\<not> TurnStatus_Terminal (t_Status turn)"
    "find (\<lambda>r. at_TurnID r = af_TurnID f \<and> at_AttemptID r = af_AttemptID f \<and> at_FencingToken r = sint (af_FencingToken f))
       (db_attempts (st_db s)) = Some a"
    "toAttempt a = Inr (row_attempt a)" "attemptMatchesFence (row_attempt a) f" "at_Status a = AttemptStatusRunning"
    "clock_read io now" "now < at_LeaseExpiresAt a" "at_LastHeartbeatAt a \<le> now" "executionLeaseExpiry store now = Inr expiry"
    "st_db s' = (st_db s)\<lparr>db_attempts := update_rows (\<lambda>r. at_ID r = at_ID a) (heartbeat_columns now expiry) (db_attempts (st_db s))\<rparr>"
    "hr_Attempt r = (row_attempt a)\<lparr>ta_LastHeartbeatAt := now, ta_LeaseExpiresAt := expiry, ta_UpdatedAt := now\<rparr>"
    "hr_CancelRequestedAt r = t_CancelRequestedAt turn"
proof -
  from assms obtain row s1 turn a s2 attempt now s3 expiry s4 where
    steps: "runs (lockTurn store io (\<lambda>r. tr_TurnID r = af_TurnID f)) s row s1" "toTurn row = Inr turn"
      "rowOwnsFence row f" "\<not> TurnStatus_Terminal (t_Status turn)"
      "runs (lockAttempt io (af_TurnID f) (af_AttemptID f) (sint (af_FencingToken f))) s1 a s2"
      "toAttempt a = Inr attempt" "attemptMatchesFence attempt f" "ta_Status attempt = AttemptStatusRunning"
      "runs (executionNow store io) s2 now s3" "now < ta_LeaseExpiresAt attempt" "ta_LastHeartbeatAt attempt \<le> now"
      "executionLeaseExpiry store now = Inr expiry"
      "runs (updateAttemptColumns io (at_ID a) (heartbeat_columns now expiry)) s3 () s4" "s' = s4"
      "r = \<lparr>hr_Attempt = attempt\<lparr>ta_LastHeartbeatAt := now, ta_LeaseExpiresAt := expiry, ta_UpdatedAt := now\<rparr>,
            hr_CancelRequestedAt = t_CancelRequestedAt turn\<rparr>"
    unfolding heartbeatAttempt_tx_def by (auto simp: runs_bind runs_basic runs_decode runs_check runs_catch_fail not_less)
  have a: "attempt = row_attempt a" using toAttempt_Inr [OF steps(6)] by simp
  show thesis
    by (rule that [of row turn a now expiry])
      (use steps a runs_lockTurn [OF steps(1)] runs_lockAttempt [OF steps(5)] runs_executionNow [OF steps(9)]
        runs_updateAttemptColumns [OF steps(13)] in \<open>auto simp: turn_at_def clock_read_def\<close>)
qed

subsection \<open>Epochs\<close>

text \<open>
  The invariant of execution. Attempts have unique numbers and ids, belong to a Turn and never
  carry a fence above the Turn's; a running attempt is the active one of its Turn and carries the
  Turn's fence. So a Turn has at most one running attempt.
\<close>

definition attempt_under :: "sqlTurnRow \<Rightarrow> sqlTurnAttemptRow \<Rightarrow> bool" where
  "attempt_under t a \<longleftrightarrow> tr_TurnID t = at_TurnID a \<and> at_FencingToken a \<le> tr_FencingToken t
     \<and> (at_Status a = AttemptStatusRunning \<longrightarrow>
          tr_ActiveAttemptID t = Some (at_AttemptID a) \<and> tr_FencingToken t = at_FencingToken a)"

definition attempts_ok :: "sql_db \<Rightarrow> bool" where
  "attempts_ok db \<longleftrightarrow> distinct (map tr_TurnID (db_turns db)) \<and> distinct (map at_ID (db_attempts db))
     \<and> distinct (map at_AttemptID (db_attempts db))
     \<and> (\<forall>a \<in> set (db_attempts db). at_ID a < db_autoinc db \<and> (\<exists>t \<in> set (db_turns db). attempt_under t a))"

text \<open>
  What any committed transaction keeps of the epochs: Turns stay and their fence never falls;
  attempts stay with their identity, and one that has ended never changes.
\<close>

definition same_attempt :: "sqlTurnAttemptRow \<Rightarrow> sqlTurnAttemptRow \<Rightarrow> bool" where
  "same_attempt a b \<longleftrightarrow> at_ID a = at_ID b \<and> at_AttemptID a = at_AttemptID b \<and> at_TurnID a = at_TurnID b
     \<and> at_FencingToken a = at_FencingToken b \<and> at_WorkerID a = at_WorkerID b
     \<and> at_WorkerBuildDigest a = at_WorkerBuildDigest b"

definition attempt_kept :: "sqlTurnAttemptRow \<Rightarrow> sqlTurnAttemptRow \<Rightarrow> bool" where
  "attempt_kept a a' \<longleftrightarrow> same_attempt a' a \<and> (at_Status a \<noteq> AttemptStatusRunning \<longrightarrow> a' = a)"

definition epochs_kept :: "sql_db \<Rightarrow> sql_db \<Rightarrow> bool" where
  "epochs_kept db db' \<longleftrightarrow>
     (\<forall>i t. turn_at db i = Some t \<longrightarrow> (\<exists>t'. turn_at db' i = Some t' \<and> tr_FencingToken t \<le> tr_FencingToken t'))
     \<and> (\<forall>i a. attempt_at db i = Some a \<longrightarrow> (\<exists>a'. attempt_at db' i = Some a' \<and> attempt_kept a a'))"

lemma attempt_kept_refl [simp]: "attempt_kept a a"
  by (simp add: attempt_kept_def same_attempt_def)

lemma attempt_kept_trans: "attempt_kept a b \<Longrightarrow> attempt_kept b c \<Longrightarrow> attempt_kept a c"
  by (auto simp: attempt_kept_def same_attempt_def)

lemma epochs_kept_refl [simp]: "epochs_kept db db"
  by (simp add: epochs_kept_def)

lemma epochs_kept_trans:
  assumes "epochs_kept a b" "epochs_kept b c"
  shows "epochs_kept a c"
proof -
  have "\<exists>t'. turn_at c i = Some t' \<and> tr_FencingToken t \<le> tr_FencingToken t'" if "turn_at a i = Some t" for i t
    using assms that unfolding epochs_kept_def by (blast intro: order_trans)
  moreover have "\<exists>x'. attempt_at c i = Some x' \<and> attempt_kept x x'" if "attempt_at a i = Some x" for i x
    using assms that unfolding epochs_kept_def by (blast intro: attempt_kept_trans)
  ultimately show ?thesis unfolding epochs_kept_def by blast
qed

text \<open>
  The contract that a kind of transaction has to meet to take part in execution, and what follows
  for every sequence of such transactions.
\<close>

locale execution_steps =
  fixes step :: "sql_db \<Rightarrow> sql_db \<Rightarrow> bool"
  assumes step_ok: "step db db' \<Longrightarrow> attempts_ok db \<Longrightarrow> attempts_ok db'"
    and step_kept: "step db db' \<Longrightarrow> attempts_ok db \<Longrightarrow> epochs_kept db db'"
begin

lemma steps_ok_kept: "step\<^sup>*\<^sup>* db db' \<Longrightarrow> attempts_ok db \<Longrightarrow> attempts_ok db' \<and> epochs_kept db db'"
  by (induction rule: rtranclp_induct) (auto intro: step_ok epochs_kept_trans step_kept)

lemma fence_monotone:
  assumes "step\<^sup>*\<^sup>* db db'" "attempts_ok db" "turn_at db i = Some t"
  shows "\<exists>t'. turn_at db' i = Some t' \<and> tr_FencingToken t \<le> tr_FencingToken t'"
  using steps_ok_kept [OF assms(1,2)] assms(3) by (auto simp: epochs_kept_def)

end

lemma turn_at_unique:
  "attempts_ok db \<Longrightarrow> t \<in> set (db_turns db) \<Longrightarrow> turn_at db (tr_TurnID t) = Some t"
  unfolding turn_at_def attempts_ok_def distinct_map by (intro find_unique) (auto dest: inj_onD)

lemma attempt_at_unique:
  "attempts_ok db \<Longrightarrow> a \<in> set (db_attempts db) \<Longrightarrow> attempt_at db (at_AttemptID a) = Some a"
  unfolding attempt_at_def attempts_ok_def distinct_map by (intro find_unique) (auto dest: inj_onD)

lemma attempts_okD:
  assumes "attempts_ok db" "a \<in> set (db_attempts db)" "turn_at db (at_TurnID a) = Some t"
  shows "attempt_under t a"
proof -
  from assms(1,2) obtain u where u: "u \<in> set (db_turns db)" "attempt_under u a" unfolding attempts_ok_def by blast
  then have "turn_at db (at_TurnID a) = Some u" using turn_at_unique [OF assms(1) u(1)] by (simp add: attempt_under_def)
  with assms(3) u(2) show ?thesis by simp
qed

lemma budget_bound: "turnAttemptBudget store = Inr budget \<Longrightarrow> 1 \<le> budget \<and> budget \<le> 64"
  by (auto simp: turnAttemptBudget_def split: if_splits)

text \<open>The next fence is one more than the Turn's, and both are within the budget.\<close>

lemma epoch_fence:
  assumes "opens_epoch store io c db row turn now attempt expired nextTurn db'" "toTurn row = Inr turn"
  shows "sint (ta_FencingToken attempt) = tr_FencingToken row + 1" "0 \<le> tr_FencingToken row"
    "\<exists>budget. turnAttemptBudget store = Inr budget \<and> tr_FencingToken row + 1 \<le> budget"
    "ta_ID attempt = ca_AttemptID c" "ta_TurnID attempt = ca_TurnID c" "ta_Status attempt = AttemptStatusRunning"
    "ta_WorkerID attempt = ca_WorkerID c" "ta_WorkerBuildDigest attempt = ca_WorkerBuildDigest c"
    "now < ta_LeaseExpiresAt attempt" "TurnAttempt_Validate attempt = None"
proof -
  from assms(1) obtain fence expiry budget where
    e: "nextExecutionFence (tr_FencingToken row) = Inr fence" "executionLeaseExpiry store now = Inr expiry"
      "attempt = new_attempt c fence expiry now" "turnAttemptBudget store = Inr budget" "tr_FencingToken row < budget"
      "TurnAttempt_Validate attempt = None"
    by (auto simp: opens_epoch_def free_turn_def)
  have "tr_FencingToken row < 2 ^ 64" using e(5) budget_bound [OF e(4)] by simp
  from nextExecutionFence_Inr [OF e(1) this] toTurn_Inr [OF assms(2)] e
  show "sint (ta_FencingToken attempt) = tr_FencingToken row + 1" "0 \<le> tr_FencingToken row"
    "\<exists>budget. turnAttemptBudget store = Inr budget \<and> tr_FencingToken row + 1 \<le> budget"
    "ta_ID attempt = ca_AttemptID c" "ta_TurnID attempt = ca_TurnID c" "ta_Status attempt = AttemptStatusRunning"
    "ta_WorkerID attempt = ca_WorkerID c" "ta_WorkerBuildDigest attempt = ca_WorkerBuildDigest c"
    "TurnAttempt_Validate attempt = None"
    by (auto simp: new_attempt_def)
  show "now < ta_LeaseExpiresAt attempt" using e(2,3)
    by (auto simp: new_attempt_def executionLeaseExpiry_def split: if_splits sum.splits)
qed

lemma starts_turn_columns:
  assumes "starts_turn io row turn now nextTurn columns es"
  shows "tr_TurnID (columns r) = tr_TurnID r" "tr_FencingToken (columns r) = tr_FencingToken r"
    "tr_ActiveAttemptID (columns r) = tr_ActiveAttemptID r"
  using assms by (auto simp: starts_turn_def started_columns_def split: if_splits)

lemma set_epoch_attempts:
  "a' \<in> set (epoch_attempts expired now fresh rows) \<Longrightarrow>
     a' = fresh \<or> (\<exists>a \<in> set rows. a' = (if (\<exists>e. expired = Some e \<and> at_ID a = at_ID e) then expired_columns now a else a))"
  by (auto simp: epoch_attempts_def set_update_rows split: option.splits)

lemma expired_columns_sel [simp]:
  "at_ID (expired_columns now a) = at_ID a" "at_AttemptID (expired_columns now a) = at_AttemptID a"
  "at_TurnID (expired_columns now a) = at_TurnID a" "at_FencingToken (expired_columns now a) = at_FencingToken a"
  "at_Status (expired_columns now a) = AttemptStatusExpired" "same_attempt (expired_columns now a) a"
  by (simp_all add: expired_columns_def same_attempt_def)

lemma map_epoch_attempts:
  "(\<And>a. g (expired_columns now a) = g a) \<Longrightarrow> map g (epoch_attempts expired now fresh rows) = map g rows @ [g fresh]"
  by (cases expired) (simp_all add: epoch_attempts_def map_update_rows)

lemma superseded_row:
  assumes "attempts_ok db" "superseded db row now expired" "a \<in> set (db_attempts db)" "attempt_under row a"
    and "at_Status a = AttemptStatusRunning"
  shows "expired = Some a"
proof -
  have act: "tr_ActiveAttemptID row = Some (at_AttemptID a)" using assms(4,5) by (simp add: attempt_under_def)
  with assms(2) obtain r where r: "expired = Some r"
      "find (\<lambda>r. at_TurnID r = tr_TurnID row \<and> at_AttemptID r = at_AttemptID a \<and> at_FencingToken r = tr_FencingToken row)
         (db_attempts db) = Some r" by (auto simp: superseded_def)
  from find_SomeD [OF r(2)] have "r \<in> set (db_attempts db)" "at_AttemptID r = at_AttemptID a" by auto
  then have "r = a" using assms(1,3) unfolding attempts_ok_def distinct_map by (blast dest: inj_onD)
  with r(1) show ?thesis by simp
qed

lemma epoch_attempts_ok:
  assumes ok: "attempts_ok db" and row: "turn_at db (ca_TurnID c) = Some row" "toTurn row = Inr turn"
    and e: "opens_epoch store io c db row turn now attempt expired nextTurn db'"
  shows "attempts_ok db'"
proof -
  from e obtain n columns es where db: "epoch_db db c expired now attempt n columns db'"
    and st: "starts_turn io row turn now nextTurn columns es" by (auto simp: opens_epoch_def)
  note fence = epoch_fence [OF e row(2)]
  let ?f = "\<lambda>r. columns (owned_columns attempt now r)" and ?new = "(attempt_row attempt)\<lparr>at_ID := n\<rparr>"
  have f: "tr_TurnID (?f r) = tr_TurnID r" "tr_ActiveAttemptID (?f r) = Some (ca_AttemptID c)"
    "tr_FencingToken (?f r) = tr_FencingToken row + 1" for r
    by (simp_all add: starts_turn_columns [OF st] owned_columns_def fence)
  have turns: "db_turns db' = update_rows (\<lambda>r. tr_TurnID r = ca_TurnID c) ?f (db_turns db)"
    and atts: "db_attempts db' = epoch_attempts expired now ?new (db_attempts db)"
    and auto_inc: "n = db_autoinc db" "db_autoinc db < db_autoinc db'"
    and fresh: "ca_AttemptID c \<notin> at_AttemptID ` set (db_attempts db)"
    using db unfolding epoch_db_def by (simp_all, metis imageE)
  have row_in: "row \<in> set (db_turns db)" "tr_TurnID row = ca_TurnID c"
    using find_SomeD [OF row(1) [unfolded turn_at_def]] by auto
  then have new_row: "?f row \<in> set (db_turns db')" unfolding turns set_update_rows by force
  have "map tr_TurnID (db_turns db') = map tr_TurnID (db_turns db)" unfolding turns by (rule map_update_rows) (simp add: f)
  moreover have "map at_ID (db_attempts db') = map at_ID (db_attempts db) @ [n]" unfolding atts
    by (subst map_epoch_attempts) simp_all
  moreover have "map at_AttemptID (db_attempts db') = map at_AttemptID (db_attempts db) @ [ca_AttemptID c]" unfolding atts
    by (subst map_epoch_attempts) (simp_all add: attempt_row_def fence(4))
  moreover have "at_ID a' < db_autoinc db' \<and> (\<exists>t \<in> set (db_turns db'). attempt_under t a')" if "a' \<in> set (db_attempts db')" for a'
    using set_epoch_attempts [OF that [unfolded atts]]
  proof
    assume "a' = ?new"
    then show ?thesis using new_row auto_inc row_in(2)
      by (intro conjI bexI [of _ "?f row"]) (simp_all add: attempt_under_def f attempt_row_def fence)
  next
    assume "\<exists>a \<in> set (db_attempts db). a' = (if (\<exists>e. expired = Some e \<and> at_ID a = at_ID e) then expired_columns now a else a)"
    then obtain a where a: "a \<in> set (db_attempts db)"
      "a' = (if (\<exists>e. expired = Some e \<and> at_ID a = at_ID e) then expired_columns now a else a)" by blast
    from ok a(1) obtain u where u: "u \<in> set (db_turns db)" "attempt_under u a" "at_ID a < db_autoinc db"
      by (auto simp: attempts_ok_def)
    have id: "at_ID a' < db_autoinc db'" using a(2) u(3) auto_inc by (simp split: if_splits)
    show ?thesis
    proof (cases "tr_TurnID u = ca_TurnID c")
      case True
      then have "u = row" using turn_at_unique [OF ok u(1)] row(1) by simp
      then have "at_Status a' \<noteq> AttemptStatusRunning"
        using superseded_row [OF ok _ a(1), of row now expired] e u(2) a(2) by (auto simp: opens_epoch_def)
      moreover have "at_TurnID a' = ca_TurnID c" "at_FencingToken a' \<le> tr_FencingToken row + 1"
        using \<open>u = row\<close> u(2) a(2) True by (auto simp: attempt_under_def)
      ultimately show ?thesis using id new_row row_in(2) by (intro conjI bexI [of _ "?f row"]) (simp_all add: attempt_under_def f)
    next
      case False
      then have "u \<in> set (db_turns db')" unfolding turns set_update_rows using u(1) by force
      moreover have "attempt_under u a'" using u(2) a(2) by (auto simp: attempt_under_def)
      ultimately show ?thesis using id by blast
    qed
  qed
  ultimately show ?thesis using ok auto_inc fresh unfolding attempts_ok_def by auto
qed

lemma epoch_kept:
  assumes ok: "attempts_ok db" and row: "turn_at db (ca_TurnID c) = Some row" "toTurn row = Inr turn"
    and e: "opens_epoch store io c db row turn now attempt expired nextTurn db'"
  shows "epochs_kept db db'"
    "\<exists>row'. turn_at db' (ca_TurnID c) = Some row' \<and> tr_ActiveAttemptID row' = Some (ca_AttemptID c)
       \<and> tr_FencingToken row' = tr_FencingToken row + 1"
    "\<exists>n. attempt_at db' (ca_AttemptID c) = Some ((attempt_row attempt)\<lparr>at_ID := n\<rparr>)"
proof -
  from e obtain n columns es where db: "epoch_db db c expired now attempt n columns db'"
    and st: "starts_turn io row turn now nextTurn columns es" by (auto simp: opens_epoch_def)
  note fence = epoch_fence [OF e row(2)]
  let ?f = "\<lambda>r. columns (owned_columns attempt now r)"
  have turns: "db_turns db' = update_rows (\<lambda>r. tr_TurnID r = ca_TurnID c) ?f (db_turns db)"
    and atts: "db_attempts db' = epoch_attempts expired now ((attempt_row attempt)\<lparr>at_ID := n\<rparr>) (db_attempts db)"
    and none: "attempt_at db (ca_AttemptID c) = None"
    using db by (auto simp: epoch_db_def attempt_at_def find_None_iff)
  have f: "tr_TurnID (?f r) = tr_TurnID r" "tr_ActiveAttemptID (?f r) = Some (ca_AttemptID c)"
    "tr_FencingToken (?f r) = tr_FencingToken row + 1" for r
    by (simp_all add: starts_turn_columns [OF st] owned_columns_def fence)
  have row_id: "tr_TurnID row = ca_TurnID c" using find_SomeD [OF row(1) [unfolded turn_at_def]] by simp
  have at: "turn_at db' i = map_option (\<lambda>r. if tr_TurnID r = ca_TurnID c then ?f r else r) (turn_at db i)" for i
    by (rule turn_at_update [OF turns]) (simp add: f)
  show "\<exists>row'. turn_at db' (ca_TurnID c) = Some row' \<and> tr_ActiveAttemptID row' = Some (ca_AttemptID c)
       \<and> tr_FencingToken row' = tr_FencingToken row + 1" using at row(1) row_id f by simp
  let ?g = "\<lambda>a. if (\<exists>e. expired = Some e \<and> at_ID a = at_ID e) then expired_columns now a else a"
  have att: "attempt_at db' i = (case attempt_at db i of Some a \<Rightarrow> Some (?g a)
      | None \<Rightarrow> if ca_AttemptID c = i then Some ((attempt_row attempt)\<lparr>at_ID := n\<rparr>) else None)" for i
    by (cases expired) (auto simp: attempt_at_def atts epoch_attempts_def find_append find_update_rows attempt_row_def
        fence(4) split: option.split)
  then show "\<exists>n. attempt_at db' (ca_AttemptID c) = Some ((attempt_row attempt)\<lparr>at_ID := n\<rparr>)" using none by auto
  have "\<exists>t'. turn_at db' i = Some t' \<and> tr_FencingToken t \<le> tr_FencingToken t'" if "turn_at db i = Some t" for i t
  proof (cases "tr_TurnID t = ca_TurnID c")
    case True
    then have "i = ca_TurnID c" using find_SomeD [OF that [unfolded turn_at_def]] by simp
    with that row(1) show ?thesis by (simp add: at f True)
  qed (simp add: at that)
  moreover have "\<exists>a'. attempt_at db' i = Some a' \<and> attempt_kept a a'" if a: "attempt_at db i = Some a" for i a
  proof -
    have "at_Status a = AttemptStatusRunning" if x: "expired = Some x" "at_ID a = at_ID x" for x
    proof -
      have "x \<in> set (db_attempts db)" "at_Status x = AttemptStatusRunning"
        using e x(1) by (auto simp: opens_epoch_def superseded_def split: option.splits dest: find_SomeD)
      moreover have "a \<in> set (db_attempts db)" using find_SomeD [OF a [unfolded attempt_at_def]] by simp
      ultimately have "a = x" using ok x(2) unfolding attempts_ok_def distinct_map by (blast dest: inj_onD)
      with \<open>at_Status x = AttemptStatusRunning\<close> show ?thesis by simp
    qed
    then show ?thesis using att [of i] a by (auto simp: attempt_kept_def) (simp add: same_attempt_def)
  qed
  ultimately show "epochs_kept db db'" unfolding epochs_kept_def by blast
qed

lemma heartbeat_columns_sel [simp]:
  "at_ID (heartbeat_columns now t a) = at_ID a" "at_AttemptID (heartbeat_columns now t a) = at_AttemptID a"
  "at_TurnID (heartbeat_columns now t a) = at_TurnID a" "at_FencingToken (heartbeat_columns now t a) = at_FencingToken a"
  "at_Status (heartbeat_columns now t a) = at_Status a" "same_attempt (heartbeat_columns now t a) a"
  by (simp_all add: heartbeat_columns_def same_attempt_def)

lemma heartbeat_ok_kept:
  assumes ok: "attempts_ok db" and a: "a \<in> set (db_attempts db)" "at_Status a = AttemptStatusRunning"
    and db': "db' = db\<lparr>db_attempts := update_rows (\<lambda>r. at_ID r = at_ID a) (heartbeat_columns now t) (db_attempts db)\<rparr>"
  shows "attempts_ok db'" "epochs_kept db db'"
proof -
  let ?g = "\<lambda>r. if at_ID r = at_ID a then heartbeat_columns now t r else r"
  have atts: "db_attempts db' = update_rows (\<lambda>r. at_ID r = at_ID a) (heartbeat_columns now t) (db_attempts db)"
    and turns: "db_turns db' = db_turns db" "db_autoinc db' = db_autoinc db" by (simp_all add: db')
  have under: "attempt_under u (?g r) = attempt_under u r" for u r by (simp add: attempt_under_def)
  have "at_ID r' < db_autoinc db \<and> (\<exists>u \<in> set (db_turns db). attempt_under u r')" if "r' \<in> set (db_attempts db')" for r'
  proof -
    from that obtain r where r: "r \<in> set (db_attempts db)" "r' = ?g r" unfolding atts set_update_rows by blast
    from ok r(1) obtain u where "u \<in> set (db_turns db)" "attempt_under u r" "at_ID r < db_autoinc db"
      unfolding attempts_ok_def by blast
    moreover have "at_ID r' = at_ID r" by (simp add: r(2))
    moreover have "attempt_under u r' = attempt_under u r" unfolding r(2) by (rule under)
    ultimately show ?thesis by auto
  qed
  moreover have "map at_ID (db_attempts db') = map at_ID (db_attempts db)"
    "map at_AttemptID (db_attempts db') = map at_AttemptID (db_attempts db)"
    unfolding atts by (simp_all add: map_update_rows)
  ultimately show "attempts_ok db'" using ok unfolding attempts_ok_def turns by simp
  have same: "r = a" if "attempt_at db i = Some r" "at_ID r = at_ID a" for i r
    using ok a(1) that(2) find_SomeD [OF that(1) [unfolded attempt_at_def]] unfolding attempts_ok_def distinct_map
    by (blast dest: inj_onD)
  have at: "attempt_at db' i = map_option ?g (attempt_at db i)" for i
    by (rule attempt_at_update [OF atts]) simp
  have "\<exists>r'. attempt_at db' i = Some r' \<and> attempt_kept r r'" if "attempt_at db i = Some r" for i r
    using same [OF that] a(2) at that by (auto simp: attempt_kept_def) (simp add: same_attempt_def)
  then show "epochs_kept db db'" by (auto simp: epochs_kept_def turn_at_def turns)
qed

inductive attempt_step :: "SQLStore \<Rightarrow> sql_db \<Rightarrow> sql_db \<Rightarrow> bool" for store where
  claim: "honest_io io \<Longrightarrow> runs (claimAttempt_tx store io c) s r s' \<Longrightarrow> attempt_step store (st_db s) (st_db s')"
| heartbeat: "runs (heartbeatAttempt_tx store io f) s r s' \<Longrightarrow> attempt_step store (st_db s) (st_db s')"

lemma attempt_step_ok_kept:
  assumes "attempt_step store db db'" "attempts_ok db"
  shows "attempts_ok db' \<and> epochs_kept db db'"
  using assms
proof (induction rule: attempt_step.induct)
  case (claim io c s r s')
  from claim(2,1) show ?case
  proof (cases rule: claimAttempt_tx_cases)
    case replay
    then show ?thesis using claim.prems by simp
  next
    case (epoch row turn now expired)
    then show ?thesis using epoch_attempts_ok [OF claim.prems epoch(1,2,4)] epoch_kept(1) [OF claim.prems epoch(1,2,4)] by simp
  qed
next
  case (heartbeat io f s r s')
  from heartbeat(1) show ?case
  proof (cases rule: heartbeatAttempt_tx_cases)
    case (1 row turn a now expiry)
    have "a \<in> set (db_attempts (st_db s))" using find_SomeD [OF 1(5)] by simp
    from heartbeat_ok_kept [OF heartbeat.prems this 1(8,13)] show ?thesis by simp
  qed
qed

interpretation sql_execution: execution_steps "attempt_step store" for store
  by unfold_locales (use attempt_step_ok_kept in blast)+

lemma claimed_fence:
  assumes "runs (claimAttempt_tx store io c) s r s'" "honest_io io" "attempts_ok (st_db s)"
  shows "\<exists>row'. turn_at (st_db s') (ca_TurnID c) = Some row' \<and> tr_FencingToken row' = sint (ta_FencingToken (clr_Attempt r))
    \<and> tr_ActiveAttemptID row' = Some (ta_ID (clr_Attempt r)) \<and> ta_TurnID (clr_Attempt r) = ca_TurnID c"
  using assms(1,2)
proof (cases rule: claimAttempt_tx_cases)
  case (replay row turn now)
  then show ?thesis by (auto simp: turnOwnsAttempt_def attemptMatchesClaim_def)
next
  case (epoch row turn now expired)
  from epoch_kept(2) [OF assms(3) epoch(1,2,4)] epoch_fence [OF epoch(4,2)] show ?thesis by auto
qed

lemma claimed_epoch_rises:
  assumes "runs (claimAttempt_tx store io c) s r s'" "honest_io io" "attempts_ok (st_db s)" "clr_Claimed r"
    and "turn_at (st_db s) (ca_TurnID c) = Some row"
  shows "sint (ta_FencingToken (clr_Attempt r)) = tr_FencingToken row + 1"
  using assms(1,2)
proof (cases rule: claimAttempt_tx_cases)
  case (replay row turn now)
  then show ?thesis using assms(4) by simp
next
  case (epoch row' turn now expired)
  then show ?thesis using epoch_fence(1) [OF epoch(4,2)] assms(5) by simp
qed

lemma heartbeat_fenced:
  assumes "turn_at (st_db s) (af_TurnID f) = Some row" "tr_FencingToken row \<noteq> sint (af_FencingToken f)"
  shows "\<not> runs (heartbeatAttempt_tx store io f) s r s'"
proof
  assume "runs (heartbeatAttempt_tx store io f) s r s'"
  then show False
    by (cases rule: heartbeatAttempt_tx_cases) (use assms in \<open>auto simp: rowOwnsFence_def\<close>)
qed

lemma runs_HeartbeatAttempt:
  "runs (HeartbeatAttempt store io ctx h) s r s' \<Longrightarrow>
     \<exists>t1 t2. st_db t1 = io_others io (st_tick s) (st_db s) \<and> runs (heartbeatAttempt_tx store io (hb_Fence h)) t1 r t2
       \<and> st_db s' = st_db t2"
  unfolding HeartbeatAttempt_def runs_guard runs_catch_fail by (blast dest: runs_writeTransaction)

subsection \<open>Lost answers\<close>

text \<open>
  An environment in which every commit is applied but reported as failed, and nothing else goes
  wrong.
\<close>

definition lossy_io :: "sql_io \<Rightarrow> bool" where
  "lossy_io io \<longleftrightarrow> (\<forall>n. io_fault io n = None \<and> (\<exists>e. io_commit io n = Some (e, True))) \<and> io_others io = (\<lambda>_ db. db)"

lemma lossy_take_row:
  "lossy_io io \<Longrightarrow> take_row io table p s =
     (case find p (table (st_db s)) of None \<Rightarrow> Inl ErrRecordNotFound | Some row \<Rightarrow> Inr row, ticked s (st_db s))"
  by (simp add: lossy_io_def take_row_def statement_def ticked_def split: option.split)

lemma lossy_lookup_row:
  "lossy_io io \<Longrightarrow> lookup_row io table p s = (Inr (find p (table (st_db s))), ticked s (st_db s))"
  by (simp add: lookup_row_def tx_try_def lossy_take_row tx_return_def split: option.split)

lemma lossy_outside: "lossy_io io \<Longrightarrow> outside io m s = m s"
  by (simp add: lossy_io_def outside_def)

lemma lossy_writeTransaction:
  assumes "lossy_io io" "contextError c1 = None" "contextError c2 = None" "body (ticked s (st_db s)) = (Inr x, s2)"
  shows "\<exists>e. writeTransaction store io c1 c2 body s = (Inl e, ticked s2 (st_db s2))"
proof -
  obtain e where "io_commit io (st_tick s2) = Some (e, True)" using assms(1) by (auto simp: lossy_io_def)
  moreover have "ticked s (st_db s) = s\<lparr>st_tick := Suc (st_tick s)\<rparr>" by (cases s) (simp add: ticked_def)
  ultimately show ?thesis using assms
    by (auto simp: writeTransaction_def Transaction_def tx_guard_def tx_bind_def sql_begin_def statement_def lossy_io_def
        sql_commit_def Let_def) (cases s2, simp add: ticked_def)
qed

lemma printable_name: "validatePrintableASCII n v k = None \<longleftrightarrow> validatePrintableASCII m v k = None"
  by (simp add: validatePrintableASCII_def err_simps)

lemma epoch_turn:
  assumes row: "turn_at db (ca_TurnID c) = Some row" "toTurn row = Inr turn"
    and e: "opens_epoch store io c db row turn now attempt expired nextTurn db'"
  shows "\<exists>row'. turn_at db' (ca_TurnID c) = Some row' \<and> toTurn row' = Inr nextTurn \<and> turnOwnsAttempt row' attempt
    \<and> t_Plugin nextTurn = t_Plugin turn"
proof -
  from e obtain n columns es where db: "epoch_db db c expired now attempt n columns db'"
    and st: "starts_turn io row turn now nextTurn columns es" and v: "Turn_Validate nextTurn = None"
    by (auto simp: opens_epoch_def)
  note fence = epoch_fence [OF e row(2)]
  let ?row' = "columns (owned_columns attempt now row)"
  have id: "tr_TurnID row = ca_TurnID c" using find_SomeD [OF row(1) [unfolded turn_at_def]] by simp
  have at: "turn_at db' (ca_TurnID c) = Some ?row'"
    using turn_at_update [of db' "ca_TurnID c" "\<lambda>r. columns (owned_columns attempt now r)" db "ca_TurnID c"] db row(1) id
      starts_turn_columns [OF st] by (simp add: epoch_db_def owned_columns_def)
  have owns: "turnOwnsAttempt ?row' attempt"
    using fence by (simp add: turnOwnsAttempt_def starts_turn_columns [OF st] owned_columns_def id)
  from row(2) obtain p where p: "tr_PluginSnapshotJSON row = Some p" "turn = row_turn row p" using toTurn_Inr by blast
  have seq: "1 \<le> tr_LastEventSequence ?row'" "(word_of_int (tr_LastEventSequence ?row') :: Sequence) \<le> MaxDurableSequence"
  proof (atomize (full), cases "t_Status turn = TurnStatusQueued")
    case True
    with st obtain seq draft event where "buildEvent nextTurn seq draft = Inr event" "columns = started_columns seq now"
      by (auto simp: starts_turn_def)
    then show "1 \<le> tr_LastEventSequence ?row' \<and> (word_of_int (tr_LastEventSequence ?row') :: Sequence) \<le> MaxDurableSequence"
      using built_event(9,10) [of nextTurn seq draft event] sint_positive by (simp add: started_columns_def)
  next
    case False
    with st have "columns = id" by (simp add: starts_turn_def)
    with row(2) show "1 \<le> tr_LastEventSequence ?row' \<and> (word_of_int (tr_LastEventSequence ?row') :: Sequence) \<le> MaxDurableSequence"
      by (auto simp: toTurn_def owned_columns_def not_less split: if_splits)
  qed
  have plugin: "tr_PluginSnapshotJSON ?row' = Some p" "row_turn ?row' p = nextTurn"
    using st p by (auto simp: starts_turn_def started_columns_def owned_columns_def row_turn_def split: if_splits)
  have "validatePrintableASCII ''activeAttemptId'' (ca_AttemptID c) MaxAttemptIDBytes = None"
    "ta_FencingToken attempt \<le> MaxDurableSequence"
    using fence(10) printable_name [of "''activeAttemptId''" _ _ "''attemptId''"]
    by (simp_all add: TurnAttempt_Validate_def AttemptFence_Validate_def TurnAttempt_Fence_def err_simps fence(4) not_less)
  moreover have "tr_FencingToken ?row' = sint (ta_FencingToken attempt)" "tr_ActiveAttemptID ?row' = Some (ca_AttemptID c)"
    by (simp_all add: starts_turn_columns [OF st] owned_columns_def fence(4))
  moreover have "1 \<le> sint (ta_FencingToken attempt)" using fence(1,2) by simp
  ultimately have "toTurn ?row' = Inr nextTurn" using seq plugin v unfolding toTurn_def by (simp add: not_less)
  moreover have "t_Plugin nextTurn = t_Plugin turn" using st by (auto simp: starts_turn_def split: if_splits)
  ultimately show ?thesis using at owns by blast
qed

subsection \<open>Scans\<close>

abbreviation older :: "sqlTurnRow \<Rightarrow> sqlTurnRow \<Rightarrow> bool" where
  "older x y \<equiv> (tr_CreatedAt x, tr_ID x) \<le> (tr_CreatedAt y, tr_ID y)"

lemma oldest_first:
  "length (oldest_first n rows) = min n (length rows)" "set (oldest_first n rows) \<subseteq> set rows"
  "sorted_wrt older (oldest_first n rows)"
  "x \<in> set rows \<Longrightarrow> x \<notin> set (oldest_first n rows) \<Longrightarrow> y \<in> set (oldest_first n rows) \<Longrightarrow> older y x"
proof -
  let ?k = "\<lambda>r. (tr_CreatedAt r, tr_ID r)"
  let ?s = "sort_key ?k rows"
  show "length (oldest_first n rows) = min n (length rows)" by (simp add: oldest_first_def)
  show "set (oldest_first n rows) \<subseteq> set rows" using set_take_subset [of n ?s] by (simp add: oldest_first_def)
  have sorted: "sorted_wrt older ?s" using sorted_sort_key [of ?k rows] by (simp only: sorted_map)
  then show "sorted_wrt older (oldest_first n rows)" unfolding oldest_first_def by (rule sorted_wrt_take)
  assume x: "x \<in> set rows" "x \<notin> set (oldest_first n rows)" and y: "y \<in> set (oldest_first n rows)"
  have "sorted_wrt older (take n ?s @ drop n ?s)" using sorted by simp
  moreover have "x \<in> set (drop n ?s)"
  proof -
    have "set (take n ?s) \<union> set (drop n ?s) = set rows" by (metis append_take_drop_id set_append set_sort)
    with x show ?thesis unfolding oldest_first_def by blast
  qed
  ultimately show "older y x" using y unfolding oldest_first_def sorted_wrt_append by blast
qed

definition in_scope :: "EventPluginRef list \<Rightarrow> sqlTurnRow \<Rightarrow> bool" where
  "in_scope scope t \<longleftrightarrow> scope = [] \<or> (\<exists>p \<in> set scope. tr_PluginSnapshotJSON t = Some p)"

lemma claimPluginScopePredicate_Inr: "claimPluginScopePredicate scope = Inr f \<Longrightarrow> f = in_scope scope"
  by (auto simp: claimPluginScopePredicate_def in_scope_def list_ex_iff fun_eq_iff split: if_splits option.splits)
    (metis EventPluginRef.equality old.unit.exhaust)+

lemma runs_scan:
  assumes "runs (scanClaimableTurns store io limit scope) s ids s'"
  shows "\<exists>now budget n. clock_read io now \<and> turnAttemptBudget store = Inr budget
    \<and> ids = map tr_TurnID (oldest_first (nat limit) (filter (\<lambda>t. claimable_turn (io_others io n (st_db s)) budget now t \<and> in_scope scope t)
        (db_turns (io_others io n (st_db s)))))"
proof -
  from assms obtain now s1 budget plugin s2 where
    steps: "runs (executionNow store io) s now s1" "turnAttemptBudget store = Inr budget" "claimPluginScopePredicate scope = Inr plugin"
      "runs (outside io (query io (\<lambda>db. map tr_TurnID (oldest_first (nat limit)
         (filter (\<lambda>t. claimable_turn db budget now t \<and> plugin t) (db_turns db)))))) s1 ids s2"
    unfolding scanClaimableTurns_def runs_bind runs_basic runs_check by blast
  note now = runs_executionNow [OF steps(1)]
  show ?thesis
    by (intro exI [of _ now] exI [of _ budget] exI [of _ "st_tick s1"])
      (use steps now claimPluginScopePredicate_Inr [OF steps(3)] in \<open>auto simp: outside_def runs_def query_def statement_def clock_read_def
        split: option.splits\<close>)
qed

lemma reclaim_loop_Inr:
  "reclaim_loop only budget rows = Inr es \<Longrightarrow> e \<in> set es \<Longrightarrow>
     (\<exists>row \<in> set rows. toReclaimableTurn row budget = Inr e) \<and> (only \<longrightarrow> ReclaimReason_Actionable (rt_Reason e))"
  by (induction rows arbitrary: es) (auto split: sum.splits if_splits simp: map_sum_def)

lemma runs_ListReclaimable:
  assumes "runs (ListReclaimableTurns store io ctx q) s es s'"
  shows "\<exists>now budget n. clock_read io now \<and> turnAttemptBudget store = Inr budget
    \<and> reclaim_loop (rcq_ActionableOnly q) budget (map (reclaimable_row (io_others io n (st_db s)))
        (oldest_first (nat (ReclaimQuery_limit q)) (filter (reclaimable_turn (io_others io n (st_db s)) budget now)
          (db_turns (io_others io n (st_db s)))))) = Inr es"
proof -
  from assms obtain now s1 budget rows s2 where
    steps: "runs (executionNow store io) s now s1" "turnAttemptBudget store = Inr budget"
      "runs (outside io (query io (\<lambda>db. map (reclaimable_row db)
         (oldest_first (nat (ReclaimQuery_limit q)) (filter (reclaimable_turn db budget now) (db_turns db)))))) s1 rows s2"
      "reclaim_loop (rcq_ActionableOnly q) budget rows = Inr es"
    unfolding ListReclaimableTurns_def runs_guard runs_catch_fail runs_bind runs_basic runs_decode by blast
  note now = runs_executionNow [OF steps(1)]
  show ?thesis
    by (intro exI [of _ now] exI [of _ budget] exI [of _ "st_tick s1"])
      (use steps now in \<open>auto simp: outside_def runs_def query_def statement_def clock_read_def split: option.splits\<close>)
qed

subsection \<open>A sample Turn\<close>

text \<open>A running Turn whose first worker has stopped, and two workers that claim it in turn.\<close>

definition sample_attempt_row :: sqlTurnAttemptRow where
  "sample_attempt_row = \<lparr>at_ID = 2, at_AttemptID = ''att-1'', at_TurnID = ''turn-1'', at_FencingToken = 1,
     at_Status = AttemptStatusRunning, at_WorkerID = ''w-1'', at_WorkerBuildDigest = ''b'', at_ClaimedAt = sample_time,
     at_LastHeartbeatAt = sample_time, at_LeaseExpiresAt = sample_time + 30 * Second, at_FinishedAt = None,
     at_CreatedAt = sample_time, at_UpdatedAt = sample_time\<rparr>"

definition sample_running :: sql_state where
  "sample_running = \<lparr>st_db = empty_db\<lparr>db_turns := [sample_turn_row], db_attempts := [sample_attempt_row], db_autoinc := 3\<rparr>,
     st_tick = 0\<rparr>"

definition sample_claim_command :: "string \<Rightarrow> string \<Rightarrow> ClaimAttemptCommand" where
  "sample_claim_command a w = \<lparr>ca_TurnID = ''turn-1'', ca_AttemptID = a, ca_WorkerID = w, ca_WorkerBuildDigest = ''b'',
     ca_PluginScope = []\<rparr>"

definition sample_second :: "ClaimAttemptResult result \<times> sql_state" where
  "sample_second = claimAttempt_tx sample_sql (sample_io (sample_time + 31 * Second)) (sample_claim_command ''att-2'' ''w-2'') sample_running"

definition sample_third :: "ClaimAttemptResult result \<times> sql_state" where
  "sample_third = claimAttempt_tx sample_sql (sample_io (sample_time + 62 * Second)) (sample_claim_command ''att-3'' ''w-3'') (snd sample_second)"

lemma sample_attempts_ok: "attempts_ok (st_db sample_running)"
  by code_simp

lemma result_run: "\<not> isl (fst (m s)) \<Longrightarrow> runs m s (projr (fst (m s))) (snd (m s))"
  by (simp add: runs_def prod_eq_iff)

lemma sample_second_runs:
  "runs (claimAttempt_tx sample_sql (sample_io (sample_time + 31 * Second)) (sample_claim_command ''att-2'' ''w-2''))
     sample_running (projr (fst sample_second)) (snd sample_second)"
  "clr_Claimed (projr (fst sample_second))"
proof -
  let ?m = "claimAttempt_tx sample_sql (sample_io (sample_time + 31 * Second)) (sample_claim_command ''att-2'' ''w-2'')"
  have "\<not> isl (fst sample_second)" by code_simp
  then show "runs ?m (sample_running) (projr (fst sample_second)) (snd sample_second)" unfolding sample_second_def by (rule result_run)
  show "clr_Claimed (projr (fst sample_second))" by code_simp
qed

lemma sample_third_runs:
  "runs (claimAttempt_tx sample_sql (sample_io (sample_time + 62 * Second)) (sample_claim_command ''att-3'' ''w-3''))
     (snd sample_second) (projr (fst sample_third)) (snd sample_third)"
  "clr_Claimed (projr (fst sample_third))"
proof -
  let ?m = "claimAttempt_tx sample_sql (sample_io (sample_time + 62 * Second)) (sample_claim_command ''att-3'' ''w-3'')"
  have "\<not> isl (fst sample_third)" by code_simp
  then show "runs ?m (snd sample_second) (projr (fst sample_third)) (snd sample_third)" unfolding sample_third_def by (rule result_run)
  show "clr_Claimed (projr (fst sample_third))" by code_simp
qed

text \<open>
  The limit of the list of reclaimable Turns applies before the filter for actionable entries: an
  older Turn whose lease merely lapsed can fill the page, so that the list is empty although a
  cancelled Turn waits to be retired.
\<close>

definition sample_waiting :: sql_state where
  "sample_waiting = sample_running\<lparr>st_db := (st_db sample_running)\<lparr>db_turns := [sample_turn_row,
     sample_turn_row\<lparr>tr_ID := 4, tr_TurnID := ''turn-2'', tr_IdempotencyKey := ''k2'', tr_Status := TurnStatusQueued,
       tr_ActiveAttemptID := None, tr_FencingToken := 0, tr_StartedAt := None, tr_CancelRequestedAt := Some sample_time\<rparr>]\<rparr>\<rparr>"

lemma actionable_page_starves:
  "fst (ListReclaimableTurns sample_sql (sample_io (sample_time + 31 * Second)) live_ctx \<lparr>rcq_Limit = 1, rcq_ActionableOnly = True\<rparr>
      sample_waiting) = Inr []
   \<and> reclaimable_turn (st_db sample_waiting) 3 (sample_time + 31 * Second) (db_turns (st_db sample_waiting) ! 1)
   \<and> reclaim_reason (reclaimable_row (st_db sample_waiting) (db_turns (st_db sample_waiting) ! 1)) 3
       = Some ReclaimReasonCancellationPending"
  by code_simp

subsection \<open>Properties of ownership\<close>

text \<open>
  C20. One live epoch. Whatever claims and heartbeats commit, in whatever order and by whatever
  workers, a Turn has at most one running attempt, namely its active one, which carries the Turn's
  fence; fences never fall, attempts keep their identity and one that has ended never runs again.
\<close>

theorem one_live_epoch:
  assumes "attempts_ok db" "(attempt_step store)\<^sup>*\<^sup>* db db'"
  shows "(\<forall>a b. a \<in> set (db_attempts db') \<and> b \<in> set (db_attempts db') \<and> at_Status a = AttemptStatusRunning
        \<and> at_Status b = AttemptStatusRunning \<and> at_TurnID a = at_TurnID b \<longrightarrow> a = b)
    \<and> (\<forall>a t. a \<in> set (db_attempts db') \<and> turn_at db' (at_TurnID a) = Some t \<longrightarrow> at_FencingToken a \<le> tr_FencingToken t
        \<and> (at_Status a = AttemptStatusRunning \<longrightarrow> tr_ActiveAttemptID t = Some (at_AttemptID a) \<and> tr_FencingToken t = at_FencingToken a))
    \<and> epochs_kept db db'"
proof -
  note ok = sql_execution.steps_ok_kept [OF assms(2,1)]
  have "a = b" if ab: "a \<in> set (db_attempts db')" "b \<in> set (db_attempts db')" "at_Status a = AttemptStatusRunning"
      "at_Status b = AttemptStatusRunning" "at_TurnID a = at_TurnID b" for a b
  proof -
    from ok ab(1) obtain t where "t \<in> set (db_turns db')" "attempt_under t a" unfolding attempts_ok_def by blast
    then have t: "turn_at db' (at_TurnID a) = Some t" "attempt_under t a"
      using turn_at_unique [of db' t] ok by (auto simp: attempt_under_def)
    from attempts_okD [of db' b t] ok ab t have "attempt_under t b" by simp
    with t(2) ab have "at_AttemptID a = at_AttemptID b" by (simp add: attempt_under_def)
    then show ?thesis using ok ab(1,2) unfolding attempts_ok_def distinct_map by (blast dest: inj_onD)
  qed
  moreover have "attempt_under t a" if "a \<in> set (db_attempts db')" "turn_at db' (at_TurnID a) = Some t" for a t
    using attempts_okD [of db' a t] ok that by simp
  ultimately show ?thesis using ok unfolding attempt_under_def by blast
qed

theorem one_live_epoch_witness:
  "epochs_kept (st_db sample_running) (st_db (snd sample_second))"
proof -
  have "(attempt_step sample_sql)\<^sup>*\<^sup>* (st_db sample_running) (st_db (snd sample_second))"
    by (rule r_into_rtranclp, rule attempt_step.claim [OF sample_quiet(2) sample_second_runs(1)])
  from one_live_epoch [OF sample_attempts_ok this] show ?thesis by blast
qed

text \<open>
  C22. Conditions of an epoch. A claim opens a new epoch only for a Turn that is queued or running,
  is in the worker's plugin scope, has no cancellation recorded, still has an attempt left in its
  budget and is authorized by the installed commercial authority; and only if no other attempt of
  the Turn holds a lease that is still live on the database clock. The new lease runs longer than
  the clock that granted it.
\<close>

theorem epoch_conditions:
  assumes "attempts_ok (st_db s)" "honest_io io" "runs (claimAttempt_tx store io c) s r s'" "clr_Claimed r"
  shows "\<exists>row turn now budget. turn_at (st_db s) (ca_TurnID c) = Some row \<and> toTurn row = Inr turn \<and> clock_read io now
    \<and> (t_Status turn = TurnStatusQueued \<or> t_Status turn = TurnStatusRunning) \<and> t_CancelRequestedAt turn = None
    \<and> claimPluginScopeAllows (ca_PluginScope c) (t_Plugin turn) \<and> authorized store (st_db s) turn
    \<and> turnAttemptBudget store = Inr budget \<and> sint (ta_FencingToken (clr_Attempt r)) \<le> budget
    \<and> sint (ta_FencingToken (clr_Attempt r)) = tr_FencingToken row + 1
    \<and> (\<forall>a. a \<in> set (db_attempts (st_db s)) \<and> at_TurnID a = ca_TurnID c \<and> at_Status a = AttemptStatusRunning
          \<longrightarrow> at_LeaseExpiresAt a \<le> now)
    \<and> now < ta_LeaseExpiresAt (clr_Attempt r)"
  using assms(3,2)
proof (cases rule: claimAttempt_tx_cases)
  case (replay row turn now)
  with assms(4) show ?thesis by simp
next
  case (epoch row turn now expired)
  note e = epoch(4) [unfolded opens_epoch_def]
  have "at_LeaseExpiresAt a \<le> now" if a: "a \<in> set (db_attempts (st_db s))" "at_TurnID a = ca_TurnID c" "at_Status a = AttemptStatusRunning" for a
  proof -
    have u: "attempt_under row a" using attempts_okD [OF assms(1) a(1)] epoch(1) a(2) by simp
    from superseded_row [OF assms(1) _ a(1) u a(3)] e have "expired = Some a" by blast
    with e u a(3) show ?thesis by (auto simp: superseded_def attempt_under_def)
  qed
  moreover obtain budget where "turnAttemptBudget store = Inr budget" "sint (ta_FencingToken (clr_Attempt r)) \<le> budget"
    using epoch_fence(1,3) [OF epoch(4,2)] by auto
  moreover have "sint (ta_FencingToken (clr_Attempt r)) = tr_FencingToken row + 1" "now < ta_LeaseExpiresAt (clr_Attempt r)"
    using epoch_fence(1,9) [OF epoch(4,2)] .
  ultimately show ?thesis using epoch(1,2,3) e unfolding free_turn_def
    by (intro exI [of _ row] exI [of _ turn] exI [of _ now] exI [of _ budget]) simp
qed

theorem epoch_conditions_witness:
  "sint (ta_FencingToken (clr_Attempt (projr (fst sample_second)))) \<le> 3"
proof -
  have "turnAttemptBudget sample_sql = Inr 3" by code_simp
  with epoch_conditions [OF sample_attempts_ok sample_quiet(2) sample_second_runs] show ?thesis by auto
qed

text \<open>
  C23. Lost answers. If the transaction of a claim opens an epoch and its commit is applied but
  reported as failed, the call nevertheless returns the attempt it bound: the same Turn and attempt,
  as a replay. A worker does not lose the lease it was given, nor does it take a second one.
\<close>

theorem claim_survives_lost_commit:
  assumes "lossy_io io" "\<And>n. contextError (ctx n) = None" "ClaimAttemptCommand_Validate c = None" "attempts_ok (st_db s)"
    and "\<And>n. io_clock io n = Inr t" "canonicalExecutionTime t = Inr now" "ss_executionClock store"
    and "runs (claimAttempt_tx store io c) (ticked s (st_db s)) r s2" "clr_Claimed r"
  shows "\<exists>r' s'. ClaimAttempt store io ctx c s = (Inr r', s') \<and> clr_Turn r' = clr_Turn r
    \<and> clr_Attempt r' = clr_Attempt r \<and> clr_Replay r' \<and> st_db s' = st_db s2"
proof -
  have honest: "honest_io io" using assms(1) by (simp add: lossy_io_def honest_io_def)
  from assms(8) honest show ?thesis
  proof (cases rule: claimAttempt_tx_cases)
    case (replay row turn now)
    with assms(9) show ?thesis by simp
  next
    case (epoch row turn now' expired)
    note at = epoch(1,2,4) [unfolded ticked_db]
    from lossy_writeTransaction [where body = "claimAttempt_tx store io c" and store = store,
        OF assms(1) assms(2) [of 1] assms(2) [of 2] assms(8) [unfolded runs_def]] obtain e where
      w: "writeTransaction store io (ctx 1) (ctx 2) (claimAttempt_tx store io c) s = (Inl e, ticked s2 (st_db s2))" by blast
    from epoch_kept(3) [OF assms(4) at] obtain n where
      a: "attempt_at (st_db s2) (ca_AttemptID c) = Some ((attempt_row (clr_Attempt r))\<lparr>at_ID := n\<rparr>)" by blast
    from epoch_turn [OF at] obtain row' where
      row': "turn_at (st_db s2) (ca_TurnID c) = Some row'" "toTurn row' = Inr (clr_Turn r)"
        "turnOwnsAttempt row' (clr_Attempt r)" "t_Plugin (clr_Turn r) = t_Plugin turn" by blast
    note fence = epoch_fence [OF at(3,2)]
    have "clock_read io now'" using epoch(4) by (simp add: opens_epoch_def)
    then have "now' = now" using assms(5,6) by (auto simp: clock_read_def)
    moreover have "attemptMatchesClaim (clr_Attempt r) c" using fence by (simp add: attemptMatchesClaim_def)
    ultimately have "\<exists>s3. resolveClaim store io c (ticked s2 (st_db s2))
        = (Inr (Some \<lparr>clr_Turn = clr_Turn r, clr_Attempt = clr_Attempt r, clr_Claimed = False, clr_Reclaimed = False, clr_Replay = True\<rparr>), s3)
        \<and> st_db s3 = st_db s2"
      using a row' fence(6,9) epoch(3) toAttempt_row [OF fence(10)] assms(1) quiet_executionNow [OF assms(5-7)]
      by (simp add: resolveClaim_def tx_bind_def lossy_outside lossy_lookup_row lossy_take_row tx_check_def tx_forward
          attempt_at_def turn_at_def)
    then show ?thesis using assms(2,3) w by (auto simp: ClaimAttempt_def tx_guard_def tx_try_def tx_forward)
  qed
qed

theorem claim_survives_lost_commit_witness:
  "\<exists>r' s'. ClaimAttempt sample_sql ((sample_io (sample_time + 31 * Second))\<lparr>io_commit := (\<lambda>_. Some (DriverError ''lost'', True))\<rparr>)
     live_ctx (sample_claim_command ''att-2'' ''w-2'') sample_running = (Inr r', s') \<and> clr_Replay r'"
proof -
  let ?io = "(sample_io (sample_time + 31 * Second))\<lparr>io_commit := (\<lambda>_. Some (DriverError ''lost'', True))\<rparr>"
  let ?c = "sample_claim_command ''att-2'' ''w-2''"
  let ?x = "claimAttempt_tx sample_sql ?io ?c (ticked sample_running (st_db sample_running))"
  have lossy: "lossy_io ?io" by (simp add: lossy_io_def sample_io_def)
  have v: "ClaimAttemptCommand_Validate ?c = None" by code_simp
  have clk: "\<And>n. io_clock ?io n = Inr (sample_time + 31 * Second)" "ss_executionClock sample_sql"
    by (simp_all add: sample_io_def sample_sql_def)
  have now: "canonicalExecutionTime (sample_time + 31 * Second) = Inr (sample_time + 31 * Second)" by code_simp
  have "\<not> isl (fst ?x)" by code_simp
  then have run: "runs (claimAttempt_tx sample_sql ?io ?c) (ticked sample_running (st_db sample_running)) (projr (fst ?x)) (snd ?x)"
    by (rule result_run)
  have fresh: "clr_Claimed (projr (fst ?x))" by code_simp
  from claim_survives_lost_commit [where ctx = live_ctx, OF lossy live_ctx_None v sample_attempts_ok clk(1) now clk(2) run fresh]
  show ?thesis by blast
qed

text \<open>
  Order of discovery. A scan for work returns, up to its limit, the oldest Turns that may be
  claimed by the worker's scope: every Turn it returns may be claimed, they come oldest first, and
  a Turn that may be claimed but is left out is not older than any that is returned.
\<close>

theorem scan_oldest_first:
  assumes "runs (scanClaimableTurns store io limit scope) s ids s'"
  shows "\<exists>now budget db rows. (\<exists>n. db = io_others io n (st_db s)) \<and> clock_read io now \<and> turnAttemptBudget store = Inr budget
    \<and> ids = map tr_TurnID rows \<and> sorted_wrt older rows
    \<and> (\<forall>t. t \<in> set rows \<longrightarrow> t \<in> set (db_turns db) \<and> claimable_turn db budget now t \<and> in_scope scope t)
    \<and> (\<forall>t u. t \<in> set (db_turns db) \<and> claimable_turn db budget now t \<and> in_scope scope t \<and> t \<notin> set rows \<and> u \<in> set rows
          \<longrightarrow> older u t)
    \<and> length rows = min (nat limit) (length (filter (\<lambda>t. claimable_turn db budget now t \<and> in_scope scope t) (db_turns db)))"
proof -
  from runs_scan [OF assms] obtain now budget n where
    scan: "clock_read io now" "turnAttemptBudget store = Inr budget"
      "ids = map tr_TurnID (oldest_first (nat limit) (filter (\<lambda>t. claimable_turn (io_others io n (st_db s)) budget now t \<and> in_scope scope t)
        (db_turns (io_others io n (st_db s)))))" by blast
  let ?db = "io_others io n (st_db s)"
  let ?rows = "filter (\<lambda>t. claimable_turn ?db budget now t \<and> in_scope scope t) (db_turns ?db)"
  show ?thesis
    by (rule exI [of _ now], rule exI [of _ budget], rule exI [of _ ?db], rule exI [of _ "oldest_first (nat limit) ?rows"])
      (use scan oldest_first(1,2,3) [of "nat limit" ?rows] oldest_first(4) [of _ ?rows "nat limit"] in auto)
qed

theorem scan_oldest_first_witness:
  "\<exists>rows. map tr_TurnID rows = [''turn-1''] \<and> sorted_wrt older rows"
proof -
  let ?m = "scanClaimableTurns sample_sql (sample_io (sample_time + 31 * Second)) 16 []"
  have "fst (?m sample_running) = Inr [''turn-1'']" by code_simp
  then have "runs ?m sample_running [''turn-1''] (snd (?m sample_running))" by (simp add: runs_def prod_eq_iff)
  from scan_oldest_first [OF this] obtain rows where "[''turn-1''] = map tr_TurnID rows" "sorted_wrt older rows"
    by (elim exE conjE)
  then show ?thesis by (intro exI [of _ rows] conjI) simp_all
qed

text \<open>
  Reasons for reclaiming. Every Turn in the list of reclaimable Turns is queued or running and
  has no attempt with a live lease, and the reason given is the most decisive one: a recorded
  cancellation, else an exhausted budget, else a lapsed lease. A query for actionable entries gives
  only reasons that a reconciler acts on.
\<close>

theorem reclaim_reasons:
  assumes "attempts_ok (io_others io n (st_db s))" "\<And>m. io_others io m = io_others io n"
    and "runs (ListReclaimableTurns store io ctx q) s es s'" "e \<in> set es"
  shows "\<exists>t now budget. turn_at (io_others io n (st_db s)) (rt_TurnID e) = Some t \<and> clock_read io now
    \<and> turnAttemptBudget store = Inr budget \<and> (tr_Status t = TurnStatusQueued \<or> tr_Status t = TurnStatusRunning)
    \<and> (\<forall>a. a \<in> set (db_attempts (io_others io n (st_db s))) \<and> at_TurnID a = rt_TurnID e \<and> at_Status a = AttemptStatusRunning
          \<longrightarrow> at_LeaseExpiresAt a \<le> now)
    \<and> rt_Reason e = (if tr_CancelRequestedAt t \<noteq> None then ReclaimReasonCancellationPending
          else if budget \<le> tr_FencingToken t then ReclaimReasonAttemptsExhausted else ReclaimReasonLeaseExpired)
    \<and> (rcq_ActionableOnly q \<longrightarrow> ReclaimReason_Actionable (rt_Reason e))"
proof -
  let ?db = "io_others io n (st_db s)"
  from runs_ListReclaimable [OF assms(3)] obtain now budget where
    l: "clock_read io now" "turnAttemptBudget store = Inr budget"
      "reclaim_loop (rcq_ActionableOnly q) budget (map (reclaimable_row ?db)
        (oldest_first (nat (ReclaimQuery_limit q)) (filter (reclaimable_turn ?db budget now) (db_turns ?db)))) = Inr es"
    using assms(2) by metis
  from reclaim_loop_Inr [OF l(3) assms(4)] oldest_first(2) obtain t where
    t: "t \<in> set (db_turns ?db)" "reclaimable_turn ?db budget now t" "toReclaimableTurn (reclaimable_row ?db t) budget = Inr e"
      "rcq_ActionableOnly q \<longrightarrow> ReclaimReason_Actionable (rt_Reason e)"
    by fastforce
  have id: "rt_TurnID e = tr_TurnID t"
    using t(3) by (auto simp: toReclaimableTurn_def reclaimable_row_def Let_def split: if_splits option.splits)
  have at: "turn_at ?db (rt_TurnID e) = Some t" using turn_at_unique [OF assms(1) t(1)] id by simp
  have reason: "reclaim_reason (reclaimable_row ?db t) budget = Some (rt_Reason e)"
    using t(3) by (auto simp: toReclaimableTurn_def split: if_splits option.splits)
  have "at_LeaseExpiresAt a \<le> now" if a: "a \<in> set (db_attempts ?db)" "at_TurnID a = rt_TurnID e" "at_Status a = AttemptStatusRunning" for a
  proof -
    have act: "tr_ActiveAttemptID t = Some (at_AttemptID a)"
      using attempts_okD [OF assms(1) a(1)] at a(2,3) by (simp add: attempt_under_def)
    have uniq: "b = a" if "b \<in> set (db_attempts ?db)" "at_AttemptID b = at_AttemptID a" for b
      using attempt_at_unique [OF assms(1) a(1)] attempt_at_unique [OF assms(1) that(1)] that(2) by simp
    have "active_join ?db t = Some a" unfolding active_join_def
      by (rule find_unique [OF a(1)]) (use a(2) act id uniq in auto)
    then show ?thesis using t(2) act by (simp add: reclaimable_turn_def lapsed_def)
  qed
  moreover have "rt_Reason e = (if tr_CancelRequestedAt t \<noteq> None then ReclaimReasonCancellationPending
          else if budget \<le> tr_FencingToken t then ReclaimReasonAttemptsExhausted else ReclaimReasonLeaseExpired)"
    using reason by (auto simp: reclaim_reason_def reclaimable_row_def Let_def split: if_splits)
  ultimately show ?thesis using at l(1,2) t(2,4)
    by (intro exI [of _ t] exI [of _ now] exI [of _ budget]) (simp add: reclaimable_turn_def)
qed

theorem reclaim_reasons_witness:
  "\<exists>t. turn_at (st_db sample_waiting) ''turn-2'' = Some t \<and> tr_CancelRequestedAt t \<noteq> None"
proof -
  let ?io = "sample_io (sample_time + 31 * Second)"
  let ?m = "ListReclaimableTurns sample_sql ?io live_ctx \<lparr>rcq_Limit = 2, rcq_ActionableOnly = True\<rparr>"
  let ?e = "\<lparr>rt_TurnID = ''turn-2'', rt_Status = TurnStatusQueued, rt_Reason = ReclaimReasonCancellationPending,
    rt_AttemptID = [], rt_FencingToken = 0, rt_WorkerID = [], rt_LeaseExpiresAt = None, rt_CancelRequestedAt = Some sample_time\<rparr>"
  have others: "io_others ?io m = io_others ?io 0" for m by (simp add: sample_io_def)
  have ok: "attempts_ok (io_others ?io 0 (st_db sample_waiting))" by code_simp
  have "fst (?m sample_waiting) = Inr [?e]" by code_simp
  then have "runs ?m sample_waiting [?e] (snd (?m sample_waiting))" by (simp add: runs_def prod_eq_iff)
  from reclaim_reasons [OF ok others this, of ?e] show ?thesis by (auto simp: sample_io_def split: if_splits)
qed

end
