(* ===== verification/Sql_Turns.thy ===== *)
theory Sql_Turns
  imports Sql_Tx Sql_Codec
begin

text \<open>
  The SQL implementation of the Turn store, \<^verbatim>\<open>sql_store.go\<close> of \<^verbatim>\<open>server/service/agentturn\<close>:
  admission, ownership lookup, events, transitions, cancellation and replay.

  Operations carry the prefix \<open>sql_\<close> where the reference store has an operation of the same name;
  the body of a transaction has the suffix \<open>_tx\<close>. A commercial admission authority is given by what
  its two methods return; the tables it writes are its own and not part of the model.
\<close>

subsection \<open>Admission\<close>

definition in_admit_scope :: "Turn \<Rightarrow> sqlTurnRow \<Rightarrow> bool" where
  "in_admit_scope c r \<longleftrightarrow> tr_PrincipalID r = t_PrincipalID c \<and> tr_ThreadID r = t_ThreadID c
     \<and> tr_IdempotencyKey r = t_IdempotencyKey c"

definition lookupIdempotency :: "sql_io \<Rightarrow> Turn \<Rightarrow> Turn option tx" where
  "lookupIdempotency io candidate =
     tx_bind (outside io (lookup_row io db_turns (in_admit_scope candidate))) (\<lambda>found. case found of
       None \<Rightarrow> tx_return None
     | Some row \<Rightarrow>
         (case toTurn row of
            Inl e \<Rightarrow> tx_fail ErrStoreIntegrity
          | Inr turn \<Rightarrow>
              tx_check (t_PrincipalID turn \<noteq> t_PrincipalID candidate \<or> t_ThreadID turn \<noteq> t_ThreadID candidate
                        \<or> t_IdempotencyKey turn \<noteq> t_IdempotencyKey candidate) ErrStoreIntegrity
                (tx_return (Some turn))))"

definition lookupTurnByID :: "sql_io \<Rightarrow> TurnID \<Rightarrow> Turn option tx" where
  "lookupTurnByID io turnID =
     tx_bind (outside io (lookup_row io db_turns (\<lambda>r. tr_TurnID r = turnID))) (\<lambda>found. case found of
       None \<Rightarrow> tx_return None
     | Some row \<Rightarrow>
         (case toTurn row of
            Inl e \<Rightarrow> tx_fail ErrStoreIntegrity
          | Inr turn \<Rightarrow> tx_return (Some turn)))"

definition admit_tx :: "SQLStore \<Rightarrow> sql_io \<Rightarrow> Turn \<Rightarrow> EventEnvelope \<Rightarrow> Turn tx" where
  "admit_tx store io candidate first =
     tx_bind (executionNow store io) (\<lambda>now.
     let admitted = candidate\<lparr>t_CreatedAt := now, t_UpdatedAt := now\<rparr> in
     tx_check (Turn_Validate admitted \<noteq> None) ErrStoreIntegrity (
     case eventToSQLRow (io_json io) first now of
       Inl e \<Rightarrow> tx_fail ErrStoreIntegrity
     | Inr eventRow \<Rightarrow>
         tx_bind (create_turn io (turnToSQLRow admitted 1)) (\<lambda>_.
         tx_bind (create_event io eventRow) (\<lambda>_.
         tx_return admitted))))"

definition admit_guards :: "ctx_obs \<Rightarrow> Turn \<Rightarrow> EventDraft \<Rightarrow> go_error option" where
  "admit_guards c candidate initial = first_error
     [contextError c, Turn_Validate candidate, fail_if (\<not> fresh_lifecycle candidate) ErrInvalidTransition,
      EventDraft_Validate initial]"

text \<open>A failed insert may be a lost race: look again for the winner, then for another Turn of that id.\<close>

definition admit_raced :: "sql_io \<Rightarrow> go_context \<Rightarrow> Turn \<Rightarrow> go_error \<Rightarrow> AdmissionRecord tx" where
  "admit_raced io ctx candidate txErr =
     tx_guard (contextError (ctx 3))
       (tx_bind (tx_catch (lookupIdempotency io candidate) (\<lambda>e. tx_fail (normalize ''admit'' e))) (\<lambda>raced.
        case raced of
          Some winner \<Rightarrow> tx_lift (classifyIdempotentAdmission winner candidate)
        | None \<Rightarrow>
            tx_bind (tx_catch (lookupTurnByID io (t_ID candidate)) (\<lambda>e. tx_fail (normalize ''admit'' e))) (\<lambda>other.
            tx_check (other \<noteq> None) ErrTurnIDConflict
              (tx_fail (normalize ''admit'' txErr)))))"

definition sql_Admit :: "SQLStore \<Rightarrow> sql_io \<Rightarrow> go_context \<Rightarrow> Turn \<Rightarrow> EventDraft \<Rightarrow> AdmissionRecord tx" where
  "sql_Admit store io ctx candidate initial =
     tx_guard (admit_guards (ctx 0) candidate initial)
       (tx_bind (tx_catch (lookupIdempotency io candidate) (\<lambda>e. tx_fail (normalize ''admit'' e))) (\<lambda>existing.
        case existing of
          Some winner \<Rightarrow> tx_lift (classifyIdempotentAdmission winner candidate)
        | None \<Rightarrow>
            tx_bind (tx_lift (buildEvent candidate 1 initial)) (\<lambda>first.
            tx_try (writeTransaction store io (ctx 1) (ctx 2) (admit_tx store io candidate first)) (\<lambda>r. case r of
              Inr admitted \<Rightarrow> tx_return \<lparr>adm_Turn = admitted, adm_Created = True\<rparr>
            | Inl txErr \<Rightarrow> admit_raced io ctx candidate txErr))))"

record AdmissionAuthority =
  aa_ReserveAndBindTurn :: "nat \<Rightarrow> sql_db \<Rightarrow> Turn \<Rightarrow> go_error option"
  aa_VerifyTurnBinding :: "nat \<Rightarrow> sql_db \<Rightarrow> Turn \<Rightarrow> go_error option"

definition call_authority :: "(nat \<Rightarrow> sql_db \<Rightarrow> Turn \<Rightarrow> go_error option) \<Rightarrow> Turn \<Rightarrow> go_error \<Rightarrow> unit tx" where
  "call_authority verdict turn err s =
     (if verdict (st_tick s) (st_db s) turn \<noteq> None then Inl err else Inr (), s\<lparr>st_tick := Suc (st_tick s)\<rparr>)"

definition verifyReservationAdmissionWinnerTx ::
  "SQLStore \<Rightarrow> sql_io \<Rightarrow> Turn \<Rightarrow> AdmissionAuthority \<Rightarrow> AdmissionRecord option tx"
where
  "verifyReservationAdmissionWinnerTx store io candidate authority =
     tx_try (lockTurn store io (in_admit_scope candidate)) (\<lambda>locked. case locked of
       Inl e \<Rightarrow> if errors_is e ErrTurnNotFound then tx_return None else tx_fail e
     | Inr row \<Rightarrow>
         (case toTurn row of
            Inl e \<Rightarrow> tx_fail ErrStoreIntegrity
          | Inr winner \<Rightarrow>
              tx_bind (tx_lift (classifyIdempotentAdmission winner candidate)) (\<lambda>record.
              tx_bind (call_authority (aa_VerifyTurnBinding authority) winner ErrTurnReservationBindingInvalid) (\<lambda>_.
              tx_return (Some record)))))"

definition admit_bound_tx ::
  "SQLStore \<Rightarrow> sql_io \<Rightarrow> Turn \<Rightarrow> EventDraft \<Rightarrow> AdmissionAuthority \<Rightarrow> AdmissionRecord tx"
where
  "admit_bound_tx store io candidate initial authority =
     tx_bind (verifyReservationAdmissionWinnerTx store io candidate authority) (\<lambda>found. case found of
       Some winner \<Rightarrow> tx_return winner
     | None \<Rightarrow>
         tx_bind (executionNow store io) (\<lambda>now.
         let admitted = candidate\<lparr>t_CreatedAt := now, t_UpdatedAt := now\<rparr> in
         tx_check (Turn_Validate admitted \<noteq> None) ErrStoreIntegrity (
         tx_bind (tx_lift (buildEvent admitted 1 initial)) (\<lambda>first.
         case eventToSQLRow (io_json io) first now of
           Inl e \<Rightarrow> tx_fail ErrStoreIntegrity
         | Inr eventRow \<Rightarrow>
             tx_bind (create_turn io (turnToSQLRow admitted 1)) (\<lambda>_.
             tx_bind (call_authority (aa_ReserveAndBindTurn authority) admitted ErrTurnReservationAdmissionFailed) (\<lambda>_.
             tx_bind (create_event io eventRow) (\<lambda>_.
             tx_return \<lparr>adm_Turn = admitted, adm_Created = True\<rparr>)))))))"

definition sql_AdmitWithReservationAuthority ::
  "SQLStore \<Rightarrow> sql_io \<Rightarrow> go_context \<Rightarrow> Turn \<Rightarrow> EventDraft \<Rightarrow> AdmissionAuthority option \<Rightarrow> AdmissionRecord tx"
where
  "sql_AdmitWithReservationAuthority store io ctx candidate initial authority =
     tx_guard (admit_guards (ctx 0) candidate initial)
       (case authority of
          None \<Rightarrow> tx_fail ErrTurnReservationAdmissionAuthorityUnavailable
        | Some auth \<Rightarrow>
            tx_try (writeTransaction store io (ctx 1) (ctx 2) (admit_bound_tx store io candidate initial auth)) (\<lambda>r. case r of
              Inr result \<Rightarrow> tx_return result
            | Inl txErr \<Rightarrow>
                tx_guard (contextError (ctx 3))
                  (let classified = normalize ''admit-with-reservation'' txErr in
                   tx_check (\<not> errors_is classified ErrStoreUnavailable) classified (
                   tx_bind (tx_catch (writeTransaction store io (ctx 4) (ctx 5)
                               (verifyReservationAdmissionWinnerTx store io candidate auth))
                      (\<lambda>e. tx_fail (normalize ''admit-with-reservation'' e))) (\<lambda>found. case found of
                     Some winner \<Rightarrow> tx_return winner
                   | None \<Rightarrow>
                       tx_bind (tx_catch (lookupTurnByID io (t_ID candidate))
                          (\<lambda>e. tx_fail (normalize ''admit-with-reservation'' e))) (\<lambda>other.
                       tx_check (other \<noteq> None) ErrTurnIDConflict (tx_fail classified)))))))"

subsection \<open>Lookup, events, transitions and cancellation\<close>

definition owned_row :: "PrincipalID \<Rightarrow> ThreadID \<Rightarrow> TurnID \<Rightarrow> sqlTurnRow \<Rightarrow> bool" where
  "owned_row principalID threadID turnID r \<longleftrightarrow>
     tr_TurnID r = turnID \<and> tr_PrincipalID r = principalID \<and> tr_ThreadID r = threadID"

definition sql_GetOwned ::
  "sql_io \<Rightarrow> go_context \<Rightarrow> PrincipalID \<Rightarrow> ThreadID \<Rightarrow> TurnID \<Rightarrow> Turn tx"
where
  "sql_GetOwned io ctx principalID threadID turnID =
     tx_guard (first_error [contextError (ctx 0), validateOwnedStorageLookup principalID threadID turnID])
       (tx_bind (tx_catch (outside io (take_row io db_turns (owned_row principalID threadID turnID)))
          (\<lambda>e. tx_fail (if errors_is e ErrRecordNotFound then ErrTurnNotFound else normalize ''get-owned'' e))) (\<lambda>row.
        case toTurn row of
          Inl e \<Rightarrow> tx_fail (SQLStoreError ''get-owned'' ErrStoreIntegrity)
        | Inr turn \<Rightarrow> tx_return turn))"

text \<open>What every write to a log does last: number and build the event, insert it, update the Turn.\<close>

definition write_event ::
  "SQLStore \<Rightarrow> sql_io \<Rightarrow> sqlTurnRow \<Rightarrow> Turn \<Rightarrow> EventDraft \<Rightarrow> time \<Rightarrow> (Sequence \<Rightarrow> sqlTurnRow \<Rightarrow> sqlTurnRow) \<Rightarrow> EventEnvelope tx"
where
  "write_event store io row turn draft now columns =
     tx_bind (tx_lift (nextSQLSequence (tr_LastEventSequence row))) (\<lambda>seq.
     tx_bind (tx_lift (buildEvent turn seq draft)) (\<lambda>event.
     tx_bind (insertEvent io event now) (\<lambda>_.
     tx_bind (updateTurnColumns store io (t_ID turn) (columns seq)) (\<lambda>_.
     tx_return event))))"

definition appendEvent_tx :: "SQLStore \<Rightarrow> sql_io \<Rightarrow> TurnID \<Rightarrow> EventDraft \<Rightarrow> EventEnvelope tx" where
  "appendEvent_tx store io turnID draft =
     tx_bind (lockTurn store io (\<lambda>r. tr_TurnID r = turnID)) (\<lambda>row.
     case toTurn row of
       Inl e \<Rightarrow> tx_fail ErrStoreIntegrity
     | Inr turn \<Rightarrow>
         tx_check (tr_FencingToken row > 0) ErrExecutionFenceRequired (
         tx_check (TurnStatus_Terminal (t_Status turn)) ErrTurnTerminal (
         tx_bind (executionNow store io) (\<lambda>now.
         write_event store io row turn draft now (\<lambda>seq r. r\<lparr>tr_LastEventSequence := sint seq\<rparr>)))))"

definition sql_AppendEvent :: "SQLStore \<Rightarrow> sql_io \<Rightarrow> go_context \<Rightarrow> TurnID \<Rightarrow> EventDraft \<Rightarrow> EventEnvelope tx" where
  "sql_AppendEvent store io ctx turnID draft =
     tx_guard (first_error [contextError (ctx 0), validatePathSegment ''turnId'' turnID MaxTurnIDBytes, EventDraft_Validate draft])
       (tx_catch (writeTransaction store io (ctx 1) (ctx 2) (appendEvent_tx store io turnID draft))
          (\<lambda>e. tx_fail (normalize ''append-event'' e)))"

definition transition_columns :: "Turn \<Rightarrow> Sequence \<Rightarrow> sqlTurnRow \<Rightarrow> sqlTurnRow" where
  "transition_columns nextTurn seq r = r\<lparr>tr_Status := t_Status nextTurn, tr_LastEventSequence := sint seq,
     tr_UpdatedAt := t_UpdatedAt nextTurn, tr_StartedAt := t_StartedAt nextTurn, tr_FinishedAt := t_FinishedAt nextTurn\<rparr>"

definition transition_tx ::
  "SQLStore \<Rightarrow> sql_io \<Rightarrow> TurnID \<Rightarrow> TurnStatus \<Rightarrow> EventDraft \<Rightarrow> TransitionResult tx"
where
  "transition_tx store io turnID to draft =
     tx_bind (lockTurn store io (\<lambda>r. tr_TurnID r = turnID)) (\<lambda>row.
     case toTurn row of
       Inl e \<Rightarrow> tx_fail ErrStoreIntegrity
     | Inr turn \<Rightarrow>
         tx_check (tr_FencingToken row > 0) ErrExecutionFenceRequired (
         if t_Status turn = to
         then tx_return \<lparr>tres_Turn = turn, tres_Changed = False, tres_Event = None\<rparr>
         else
         tx_check (\<not> CanTransition (t_Status turn) to) (transitionError (t_Status turn) to) (
         tx_check (to = TurnStatusStopped \<and> t_CancelRequestedAt turn = None) ErrCancellationNotRequested (
         tx_bind (executionNow store io) (\<lambda>now.
         let nextTurn = transitioned turn to now in
         tx_check (Turn_Validate nextTurn \<noteq> None) ErrStoreIntegrity (
         tx_bind (write_event store io row nextTurn draft now (transition_columns nextTurn)) (\<lambda>event.
         tx_return \<lparr>tres_Turn = nextTurn, tres_Changed = True, tres_Event = Some event\<rparr>)))))))"

definition sql_Transition ::
  "SQLStore \<Rightarrow> sql_io \<Rightarrow> go_context \<Rightarrow> TurnID \<Rightarrow> TurnStatus \<Rightarrow> time \<Rightarrow> EventDraft \<Rightarrow> TransitionResult tx"
where
  "sql_Transition store io ctx turnID to tm draft =
     tx_guard (first_error [contextError (ctx 0), validatePathSegment ''turnId'' turnID MaxTurnIDBytes,
        fail_if (\<not> TurnStatus_Valid to) ErrInvalidTransition,
        fail_if (IsZero tm) (Errorf ''transition time is required''), EventDraft_Validate draft])
       (tx_catch (writeTransaction store io (ctx 1) (ctx 2) (transition_tx store io turnID to draft))
          (\<lambda>e. tx_fail (normalize ''transition'' e)))"

definition cancel_columns :: "Turn \<Rightarrow> Sequence \<Rightarrow> sqlTurnRow \<Rightarrow> sqlTurnRow" where
  "cancel_columns nextTurn seq r = r\<lparr>tr_CancelRequestedAt := t_CancelRequestedAt nextTurn,
     tr_LastEventSequence := sint seq, tr_UpdatedAt := t_UpdatedAt nextTurn\<rparr>"

definition requestCancel_tx ::
  "SQLStore \<Rightarrow> sql_io \<Rightarrow> PrincipalID \<Rightarrow> ThreadID \<Rightarrow> TurnID \<Rightarrow> EventDraft \<Rightarrow> CancelResult tx"
where
  "requestCancel_tx store io principalID threadID turnID draft =
     tx_bind (lockTurn store io (owned_row principalID threadID turnID)) (\<lambda>row.
     case toTurn row of
       Inl e \<Rightarrow> tx_fail ErrStoreIntegrity
     | Inr turn \<Rightarrow>
         if TurnStatus_Terminal (t_Status turn) \<or> t_CancelRequestedAt turn \<noteq> None
         then tx_return \<lparr>cres_Turn = turn, cres_NewlyRequested = False, cres_Event = None\<rparr>
         else
         tx_bind (executionNow store io) (\<lambda>now.
         let nextTurn = cancelled turn now in
         tx_check (Turn_Validate nextTurn \<noteq> None) ErrStoreIntegrity (
         tx_bind (write_event store io row nextTurn draft now (cancel_columns nextTurn)) (\<lambda>event.
         tx_return \<lparr>cres_Turn = nextTurn, cres_NewlyRequested = True, cres_Event = Some event\<rparr>))))"

definition sql_RequestCancel ::
  "SQLStore \<Rightarrow> sql_io \<Rightarrow> go_context \<Rightarrow> PrincipalID \<Rightarrow> ThreadID \<Rightarrow> TurnID \<Rightarrow> time \<Rightarrow> EventDraft \<Rightarrow> CancelResult tx"
where
  "sql_RequestCancel store io ctx principalID threadID turnID tm draft =
     tx_guard (first_error [contextError (ctx 0), validateOwnedStorageLookup principalID threadID turnID,
        fail_if (IsZero tm) (Errorf ''cancellation time is required''), EventDraft_Validate draft])
       (tx_catch (writeTransaction store io (ctx 1) (ctx 2) (requestCancel_tx store io principalID threadID turnID draft))
          (\<lambda>e. tx_fail (normalize ''request-cancel'' e)))"

subsection \<open>Replay\<close>

definition oldest_sequence :: "sqlTurnRow \<Rightarrow> sql_db \<Rightarrow> int option" where
  "oldest_sequence row db =
     (case filter (\<lambda>r. er_TurnID r = tr_TurnID row \<and> er_Sequence r \<le> tr_LastEventSequence row) (db_events db) of
        [] \<Rightarrow> None
      | r # rs \<Rightarrow> Some (foldr min (map er_Sequence rs) (er_Sequence r)))"

definition loadReplayWindow :: "sql_io \<Rightarrow> sqlTurnRow \<Rightarrow> ReplayWindow tx" where
  "loadReplayWindow io row =
     tx_check (tr_LastEventSequence row < 1 \<or> (word_of_int (tr_LastEventSequence row) :: Sequence) > MaxDurableSequence)
       ErrStoreIntegrity (
     tx_bind (query io (oldest_sequence row)) (\<lambda>oldest. case oldest of
       None \<Rightarrow> tx_fail ErrStoreIntegrity
     | Some m \<Rightarrow>
         tx_check (m < 1 \<or> m > tr_LastEventSequence row) ErrStoreIntegrity (
         let window = \<lparr>rw_OldestSequence = word_of_int m, rw_LatestSequence = word_of_int (tr_LastEventSequence row)\<rparr> in
         tx_check (rw_LatestSequence window > MaxDurableSequence \<or> ReplayWindow_Validate window \<noteq> None)
           ErrStoreIntegrity (tx_return window))))"

definition sql_cursor :: "sql_io \<Rightarrow> TurnID \<Rightarrow> sqlTurnRow \<Rightarrow> Turn \<Rightarrow> ReplayWindow \<Rightarrow> ReplayCursor \<Rightarrow> Sequence tx" where
  "sql_cursor io turnID row turn window cursor =
     (let after = (case rc_AfterSequence cursor of None \<Rightarrow> 0 | Some a \<Rightarrow> a)
      in if rc_LastEventID cursor \<noteq> ''''
         then tx_bind (lookup_row io db_events (\<lambda>r. er_TurnID r = turnID \<and> er_EventID r = rc_LastEventID cursor
                         \<and> er_Sequence r \<le> tr_LastEventSequence row)) (\<lambda>found. case found of
                None \<Rightarrow>
                  (let (seq, ok) = parseDeterministicEventID turnID (rc_LastEventID cursor) in
                   tx_check (\<not> ok) ErrReplayCursorNotFound (
                   tx_check (\<not> (seq < rw_OldestSequence window \<or> seq > rw_LatestSequence window)) ErrReplayCursorNotFound (
                   tx_return (if seq > after then seq else after))))
              | Some cursorRow \<Rightarrow>
                  (case toEnvelope cursorRow turn of
                     Inl e \<Rightarrow> tx_fail ErrStoreIntegrity
                   | Inr e \<Rightarrow>
                       tx_check (ev_Sequence e < rw_OldestSequence window \<or> ev_Sequence e > rw_LatestSequence window)
                         ErrStoreIntegrity
                         (tx_return (if ev_Sequence e > after then ev_Sequence e else after))))
         else tx_return after)"

fun replay_rows ::
  "Turn \<Rightarrow> ReplayWindow \<Rightarrow> Sequence \<Rightarrow> string set \<Rightarrow> sqlTurnEventRow list \<Rightarrow> EventEnvelope list result"
where
  "replay_rows turn window previous seen [] = Inr []"
| "replay_rows turn window previous seen (eventRow # rest) =
     (case toEnvelope eventRow turn of
        Inl e \<Rightarrow> Inl ErrStoreIntegrity
      | Inr event \<Rightarrow>
          if ev_Sequence event \<le> previous \<or> ev_Sequence event > rw_LatestSequence window then Inl ErrStoreIntegrity
          else if ev_EventID event \<in> seen then Inl ErrStoreIntegrity
          else map_sum id (\<lambda>events. event # events)
                 (replay_rows turn window (ev_Sequence event) (insert (ev_EventID event) seen) rest))"

definition event_rows :: "TurnID \<Rightarrow> Sequence \<Rightarrow> sqlTurnRow \<Rightarrow> nat \<Rightarrow> sql_db \<Rightarrow> sqlTurnEventRow list" where
  "event_rows turnID lower row limit db = take limit (sort_key er_Sequence
     (filter (\<lambda>r. er_TurnID r = turnID \<and> er_Sequence r > sint lower \<and> er_Sequence r \<le> tr_LastEventSequence row) (db_events db)))"

text \<open>What is left of a replay once the cursor is resolved.\<close>

definition replay_from :: "sql_io \<Rightarrow> TurnID \<Rightarrow> ReplayQuery \<Rightarrow> sqlTurnRow \<Rightarrow> Turn \<Rightarrow> ReplayWindow \<Rightarrow> Sequence \<Rightarrow> ReplayRecord tx" where
  "replay_from io turnID q row turn window resolvedAfter =
     (let explicit = (rc_AfterSequence (rq_Cursor q) \<noteq> None \<or> rc_LastEventID (rq_Cursor q) \<noteq> '''');
          lower = (if explicit then resolvedAfter else rw_OldestSequence window - 1) in
      tx_check (explicit \<and> resolvedAfter > rw_LatestSequence window) (Wrapf ''replay boundary'' ErrReplayCursorAhead) (
      tx_check (explicit \<and> resolvedAfter < rw_OldestSequence window - 1) (Wrapf ''replay boundary'' ErrReplayGap) (
      tx_bind (query io (event_rows turnID lower row (nat (rq_Limit q + 1)))) (\<lambda>rows.
      let hasMore = int (length rows) > rq_Limit q;
          page = (if hasMore then take (nat (rq_Limit q)) rows else rows) in
      tx_bind (tx_lift (replay_rows turn window lower {} page)) (\<lambda>events.
      tx_return \<lparr>rr_Turn = turn, rr_AfterSequence = resolvedAfter, rr_Window = window, rr_Events = events,
                 rr_HasMore = hasMore\<rparr>)))))"

definition replay_tx :: "sql_io \<Rightarrow> PrincipalID \<Rightarrow> ThreadID \<Rightarrow> TurnID \<Rightarrow> ReplayQuery \<Rightarrow> ReplayRecord tx" where
  "replay_tx io principalID threadID turnID q =
     tx_bind (not_found_as ErrTurnNotFound (take_row io db_turns (owned_row principalID threadID turnID))) (\<lambda>row.
     case toTurn row of
       Inl e \<Rightarrow> tx_fail ErrStoreIntegrity
     | Inr turn \<Rightarrow>
         tx_bind (loadReplayWindow io row) (\<lambda>window.
         tx_bind (sql_cursor io turnID row turn window (rq_Cursor q)) (\<lambda>resolvedAfter.
         replay_from io turnID q row turn window resolvedAfter)))"

definition sql_Replay ::
  "sql_io \<Rightarrow> go_context \<Rightarrow> PrincipalID \<Rightarrow> ThreadID \<Rightarrow> TurnID \<Rightarrow> ReplayQuery \<Rightarrow> ReplayRecord tx"
where
  "sql_Replay io ctx principalID threadID turnID q =
     tx_guard (first_error [contextError (ctx 0), validateOwnedStorageLookup principalID threadID turnID, ReplayQuery_Validate q])
       (tx_catch (Transaction io (replay_tx io principalID threadID turnID q)) (\<lambda>e. tx_fail (normalize ''replay'' e)))"

end
