(* ===== verification/Sql_Refinement.thy ===== *)
theory Sql_Refinement
  imports Sql_Turns
begin

text \<open>
  The SQL store implements the reference store. \<open>abs_store\<close> reads a database as a state of the
  in-memory store; every transaction that succeeds is one operation of the reference store at the
  database clock, with the same result. The invariants of the reference store thus hold of the
  database, and its replay is the SQL replay.

  The JSON column of an event may lay its data out anew, so the reference store is given the draft
  with the data as the column returns it, \<open>column_draft\<close>; everything else is the caller's. A draft is
  \<open>storable\<close> for a Turn if the texts of both are UTF-8 and the data that comes back is valid JSON
  within the byte limit. Data near that limit can outgrow it in the column; the event is then
  written and refused by every reader, which \<open>rows_round_trip\<close> shows.
\<close>

subsection \<open>Abstraction\<close>

definition db_log :: "sql_db \<Rightarrow> TurnID \<Rightarrow> EventEnvelope list" where
  "db_log db i = List.map_filter er_EventJSON (filter (\<lambda>r. er_TurnID r = i) (db_events db))"

definition row_scope :: "sqlTurnRow \<Rightarrow> idempotencyScope" where
  "row_scope r = (tr_PrincipalID r, tr_ThreadID r, tr_IdempotencyKey r)"

definition decode_turn :: "sqlTurnRow \<Rightarrow> Turn option" where
  "decode_turn row = (case toTurn row of Inl _ \<Rightarrow> None | Inr t \<Rightarrow> Some t)"

definition abs_store :: "sql_db \<Rightarrow> MemoryStore" where
  "abs_store db =
     \<lparr>ms_turns = (\<lambda>i. Option.bind (turn_at db i) decode_turn),
      ms_byIdem = (\<lambda>sc. map_option tr_TurnID (find (\<lambda>r. row_scope r = sc) (db_turns db))),
      ms_events = (\<lambda>i. map_option (\<lambda>_. db_log db i) (turn_at db i)),
      ms_lastSequence = (\<lambda>i. map_option (\<lambda>r. word_of_int (tr_LastEventSequence r)) (turn_at db i))\<rparr>"

definition event_row_ok :: "sql_db \<Rightarrow> sqlTurnEventRow \<Rightarrow> bool" where
  "event_row_ok db r \<longleftrightarrow> er_Sequence r < 2 ^ 63 \<and> (\<exists>row t e. turn_at db (er_TurnID r) = Some row \<and> toTurn row = Inr t \<and> toEnvelope r t = Inr e)"

definition rows_ok :: "sql_db \<Rightarrow> bool" where
  "rows_ok db \<longleftrightarrow> distinct (map tr_TurnID (db_turns db)) \<and> distinct (map row_scope (db_turns db))
     \<and> (\<forall>row \<in> set (db_turns db). (\<exists>t. toTurn row = Inr t)
          \<and> tr_LastEventSequence row = int (length (db_log db (tr_TurnID row))))
     \<and> (\<forall>r \<in> set (db_events db). event_row_ok db r)"

definition sql_ok :: "sql_db \<Rightarrow> bool" where
  "sql_ok db \<longleftrightarrow> rows_ok db \<and> store_ok (abs_store db)"

definition storable :: "sql_io \<Rightarrow> Turn \<Rightarrow> EventDraft \<Rightarrow> bool" where
  "storable io t d \<longleftrightarrow> utf8_turn t \<and> utf8_draft d \<and> data_fits (io_json io) d"

lemma storable_identity: "same_identity t u \<Longrightarrow> storable io t d = storable io u d"
  by (simp add: storable_def utf8_turn_def same_identity_def)

lemma buildEvent_column:
  assumes "buildEvent t q d = Inr e" "data_fits col d"
  shows "buildEvent t q (column_draft col d) = Inr (column_event col e)"
  using assms json_Valid_Nil
  by (auto simp: buildEvent_def Let_def EventEnvelope_Validate_def err_simps data_fits_def split: if_splits option.splits)

lemma abs_store_sel [simp]:
  "ms_turns (abs_store db) i = Option.bind (turn_at db i) decode_turn"
  "ms_byIdem (abs_store db) sc = map_option tr_TurnID (find (\<lambda>r. row_scope r = sc) (db_turns db))"
  "ms_events (abs_store db) i = map_option (\<lambda>_. db_log db i) (turn_at db i)"
  "ms_lastSequence (abs_store db) i = map_option (\<lambda>r. word_of_int (tr_LastEventSequence r)) (turn_at db i)"
  by (simp_all add: abs_store_def)

lemma decode_turn_Some [simp]: "decode_turn row = Some t \<longleftrightarrow> toTurn row = Inr t"
  by (simp add: decode_turn_def split: sum.split)

lemma decode_turn_Inr [simp]: "toTurn row = Inr t \<Longrightarrow> decode_turn row = Some t"
  by simp

lemma turn_at_row: "turn_at db i = Some row \<Longrightarrow> row \<in> set (db_turns db) \<and> tr_TurnID row = i"
  unfolding turn_at_def by (drule find_SomeD) auto

lemma toTurn_id: "toTurn row = Inr t \<Longrightarrow> t_ID t = tr_TurnID row \<and> admit_scope t = row_scope row"
  using toTurn_Inr [of row t] by (auto simp: row_turn_def admit_scope_def row_scope_def)

lemma rows_ok_unique:
  "rows_ok db \<Longrightarrow> r \<in> set (db_turns db) \<Longrightarrow> r' \<in> set (db_turns db) \<Longrightarrow> tr_TurnID r = tr_TurnID r' \<Longrightarrow> r = r'"
  unfolding rows_ok_def distinct_map by (blast dest: inj_onD)

lemma rows_ok_at: "rows_ok db \<Longrightarrow> r \<in> set (db_turns db) \<Longrightarrow> turn_at db (tr_TurnID r) = Some r"
  unfolding turn_at_def by (rule find_unique) (auto intro: rows_ok_unique)

text \<open>
  Writing an event for a Turn and updating its row is, in the reference store, replacing the Turn
  and appending the event.
\<close>

lemma commit_abs:
  assumes row: "turn_at db i = Some row" and f: "\<And>r. tr_TurnID (f r) = tr_TurnID r" "\<And>r. row_scope (f r) = row_scope r"
    and nxt: "toTurn (f row) = Inr nextTurn" "tr_LastEventSequence (f row) = sint (ev_Sequence e)"
    and er: "er_TurnID er = i" "er_EventJSON er = Some e"
    and db': "db_turns db' = update_rows (\<lambda>r. tr_TurnID r = i) f (db_turns db)" "db_events db' = db_events db @ [er]"
  shows "abs_store db' = append_event i e ((abs_store db)\<lparr>ms_turns := (ms_turns (abs_store db))(i \<mapsto> nextTurn)\<rparr>)"
proof -
  have at: "turn_at db' j = map_option (\<lambda>r. if tr_TurnID r = i then f r else r) (turn_at db j)" for j
    by (rule turn_at_update [OF db'(1) f(1)])
  have at_i: "turn_at db' i = Some (f row)" using at [of i] row turn_at_row [OF row] by simp
  have at_j: "turn_at db' j = turn_at db j" if "j \<noteq> i" for j
    using at [of j] that by (cases "turn_at db j") (auto dest: turn_at_row)
  have log: "db_log db' j = (if j = i then db_log db i @ [e] else db_log db j)" for j
    by (simp add: db_log_def db'(2) er map_filter_def)
  have "ms_turns (abs_store db') = (ms_turns (abs_store db))(i \<mapsto> nextTurn)"
    using at_i at_j nxt(1) by (auto simp: fun_eq_iff)
  moreover have "ms_byIdem (abs_store db') = ms_byIdem (abs_store db)"
    by (simp add: fun_eq_iff db'(1) find_update_rows f option.map_comp comp_def)
      (auto intro!: option.map_cong simp: f)
  moreover have "ms_events (abs_store db') = (ms_events (abs_store db))(i \<mapsto> map_get [] (ms_events (abs_store db)) i @ [e])"
    using at_i at_j log row by (auto simp: fun_eq_iff map_get_def)
  moreover have "ms_lastSequence (abs_store db') = (ms_lastSequence (abs_store db))(i \<mapsto> ev_Sequence e)"
    using at_i at_j nxt(2) by (auto simp: fun_eq_iff)
  ultimately show ?thesis
    by (simp add: append_event_def MemoryStore.equality)
qed

lemma toEnvelope_identity: "t_ID t = t_ID u \<Longrightarrow> t_Plugin t = t_Plugin u \<Longrightarrow> toEnvelope r t = toEnvelope r u"
  unfolding toEnvelope_def by (simp only:)

lemma commit_rows_ok:
  assumes ok: "rows_ok db" and row: "turn_at db i = Some row" "toTurn row = Inr turn"
    and f: "\<And>r. tr_TurnID (f r) = tr_TurnID r" "\<And>r. row_scope (f r) = row_scope r"
    and nxt: "toTurn (f row) = Inr nextTurn" "tr_LastEventSequence (f row) = tr_LastEventSequence row + 1"
      "t_Plugin nextTurn = t_Plugin turn"
    and er: "er_TurnID er = i" "er_EventJSON er = Some e" "toEnvelope er nextTurn = Inr e" "er_Sequence er < 2 ^ 63"
    and db': "db_turns db' = update_rows (\<lambda>r. tr_TurnID r = i) f (db_turns db)" "db_events db' = db_events db @ [er]"
  shows "rows_ok db'"
proof -
  have at: "turn_at db' j = map_option (\<lambda>r. if tr_TurnID r = i then f r else r) (turn_at db j)" for j
    by (rule turn_at_update [OF db'(1) f(1)])
  have row_i: "row \<in> set (db_turns db)" "tr_TurnID row = i" using turn_at_row [OF row(1)] by auto
  have at_i: "turn_at db' i = Some (f row)" using at [of i] row row_i by simp
  have log: "db_log db' j = (if j = i then db_log db i @ [e] else db_log db j)" for j
    by (simp add: db_log_def db'(2) er map_filter_def)
  have uniq: "r = row" if "r \<in> set (db_turns db)" "tr_TurnID r = i" for r
    using rows_ok_unique [OF ok] that row_i by blast
  have "(\<exists>t. toTurn r' = Inr t) \<and> tr_LastEventSequence r' = int (length (db_log db' (tr_TurnID r')))"
    if "r' \<in> set (db_turns db')" for r'
  proof -
    from that obtain r where r: "r \<in> set (db_turns db)" "r' = (if tr_TurnID r = i then f r else r)"
      unfolding db'(1) set_update_rows by blast
    show ?thesis
    proof (cases "tr_TurnID r = i")
      case True
      with uniq [OF r(1)] r nxt ok row_i show ?thesis by (auto simp: f log rows_ok_def)
    next
      case False
      with r ok show ?thesis by (simp add: log rows_ok_def)
    qed
  qed
  moreover have "event_row_ok db' r" if "r \<in> set (db_events db')" for r
  proof (cases "er_TurnID r = i")
    case True
    have "er_Sequence r < 2 ^ 63" using that db'(2) er(4) ok by (auto simp: rows_ok_def event_row_ok_def)
    moreover
    have "\<exists>e'. toEnvelope r nextTurn = Inr e'"
    proof (cases "r = er")
      case False
      with that db'(2) have "r \<in> set (db_events db)" by simp
      with ok obtain row' t e' where "turn_at db (er_TurnID r) = Some row'" "toTurn row' = Inr t" "toEnvelope r t = Inr e'"
        unfolding rows_ok_def event_row_ok_def by blast
      with True row toTurn_id [OF row(2)] toTurn_id [OF nxt(1)] f nxt(3) have "toEnvelope r nextTurn = Inr e'"
        using toEnvelope_identity [of nextTurn turn r] by simp
      then show ?thesis by blast
    qed (use er(3) in blast)
    ultimately show ?thesis using True at_i nxt(1) unfolding event_row_ok_def by auto
  next
    case False
    with that db'(2) er(1) ok have "event_row_ok db r" by (auto simp: rows_ok_def)
    then show ?thesis using False at [of "er_TurnID r"] turn_at_row unfolding event_row_ok_def by fastforce
  qed
  ultimately show ?thesis using ok unfolding rows_ok_def by (simp add: db'(1) map_update_rows f)
qed

lemma runs_write_event:
  assumes "runs (write_event store io row turn d now columns) s e s'"
  shows "\<exists>seq er n. nextSQLSequence (tr_LastEventSequence row) = Inr seq \<and> buildEvent turn seq d = Inr e
    \<and> eventToSQLRow (io_json io) e now = Inr er
    \<and> db_turns (st_db s') = update_rows (\<lambda>r. tr_TurnID r = t_ID turn) (columns seq) (db_turns (st_db s))
    \<and> db_events (st_db s') = db_events (st_db s) @ [er\<lparr>er_ID := n\<rparr>]"
proof -
  from assms obtain seq s1 s2 where
    steps: "nextSQLSequence (tr_LastEventSequence row) = Inr seq" "buildEvent turn seq d = Inr e"
      "runs (insertEvent io e now) s () s1" "runs (updateTurnColumns store io (t_ID turn) (columns seq)) s1 () s2" "s' = s2"
    unfolding write_event_def by (auto simp: runs_bind runs_basic)
  from runs_insertEvent [OF steps(3)] obtain er where "eventToSQLRow (io_json io) e now = Inr er"
    "st_db s1 = (st_db s)\<lparr>db_events := db_events (st_db s) @ [er\<lparr>er_ID := db_autoinc (st_db s)\<rparr>],
       db_autoinc := Suc (db_autoinc (st_db s))\<rparr>" by blast
  with steps runs_updateTurnColumns [OF steps(4)] show ?thesis by auto
qed

lemma eventToSQLRow_sel:
  "eventToSQLRow col e now = Inr er \<Longrightarrow> er_TurnID er = ev_TurnID e \<and> er_EventJSON er = Some (decoded_event col e)
     \<and> er_Sequence er < 2 ^ 63"
  using sint_lt [of "ev_Sequence e"] by (auto simp: eventToSQLRow_def split: option.splits sum.splits)

lemma sql_ok_last:
  assumes "sql_ok db" "turn_at db i = Some row"
  shows "tr_LastEventSequence row = int (length (db_log db i))" "1 \<le> tr_LastEventSequence row"
    "tr_LastEventSequence row \<le> 2 ^ 63 - 1"
proof -
  have r: "row \<in> set (db_turns db)" "tr_TurnID row = i" using turn_at_row [OF assms(2)] by auto
  with assms(1) show l: "tr_LastEventSequence row = int (length (db_log db i))" by (auto simp: sql_ok_def rows_ok_def)
  from assms(1) r obtain t where t: "toTurn row = Inr t" by (auto simp: sql_ok_def rows_ok_def)
  then show "1 \<le> tr_LastEventSequence row" using toTurn_Inr by blast
  have "turn_ok (abs_store db) i t" using assms t by (intro store_okD) (auto simp: sql_ok_def)
  then have "length (db_log db i) \<le> unat MaxDurableSequence" using assms(2) by (simp add: turn_ok_def log_ok_def map_get_def)
  then show "tr_LastEventSequence row \<le> 2 ^ 63 - 1" unfolding l unat_MaxDurableSequence by simp
qed

lemma write_event_refines:
  assumes ok: "sql_ok (st_db s)" and row: "turn_at (st_db s) i = Some row" "toTurn row = Inr turn"
    and nxt: "same_identity nextTurn turn" "Turn_Validate nextTurn = None"
    and cols: "\<And>q r. tr_TurnID (columns q r) = tr_TurnID r" "\<And>q r. row_scope (columns q r) = row_scope r"
      "\<And>q r. tr_LastEventSequence (columns q r) = sint q"
      "\<And>q. q \<noteq> 0 \<Longrightarrow> q \<le> MaxDurableSequence \<Longrightarrow> toTurn (columns q row) = Inr nextTurn"
    and kept: "storable io turn d"
    and run: "runs (write_event store io row nextTurn d now columns) s e s'"
  shows "nextEventLocked (abs_store (st_db s)) nextTurn (column_draft (io_json io) d) = Inr (column_event (io_json io) e)"
    "abs_store (st_db s') = append_event i (column_event (io_json io) e) ((abs_store (st_db s))\<lparr>ms_turns := (ms_turns (abs_store (st_db s)))(i \<mapsto> nextTurn)\<rparr>)"
    "rows_ok (st_db s')"
proof -
  from runs_write_event [OF run] obtain seq er n where
    w: "nextSQLSequence (tr_LastEventSequence row) = Inr seq" "buildEvent nextTurn seq d = Inr e"
      "eventToSQLRow (io_json io) e now = Inr er"
      "db_turns (st_db s') = update_rows (\<lambda>r. tr_TurnID r = t_ID nextTurn) (columns seq) (db_turns (st_db s))"
      "db_events (st_db s') = db_events (st_db s) @ [er\<lparr>er_ID := n\<rparr>]" by blast
  note last = sql_ok_last [OF ok row(1)]
  have id: "t_ID turn = i" "t_ID nextTurn = i" "t_Plugin nextTurn = t_Plugin turn"
    using toTurn_id [OF row(2)] turn_at_row [OF row(1)] nxt(1) by (simp_all add: same_identity_def)
  have bound: "tr_LastEventSequence row < 2 ^ 64" using last(3) by simp
  have seq: "sint seq = tr_LastEventSequence row + 1" "uint seq = tr_LastEventSequence row + 1" "seq \<noteq> 0" "seq \<le> MaxDurableSequence"
    "tr_LastEventSequence row < 2 ^ 63 - 1"
    using nextSQLSequence_Inr [OF w(1) bound] by simp_all
  have b: "ev_Sequence e = seq" "ev_TurnID e = i" "ev_Plugin e = t_Plugin nextTurn" "ev_EventID e = deterministicEventID i (ev_Sequence e)"
    using built_event [OF w(2)] id by auto
  let ?e = "column_event (io_json io) e"
  have k: "utf8_turn nextTurn" "utf8_draft d" "data_fits (io_json io) d"
    using kept [folded storable_identity [OF nxt(1)]] by (simp_all add: storable_def)
  have er: "er_TurnID (er\<lparr>er_ID := n\<rparr>) = i" "er_EventJSON (er\<lparr>er_ID := n\<rparr>) = Some ?e" "er_Sequence (er\<lparr>er_ID := n\<rparr>) < 2 ^ 63"
    using eventToSQLRow_sel [OF w(3)] decoded_built [OF w(2) k(1,2)] b(2) by auto
  have env: "toEnvelope (er\<lparr>er_ID := n\<rparr>) nextTurn = Inr ?e"
    using toEnvelope_row [OF w(3,2) k(1,2) refl refl] k(3) by simp
  have prev: "(word_of_int (tr_LastEventSequence row) :: Sequence) + 1 = seq"
    by (rule word_uint_eqI) (use seq last(2) in \<open>simp add: uint_word_ariths uint_word_of_int\<close>)
  have lt: "(word_of_int (tr_LastEventSequence row) :: Sequence) < MaxDurableSequence" "(word_of_int (tr_LastEventSequence row) :: Sequence) > 0"
    using seq(5) last(2) by (simp_all add: word_less_def uint_MaxDurableSequence uint_word_of_int)
  show "nextEventLocked (abs_store (st_db s)) nextTurn (column_draft (io_json io) d) = Inr ?e"
    using lt buildEvent_column [OF w(2) k(3)] prev row(1) id by (simp add: nextEventLocked_def Let_def map_get_def)
  show "abs_store (st_db s') = append_event i ?e ((abs_store (st_db s))\<lparr>ms_turns := (ms_turns (abs_store (st_db s)))(i \<mapsto> nextTurn)\<rparr>)"
    by (rule commit_abs [OF row(1) cols(1,2) cols(4) [OF seq(3,4)] _ er(1,2) w(4) [unfolded id] w(5)]) (simp add: cols(3) b(1))
  show "rows_ok (st_db s')"
    by (rule commit_rows_ok [OF _ row cols(1,2) cols(4) [OF seq(3,4)] _ id(3) er(1,2) env er(3) w(4) [unfolded id] w(5)])
      (use ok in \<open>simp_all add: sql_ok_def cols(3) seq(1)\<close>)
qed

subsection \<open>The operations\<close>

lemma canonical_not_zero: "canonicalExecutionTime t = Inr now \<Longrightarrow> \<not> IsZero now"
  by (auto simp: canonicalExecutionTime_def sql_first_time_def Second_def IsZero_def Let_def split: if_splits)

lemma clock_read_not_zero: "clock_read io now \<Longrightarrow> \<not> IsZero now"
  using canonical_not_zero by (auto simp: clock_read_def)

lemma sequence_columns:
  assumes "toTurn row = Inr turn" "q \<noteq> 0" "q \<le> MaxDurableSequence"
    and "tr_FencingToken row' = tr_FencingToken row" "tr_ActiveAttemptID row' = tr_ActiveAttemptID row"
    and "tr_PluginSnapshotJSON row' = tr_PluginSnapshotJSON row" "tr_LastEventSequence row' = sint q"
    and "\<And>p. turn = row_turn row p \<Longrightarrow> row_turn row' p = nextTurn" "Turn_Validate nextTurn = None"
  shows "toTurn row' = Inr nextTurn"
proof -
  from assms(1) obtain p where p: "tr_PluginSnapshotJSON row = Some p" "turn = row_turn row p"
    and ok: "\<not> (tr_FencingToken row < 0 \<or> (word_of_int (tr_FencingToken row) :: Sequence) > MaxDurableSequence)"
      "\<not> (case tr_ActiveAttemptID row of None \<Rightarrow> False | Some attemptID \<Rightarrow> tr_FencingToken row < 1
          \<or> validatePrintableASCII ''activeAttemptId'' attemptID MaxAttemptIDBytes \<noteq> None)"
    unfolding toTurn_def by (auto split: if_splits option.splits)
  have "\<not> (sint q < 1 \<or> (word_of_int (sint q) :: Sequence) > MaxDurableSequence)"
    using sint_positive [OF assms(3,2)] assms(3) by simp
  with p ok assms(8,9) show ?thesis unfolding toTurn_def assms(4,5,6,7) by (cases "tr_ActiveAttemptID row") simp_all
qed

lemma append_refines:
  assumes ok: "sql_ok (st_db s)" and run: "runs (appendEvent_tx store io i d) s e s'"
    and d: "EventDraft_Validate d = None" and exact: "\<And>t. ms_turns (abs_store (st_db s)) i = Some t \<Longrightarrow> storable io t d"
  shows "AppendEvent live_ctx i (column_draft (io_json io) d) (abs_store (st_db s)) = (Inr (column_event (io_json io) e), abs_store (st_db s'))
    \<and> rows_ok (st_db s')"
proof -
  from run obtain row s1 turn now s2 where
    steps: "runs (lockTurn store io (\<lambda>r. tr_TurnID r = i)) s row s1" "toTurn row = Inr turn"
      "\<not> TurnStatus_Terminal (t_Status turn)" "runs (executionNow store io) s1 now s2"
      "runs (write_event store io row turn d now (\<lambda>seq r. r\<lparr>tr_LastEventSequence := sint seq\<rparr>)) s2 e s'"
    unfolding appendEvent_tx_def by (auto simp: runs_bind runs_decode runs_check)
  have row: "turn_at (st_db s) i = Some row" "st_db s2 = st_db s"
    using runs_lockTurn [OF steps(1)] runs_executionNow [OF steps(4)] by (auto simp: turn_at_def)
  have v: "Turn_Validate turn = None" using toTurn_Inr [OF steps(2)] by blast
  have cols: "q \<noteq> 0 \<Longrightarrow> q \<le> MaxDurableSequence \<Longrightarrow> toTurn (row\<lparr>tr_LastEventSequence := sint q\<rparr>) = Inr turn" for q
    by (rule sequence_columns [OF steps(2)]) (use v in \<open>auto simp: row_turn_def\<close>)
  have ex: "storable io turn d" using exact row(1) steps(2) by simp
  note d' = column_draft_valid [OF d, of "io_json io"] ex [unfolded storable_def]
  note w = write_event_refines [where columns = "\<lambda>seq r. r\<lparr>tr_LastEventSequence := sint seq\<rparr>", OF _ _ steps(2) same_identity_refl v _ _ _ cols ex steps(5),
      unfolded row(2), OF ok row(1)]
  have "(ms_turns (abs_store (st_db s)))(i \<mapsto> turn) = ms_turns (abs_store (st_db s))"
    by (rule fun_upd_idem) (use row steps(2) in simp)
  then show ?thesis using w row(1) steps(2,3) d'
    by (simp add: AppendEvent_def row_scope_def)
qed

lemma transition_refines:
  assumes ok: "sql_ok (st_db s)" and run: "runs (transition_tx store io i to d) s r s'"
    and d: "EventDraft_Validate d = None" and exact: "\<And>t. ms_turns (abs_store (st_db s)) i = Some t \<Longrightarrow> storable io t d"
  shows "(\<exists>now. (tres_Changed r \<longrightarrow> clock_read io now)
      \<and> Transition live_ctx i to now (column_draft (io_json io) d) (abs_store (st_db s))
          = (Inr (r\<lparr>tres_Event := map_option (column_event (io_json io)) (tres_Event r)\<rparr>), abs_store (st_db s'))) \<and> rows_ok (st_db s')"
proof -
  from run obtain row s1 turn where lock: "runs (lockTurn store io (\<lambda>r. tr_TurnID r = i)) s row s1" "toTurn row = Inr turn"
    and body: "runs (if t_Status turn = to then tx_return \<lparr>tres_Turn = turn, tres_Changed = False, tres_Event = None\<rparr>
      else tx_check (\<not> CanTransition (t_Status turn) to) (transitionError (t_Status turn) to) (
        tx_check (to = TurnStatusStopped \<and> t_CancelRequestedAt turn = None) ErrCancellationNotRequested (
        tx_bind (executionNow store io) (\<lambda>now. let nextTurn = transitioned turn to now in
        tx_check (Turn_Validate nextTurn \<noteq> None) ErrStoreIntegrity (
        tx_bind (write_event store io row nextTurn d now (transition_columns nextTurn)) (\<lambda>event.
        tx_return \<lparr>tres_Turn = nextTurn, tres_Changed = True, tres_Event = Some event\<rparr>)))))) s1 r s'"
    unfolding transition_tx_def runs_bind runs_decode runs_check by blast
  from body have rest: "t_Status turn = to \<and> r = \<lparr>tres_Turn = turn, tres_Changed = False, tres_Event = None\<rparr> \<and> s' = s1
      \<or> (\<exists>now s2 e. t_Status turn \<noteq> to \<and> CanTransition (t_Status turn) to
          \<and> \<not> (to = TurnStatusStopped \<and> t_CancelRequestedAt turn = None)
          \<and> runs (executionNow store io) s1 now s2 \<and> Turn_Validate (transitioned turn to now) = None
          \<and> runs (write_event store io row (transitioned turn to now) d now (transition_columns (transitioned turn to now))) s2 e s'
          \<and> r = \<lparr>tres_Turn = transitioned turn to now, tres_Changed = True, tres_Event = Some e\<rparr>)"
    by (cases "t_Status turn = to") (auto simp: Let_def runs_bind runs_check runs_basic)
  have row: "turn_at (st_db s) i = Some row" "st_db s1 = st_db s"
    using runs_lockTurn [OF lock(1)] by (auto simp: turn_at_def)
  have ex: "storable io turn d" using exact row(1) lock(2) by simp
  note d' = column_draft_valid [OF d, of "io_json io"] ex [unfolded storable_def]
  from rest show ?thesis
  proof (elim disjE exE conjE)
    assume "t_Status turn = to" "r = \<lparr>tres_Turn = turn, tres_Changed = False, tres_Event = None\<rparr>" "s' = s1"
    moreover have "\<not> IsZero (1)" by (simp add: IsZero_def)
    ultimately show ?thesis using row lock(2) d' ok
      by (auto simp: Transition_def sql_ok_def fail_if_def intro!: exI [of _ "1"])
  next
    fix now s2 e
    let ?n = "transitioned turn to now"
    assume st: "t_Status turn \<noteq> to" "CanTransition (t_Status turn) to" "\<not> (to = TurnStatusStopped \<and> t_CancelRequestedAt turn = None)"
      and clk: "runs (executionNow store io) s1 now s2" and v: "Turn_Validate ?n = None"
      and w: "runs (write_event store io row ?n d now (transition_columns ?n)) s2 e s'"
      and r: "r = \<lparr>tres_Turn = ?n, tres_Changed = True, tres_Event = Some e\<rparr>"
    have now: "clock_read io now" "st_db s2 = st_db s" using runs_executionNow [OF clk] row(2) by (auto simp: clock_read_def)
    have cols: "q \<noteq> 0 \<Longrightarrow> q \<le> MaxDurableSequence \<Longrightarrow> toTurn (transition_columns ?n q row) = Inr ?n" for q
      by (rule sequence_columns [OF lock(2)])
        (use v in \<open>auto simp: transition_columns_def row_turn_def transitioned_def Let_def\<close>)
    note wr = write_event_refines [OF _ _ lock(2) transitioned_same_identity v _ _ _ cols ex w, unfolded now(2), OF ok row(1),
        unfolded transition_columns_def row_scope_def, simplified]
    show ?thesis
      using wr row(1) lock(2) d' r st v now(1) clock_read_not_zero [OF now(1)]
      by (auto simp: Transition_def fail_if_def Let_def intro!: exI [of _ now])
  qed
qed

lemma cancel_refines:
  assumes ok: "sql_ok (st_db s)" and run: "runs (requestCancel_tx store io p th i d) s r s'"
    and d: "EventDraft_Validate d = None" and exact: "\<And>t. ms_turns (abs_store (st_db s)) i = Some t \<Longrightarrow> storable io t d"
  shows "(\<exists>now. (cres_NewlyRequested r \<longrightarrow> clock_read io now)
      \<and> RequestCancel live_ctx p th i now (column_draft (io_json io) d) (abs_store (st_db s))
          = (Inr (r\<lparr>cres_Event := map_option (column_event (io_json io)) (cres_Event r)\<rparr>), abs_store (st_db s'))) \<and> rows_ok (st_db s')"
proof -
  from run obtain row s1 turn where lock: "runs (lockTurn store io (owned_row p th i)) s row s1" "toTurn row = Inr turn"
    and body: "runs (if TurnStatus_Terminal (t_Status turn) \<or> t_CancelRequestedAt turn \<noteq> None
      then tx_return \<lparr>cres_Turn = turn, cres_NewlyRequested = False, cres_Event = None\<rparr>
      else tx_bind (executionNow store io) (\<lambda>now. let nextTurn = cancelled turn now in
        tx_check (Turn_Validate nextTurn \<noteq> None) ErrStoreIntegrity (
        tx_bind (write_event store io row nextTurn d now (cancel_columns nextTurn)) (\<lambda>event.
        tx_return \<lparr>cres_Turn = nextTurn, cres_NewlyRequested = True, cres_Event = Some event\<rparr>)))) s1 r s'"
    unfolding requestCancel_tx_def runs_bind runs_decode by blast
  have row: "turn_at (st_db s) i = Some row" "st_db s1 = st_db s" "tr_PrincipalID row = p" "tr_ThreadID row = th"
  proof -
    have f: "find (owned_row p th i) (db_turns (st_db s)) = Some row" "st_db s1 = st_db s" using runs_lockTurn [OF lock(1)] by auto
    have o: "row \<in> set (db_turns (st_db s))" "owned_row p th i row" using find_SomeD [OF f(1)] by auto
    show "turn_at (st_db s) i = Some row" using rows_ok_at [OF _ o(1)] ok o(2) by (simp add: sql_ok_def owned_row_def)
    show "st_db s1 = st_db s" "tr_PrincipalID row = p" "tr_ThreadID row = th" using f(2) o(2) by (auto simp: owned_row_def)
  qed
  have own: "owned_turn (abs_store (st_db s)) p th i = Inr turn"
    using row lock(2) toTurn_id [OF lock(2)] by (simp add: owned_turn_def admit_scope_def row_scope_def)
  have ex: "storable io turn d" using exact row(1) lock(2) by simp
  note d' = column_draft_valid [OF d, of "io_json io"] ex [unfolded storable_def]
  show ?thesis
  proof (cases "TurnStatus_Terminal (t_Status turn) \<or> t_CancelRequestedAt turn \<noteq> None")
    case True
    with body have "r = \<lparr>cres_Turn = turn, cres_NewlyRequested = False, cres_Event = None\<rparr>" "s' = s1"
      by (auto simp: runs_basic)
    moreover have "\<not> IsZero 1" by (simp add: IsZero_def)
    ultimately show ?thesis using True row(2) d' ok unfolding RequestCancel_def own
      by (auto simp: sql_ok_def fail_if_def intro!: exI [of _ 1])
  next
    case False
    with body obtain now s2 e where clk: "runs (executionNow store io) s1 now s2" and v: "Turn_Validate (cancelled turn now) = None"
      and w: "runs (write_event store io row (cancelled turn now) d now (cancel_columns (cancelled turn now))) s2 e s'"
      and r: "r = \<lparr>cres_Turn = cancelled turn now, cres_NewlyRequested = True, cres_Event = Some e\<rparr>"
      by (auto simp: Let_def runs_bind runs_check runs_basic)
    have now: "clock_read io now" "st_db s2 = st_db s" using runs_executionNow [OF clk] row(2) by (auto simp: clock_read_def)
    have cols: "q \<noteq> 0 \<Longrightarrow> q \<le> MaxDurableSequence \<Longrightarrow> toTurn (cancel_columns (cancelled turn now) q row) = Inr (cancelled turn now)" for q
      by (rule sequence_columns [OF lock(2)]) (use v in \<open>auto simp: cancel_columns_def row_turn_def\<close>)
    note wr = write_event_refines [OF _ _ lock(2) cancelled_same_identity v _ _ _ cols ex w, unfolded now(2), OF ok row(1),
        unfolded cancel_columns_def row_scope_def, simplified]
    show ?thesis
      using wr False d' r v now(1) clock_read_not_zero [OF now(1)] unfolding RequestCancel_def own
      by (auto simp: fail_if_def Let_def intro!: exI [of _ now])
  qed
qed

lemma runs_admit_tx:
  assumes "runs (admit_tx store io c first) s t s'"
  shows "\<exists>now er n m. clock_read io now \<and> t = c\<lparr>t_CreatedAt := now, t_UpdatedAt := now\<rparr> \<and> Turn_Validate t = None
    \<and> eventToSQLRow (io_json io) first now = Inr er
    \<and> (\<forall>r \<in> set (db_turns (st_db s)). \<not> same_turn_key r (turnToSQLRow t 1))
    \<and> db_turns (st_db s') = db_turns (st_db s) @ [(turnToSQLRow t 1)\<lparr>tr_ID := n\<rparr>]
    \<and> db_events (st_db s') = db_events (st_db s) @ [er\<lparr>er_ID := m\<rparr>]"
proof -
  from assms obtain now s1 er s2 where
    steps: "runs (executionNow store io) s now s1" "t = c\<lparr>t_CreatedAt := now, t_UpdatedAt := now\<rparr>" "Turn_Validate t = None"
      "eventToSQLRow (io_json io) first now = Inr er" "runs (create_turn io (turnToSQLRow t 1)) s1 () s2"
      "runs (create_event io er) s2 () s'"
    unfolding admit_tx_def Let_def by (auto simp: runs_bind runs_check runs_basic runs_decode)
  have "clock_read io now" "st_db s1 = st_db s" using runs_executionNow [OF steps(1)] by (auto simp: clock_read_def)
  then show ?thesis
    using steps runs_insert_row [OF steps(5) [unfolded create_turn_def]] runs_insert_row [OF steps(6) [unfolded create_event_def]]
    by auto
qed

text \<open>Inserting a new Turn with its first event is, in the reference store, admitting it.\<close>

lemma insert_abs:
  assumes ok: "rows_ok db" and new: "\<forall>r \<in> set (db_turns db). tr_TurnID r \<noteq> tr_TurnID row \<and> row_scope r \<noteq> row_scope row"
    and row: "toTurn row = Inr t" "tr_LastEventSequence row = 1" and er: "er_TurnID er = tr_TurnID row" "er_EventJSON er = Some e"
      "toEnvelope er t = Inr e" "er_Sequence er < 2 ^ 63"
    and db': "db_turns db' = db_turns db @ [row]" "db_events db' = db_events db @ [er]"
  shows "abs_store db' = (abs_store db)\<lparr>ms_turns := (ms_turns (abs_store db))(t_ID t \<mapsto> t),
           ms_byIdem := (ms_byIdem (abs_store db))(admit_scope t \<mapsto> t_ID t),
           ms_events := (ms_events (abs_store db))(t_ID t \<mapsto> [e]),
           ms_lastSequence := (ms_lastSequence (abs_store db))(t_ID t \<mapsto> 1)\<rparr>"
    "turn_at db (t_ID t) = None" "find (\<lambda>r. row_scope r = admit_scope t) (db_turns db) = None" "rows_ok db'"
proof -
  have id: "t_ID t = tr_TurnID row" "admit_scope t = row_scope row" using toTurn_id [OF row(1)] by auto
  show free: "turn_at db (t_ID t) = None" "find (\<lambda>r. row_scope r = admit_scope t) (db_turns db) = None"
    using new by (auto simp: turn_at_def find_None_iff id)
  have at: "turn_at db' j = (if j = tr_TurnID row then Some row else turn_at db j)" for j
    using free(1) by (auto simp: turn_at_def db'(1) find_append id split: option.split)
  have none: "er_TurnID r \<noteq> tr_TurnID row" if "r \<in> set (db_events db)" for r
    using ok that free(1) id unfolding rows_ok_def event_row_ok_def by force
  have log: "db_log db' j = (if j = tr_TurnID row then [e] else db_log db j)" for j
    using none by (auto simp: db_log_def db'(2) er map_filter_def filter_empty_conv)
  have "ms_turns (abs_store db') = (ms_turns (abs_store db))(t_ID t \<mapsto> t)"
    using row(1) by (auto simp: fun_eq_iff at id)
  moreover have "ms_byIdem (abs_store db') = (ms_byIdem (abs_store db))(admit_scope t \<mapsto> t_ID t)"
    using free(2) by (auto simp: fun_eq_iff db'(1) find_append id split: option.split)
  moreover have "ms_events (abs_store db') = (ms_events (abs_store db))(t_ID t \<mapsto> [e])"
    by (auto simp: fun_eq_iff at log id)
  moreover have "ms_lastSequence (abs_store db') = (ms_lastSequence (abs_store db))(t_ID t \<mapsto> 1)"
    using row(2) by (auto simp: fun_eq_iff at id)
  ultimately show "abs_store db' = (abs_store db)\<lparr>ms_turns := (ms_turns (abs_store db))(t_ID t \<mapsto> t),
           ms_byIdem := (ms_byIdem (abs_store db))(admit_scope t \<mapsto> t_ID t),
           ms_events := (ms_events (abs_store db))(t_ID t \<mapsto> [e]),
           ms_lastSequence := (ms_lastSequence (abs_store db))(t_ID t \<mapsto> 1)\<rparr>"
    by (simp add: MemoryStore.equality)
  have "event_row_ok db' r" if "r \<in> set (db_events db')" for r
    using that ok none row(1) er unfolding db'(2) rows_ok_def event_row_ok_def by (auto simp: at)
  then show "rows_ok db'" using ok new row
    unfolding rows_ok_def by (auto simp: db'(1) log)
qed

abbreviation stamped :: "Turn \<Rightarrow> time \<Rightarrow> Turn" where
  "stamped c now \<equiv> c\<lparr>t_CreatedAt := now, t_UpdatedAt := now\<rparr>"

lemma buildEvent_stamped [simp]: "buildEvent (stamped c now) q d = buildEvent c q d"
  by (simp add: buildEvent_def)

lemma admit_tx_refines:
  assumes ok: "rows_ok (st_db s)" and first: "buildEvent c 1 d = Inr first"
    and run: "runs (admit_tx store io c first) s t s'" and guards: "fresh_lifecycle c" "EventDraft_Validate d = None"
    and exact: "storable io c d"
  shows "\<exists>now. clock_read io now \<and> t = stamped c now
      \<and> Admit live_ctx (stamped c now) (column_draft (io_json io) d) (abs_store (st_db s)) = (Inr \<lparr>adm_Turn = t, adm_Created = True\<rparr>, abs_store (st_db s'))
      \<and> rows_ok (st_db s')"
proof -
  from runs_admit_tx [OF run] obtain now er n m where
    a: "clock_read io now" "t = stamped c now" "Turn_Validate t = None" "eventToSQLRow (io_json io) first now = Inr er"
      "\<forall>r \<in> set (db_turns (st_db s)). \<not> same_turn_key r (turnToSQLRow t 1)"
      "db_turns (st_db s') = db_turns (st_db s) @ [(turnToSQLRow t 1)\<lparr>tr_ID := n\<rparr>]"
      "db_events (st_db s') = db_events (st_db s) @ [er\<lparr>er_ID := m\<rparr>]" by blast
  let ?e = "column_event (io_json io) first"
  have k: "utf8_turn c" "utf8_draft d" "data_fits (io_json io) d" using exact by (simp_all add: storable_def)
  have plugin: "decoded_plugin (t_Plugin t) = t_Plugin t" using utf8_turn_plugin [OF k(1)] a(2) by simp
  have row: "toTurn ((turnToSQLRow t 1)\<lparr>tr_ID := n\<rparr>) = Inr t"
    by (rule toTurn_row [OF a(3) plugin]) (simp_all add: MaxDurableSequence_def)
  have env: "toEnvelope (er\<lparr>er_ID := m\<rparr>) t = Inr ?e"
    using toEnvelope_row [OF a(4) first k(1,2), of t] a(2) k(3) by simp
  have er: "er_TurnID (er\<lparr>er_ID := m\<rparr>) = t_ID c" "er_EventJSON (er\<lparr>er_ID := m\<rparr>) = Some ?e" "er_Sequence (er\<lparr>er_ID := m\<rparr>) < 2 ^ 63"
    using eventToSQLRow_sel [OF a(4)] decoded_built [OF first k(1,2)] built_event(1) [OF first] by auto
  have new: "\<forall>r \<in> set (db_turns (st_db s)). tr_TurnID r \<noteq> tr_TurnID ((turnToSQLRow t 1)\<lparr>tr_ID := n\<rparr>)
      \<and> row_scope r \<noteq> row_scope ((turnToSQLRow t 1)\<lparr>tr_ID := n\<rparr>)"
    using a(5) by (auto simp: same_turn_key_def row_scope_def)
  have keys: "tr_LastEventSequence ((turnToSQLRow t 1)\<lparr>tr_ID := n\<rparr>) = 1" "tr_TurnID ((turnToSQLRow t 1)\<lparr>tr_ID := n\<rparr>) = t_ID c"
    using a(2) by (simp_all add: turnToSQLRow_def)
  note ins = insert_abs [OF ok new row keys(1) er(1) [folded keys(2)] er(2) env er(3) a(6,7)]
  have "fresh_lifecycle t" using guards(1) a(2) by (simp add: fresh_lifecycle_def)
  with ins a(1-3) column_draft_valid [OF guards(2) k(3)] buildEvent_column [OF first k(3)] show ?thesis
    by (auto simp: Admit_def fail_if_def intro!: exI [of _ now])
qed

lemma sql_ok_step: "sql_ok db \<Longrightarrow> mem_step (abs_store db) (abs_store db') \<Longrightarrow> rows_ok db' \<Longrightarrow> sql_ok db'"
  using mem_step_store_ok by (auto simp: sql_ok_def)

lemma runs_outside:
  "runs (outside io m) s x s' \<longleftrightarrow> runs m (s\<lparr>st_db := io_others io (st_tick s) (st_db s)\<rparr>) x s'"
  by (simp add: outside_def runs_def)

lemma lookup_refines:
  assumes ok: "\<And>n db. sql_ok db \<Longrightarrow> sql_ok (io_others io n db)" "sql_ok (st_db s)"
    and run: "runs (lookupIdempotency io c) s found s1"
  shows "sql_ok (st_db s1)" "found = Some winner \<Longrightarrow> ms_byIdem (abs_store (st_db s1)) (admit_scope c) = Some (t_ID winner)
    \<and> ms_turns (abs_store (st_db s1)) (t_ID winner) = Some winner"
proof -
  let ?db = "io_others io (st_tick s) (st_db s)"
  from run obtain row s2 where l: "runs (lookup_row io db_turns (in_admit_scope c)) (s\<lparr>st_db := ?db\<rparr>) row s2"
    and f: "row = None \<and> found = None \<and> s1 = s2 \<or> (\<exists>r t. row = Some r \<and> toTurn r = Inr t \<and> found = Some t \<and> s1 = s2)"
  proof -
    from run [unfolded lookupIdempotency_def runs_bind runs_outside] obtain row s2 where
      "runs (lookup_row io db_turns (in_admit_scope c)) (s\<lparr>st_db := ?db\<rparr>) row s2"
      and rest: "runs (case row of None \<Rightarrow> tx_return None | Some row \<Rightarrow> (case toTurn row of Inl e \<Rightarrow> tx_fail ErrStoreIntegrity
         | Inr turn \<Rightarrow> tx_check (t_PrincipalID turn \<noteq> t_PrincipalID c \<or> t_ThreadID turn \<noteq> t_ThreadID c
              \<or> t_IdempotencyKey turn \<noteq> t_IdempotencyKey c) ErrStoreIntegrity (tx_return (Some turn)))) s2 found s1" by blast
    then show thesis by (intro that [of row s2]) (auto simp: runs_basic runs_decode runs_check split: option.splits)
  qed
  have db: "st_db s1 = ?db" using f readsD [OF reads_lookup_row l] by auto
  show ok1: "sql_ok (st_db s1)" unfolding db using ok by blast
  assume "found = Some winner"
  with f obtain r where r: "row = Some r" "toTurn r = Inr winner" by auto
  have "find (in_admit_scope c) (db_turns ?db) = Some r" using runs_lookup_row [OF l [unfolded r(1)]] by simp
  moreover have "in_admit_scope c = (\<lambda>r. row_scope r = admit_scope c)"
    by (auto simp: fun_eq_iff in_admit_scope_def row_scope_def admit_scope_def)
  moreover have "turn_at ?db (tr_TurnID r) = Some r"
    using rows_ok_at [of ?db r] ok1 find_SomeD [OF calculation(1)] db by (simp add: sql_ok_def)
  ultimately show "ms_byIdem (abs_store (st_db s1)) (admit_scope c) = Some (t_ID winner)
    \<and> ms_turns (abs_store (st_db s1)) (t_ID winner) = Some winner"
    using r(2) toTurn_id [OF r(2)] by (simp add: db)
qed

lemma classified_refines:
  assumes "ms_byIdem st (admit_scope c) = Some (t_ID w)" "ms_turns st (t_ID w) = Some w"
    and "classifyIdempotentAdmission w c = Inr r" "Turn_Validate c = None" "fresh_lifecycle c" "EventDraft_Validate d = None"
  shows "Admit live_ctx c d st = (Inr r, st)"
  using assms by (auto simp: Admit_def classifyIdempotentAdmission_def map_get_def fail_if_def split: if_splits)

lemma admit_guards_None:
  "admit_guards x c d = None \<Longrightarrow> Turn_Validate c = None \<and> fresh_lifecycle c \<and> EventDraft_Validate d = None"
  by (simp add: admit_guards_def err_simps)

definition admits :: "sql_io \<Rightarrow> Turn \<Rightarrow> EventDraft \<Rightarrow> AdmissionRecord \<Rightarrow> sql_db \<Rightarrow> bool" where
  "admits io c d r db' \<longleftrightarrow> (\<exists>db c'. sql_ok db \<and> (c' = c \<or> (\<exists>now. clock_read io now \<and> c' = stamped c now))
     \<and> Admit live_ctx c' (column_draft (io_json io) d) (abs_store db) = (Inr r, abs_store db'))"

lemma admit_tx_keeps:
  assumes "sql_ok (st_db s)" "buildEvent c 1 d = Inr first" "runs (admit_tx store io c first) s t s'"
    "fresh_lifecycle c" "EventDraft_Validate d = None" "storable io c d"
  shows "sql_ok (st_db s')" "admits io c d \<lparr>adm_Turn = t, adm_Created = True\<rparr> (st_db s')"
proof -
  from admit_tx_refines [OF _ assms(2-6)] assms(1) obtain now where now: "clock_read io now" "t = stamped c now"
    "Admit live_ctx (stamped c now) (column_draft (io_json io) d) (abs_store (st_db s)) = (Inr \<lparr>adm_Turn = t, adm_Created = True\<rparr>, abs_store (st_db s'))"
    "rows_ok (st_db s')" by (auto simp: sql_ok_def)
  show "sql_ok (st_db s')" using sql_ok_step [OF assms(1) mem_step.admit [OF now(3)] now(4)] .
  show "admits io c d \<lparr>adm_Turn = t, adm_Created = True\<rparr> (st_db s')"
    unfolding admits_def using now assms(1) by blast
qed

lemma winner_admits:
  assumes "\<And>n db. sql_ok db \<Longrightarrow> sql_ok (io_others io n db)" "sql_ok (st_db s)"
    "runs (lookupIdempotency io c) s (Some w) s1" "classifyIdempotentAdmission w c = Inr r"
    "Turn_Validate c = None \<and> fresh_lifecycle c \<and> EventDraft_Validate d = None" "storable io c d"
  shows "admits io c d r (st_db s1) \<and> sql_ok (st_db s1)"
proof -
  have ok: "sql_ok (st_db s1)" by (rule lookup_refines(1) [OF assms(1-3)])
  have "ms_byIdem (abs_store (st_db s1)) (admit_scope c) = Some (t_ID w) \<and> ms_turns (abs_store (st_db s1)) (t_ID w) = Some w"
    by (rule lookup_refines(2) [OF assms(1-3)]) simp_all
  then have "Admit live_ctx c (column_draft (io_json io) d) (abs_store (st_db s1)) = (Inr r, abs_store (st_db s1))"
    using assms(4,5,6) column_draft_valid by (intro classified_refines) (auto simp: storable_def)
  with ok show ?thesis unfolding admits_def by blast
qed

lemma raced_admits:
  assumes "\<And>n db. sql_ok db \<Longrightarrow> sql_ok (io_others io n db)" "sql_ok (st_db s)" "runs (admit_raced io ctx c e) s r s'"
    "Turn_Validate c = None \<and> fresh_lifecycle c \<and> EventDraft_Validate d = None" "storable io c d"
  shows "admits io c d r (st_db s') \<and> sql_ok (st_db s')"
proof -
  from assms(3) obtain w where "runs (lookupIdempotency io c) s (Some w) s'" "classifyIdempotentAdmission w c = Inr r"
    unfolding admit_raced_def runs_guard runs_bind runs_catch_fail
    by (auto simp: runs_basic runs_bind runs_check split: option.splits)
  with winner_admits [OF assms(1,2) _ _ assms(4,5)] show ?thesis by blast
qed

lemma admission_refines:
  assumes others: "\<And>n db. sql_ok db \<Longrightarrow> sql_ok (io_others io n db)" and ok: "sql_ok (st_db s)"
    and exact: "storable io c d" and run: "runs (sql_Admit store io ctx c d) s r s'"
  shows "admits io c d r (st_db s') \<and> sql_ok (st_db s')"
proof -
  let ?ins = "\<lambda>first. writeTransaction store io (ctx 1) (ctx 2) (admit_tx store io c first)"
  from run obtain existing s1 where g: "admit_guards (ctx 0) c d = None" and l: "runs (lookupIdempotency io c) s existing s1"
    and rest: "runs (case existing of Some winner \<Rightarrow> tx_lift (classifyIdempotentAdmission winner c)
        | None \<Rightarrow> tx_bind (tx_lift (buildEvent c 1 d)) (\<lambda>first. tx_try (?ins first) (\<lambda>r. case r of
              Inr admitted \<Rightarrow> tx_return \<lparr>adm_Turn = admitted, adm_Created = True\<rparr>
            | Inl txErr \<Rightarrow> admit_raced io ctx c txErr))) s1 r s'"
    unfolding sql_Admit_def runs_guard runs_bind runs_catch_fail by blast
  note guards = admit_guards_None [OF g]
  have ok1: "sql_ok (st_db s1)" by (rule lookup_refines(1) [OF others ok l])
  show ?thesis
  proof (cases existing)
    case (Some w)
    with rest have "classifyIdempotentAdmission w c = Inr r" "s' = s1" by (auto simp: runs_basic)
    with winner_admits [OF others ok l [unfolded Some] _ guards exact] show ?thesis by simp
  next
    case None
    with rest obtain first where first: "buildEvent c 1 d = Inr first"
      and tx: "(\<exists>t s2. runs (?ins first) s1 t s2 \<and> r = \<lparr>adm_Turn = t, adm_Created = True\<rparr> \<and> s' = s2)
        \<or> (\<exists>e s2. ?ins first s1 = (Inl e, s2) \<and> runs (admit_raced io ctx c e) s2 r s')"
      by (auto simp: runs_bind runs_basic runs_try)
    have keep: "sql_ok (st_db (snd (?ins first s1)))"
      by (rule writeTransaction_keeps [OF ok1 others]) (use admit_tx_keeps(1) first guards exact in blast)+
    from tx show ?thesis
    proof (elim disjE exE conjE)
      fix t s2 assume w: "runs (?ins first) s1 t s2" "r = \<lparr>adm_Turn = t, adm_Created = True\<rparr>" "s' = s2"
      from runs_writeTransaction [OF w(1)] obtain sa sb where b: "st_db sa = io_others io (st_tick s1) (st_db s1)"
        "runs (admit_tx store io c first) sa t sb" "st_db s2 = st_db sb" by blast
      have "sql_ok (st_db sa)" unfolding b(1) by (rule others [OF ok1])
      from admit_tx_keeps [OF this first b(2) _ _ exact] guards w b(3) show ?thesis by simp
    next
      fix e s2 assume "?ins first s1 = (Inl e, s2)" "runs (admit_raced io ctx c e) s2 r s'"
      with raced_admits [OF others _ _ guards exact, of s2] keep show ?thesis by simp
    qed
  qed
qed

subsection \<open>The invariant under every outcome\<close>

definition keeps :: "(sql_db \<Rightarrow> bool) \<Rightarrow> 'a tx \<Rightarrow> bool" where
  "keeps P m \<longleftrightarrow> (\<forall>s. P (st_db s) \<longrightarrow> P (st_db (snd (m s))))"

named_theorems tx_keeps

lemma keeps_reads: "reads m \<Longrightarrow> keeps P m"
  by (simp add: keeps_def reads_def)

lemma keeps_basic [tx_keeps]: "keeps P (tx_return x)" "keeps P (tx_fail e)" "keeps P (tx_lift r)"
  by (simp_all add: keeps_reads tx_reads)

lemma keeps_bind [tx_keeps]: "keeps P m \<Longrightarrow> (\<And>x. keeps P (k x)) \<Longrightarrow> keeps P (tx_bind m k)"
  unfolding keeps_def tx_bind_def by (auto split: prod.split sum.split)

lemma keeps_try [tx_keeps]: "keeps P m \<Longrightarrow> (\<And>x. keeps P (k x)) \<Longrightarrow> keeps P (tx_try m k)"
  unfolding keeps_def tx_try_def by (auto split: prod.split)

lemma keeps_catch [tx_keeps]: "keeps P m \<Longrightarrow> (\<And>e. keeps P (h e)) \<Longrightarrow> keeps P (tx_catch m h)"
  unfolding keeps_def tx_catch_def by (auto split: prod.split sum.split)

lemma keeps_check [tx_keeps]: "keeps P k \<Longrightarrow> keeps P (tx_check b e k)"
  by (simp add: tx_check_def keeps_basic)

lemma keeps_guard: "(g = None \<Longrightarrow> keeps P k) \<Longrightarrow> keeps P (tx_guard g k)"
  by (cases g) (simp_all add: tx_guard_def keeps_basic)

lemma keeps_outside [tx_keeps]:
  "(\<And>n db. P db \<Longrightarrow> P (io_others io n db)) \<Longrightarrow> keeps P m \<Longrightarrow> keeps P (outside io m)"
  by (simp add: keeps_def outside_def)

lemma keeps_writeTransaction:
  assumes "\<And>n db. P db \<Longrightarrow> P (io_others io n db)" "\<And>s x s'. P (st_db s) \<Longrightarrow> runs body s x s' \<Longrightarrow> P (st_db s')"
  shows "keeps P (writeTransaction store io c1 c2 body)"
  unfolding keeps_def using writeTransaction_keeps [of P _ io body store c1 c2] assms by blast

lemma keeps_lookups [tx_keeps]:
  assumes "\<And>n db. P db \<Longrightarrow> P (io_others io n db)"
  shows "keeps P (lookupIdempotency io c)" "keeps P (lookupTurnByID io i)"
  unfolding lookupIdempotency_def lookupTurnByID_def
  by (intro keeps_bind keeps_outside keeps_reads [OF reads_lookup_row] assms;
      auto intro: tx_keeps split: option.split sum.split)+

lemma keeps_admit:
  assumes others: "\<And>n db. sql_ok db \<Longrightarrow> sql_ok (io_others io n db)" and exact: "storable io c d"
  shows "keeps sql_ok (sql_Admit store io ctx c d)"
  unfolding sql_Admit_def
proof (rule keeps_guard)
  assume "admit_guards (ctx 0) c d = None"
  note guards = admit_guards_None [OF this]
  have insert: "keeps sql_ok (writeTransaction store io (ctx 1) (ctx 2) (admit_tx store io c first))" if "buildEvent c 1 d = Inr first" for first
    by (rule keeps_writeTransaction [where P = sql_ok, OF others]) (use admit_tx_keeps(1) that guards exact in blast)+
  have raced: "keeps sql_ok (admit_raced io ctx c e)" for e
    unfolding admit_raced_def
    by (auto intro!: tx_keeps keeps_guard keeps_lookups others split: option.split)
  have "keeps sql_ok (tx_bind (tx_lift (buildEvent c 1 d)) (\<lambda>first.
      tx_try (writeTransaction store io (ctx 1) (ctx 2) (admit_tx store io c first)) (\<lambda>r. case r of
        Inr admitted \<Rightarrow> tx_return \<lparr>adm_Turn = admitted, adm_Created = True\<rparr>
      | Inl txErr \<Rightarrow> admit_raced io ctx c txErr)))"
  proof (cases "buildEvent c 1 d")
    case (Inl e)
    then show ?thesis by (simp add: keeps_def tx_bind_def tx_lift_def)
  next
    case (Inr first)
    have "keeps sql_ok (tx_try (writeTransaction store io (ctx 1) (ctx 2) (admit_tx store io c first)) (\<lambda>r. case r of
        Inr admitted \<Rightarrow> tx_return \<lparr>adm_Turn = admitted, adm_Created = True\<rparr>
      | Inl txErr \<Rightarrow> admit_raced io ctx c txErr))"
      by (rule keeps_try [OF insert [OF Inr]]) (auto intro: raced keeps_basic split: sum.split)
    with Inr show ?thesis by (simp add: keeps_def tx_bind_def tx_lift_def)
  qed
  then show "keeps sql_ok (tx_bind (tx_catch (lookupIdempotency io c) (\<lambda>e. tx_fail (normalize ''admit'' e))) (\<lambda>existing.
      case existing of None \<Rightarrow> tx_bind (tx_lift (buildEvent c 1 d)) (\<lambda>first.
        tx_try (writeTransaction store io (ctx 1) (ctx 2) (admit_tx store io c first)) (\<lambda>r. case r of
          Inr admitted \<Rightarrow> tx_return \<lparr>adm_Turn = admitted, adm_Created = True\<rparr>
        | Inl txErr \<Rightarrow> admit_raced io ctx c txErr))
      | Some winner \<Rightarrow> tx_lift (classifyIdempotentAdmission winner c)))"
    by (auto intro!: keeps_bind keeps_catch keeps_lookups others keeps_basic split: option.split)
qed

lemma tx_catch_fail_state: "snd (tx_catch m (\<lambda>e. tx_fail (h e)) s) = snd (m s)"
  by (simp add: tx_catch_def tx_fail_def split: prod.split sum.split)

lemma write_keeps:
  assumes "sql_ok (st_db s)" "sql_ok (io_others io (st_tick s) (st_db s))"
    and "\<And>s1 x s2. st_db s1 = io_others io (st_tick s) (st_db s) \<Longrightarrow> runs body s1 x s2 \<Longrightarrow> sql_ok (st_db s2)"
  shows "sql_ok (st_db (snd (tx_catch (writeTransaction store io c1 c2 body) (\<lambda>e. tx_fail (h e)) s)))"
  unfolding tx_catch_fail_state by (rule writeTransaction_db [where P = sql_ok, OF assms])

lemma guarded_keeps:
  assumes "sql_ok (st_db s)" "sql_ok (io_others io (st_tick s) (st_db s))"
    and "\<And>s1 x s2. g = None \<Longrightarrow> st_db s1 = io_others io (st_tick s) (st_db s) \<Longrightarrow> runs body s1 x s2 \<Longrightarrow> sql_ok (st_db s2)"
  shows "sql_ok (st_db (snd (tx_guard g (tx_catch (writeTransaction store io c1 c2 body) (\<lambda>e. tx_fail (h e))) s)))"
proof (cases g)
  case None
  with write_keeps [OF assms(1,2) assms(3)] show ?thesis by (simp add: tx_guard_def)
qed (use assms(1) in \<open>simp add: tx_guard_def tx_fail_def\<close>)

lemma runs_guarded:
  assumes "runs (tx_guard g (tx_catch (writeTransaction store io c1 c2 body) (\<lambda>e. tx_fail (h e)))) s x s'"
  shows "g = None \<and> (\<exists>s1 s2. st_db s1 = io_others io (st_tick s) (st_db s) \<and> runs body s1 x s2 \<and> st_db s' = st_db s2)"
proof -
  from assms have "g = None" "runs (writeTransaction store io c1 c2 body) s x s'" by (simp_all add: runs_guard runs_catch_fail)
  with runs_writeTransaction [OF this(2)] show ?thesis by simp
qed

lemma append_ok:
  assumes "sql_ok db" "\<And>t. ms_turns (abs_store db) i = Some t \<Longrightarrow> storable io t d"
    and "st_db s = db" "EventDraft_Validate d = None" "runs (appendEvent_tx store io i d) s e s'"
  shows "sql_ok (st_db s')"
  using append_refines [OF assms(1) [folded assms(3)] assms(5,4) assms(2) [folded assms(3)]]
    sql_ok_step [OF assms(1) [folded assms(3)]] mem_step.append by blast

lemma transition_ok:
  assumes "sql_ok db" "\<And>t. ms_turns (abs_store db) i = Some t \<Longrightarrow> storable io t d"
    and "st_db s = db" "EventDraft_Validate d = None" "runs (transition_tx store io i to d) s r s'"
  shows "sql_ok (st_db s')"
  using transition_refines [OF assms(1) [folded assms(3)] assms(5,4) assms(2) [folded assms(3)]]
    sql_ok_step [OF assms(1) [folded assms(3)]] mem_step.transition by blast

lemma cancel_ok:
  assumes "sql_ok db" "\<And>t. ms_turns (abs_store db) i = Some t \<Longrightarrow> storable io t d"
    and "st_db s = db" "EventDraft_Validate d = None" "runs (requestCancel_tx store io p th i d) s r s'"
  shows "sql_ok (st_db s')"
  using cancel_refines [OF assms(1) [folded assms(3)] assms(5,4) assms(2) [folded assms(3)]]
    sql_ok_step [OF assms(1) [folded assms(3)]] mem_step.cancel by blast

subsection \<open>Admission in an undisturbed environment\<close>

lemma quiet_create:
  assumes "quiet_io io" "\<forall>r \<in> set (table (st_db s)). \<not> clash r row"
  shows "insert_row io table clash add row s
    = (Inr (), ticked s ((add row (st_db s))\<lparr>db_autoinc := Suc (db_autoinc (st_db s))\<rparr>))"
  using assms by (simp add: insert_row_def quiet_statement list_ex_iff)

lemma quiet_others: "quiet_io io \<Longrightarrow> io_others io n db = db"
  by (simp add: quiet_io_def)

lemma quiet_admit_tx:
  assumes "quiet_io io" "\<And>n. io_clock io n = Inr tm" "canonicalExecutionTime tm = Inr now" "ss_executionClock store"
    and "Turn_Validate (stamped c now) = None" "eventToSQLRow (io_json io) first now = Inr er" "er_TurnID er = t_ID c"
    and "\<forall>r \<in> set (db_turns (st_db s)). \<not> same_turn_key r (turnToSQLRow (stamped c now) 1)"
    and "\<forall>r \<in> set (db_events (st_db s)). er_TurnID r \<noteq> t_ID c"
  shows "\<exists>s'. admit_tx store io c first s = (Inr (stamped c now), s')
    \<and> db_turns (st_db s') = db_turns (st_db s) @ [(turnToSQLRow (stamped c now) 1)\<lparr>tr_ID := db_autoinc (st_db s)\<rparr>]"
  using assms
  by (simp add: admit_tx_def tx_bind_def quiet_executionNow [OF assms(2-4)] tx_check_def create_turn_def create_event_def
      quiet_create same_event_key_def tx_return_def Let_def)

lemma canonicalExecutionTime_idem: "canonicalExecutionTime t = Inr now \<Longrightarrow> canonicalExecutionTime now = Inr now"
  using canonical_not_zero [of t now] by (auto simp: canonicalExecutionTime_def Let_def split: if_splits)

lemma quiet_admit:
  assumes quiet: "quiet_io io" "\<And>n. io_clock io n = Inr tm" "canonicalExecutionTime tm = Inr now" "ss_executionClock store"
    and ctx: "\<And>n. contextError (ctx n) = None"
    and valid: "Turn_Validate c = None" "fresh_lifecycle c" "EventDraft_Validate d = None" "Turn_Validate (stamped c now) = None"
    and free: "\<forall>r \<in> set (db_turns (st_db s)). \<not> same_turn_key r (turnToSQLRow (stamped c now) 1)"
      "\<forall>r \<in> set (db_events (st_db s)). er_TurnID r \<noteq> t_ID c"
  shows "\<exists>s'. runs (sql_Admit store io ctx c d) s \<lparr>adm_Turn = stamped c now, adm_Created = True\<rparr> s'
    \<and> db_turns (st_db s') = db_turns (st_db s) @ [(turnToSQLRow (stamped c now) 1)\<lparr>tr_ID := db_autoinc (st_db s)\<rparr>]"
proof -
  obtain first where first: "buildEvent c 1 d = Inr first"
    using buildEvent_valid [OF valid(1,3), of 1] by (auto simp: MaxDurableSequence_def)
  have can: "canonicalExecutionTime now = Inr now" using canonicalExecutionTime_idem [OF quiet(3)] .
  note row = eventToSQLRow_total [OF built_event_stored [OF first valid(1,3)] can, of "io_json io"]
  have none: "find (in_admit_scope c) (db_turns (st_db s)) = None"
    using free(1) by (auto simp: find_None_iff same_turn_key_def in_admit_scope_def turnToSQLRow_def)
  have look: "lookupIdempotency io c s = (Inr None, ticked s (st_db s))"
    using quiet(1) none by (simp add: lookupIdempotency_def tx_bind_def outside_def quiet_lookup_row tx_return_def quiet_others)
  have "er_TurnID (case eventToSQLRow (io_json io) first now of Inr r \<Rightarrow> r | Inl _ \<Rightarrow> undefined) = t_ID c"
    using row built_event(1) [OF first] by simp
  with quiet_admit_tx [OF quiet valid(4) row, of "ticked (ticked s (st_db s)) (st_db s)"] free
  obtain s2 where s2: "admit_tx store io c first (ticked (ticked s (st_db s)) (st_db s)) = (Inr (stamped c now), s2)"
    "db_turns (st_db s2) = db_turns (st_db s) @ [(turnToSQLRow (stamped c now) 1)\<lparr>tr_ID := db_autoinc (st_db s)\<rparr>]"
    by (auto simp: row)
  have "admit_guards (ctx 0) c d = None" using ctx valid by (simp add: admit_guards_def err_simps)
  then show ?thesis
    by (simp add: runs_def sql_Admit_def tx_guard_def tx_bind_def tx_catch_def look tx_lift_def first tx_try_def
        quiet_writeTransaction [OF quiet(1) ctx ctx] s2 tx_return_def)
qed

text \<open>The event rows of a Turn, in the order of insertion, are its log.\<close>

lemma toEnvelope_Inr:
  "toEnvelope r t = Inr e \<Longrightarrow> er_EventJSON r = Some e \<and> 1 \<le> er_Sequence r \<and> ev_Sequence e = word_of_int (er_Sequence r)
     \<and> (word_of_int (er_Sequence r) :: Sequence) \<le> MaxDurableSequence \<and> ev_EventID e = er_EventID r
     \<and> ev_EventID e = deterministicEventID (t_ID t) (ev_Sequence e)"
  by (auto simp: toEnvelope_def not_less split: if_splits option.splits)

definition turn_rows :: "sql_db \<Rightarrow> TurnID \<Rightarrow> sqlTurnEventRow list" where
  "turn_rows db i = filter (\<lambda>r. er_TurnID r = i) (db_events db)"

lemma map_filter_total: "(\<And>x. x \<in> set xs \<Longrightarrow> f x = Some (g x)) \<Longrightarrow> List.map_filter f xs = map g xs"
  by (induction xs) (simp_all add: map_filter_simps)

lemma log_rows:
  assumes ok: "sql_ok db" and row: "turn_at db i = Some row" "toTurn row = Inr t"
  shows "length (turn_rows db i) = length (db_log db i)"
    "k < length (db_log db i) \<Longrightarrow> toEnvelope (turn_rows db i ! k) t = Inr (db_log db i ! k)"
    "k < length (db_log db i) \<Longrightarrow> er_Sequence (turn_rows db i ! k) = int (Suc k)"
    "log_ok t (db_log db i)"
proof -
  have env: "\<exists>e. toEnvelope r t = Inr e" if "r \<in> set (turn_rows db i)" for r
  proof -
    from that ok have "event_row_ok db r" "er_TurnID r = i" by (auto simp: turn_rows_def sql_ok_def rows_ok_def)
    with row show ?thesis by (auto simp: event_row_ok_def)
  qed
  have "db_log db i = map (\<lambda>r. the (er_EventJSON r)) (turn_rows db i)"
    unfolding db_log_def turn_rows_def [symmetric] by (rule map_filter_total) (use env toEnvelope_Inr in force)
  then show len: "length (turn_rows db i) = length (db_log db i)"
    and e: "k < length (db_log db i) \<Longrightarrow> toEnvelope (turn_rows db i ! k) t = Inr (db_log db i ! k)" for k
    using env toEnvelope_Inr by (auto simp: nth_mem dest!: env) (metis nth_mem option.sel toEnvelope_Inr env)
  show log: "log_ok t (db_log db i)"
    using ok store_okD [of "abs_store db" i t] row by (auto simp: sql_ok_def turn_ok_def map_get_def)
  show "er_Sequence (turn_rows db i ! k) = int (Suc k)" if "k < length (db_log db i)"
  proof -
    have "turn_rows db i ! k \<in> set (turn_rows db i)" using that len by simp
    then have "er_Sequence (turn_rows db i ! k) < 2 ^ 63" using ok by (auto simp: turn_rows_def sql_ok_def rows_ok_def event_row_ok_def)
    moreover note toEnvelope_Inr [OF e [OF that]]
    ultimately have "uint (ev_Sequence (db_log db i ! k)) = er_Sequence (turn_rows db i ! k)" by (simp add: uint_word_of_int)
    then show ?thesis using log_ok_unat [OF log that] by (simp add: uint_nat)
  qed
qed

lemma quiet_updateTurnColumns:
  assumes "quiet_io io" "rows_ok db" "db_turns (st_db s) = db_turns db" "turn_at db i = Some row" "columns row \<noteq> row"
  shows "\<exists>s'. updateTurnColumns store io i columns s = (Inr (), s')"
proof -
  let ?p = "\<lambda>r. tr_TurnID r = i \<and> (ss_dialect store = MySQL \<longrightarrow> columns r \<noteq> r)"
  have r: "row \<in> set (db_turns db)" "tr_TurnID row = i" using turn_at_row [OF assms(4)] by auto
  have u: "r' = row" if "r' \<in> set (db_turns db)" "?p r'" for r'
    using rows_ok_unique [OF assms(2) that(1) r(1)] that(2) r(2) by simp
  have d: "distinct (db_turns db)" using assms(2) by (simp add: rows_ok_def distinct_map)
  have "find ?p (db_turns db) = Some row" by (rule find_unique [OF r(1)]) (use r assms(5) u in blast)+
  then have "filter ?p (db_turns db) = [row]" using u d by (rule filter_unique)
  then have "rows_affected (ss_dialect store) (\<lambda>r. tr_TurnID r = i) columns (db_turns db) = 1"
    unfolding rows_affected_def by (simp only: list.size)
  then show ?thesis using assms(1,3) by (simp add: updateTurnColumns_def tx_bind_def quiet_statement tx_check_def tx_return_def)
qed

lemma quiet_append:
  assumes quiet: "quiet_io io" "\<And>n. io_clock io n = Inr tm" "canonicalExecutionTime tm = Inr now" "ss_executionClock store"
    and ctx: "\<And>n. contextError (ctx n) = None" and ok: "sql_ok (st_db s)"
    and row: "turn_at (st_db s) i = Some row" "toTurn row = Inr t" "tr_FencingToken row \<le> 0" "tr_LastEventSequence row < 2 ^ 63 - 1"
    and live: "\<not> TurnStatus_Terminal (t_Status t)" and d: "EventDraft_Validate d = None"
  shows "\<exists>e s'. runs (sql_AppendEvent store io ctx i d) s e s'"
proof -
  note last = sql_ok_last [OF ok row(1)]
  define q where "q = (word_of_int (tr_LastEventSequence row + 1) :: Sequence)"
  have nxt: "nextSQLSequence (tr_LastEventSequence row) = Inr q" using last row(4) unfolding q_def by (intro nextSQLSequence_total) simp_all
  have seq: "q \<noteq> 0" "q \<le> MaxDurableSequence" "sint q = tr_LastEventSequence row + 1" "uint q = tr_LastEventSequence row + 1"
    using nextSQLSequence_Inr [OF nxt] row(4) by auto
  have id: "t_ID t = i" using toTurn_id [OF row(2)] turn_at_row [OF row(1)] by simp
  have v: "Turn_Validate t = None" using toTurn_Inr [OF row(2)] by blast
  from buildEvent_valid [OF v d seq(1,2)] obtain e where e: "buildEvent t q d = Inr e" by blast
  note b = built_event [OF e]
  note er = eventToSQLRow_total [OF built_event_stored [OF e v d] canonicalExecutionTime_idem [OF quiet(3)], of "io_json io"]
  have free: "\<not> (er_TurnID r = i \<and> (er_Sequence r = sint q \<or> er_EventID r = ev_EventID e))" if "r \<in> set (db_events (st_db s))" for r
  proof
    assume r: "er_TurnID r = i \<and> (er_Sequence r = sint q \<or> er_EventID r = ev_EventID e)"
    then have "r \<in> set (turn_rows (st_db s) i)" using that by (simp add: turn_rows_def)
    then obtain k where k: "k < length (db_log (st_db s) i)" "r = turn_rows (st_db s) i ! k"
      using log_rows(1) [OF ok row(1,2)] by (metis in_set_conv_nth)
    note f = toEnvelope_Inr [OF log_rows(2) [OF ok row(1,2) k(1)], folded k(2)] log_rows(3) [OF ok row(1,2) k(1), folded k(2)]
    have "er_Sequence r < sint q" using f(2) k(1) last(1) seq(3) by simp
    with r have "deterministicEventID (t_ID t) (word_of_int (er_Sequence r)) = deterministicEventID (t_ID t) q" using f(1) b by auto
    then have "(word_of_int (er_Sequence r) :: Sequence) = q" by simp
    then have "uint (word_of_int (er_Sequence r) :: Sequence) = tr_LastEventSequence row + 1" using seq(4) by simp
    moreover have "uint (word_of_int (er_Sequence r) :: Sequence) = er_Sequence r"
      using \<open>er_Sequence r < sint q\<close> f(1) seq(3) row(4) by (simp add: uint_word_of_int)
    ultimately show False using \<open>er_Sequence r < sint q\<close> seq(3) by simp
  qed
  let ?s1 = "ticked s (st_db s)"
  have lock: "\<exists>s2. lockTurn store io (\<lambda>r. tr_TurnID r = i) ?s1 = (Inr row, s2) \<and> st_db s2 = st_db s"
    using quiet_lockTurn_id [OF quiet(1), of i ?s1 row store] row(1) ok
    by (auto simp: turn_at_def sql_ok_def rows_ok_def)
  then obtain s2 where s2: "lockTurn store io (\<lambda>r. tr_TurnID r = i) ?s1 = (Inr row, s2)" "st_db s2 = st_db s" by blast
  obtain s3 where s3: "insertEvent io e now (ticked s2 (st_db s)) = (Inr (), s3)" "db_turns (st_db s3) = db_turns (st_db s)"
    using free quiet(1) b id
    by (simp add: insertEvent_def er create_event_def quiet_create same_event_key_def)
  have "\<exists>s4. updateTurnColumns store io i (\<lambda>r. r\<lparr>tr_LastEventSequence := sint q\<rparr>) s3 = (Inr (), s4)"
    by (rule quiet_updateTurnColumns [OF quiet(1) _ s3(2) row(1)])
      (use ok seq(3) in \<open>auto simp: sql_ok_def dest: arg_cong [where f = tr_LastEventSequence]\<close>)
  then obtain s4 where s4: "updateTurnColumns store io i (\<lambda>r. r\<lparr>tr_LastEventSequence := sint q\<rparr>) s3 = (Inr (), s4)" by blast
  have "appendEvent_tx store io i d ?s1 = (Inr e, s4)"
    using row(2,3) live by (simp add: appendEvent_tx_def write_event_def tx_bind_def s2 tx_check_def
        quiet_executionNow [OF quiet(2-4)] tx_lift_def nxt e s3 id s4 tx_return_def)
  moreover have "validatePathSegment ''turnId'' i MaxTurnIDBytes = None" using v id by (simp add: Turn_Validate_def err_simps)
  ultimately show ?thesis using ctx d
    by (simp add: runs_def sql_AppendEvent_def tx_guard_def tx_catch_def quiet_writeTransaction [OF quiet(1) ctx ctx])
qed

text \<open>The sample environment stores JSON as MySQL does, in a layout of its own.\<close>

definition sample_json_io :: "time \<Rightarrow> sql_io" where
  "sample_json_io t = (sample_io t)\<lparr>io_json := sample_column False False\<rparr>"

lemma sample_json_quiet: "quiet_io (sample_json_io t)"
  by (simp add: quiet_io_def sample_json_io_def sample_io_def)

lemma sample_storable: "storable (sample_json_io t) sample_turn sample_status"
  using sample_utf8 sample_column_text(2) by (simp add: storable_def sample_json_io_def)

lemma sample_storable_stamped: "storable (sample_json_io t) (stamped sample_turn now) sample_status"
  using sample_storable [of t] by (simp add: storable_def utf8_turn_def)

lemma sample_clock:
  "io_clock (sample_json_io sample_time) n = Inr sample_time" "canonicalExecutionTime sample_time = Inr sample_time"
  "ss_executionClock sample_sql" "Turn_Validate (stamped sample_turn sample_time) = None"
  by (simp add: sample_json_io_def sample_io_def) code_simp+

lemma sql_ok_empty: "sql_ok empty_db"
  by (simp add: sql_ok_def rows_ok_def store_ok_def empty_db_def turn_at_def)

lemma sample_sql_admission:
  "\<exists>s'. runs (sql_Admit sample_sql (sample_json_io sample_time) live_ctx sample_turn sample_status) \<lparr>st_db = empty_db, st_tick = 0\<rparr>
     \<lparr>adm_Turn = stamped sample_turn sample_time, adm_Created = True\<rparr> s'
   \<and> db_turns (st_db s') = [(turnToSQLRow (stamped sample_turn sample_time) 1)\<lparr>tr_ID := 1\<rparr>]"
  using quiet_admit [OF sample_json_quiet sample_clock(1-3) live_ctx_None sample_admitted(1,2) sample_column_text(3) sample_clock(4), of "\<lparr>st_db = empty_db, st_tick = 0\<rparr>"]
  by (simp add: empty_db_def)

lemma sample_others: "sql_ok db \<Longrightarrow> sql_ok (io_others (sample_json_io t) n db)"
  by (simp add: sample_json_io_def sample_io_def)

lemma sample_row_turn:
  "toTurn ((turnToSQLRow (stamped sample_turn sample_time) 1)\<lparr>tr_ID := 1\<rparr>) = Inr (stamped sample_turn sample_time)"
  by (rule toTurn_row [OF sample_clock(4)]) (code_simp, simp_all add: MaxDurableSequence_def)

lemma sample_appendable:
  "\<exists>s e s'. sql_ok (st_db s) \<and> turn_at (st_db s) ''turn-1'' = Some ((turnToSQLRow (stamped sample_turn sample_time) 1)\<lparr>tr_ID := 1\<rparr>)
     \<and> runs (sql_AppendEvent sample_sql (sample_json_io sample_time) live_ctx ''turn-1'' sample_status) s e s'"
proof -
  let ?row = "(turnToSQLRow (stamped sample_turn sample_time) 1)\<lparr>tr_ID := 1\<rparr>"
  obtain s where run: "runs (sql_Admit sample_sql (sample_json_io sample_time) live_ctx sample_turn sample_status)
      \<lparr>st_db = empty_db, st_tick = 0\<rparr> \<lparr>adm_Turn = stamped sample_turn sample_time, adm_Created = True\<rparr> s"
    and turns: "db_turns (st_db s) = [?row]" using sample_sql_admission by blast
  have ok: "sql_ok (st_db s)" using admission_refines [OF sample_others _ sample_storable run] sql_ok_empty by simp
  have at: "turn_at (st_db s) ''turn-1'' = Some ?row" by (simp add: turn_at_def turns turnToSQLRow_def sample_turn_def)
  have "tr_FencingToken ?row \<le> 0" "tr_LastEventSequence ?row < 2 ^ 63 - 1" by (simp_all add: turnToSQLRow_def)
  moreover have "\<not> TurnStatus_Terminal (t_Status (stamped sample_turn sample_time))" by code_simp
  ultimately obtain e s' where "runs (sql_AppendEvent sample_sql (sample_json_io sample_time) live_ctx ''turn-1'' sample_status) s e s'"
    using quiet_append [where ctx = live_ctx, OF sample_json_quiet sample_clock(1-3) live_ctx_None ok at sample_row_turn _ _ _ sample_column_text(3)] by blast
  with ok at show ?thesis by blast
qed

subsection \<open>Properties\<close>



text \<open>
  C25. Appending, transitions and cancellation refine the reference store. Let the database the
  transaction begins on be sound, let the texts of the Turn and of the draft be UTF-8 and let the
  text that the JSON column returns for the draft's data, which may be laid out differently, be
  valid JSON within the byte limit. Then each operation leaves a sound database whatever it returns;
  and when it succeeds, the reference store, given the draft with its data as the column returns it,
  succeeds from the abstract state of that database and ends in the same abstract state, with the
  same Turn and result and the same event but for the layout of its data. A transition or
  cancellation that changes the Turn happens at a reading of the database clock, whatever time the
  caller passed.
\<close>

theorem sql_writes_refine:
  assumes "db = io_others io (st_tick s) (st_db s)" "sql_ok (st_db s)" "sql_ok db"
    and exact: "\<And>t. ms_turns (abs_store db) i = Some t \<Longrightarrow> storable io t d"
  shows "sql_ok (st_db (snd (sql_AppendEvent store io ctx i d s)))
    \<and> sql_ok (st_db (snd (sql_Transition store io ctx i to tm d s)))
    \<and> sql_ok (st_db (snd (sql_RequestCancel store io ctx p th i tm d s)))
    \<and> (\<forall>e s'. runs (sql_AppendEvent store io ctx i d) s e s'
         \<longrightarrow> AppendEvent live_ctx i (column_draft (io_json io) d) (abs_store db) = (Inr (column_event (io_json io) e), abs_store (st_db s')))
    \<and> (\<forall>r s'. runs (sql_Transition store io ctx i to tm d) s r s' \<longrightarrow> (\<exists>now. (tres_Changed r \<longrightarrow> clock_read io now)
         \<and> Transition live_ctx i to now (column_draft (io_json io) d) (abs_store db)
             = (Inr (r\<lparr>tres_Event := map_option (column_event (io_json io)) (tres_Event r)\<rparr>), abs_store (st_db s'))))
    \<and> (\<forall>r s'. runs (sql_RequestCancel store io ctx p th i tm d) s r s' \<longrightarrow> (\<exists>now. (cres_NewlyRequested r \<longrightarrow> clock_read io now)
         \<and> RequestCancel live_ctx p th i now (column_draft (io_json io) d) (abs_store db)
             = (Inr (r\<lparr>cres_Event := map_option (column_event (io_json io)) (cres_Event r)\<rparr>), abs_store (st_db s'))))"
proof (intro conjI allI impI)
  show "sql_ok (st_db (snd (sql_AppendEvent store io ctx i d s)))"
    unfolding sql_AppendEvent_def by (rule guarded_keeps [OF assms(2,3) [unfolded assms(1)]], rule append_ok [OF assms(3) exact]) (simp_all add: assms(1) err_simps)
  show "sql_ok (st_db (snd (sql_Transition store io ctx i to tm d s)))"
    unfolding sql_Transition_def by (rule guarded_keeps [OF assms(2,3) [unfolded assms(1)]], rule transition_ok [OF assms(3) exact]) (simp_all add: assms(1) err_simps)
  show "sql_ok (st_db (snd (sql_RequestCancel store io ctx p th i tm d s)))"
    unfolding sql_RequestCancel_def by (rule guarded_keeps [OF assms(2,3) [unfolded assms(1)]], rule cancel_ok [OF assms(3) exact]) (simp_all add: assms(1) err_simps)
next
  fix e s' assume "runs (sql_AppendEvent store io ctx i d) s e s'"
  from runs_guarded [OF this [unfolded sql_AppendEvent_def]] obtain s1 s2 where
    "st_db s1 = db" "runs (appendEvent_tx store io i d) s1 e s2" "st_db s' = st_db s2" "EventDraft_Validate d = None"
    unfolding assms(1) by (auto simp: err_simps)
  with append_refines [of s1] exact assms(3) show "AppendEvent live_ctx i (column_draft (io_json io) d) (abs_store db)
      = (Inr (column_event (io_json io) e), abs_store (st_db s'))" by simp
next
  fix r s' assume "runs (sql_Transition store io ctx i to tm d) s r s'"
  from runs_guarded [OF this [unfolded sql_Transition_def]] obtain s1 s2 where
    "st_db s1 = db" "runs (transition_tx store io i to d) s1 r s2" "st_db s' = st_db s2" "EventDraft_Validate d = None"
    unfolding assms(1) by (auto simp: err_simps)
  with transition_refines [of s1] exact assms(3) show "\<exists>now. (tres_Changed r \<longrightarrow> clock_read io now)
       \<and> Transition live_ctx i to now (column_draft (io_json io) d) (abs_store db)
           = (Inr (r\<lparr>tres_Event := map_option (column_event (io_json io)) (tres_Event r)\<rparr>), abs_store (st_db s'))" by simp
next
  fix r s' assume "runs (sql_RequestCancel store io ctx p th i tm d) s r s'"
  from runs_guarded [OF this [unfolded sql_RequestCancel_def]] obtain s1 s2 where
    "st_db s1 = db" "runs (requestCancel_tx store io p th i d) s1 r s2" "st_db s' = st_db s2" "EventDraft_Validate d = None"
    unfolding assms(1) by (auto simp: err_simps)
  with cancel_refines [of s1] exact assms(3) show "\<exists>now. (cres_NewlyRequested r \<longrightarrow> clock_read io now)
       \<and> RequestCancel live_ctx p th i now (column_draft (io_json io) d) (abs_store db)
           = (Inr (r\<lparr>cres_Event := map_option (column_event (io_json io)) (cres_Event r)\<rparr>), abs_store (st_db s'))" by simp
qed

theorem sql_writes_refine_witness:
  "\<exists>s e s'. runs (sql_AppendEvent sample_sql (sample_json_io sample_time) live_ctx ''turn-1'' sample_status) s e s'
     \<and> AppendEvent live_ctx ''turn-1'' (sample_status\<lparr>ed_Data := ''{\"status\": \"queued\", \"n\": 1}''\<rparr>) (abs_store (st_db s))
         = (Inr (column_event (sample_column False False) e), abs_store (st_db s')) \<and> sql_ok (st_db s')"
proof -
  obtain s e s' where s: "sql_ok (st_db s)" "turn_at (st_db s) ''turn-1'' = Some ((turnToSQLRow (stamped sample_turn sample_time) 1)\<lparr>tr_ID := 1\<rparr>)"
    "runs (sql_AppendEvent sample_sql (sample_json_io sample_time) live_ctx ''turn-1'' sample_status) s e s'" using sample_appendable by blast
  have db: "st_db s = io_others (sample_json_io sample_time) (st_tick s) (st_db s)" by (simp add: sample_json_io_def sample_io_def)
  have ex: "storable (sample_json_io sample_time) t sample_status" if "ms_turns (abs_store (st_db s)) ''turn-1'' = Some t" for t
    using that s(2) sample_row_turn sample_storable_stamped [of sample_time sample_time] by simp
  have col: "io_json (sample_json_io sample_time) = sample_column False False" by (simp add: sample_json_io_def)
  note refine = sql_writes_refine [where i = "''turn-1''" and to = TurnStatusRunning and p = "''alice''" and th = "''thread-1''" and tm = 1
      and store = sample_sql and ctx = live_ctx, OF db s(1,1) ex, unfolded col sample_column_text(1)]
  have "AppendEvent live_ctx ''turn-1'' (sample_status\<lparr>ed_Data := ''{\"status\": \"queued\", \"n\": 1}''\<rparr>) (abs_store (st_db s))
      = (Inr (column_event (sample_column False False) e), abs_store (st_db s'))" using refine s(3) by blast
  moreover have "sql_ok (st_db s')" using refine s(3) by (simp add: runs_def)
  ultimately show ?thesis using s(3) by blast
qed

end
