(* ===== verification/Sql_Replay.thy ===== *)
theory Sql_Replay
  imports Sql_Refinement
begin

text \<open>
  Replay from the database, \<^verbatim>\<open>SQLStore.Replay\<close> of \<^verbatim>\<open>sql_store.go\<close>, against replay from the
  reference store. The reference store walks a list; the SQL store runs four queries: the Turn, the
  bounds of its log, the row of the client's last event and a page of rows.
\<close>

subsection \<open>The rows of a log\<close>

lemma row_window:
  assumes ok: "sql_ok db" and row: "turn_at db i = Some row" "toTurn row = Inr t"
  shows "filter (\<lambda>r. er_TurnID r = i \<and> er_Sequence r \<le> tr_LastEventSequence row) (db_events db) = turn_rows db i"
    "oldest_sequence row db = Some 1"
proof -
  let ?rs = "turn_rows db i"
  have n: "length ?rs = length (db_log db i)" "db_log db i \<noteq> []"
    using log_rows(1,4) [OF ok row] by (auto simp: log_ok_def)
  have seq: "er_Sequence (?rs ! k) = int (Suc k)" if "k < length ?rs" for k
    using log_rows(3) [OF ok row, of k] that n(1) by simp
  have "er_Sequence r \<le> tr_LastEventSequence row" if "r \<in> set ?rs" for r
    using that seq n(1) sql_ok_last(1) [OF ok row(1)] by (auto simp: in_set_conv_nth)
  then have "filter (\<lambda>r. er_Sequence r \<le> tr_LastEventSequence row) ?rs = ?rs" by (auto simp: filter_id_conv)
  then show f: "filter (\<lambda>r. er_TurnID r = i \<and> er_Sequence r \<le> tr_LastEventSequence row) (db_events db) = ?rs"
    unfolding turn_rows_def filter_filter by (simp add: conj_commute)
  obtain r rs where rs: "?rs = r # rs" using n by (cases ?rs) auto
  have r: "er_Sequence r = 1" using seq [of 0] rs by simp
  have "1 \<le> er_Sequence x" if "x \<in> set rs" for x
    using that seq rs by (fastforce simp: in_set_conv_nth)
  then have "foldr min (map er_Sequence rs) 1 = 1" by (induction rs) auto
  then show "oldest_sequence row db = Some 1"
    using turn_at_row [OF row(1)] by (simp add: oldest_sequence_def f rs r)
qed

lemma page_rows:
  assumes ok: "sql_ok db" and row: "turn_at db i = Some row" "toTurn row = Inr t"
    and lower: "unat lower \<le> length (db_log db i)"
  shows "event_rows i lower row m db = take m (drop (unat lower) (turn_rows db i))"
proof -
  let ?rs = "turn_rows db i"
  have n: "length ?rs = length (db_log db i)" "length ?rs \<le> unat MaxDurableSequence"
    using log_rows(1,4) [OF ok row] by (auto simp: log_ok_def)
  have seq: "er_Sequence (?rs ! k) = int (Suc k)" if "k < length ?rs" for k
    using log_rows(3) [OF ok row, of k] that n(1) by simp
  have low: "sint lower = int (unat lower)"
  proof -
    have "lower \<le> MaxDurableSequence" unfolding word_le_nat_alt using lower n by linarith
    then show ?thesis using sint_of_Max [of lower] by simp
  qed
  let ?p = "\<lambda>r. er_Sequence r > sint lower"
  have gt: "?p (?rs ! k) \<longleftrightarrow> unat lower \<le> k" if "k < length ?rs" for k
    unfolding low seq [OF that] of_nat_less_iff by auto
  have "filter (\<lambda>r. er_TurnID r = i \<and> er_Sequence r > sint lower \<and> er_Sequence r \<le> tr_LastEventSequence row) (db_events db)
      = filter ?p ?rs"
    unfolding row_window(1) [OF ok row, symmetric] filter_filter by (rule filter_cong) auto
  also have "\<dots> = filter ?p (take (unat lower) ?rs) @ filter ?p (drop (unat lower) ?rs)"
    by (simp flip: filter_append)
  also have "filter ?p (take (unat lower) ?rs) = []"
    using gt by (auto simp: filter_empty_conv in_set_conv_nth)
  also have "filter ?p (drop (unat lower) ?rs) = drop (unat lower) ?rs"
    using gt by (auto simp: filter_id_conv in_set_conv_nth)
  finally have rows: "filter (\<lambda>r. er_TurnID r = i \<and> er_Sequence r > sint lower \<and> er_Sequence r \<le> tr_LastEventSequence row) (db_events db)
      = drop (unat lower) ?rs" by simp
  have "sorted (map er_Sequence (drop (unat lower) ?rs))"
    using seq by (auto simp: sorted_iff_nth_mono)
  then show ?thesis unfolding event_rows_def rows by (simp add: sort_key_id_if_sorted)
qed

lemma replay_rows_ok:
  assumes "list_all2 (\<lambda>r e. toEnvelope r t = Inr e) rs es"
    and "sorted_wrt (<) (previous # map ev_Sequence es)" "\<forall>e \<in> set es. ev_Sequence e \<le> rw_LatestSequence w"
    and "distinct (map ev_EventID es)" "ev_EventID ` set es \<inter> seen = {}"
  shows "replay_rows t w previous seen rs = Inr es"
  using assms
proof (induction arbitrary: previous seen rule: list_all2_induct)
  case Nil
  then show ?case by simp
next
  case (Cons r rs e es)
  have "replay_rows t w (ev_Sequence e) (insert (ev_EventID e) seen) rs = Inr es"
    by (rule Cons.IH) (use Cons.prems in auto)
  with Cons.hyps(1) Cons.prems show ?case by (auto simp: not_le)
qed

lemma page_replays:
  assumes ok: "sql_ok db" and row: "turn_at db i = Some row" "toTurn row = Inr t"
    and lower: "unat lower \<le> length (db_log db i)" and w: "rw_LatestSequence w = of_nat (length (db_log db i))"
  shows "replay_rows t w lower {} (take m (drop (unat lower) (turn_rows db i))) = Inr (take m (drop (unat lower) (db_log db i)))"
proof (rule replay_rows_ok)
  let ?es = "take m (drop (unat lower) (db_log db i))"
  note log = log_rows(4) [OF ok row]
  have len: "length (db_log db i) \<le> unat MaxDurableSequence" using log by (simp add: log_ok_def)
  have un: "unat (ev_Sequence (?es ! k)) = Suc (unat lower + k)" if "k < length ?es" for k
  proof -
    have "unat lower + k < length (db_log db i)" "?es ! k = db_log db i ! (unat lower + k)" using that by auto
    with log_ok_unat [OF log, of "unat lower + k"] show ?thesis by simp
  qed
  show "list_all2 (\<lambda>r e. toEnvelope r t = Inr e) (take m (drop (unat lower) (turn_rows db i))) ?es"
    using log_rows(1,2) [OF ok row] by (auto simp: list_all2_conv_all_nth)
  show "sorted_wrt (<) (lower # map ev_Sequence ?es)"
  proof (simp only: sorted_wrt.simps set_map, intro conjI ballI)
    fix q assume "q \<in> ev_Sequence ` set ?es"
    then obtain k where "k < length ?es" "q = ev_Sequence (?es ! k)" by (auto simp only: in_set_conv_nth image_iff)
    with un [of k] show "lower < q" by (simp only: word_less_nat_alt)
  next
    show "sorted_wrt (<) (map ev_Sequence ?es)"
      using un by (auto simp only: sorted_wrt_iff_nth_less length_map nth_map word_less_nat_alt)
  qed
  show "\<forall>e \<in> set ?es. ev_Sequence e \<le> rw_LatestSequence w"
  proof
    fix e assume "e \<in> set ?es"
    then obtain k where k: "k < length ?es" "e = ?es ! k" by (auto simp only: in_set_conv_nth)
    have "unat (ev_Sequence e) \<le> length (db_log db i)" using un [OF k(1)] k by auto
    then show "ev_Sequence e \<le> rw_LatestSequence w" by (simp add: w word_le_nat_alt word_of_length [OF len])
  qed
  have "distinct (map ev_EventID (db_log db i))"
  proof (clarsimp simp: distinct_conv_nth)
    fix a b assume ab: "a < length (db_log db i)" "b < length (db_log db i)" "a \<noteq> b"
      and "ev_EventID (db_log db i ! a) = ev_EventID (db_log db i ! b)"
    with log have "unat (ev_Sequence (db_log db i ! a)) = unat (ev_Sequence (db_log db i ! b))"
      unfolding log_ok_def event_ok_def by (metis deterministicEventID_inject)
    with log_ok_unat [OF log ab(1)] log_ok_unat [OF log ab(2)] ab(3) show False by simp
  qed
  then show "distinct (map ev_EventID ?es)" by (simp add: distinct_take distinct_drop flip: take_map drop_map)
qed simp

subsection \<open>The cursor\<close>

lemma find_filtered: "find p (filter q xs) = find (\<lambda>x. q x \<and> p x) xs"
  by (induction xs) auto

lemma find_related:
  "list_all2 (\<lambda>r e. P r \<longleftrightarrow> Q e) rs es \<Longrightarrow>
     (find P rs = None \<and> find Q es = None)
     \<or> (\<exists>k < length es. find P rs = Some (rs ! k) \<and> find Q es = Some (es ! k))"
proof (induction rule: list_all2_induct)
  case (Cons r rs e es)
  show ?case
  proof (cases "P r")
    case False
    with Cons show ?thesis by (auto intro: exI [of _ "Suc _"])
  qed (use Cons in \<open>auto intro: exI [of _ 0]\<close>)
qed simp

lemma quiet_cursor:
  assumes quiet: "quiet_io io" and ok: "sql_ok (st_db s)" and row: "turn_at (st_db s) i = Some row" "toTurn row = Inr t"
    and w: "w = \<lparr>rw_OldestSequence = 1, rw_LatestSequence = of_nat (length (db_log (st_db s) i))\<rparr>"
  shows "\<exists>s1 a. st_db s1 = st_db s \<and>
    (resolve_cursor cur (db_log (st_db s) i) = Inr a \<and> sql_cursor io i row t w cur s = (Inr a, s1)
     \<or> (\<exists>e. resolve_cursor cur (db_log (st_db s) i) = Inl e) \<and> rc_LastEventID cur \<noteq> ''''
        \<and> (sql_cursor io i row t w cur s = (Inl ErrReplayCursorNotFound, s1)
           \<or> sql_cursor io i row t w cur s = (Inr a, s1) \<and> a > rw_LatestSequence w))"
proof (cases "rc_LastEventID cur = ''''")
  case True
  then show ?thesis by (auto simp: sql_cursor_def resolve_cursor_def tx_return_def Let_def)
next
  case False
  let ?es = "db_log (st_db s) i" let ?rs = "turn_rows (st_db s) i" let ?x = "rc_LastEventID cur"
  note log = log_rows(4) [OF ok row]
  have len: "length ?es \<le> unat MaxDurableSequence" using log by (simp add: log_ok_def)
  have look: "lookup_row io db_events (\<lambda>r. er_TurnID r = i \<and> er_EventID r = ?x \<and> er_Sequence r \<le> tr_LastEventSequence row) s
      = (Inr (find (\<lambda>r. er_EventID r = ?x) ?rs), ticked s (st_db s))"
    unfolding quiet_lookup_row [OF quiet] row_window(1) [OF ok row, symmetric]
    by (simp add: find_filtered conj_ac)
  have rel: "list_all2 (\<lambda>r e. er_EventID r = ?x \<longleftrightarrow> ev_EventID e = ?x) ?rs ?es"
    using log_rows(1,2) [OF ok row] toEnvelope_Inr by (auto simp: list_all2_conv_all_nth) metis+
  from find_related [OF rel] show ?thesis
  proof (elim disjE exE conjE)
    fix k assume k: "k < length ?es" "find (\<lambda>r. er_EventID r = ?x) ?rs = Some (?rs ! k)" "find (\<lambda>e. ev_EventID e = ?x) ?es = Some (?es ! k)"
    have "unat (ev_Sequence (?es ! k)) = Suc k" by (rule log_ok_unat [OF log k(1)])
    then have "\<not> (ev_Sequence (?es ! k) < rw_OldestSequence w \<or> ev_Sequence (?es ! k) > rw_LatestSequence w)"
      using k(1) by (simp add: w word_less_nat_alt word_of_length [OF len])
    with False k show ?thesis
      by (simp add: sql_cursor_def resolve_cursor_def tx_bind_def look log_rows(2) [OF ok row k(1)] tx_check_def tx_return_def Let_def)
  next
    assume none: "find (\<lambda>r. er_EventID r = ?x) ?rs = None" "find (\<lambda>e. ev_EventID e = ?x) ?es = None"
    obtain q b where p: "parseDeterministicEventID i ?x = (q, b)" by (cases "parseDeterministicEventID i ?x")
    have q: "q > rw_LatestSequence w" if "b" "q < rw_OldestSequence w \<or> q > rw_LatestSequence w"
      using parse_only_format [of i ?x q] p that by (auto simp: w word_less_nat_alt unat_eq_zero)
    show ?thesis
      using False none p q
      by (auto simp: sql_cursor_def resolve_cursor_def tx_bind_def look tx_check_def tx_return_def tx_fail_def Let_def)
  qed
qed

subsection \<open>Replay\<close>

lemma find_owned:
  assumes ok: "sql_ok db"
  shows "find (owned_row p th i) (db_turns db) = Some row \<Longrightarrow>
      turn_at db i = Some row \<and> (\<exists>t. toTurn row = Inr t \<and> owned_turn (abs_store db) p th i = Inr t)"
    "find (owned_row p th i) (db_turns db) = None \<Longrightarrow> owned_turn (abs_store db) p th i = Inl ErrTurnNotFound"
proof -
  have rows: "rows_ok db" using ok by (simp add: sql_ok_def)
  {
    assume "find (owned_row p th i) (db_turns db) = Some row"
    then have r: "row \<in> set (db_turns db)" "owned_row p th i row" by (auto dest: find_SomeD)
    with rows obtain t where t: "toTurn row = Inr t" by (auto simp: rows_ok_def)
    have "turn_at db i = Some row" using rows_ok_at [OF rows r(1)] r(2) by (simp add: owned_row_def)
    moreover from this have "owned_turn (abs_store db) p th i = Inr t"
      using t r(2) toTurn_id [OF t] by (simp add: owned_turn_def owned_row_def admit_scope_def row_scope_def)
    ultimately show "turn_at db i = Some row \<and> (\<exists>t. toTurn row = Inr t \<and> owned_turn (abs_store db) p th i = Inr t)" using t by blast
  next
    assume none: "find (owned_row p th i) (db_turns db) = None"
    show "owned_turn (abs_store db) p th i = Inl ErrTurnNotFound"
    proof (cases "turn_at db i")
      case (Some row)
      with turn_at_row [OF Some] rows obtain t where t: "toTurn row = Inr t" by (auto simp: rows_ok_def)
      have "\<not> owned_row p th i row" using none turn_at_row [OF Some] by (auto simp: find_None_iff)
      with t Some toTurn_id [OF t] turn_at_row [OF Some] show ?thesis
        by (auto simp: owned_turn_def owned_row_def admit_scope_def row_scope_def)
    qed (simp add: owned_turn_def)
  }
qed

lemma quiet_window:
  assumes quiet: "quiet_io io" and ok: "sql_ok (st_db s)" and row: "turn_at (st_db s) i = Some row" "toTurn row = Inr t"
  shows "loadReplayWindow io row s
    = (Inr \<lparr>rw_OldestSequence = 1, rw_LatestSequence = of_nat (length (db_log (st_db s) i))\<rparr>, ticked s (st_db s))"
proof -
  note last = sql_ok_last [OF ok row(1)]
  let ?n = "of_nat (length (db_log (st_db s) i)) :: Sequence"
  have n: "(word_of_int (tr_LastEventSequence row) :: Sequence) = ?n" by (simp add: last(1))
  have le: "\<not> ?n > MaxDurableSequence"
    using last by (simp add: word_less_nat_alt unat_MaxDurableSequence unat_of_nat)
  have pos: "?n \<noteq> 0" "\<not> ?n < 1"
    using last log_rows(4) [OF ok row] by (auto simp: log_ok_def word_less_nat_alt unat_of_nat unat_eq_zero [symmetric])
  show ?thesis using last(2) row_window(2) [OF ok row] le pos
    by (simp add: loadReplayWindow_def tx_check_def tx_bind_def quiet_query [OF quiet] n tx_return_def Let_def
        ReplayWindow_Validate_def ReplayWindow_Empty_def fail_if_def)
qed

lemma one_more:
  assumes "0 < limit"
  shows "int (length (take (nat (limit + 1)) xs)) > limit \<longleftrightarrow> nat limit < length xs"
    "(if int (length (take (nat (limit + 1)) xs)) > limit then take (nat limit) (take (nat (limit + 1)) xs)
      else take (nat (limit + 1)) xs) = take (nat limit) xs"
  using assms by (auto simp: min_def nat_add_distrib)

lemma no_cursor:
  "resolve_cursor cur es = Inr a \<Longrightarrow> \<not> (rc_AfterSequence cur \<noteq> None \<or> rc_LastEventID cur \<noteq> '''') \<Longrightarrow> a = 0"
  by (auto simp: resolve_cursor_def)

lemma replay_from_fits:
  assumes quiet: "quiet_io io" and ok: "sql_ok (st_db s)" and row: "turn_at (st_db s) i = Some row" "toTurn row = Inr t"
    and q: "0 < rq_Limit q" and a: "resolve_cursor (rq_Cursor q) (db_log (st_db s) i) = Inr a"
    and w: "w = \<lparr>rw_OldestSequence = 1, rw_LatestSequence = of_nat (length (db_log (st_db s) i))\<rparr>"
  shows "fst (replay_from io i q row t w a s) = replay_result t (db_log (st_db s) i) a (rq_Limit q)"
proof -
  let ?es = "db_log (st_db s) i"
  let ?explicit = "rc_AfterSequence (rq_Cursor q) \<noteq> None \<or> rc_LastEventID (rq_Cursor q) \<noteq> ''''"
  have len: "length ?es \<le> unat MaxDurableSequence" using log_rows(4) [OF ok row] by (simp add: log_ok_def)
  have ahead: "a > rw_LatestSequence w \<longleftrightarrow> length ?es < unat a"
    by (simp add: w word_less_nat_alt word_of_length [OF len])
  have lower: "(if ?explicit then a else rw_OldestSequence w - 1) = a" using no_cursor [OF a] by (auto simp: w)
  have gap: "\<not> a < rw_OldestSequence w - 1" by (simp add: w)
  show ?thesis
  proof (cases "length ?es < unat a")
    case True
    then have "a \<noteq> 0" by auto
    with no_cursor [OF a] have ?explicit by blast
    with True ahead show ?thesis by (simp add: replay_from_def Let_def tx_check_def tx_fail_def replay_result_def)
  next
    case False
    then have le: "unat a \<le> length ?es" by simp
    have rows: "event_rows i a row (nat (rq_Limit q + 1)) (st_db s)
        = take (nat (rq_Limit q + 1)) (drop (unat a) (turn_rows (st_db s) i))" by (rule page_rows [OF ok row le])
    have more: "nat (rq_Limit q) < length (drop (unat a) (turn_rows (st_db s) i)) \<longleftrightarrow> unat a + nat (rq_Limit q) < length ?es"
      using log_rows(1) [OF ok row] by auto
    note cut = one_more(2) [OF q, of "drop (unat a) (turn_rows (st_db s) i)", unfolded one_more(1) [OF q] more]
    have page: "replay_rows t w a {} (take (nat (rq_Limit q)) (drop (unat a) (turn_rows (st_db s) i)))
        = Inr (take (nat (rq_Limit q)) (drop (unat a) ?es))"
      by (rule page_replays [OF ok row le]) (simp add: w)
    show ?thesis
      unfolding replay_from_def Let_def lower
      using ahead gap False
      by (simp only: tx_check_def tx_bind_def quiet_query [OF quiet] rows one_more(1) [OF q] more cut page
          tx_lift_def tx_return_def simp_thms if_False prod.case sum.case fst_conv replay_result_def) (simp add: w)
  qed
qed

lemma quiet_replay_tx:
  assumes quiet: "quiet_io io" and ok: "sql_ok (st_db s)" and q: "ReplayQuery_Validate q = None"
  shows "fst (replay_tx io p th i q s) = Inr r \<longleftrightarrow> Replay live_ctx p th i q (abs_store (st_db s)) = Inr r"
proof (cases "find (owned_row p th i) (db_turns (st_db s))")
  case None
  then show ?thesis using find_owned(2) [OF ok None] q
    by (simp add: replay_tx_def tx_bind_def quiet_not_found_as [OF quiet] Replay_def)
next
  case (Some row)
  from find_owned(1) [OF ok Some] obtain t where row: "turn_at (st_db s) i = Some row" "toTurn row = Inr t"
    and own: "owned_turn (abs_store (st_db s)) p th i = Inr t" by blast
  let ?w = "\<lparr>rw_OldestSequence = 1, rw_LatestSequence = of_nat (length (db_log (st_db s) i)) :: Sequence\<rparr>"
  let ?s2 = "ticked (ticked s (st_db s)) (st_db s)"
  let ?after = "resolve_cursor (rq_Cursor q) (db_log (st_db s) i)"
  have ok2: "sql_ok (st_db ?s2)" "turn_at (st_db ?s2) i = Some row" and ok1: "sql_ok (st_db (ticked s (st_db s)))"
    "turn_at (st_db (ticked s (st_db s))) i = Some row" using ok row by simp_all
  have lim: "0 < rq_Limit q" using q by (simp add: ReplayQuery_Validate_def err_simps)
  have log: "log_of (abs_store (st_db s)) i = db_log (st_db s) i" using row by (simp add: map_get_def)
  have store: "store_ok (abs_store (st_db s))" using ok by (simp add: sql_ok_def)
  have run: "replay_tx io p th i q s
      = tx_bind (sql_cursor io i row t ?w (rq_Cursor q)) (replay_from io i q row t ?w) ?s2"
    by (simp add: replay_tx_def tx_bind_def quiet_not_found_as [OF quiet] Some row(2) quiet_window [OF quiet ok1 row(2)])
  from quiet_cursor [OF quiet ok2 row(2), of ?w "rq_Cursor q"] obtain s1 a where s1: "st_db s1 = st_db s"
    and cases: "?after = Inr a \<and> sql_cursor io i row t ?w (rq_Cursor q) ?s2 = (Inr a, s1)
     \<or> (\<exists>e. ?after = Inl e) \<and> rc_LastEventID (rq_Cursor q) \<noteq> ''''
        \<and> (sql_cursor io i row t ?w (rq_Cursor q) ?s2 = (Inl ErrReplayCursorNotFound, s1)
           \<or> sql_cursor io i row t ?w (rq_Cursor q) ?s2 = (Inr a, s1) \<and> a > rw_LatestSequence ?w)" by auto
  from cases show ?thesis
  proof (elim disjE conjE exE)
    assume a: "?after = Inr a" "sql_cursor io i row t ?w (rq_Cursor q) ?s2 = (Inr a, s1)"
    have "fst (replay_from io i q row t ?w a s1) = replay_result t (db_log (st_db s) i) a (rq_Limit q)"
      using replay_from_fits [OF quiet _ _ row(2) lim, of s1 i a ?w] ok row(1) a(1) by (simp add: s1)
    moreover have "Replay live_ctx p th i q (abs_store (st_db s)) = replay_result t (db_log (st_db s) i) a (rq_Limit q)"
      using Replay_owned [OF store own q live_ctx_None, of a] a(1) log by simp
    ultimately show ?thesis by (simp add: run tx_bind_def a(2))
  next
    fix e assume "?after = Inl e" "sql_cursor io i row t ?w (rq_Cursor q) ?s2 = (Inl ErrReplayCursorNotFound, s1)"
    then show ?thesis using own q log by (simp add: run tx_bind_def Replay_def Let_def del: owned_turn_Inr)
  next
    fix e assume "?after = Inl e" "rc_LastEventID (rq_Cursor q) \<noteq> ''''" "sql_cursor io i row t ?w (rq_Cursor q) ?s2 = (Inr a, s1)"
      "a > rw_LatestSequence ?w"
    then show ?thesis using own q log
      by (simp add: run tx_bind_def replay_from_def tx_check_def tx_fail_def Replay_def Let_def del: owned_turn_Inr)
  qed
qed

lemma owned_lookup_valid:
  assumes "store_ok st" "owned_turn st p th i = Inr t"
  shows "validateOwnedStorageLookup p th i = None"
  using store_okD [OF assms(1), of i t] assms(2)
  by (auto simp: turn_ok_def Turn_Validate_def validateOwnedStorageLookup_def err_simps)

lemma Replay_Inr_owned:
  "Replay ctx p th i q st = Inr r \<Longrightarrow> ReplayQuery_Validate q = None \<and> (\<exists>t. owned_turn st p th i = Inr t)"
  by (auto simp: Replay_def err_simps split: option.splits sum.splits simp del: owned_turn_Inr)

lemma quiet_Transaction:
  "quiet_io io \<Longrightarrow> Transaction io body s =
     (case body (ticked s (st_db s)) of
        (Inl e, s') \<Rightarrow> (Inl e, s'\<lparr>st_db := st_db s\<rparr>)
      | (Inr x, s') \<Rightarrow> (Inr x, ticked s' (st_db s')))"
  by (auto simp: Transaction_def tx_bind_def sql_begin_def quiet_statement sql_commit_def quiet_io_def Let_def ticked_def
      split: prod.split sum.split)

subsection \<open>Properties\<close>

text \<open>
  C26. Replay is the reference replay. On a sound database and in an undisturbed environment, the
  four queries of the SQL replay return a record if and only if the reference store's walk over the
  log returns it: same Turn, cursor, window, page of events and flag for more. So both refuse the
  same replays, for an owner or not, with any cursor and any limit.
\<close>

theorem sql_replay_equivalent:
  assumes "quiet_io io" "\<And>n. contextError (ctx n) = None" "sql_ok (st_db s)"
  shows "fst (sql_Replay io ctx p th i q s) = Inr r \<longleftrightarrow> Replay live_ctx p th i q (abs_store (st_db s)) = Inr r"
proof -
  have store: "store_ok (abs_store (st_db s))" using assms(3) by (simp add: sql_ok_def)
  show ?thesis
  proof (cases "first_error [contextError (ctx 0), validateOwnedStorageLookup p th i, ReplayQuery_Validate q]")
    case None
    then have q: "ReplayQuery_Validate q = None" by (simp add: err_simps)
    have "fst (sql_Replay io ctx p th i q s) = Inr r \<longleftrightarrow> fst (replay_tx io p th i q (ticked s (st_db s))) = Inr r"
      using assms(1) None
      by (simp add: sql_Replay_def tx_guard_def tx_catch_def quiet_Transaction tx_fail_def split: prod.split sum.split)
    with quiet_replay_tx [OF assms(1) _ q, of "ticked s (st_db s)"] assms(3) show ?thesis by simp
  next
    case (Some e)
    with assms(2) have "validateOwnedStorageLookup p th i \<noteq> None \<or> ReplayQuery_Validate q \<noteq> None"
      by (cases "validateOwnedStorageLookup p th i"; cases "ReplayQuery_Validate q") (auto simp: err_simps)
    moreover have "validateOwnedStorageLookup p th i = None \<and> ReplayQuery_Validate q = None"
      if "Replay live_ctx p th i q (abs_store (st_db s)) = Inr r"
      using Replay_Inr_owned [OF that] owned_lookup_valid [OF store] by auto
    ultimately have "Replay live_ctx p th i q (abs_store (st_db s)) \<noteq> Inr r" by auto
    with Some show ?thesis by (simp add: sql_Replay_def tx_guard_def tx_fail_def)
  qed
qed

theorem sql_replay_equivalent_witness:
  "\<exists>s r. sql_ok (st_db s) \<and> fst (sql_Replay (sample_io sample_time) live_ctx ''alice'' ''thread-1'' ''turn-1''
     \<lparr>rq_Cursor = \<lparr>rc_LastEventID = '''', rc_AfterSequence = None\<rparr>, rq_Limit = 10\<rparr> s) = Inr r \<and> rr_Turn r = stamped sample_turn sample_time"
proof -
  let ?q = "\<lparr>rq_Cursor = \<lparr>rc_LastEventID = '''', rc_AfterSequence = None\<rparr>, rq_Limit = 10\<rparr>"
  obtain s :: sql_state where s: "sql_ok (st_db s)" "turn_at (st_db s) ''turn-1'' = Some ((turnToSQLRow (stamped sample_turn sample_time) 1)\<lparr>tr_ID := 1\<rparr>)"
    using sample_appendable by blast
  have q: "ReplayQuery_Validate ?q = None" by code_simp
  have own: "owned_turn (abs_store (st_db s)) ''alice'' ''thread-1'' ''turn-1'' = Inr (stamped sample_turn sample_time)"
    using s(2) sample_row_turn by (simp add: sample_turn_def)
  have a: "resolve_cursor (rq_Cursor ?q) (log_of (abs_store (st_db s)) ''turn-1'') = Inr 0" by (simp add: resolve_cursor_def)
  have store: "store_ok (abs_store (st_db s))" using s(1) by (simp add: sql_ok_def)
  obtain r where r: "Replay live_ctx ''alice'' ''thread-1'' ''turn-1'' ?q (abs_store (st_db s)) = Inr r" "rr_Turn r = stamped sample_turn sample_time"
    using Replay_owned [OF store own q live_ctx_None a] by (simp add: replay_result_def)
  from sql_replay_equivalent [where ctx = live_ctx, OF sample_quiet(1) live_ctx_None s(1)] r s(1) show ?thesis by blast
qed

end
