(* ===== verification/Go_Json_Value.thy ===== *)
theory Go_Json_Value
  imports Go_Json
begin

text \<open>
  Values of \<^verbatim>\<open>encoding/json\<close> as the commit path uses them: decoding into \<^verbatim>\<open>any\<close> with
  \<^verbatim>\<open>UseNumber\<close>, encoding such a value again, decoding one string field of an object, and the
  encoding of a \<^verbatim>\<open>time.Time\<close> in UTC.

  The decoder runs on texts that the scanner has accepted, so its error branches are not reached
  there. Each step of the decoder consumes a byte; the length of the text is enough fuel.
\<close>

subsection \<open>Decoding\<close>

datatype json =
    JNull
  | JBool bool
  | JNumber string
  | JString string
  | JArray "json list"
  | JObject "(string \<times> json) list"

definition skip_space :: "string \<Rightarrow> string" where
  "skip_space = dropWhile json_space"

definition number_char :: "char \<Rightarrow> bool" where
  "number_char c \<longleftrightarrow> is_digit c \<or> c = CHR ''-'' \<or> c = CHR ''+'' \<or> c = CHR ''.'' \<or> c = CHR ''e'' \<or> c = CHR ''E''"

definition hex_value :: "char \<Rightarrow> nat" where
  "hex_value c =
     (let n = (of_char c :: nat)
      in if n < 58 then n - 48 else if n < 71 then n - 55 else n - 87)"

definition hex4 :: "string \<Rightarrow> nat option" where
  "hex4 s = (if length s \<ge> 4 \<and> list_all json_hex (take 4 s)
             then Some (foldl (\<lambda>a c. 16 * a + hex_value c) 0 (take 4 s)) else None)"

definition utf8_encode :: "nat \<Rightarrow> string" where
  "utf8_encode r =
     (if r < 0x80 then [char_of r]
      else if r < 0x800 then [char_of (0xC0 + r div 64), char_of (0x80 + r mod 64)]
      else if r < 0x10000
      then [char_of (0xE0 + r div 4096), char_of (0x80 + r div 64 mod 64), char_of (0x80 + r mod 64)]
      else [char_of (0xF0 + r div 262144), char_of (0x80 + r div 4096 mod 64), char_of (0x80 + r div 64 mod 64),
            char_of (0x80 + r mod 64)])"

abbreviation replacement_char :: string where
  "replacement_char \<equiv> [CHR 0xEF, CHR 0xBF, CHR 0xBD]"

definition surrogate :: "nat \<Rightarrow> bool" where
  "surrogate r \<longleftrightarrow> 0xD800 \<le> r \<and> r < 0xE000"

definition escape_char :: "char \<Rightarrow> char" where
  "escape_char c =
     (if c = CHR ''b'' then char_of (8 :: nat) else if c = CHR ''f'' then char_of (12 :: nat)
      else if c = CHR ''n'' then char_of (10 :: nat) else if c = CHR ''r'' then char_of (13 :: nat)
      else if c = CHR ''t'' then char_of (9 :: nat) else c)"

text \<open>
  The body of a string literal up to its closing quote, and what follows the quote. A pair of
  escaped surrogates is one character; any other surrogate and every byte that is not UTF-8 are
  replaced.
\<close>

fun json_unquote :: "nat \<Rightarrow> string \<Rightarrow> string \<times> string" where
  "json_unquote 0 s = ([], s)"
| "json_unquote (Suc fuel) [] = ([], [])"
| "json_unquote (Suc fuel) (c # s) =
     (if c = CHR 0x22 then ([], s)
      else if c = CHR 0x5C
      then (case s of
              [] \<Rightarrow> ([], [])
            | e # s' \<Rightarrow>
                if e = CHR ''u''
                then (case hex4 s' of
                        None \<Rightarrow> ([], s')
                      | Some r \<Rightarrow>
                          if surrogate r
                          then (case (if r < 0xDC00 \<and> take 2 (drop 4 s') = [CHR 0x5C, CHR ''u'']
                                      then hex4 (drop 6 s') else None) of
                                  Some l \<Rightarrow>
                                    if 0xDC00 \<le> l \<and> l < 0xE000
                                    then apfst (\<lambda>x. utf8_encode (0x10000 + (r - 0xD800) * 1024 + (l - 0xDC00)) @ x)
                                           (json_unquote fuel (drop 10 s'))
                                    else apfst (\<lambda>x. replacement_char @ x) (json_unquote fuel (drop 4 s'))
                                | None \<Rightarrow> apfst (\<lambda>x. replacement_char @ x) (json_unquote fuel (drop 4 s')))
                          else apfst (\<lambda>x. utf8_encode r @ x) (json_unquote fuel (drop 4 s')))
                else apfst (\<lambda>x. escape_char e # x) (json_unquote fuel s'))
      else if (of_char c :: nat) < 128 then apfst (\<lambda>x. c # x) (json_unquote fuel s)
      else if utf8_len (c # s) = 0 then apfst (\<lambda>x. replacement_char @ x) (json_unquote fuel s)
      else apfst (\<lambda>x. take (utf8_len (c # s)) (c # s) @ x) (json_unquote fuel (drop (utf8_len (c # s)) (c # s))))"

fun json_value :: "nat \<Rightarrow> string \<Rightarrow> json \<times> string"
  and json_elements :: "nat \<Rightarrow> string \<Rightarrow> json list \<times> string"
  and json_fields :: "nat \<Rightarrow> string \<Rightarrow> (string \<times> json) list \<times> string"
where
  "json_value 0 s = (JNull, s)"
| "json_value (Suc fuel) s =
     (case skip_space s of
        [] \<Rightarrow> (JNull, [])
      | c # s' \<Rightarrow>
          if c = CHR ''{'' then apfst JObject (json_fields fuel (skip_space s'))
          else if c = CHR ''['' then apfst JArray (json_elements fuel (skip_space s'))
          else if c = CHR 0x22 then apfst JString (json_unquote (length s') s')
          else if c = CHR ''t'' then (JBool True, drop 3 s')
          else if c = CHR ''f'' then (JBool False, drop 4 s')
          else if c = CHR ''n'' then (JNull, drop 3 s')
          else (JNumber (takeWhile number_char (c # s')), dropWhile number_char (c # s')))"
| "json_elements 0 s = ([], s)"
| "json_elements (Suc fuel) s =
     (if take 1 s = '']'' then ([], drop 1 s)
      else (let (v, s1) = json_value fuel s; s2 = skip_space s1
            in if take 1 s2 = '','' then apfst (\<lambda>vs. v # vs) (json_elements fuel (skip_space (drop 1 s2)))
               else ([v], drop 1 s2)))"
| "json_fields 0 s = ([], s)"
| "json_fields (Suc fuel) s =
     (if take 1 s = ''}'' then ([], drop 1 s)
      else (let (k, s1) = json_unquote (length s) (drop 1 s); s2 = skip_space (drop 1 (skip_space s1));
                (v, s3) = json_value fuel s2; s4 = skip_space s3
            in if take 1 s4 = '','' then apfst (\<lambda>fs. (k, v) # fs) (json_fields fuel (skip_space (drop 1 s4)))
               else ([(k, v)], drop 1 s4)))"

definition json_decode :: "string \<Rightarrow> json" where
  "json_decode s = fst (json_value (2 * length s + 1) s)"

subsection \<open>Encoding\<close>

text \<open>An object is a Go map: a later field replaces an earlier one, and fields are written in the order of their keys.\<close>

fun byte_less :: "string \<Rightarrow> string \<Rightarrow> bool" where
  "byte_less s [] = False"
| "byte_less [] (d # t) = True"
| "byte_less (c # s) (d # t) = ((of_char c :: nat) < of_char d \<or> (c = d \<and> byte_less s t))"

fun put_field :: "string \<Rightarrow> 'v \<Rightarrow> (string \<times> 'v) list \<Rightarrow> (string \<times> 'v) list" where
  "put_field k v [] = [(k, v)]"
| "put_field k v ((k', v') # fs) =
     (if k = k' then (k, v) # fs else if byte_less k k' then (k, v) # (k', v') # fs else (k', v') # put_field k v fs)"

fun json_encode :: "json \<Rightarrow> string" where
  "json_encode JNull = ''null''"
| "json_encode (JBool b) = (if b then ''true'' else ''false'')"
| "json_encode (JNumber n) = n"
| "json_encode (JString s) = json_string s"
| "json_encode (JArray vs) = ''['' @ json_members (map json_encode vs) @ '']''"
| "json_encode (JObject fs) =
     json_object (map (\<lambda>(k, t). json_member k t) (fold (\<lambda>(k, t). put_field k t) (map (\<lambda>(k, v). (k, json_encode v)) fs) []))"

subsection \<open>One string field of an object\<close>

text \<open>
  Field names are compared as the decoder folds them: ASCII letters without case, and the long s
  (U+017F) as an s.
\<close>

fun fold_name :: "string \<Rightarrow> string" where
  "fold_name [] = []"
| "fold_name (c # s) =
     (if c = CHR 0xC5 \<and> take 1 s = [CHR 0xBF] then CHR ''s'' # fold_name (drop 1 s)
      else (if byte_in 65 90 c then char_of ((of_char c :: nat) + 32) else c) # fold_name s)"

text \<open>A field that is absent or null leaves the value as it is; any other type is an error.\<close>

fun string_field :: "string \<Rightarrow> (string \<times> json) list \<Rightarrow> string \<Rightarrow> string option" where
  "string_field name [] acc = Some acc"
| "string_field name ((k, v) # fs) acc =
     (if fold_name k \<noteq> name then string_field name fs acc
      else (case v of
              JString s \<Rightarrow> string_field name fs s
            | JNull \<Rightarrow> string_field name fs acc
            | _ \<Rightarrow> None))"

definition unmarshal_string_field :: "string \<Rightarrow> string \<Rightarrow> string option" where
  "unmarshal_string_field name s =
     (if \<not> json_Valid s then None
      else (case json_decode s of
              JObject fs \<Rightarrow> string_field name fs ''''
            | JNull \<Rightarrow> Some ''''
            | _ \<Rightarrow> None))"

end
