(* ===== verification/Commit_Digest.thy ===== *)
theory Commit_Digest
  imports Go_Json_Value Sql_Rows
begin

text \<open>
  The identity of a commit, \<^verbatim>\<open>sql_execution_store.go\<close> of \<^verbatim>\<open>server/service/agentturn\<close>: a command
  is put into a normal form and hashed, together with the version of the scheme and, where the
  kernel replaces the usage a worker reports by a durable Review, with the policy that does so.

  The hashed text is the JSON encoding the Go code produces, byte for byte. SHA-256 is the argument
  \<open>sha\<close>, the lower-case hexadecimal digest of a byte string.
\<close>

abbreviation MaxSettlementReviewUsageFieldBytes :: nat where "MaxSettlementReviewUsageFieldBytes \<equiv> 256"

subsection \<open>Times in JSON\<close>

text \<open>
  \<^verbatim>\<open>time.Time.MarshalJSON\<close> in UTC, the format \<^verbatim>\<open>RFC3339Nano\<close>. A time counts nanoseconds from
  the start of year 1, so the day number splits into cycles of 400, 100, 4 and 1 years as in the
  Go library. The years of an execution time have four digits, so the encoding cannot fail.
\<close>

definition civil_year :: "int \<Rightarrow> int \<times> int" where
  "civil_year days =
     (let n400 = days div 146097; d1 = days mod 146097;
          n100 = d1 div 36524 - d1 div 36524 div 4; d2 = d1 - 36524 * n100;
          n4 = d2 div 1461; d3 = d2 - 1461 * n4;
          n1 = d3 div 365 - d3 div 365 div 4
      in (400 * n400 + 100 * n100 + 4 * n4 + n1 + 1, d3 - 365 * n1))"

definition leap_year :: "int \<Rightarrow> bool" where
  "leap_year y \<longleftrightarrow> y mod 4 = 0 \<and> (y mod 100 \<noteq> 0 \<or> y mod 400 = 0)"

fun civil_month :: "int \<Rightarrow> int list \<Rightarrow> int \<Rightarrow> int \<times> int" where
  "civil_month m [] yday = (m, yday + 1)"
| "civil_month m (len # lens) yday = (if yday < len then (m, yday + 1) else civil_month (m + 1) lens (yday - len))"

definition month_lengths :: "int \<Rightarrow> int list" where
  "month_lengths y = [31, if leap_year y then 29 else 28, 31, 30, 31, 30, 31, 31, 30, 31, 30]"

text \<open>The last digits of a number, padded with zeros to the width.\<close>

fun pad_int :: "nat \<Rightarrow> int \<Rightarrow> string" where
  "pad_int 0 i = []"
| "pad_int (Suc w) i = pad_int w (i div 10) @ [digit_char (nat (i mod 10))]"

definition drop_zeros :: "string \<Rightarrow> string" where
  "drop_zeros s = rev (dropWhile (\<lambda>c. c = CHR ''0'') (rev s))"

definition time_json :: "time \<Rightarrow> string" where
  "time_json t =
     (let secs = t div 1000000000; ns = t mod 1000000000; days = secs div 86400; sod = secs mod 86400;
          (y, yday) = civil_year days; (m, d) = civil_month 1 (month_lengths y) yday
      in CHR 0x22 # pad_int 4 y @ ''-'' @ pad_int 2 m @ ''-'' @ pad_int 2 d @ ''T''
         @ pad_int 2 (sod div 3600) @ '':'' @ pad_int 2 (sod div 60 mod 60) @ '':'' @ pad_int 2 (sod mod 60)
         @ (if ns = 0 then [] else CHR ''.'' # drop_zeros (pad_int 9 ns)) @ ''Z'' @ [CHR 0x22])"

subsection \<open>Terminalization policies\<close>

text \<open>\<^verbatim>\<open>hex.DecodeString\<close> accepts exactly hexadecimal digits; the digest must be lower case.\<close>

definition validateSettlementReviewSHA256Digest :: "string \<Rightarrow> string \<Rightarrow> go_error option" where
  "validateSettlementReviewSHA256Digest name v = fail_if
     (length v \<noteq> 7 + 64 \<or> \<not> HasPrefix v ''sha256:'' \<or> \<not> list_all (\<lambda>c. json_hex c \<and> \<not> byte_in 65 90 c) (drop 7 v))
     (Errorf (name @ '' must be a lowercase SHA-256 digest''))"

record commitDigestTerminalization =
  ct_Mode :: string
  ct_Source :: SettlementReviewSource
  ct_Reason :: string
  ct_PolicyDigest :: string

definition policy_digest :: "(string \<Rightarrow> string) \<Rightarrow> string list \<Rightarrow> string" where
  "policy_digest sha parts = ''sha256:'' @ sha (concat (map framed parts))"

definition completedUsageTerminalizationPolicyDigest :: "(string \<Rightarrow> string) \<Rightarrow> string" where
  "completedUsageTerminalizationPolicyDigest sha = policy_digest sha
     [''workmax.agentturn.completed-usage-policy/v1'',
      ''completed terminal usage must come from the sealed trusted meter'',
      ''nil/default/finalize-zero opens a durable review'',
      ''zero durable evidence is permitted'',
      ''all effects remain review_hold'',
      ''settle is forbidden until evidence-backed resolution'']"

definition newCompletedUsageTerminalization :: "(string \<Rightarrow> string) \<Rightarrow> commitDigestTerminalization" where
  "newCompletedUsageTerminalization sha =
     \<lparr>ct_Mode = ''trusted_usage_review_v1'', ct_Source = SettlementReviewSourceExecutorCompletion,
      ct_Reason = SettlementReviewReasonCompletedUsageUnmeasured,
      ct_PolicyDigest = completedUsageTerminalizationPolicyDigest sha\<rparr>"

definition providerUsageTerminalizationPolicyDigest :: "(string \<Rightarrow> string) \<Rightarrow> string" where
  "providerUsageTerminalizationPolicyDigest sha = policy_digest sha
     [''workmax.agentturn.provider-usage-policy/v1'',
      ''every terminal status opens a durable provider usage review'',
      ''completed uses executor_completion and other terminals use executor_terminal'',
      ''nil/default/finalize-zero asks the kernel meter to decide usage'',
      ''release and positive caller units are untrusted'',
      ''journal receipts are counted under the turn lock and may arrive while review is pending'',
      ''all effects remain review_hold and direct settlement is forbidden'']"

definition newProviderUsageTerminalization ::
  "(string \<Rightarrow> string) \<Rightarrow> TurnStatus \<Rightarrow> commitDigestTerminalization result"
where
  "newProviderUsageTerminalization sha terminal =
     (if \<not> TurnStatus_Valid terminal \<or> \<not> TurnStatus_Terminal terminal then Inl ErrStoreIntegrity
      else let t = \<lparr>ct_Mode = ''provider_usage_review_v1'', ct_Source = SettlementReviewSourceExecutorTerminal,
                    ct_Reason = SettlementReviewReasonTerminalUsageUnmeasured,
                    ct_PolicyDigest = providerUsageTerminalizationPolicyDigest sha\<rparr>
           in Inr (if terminal = TurnStatusCompleted
                   then t\<lparr>ct_Source := SettlementReviewSourceExecutorCompletion,
                          ct_Reason := SettlementReviewReasonCompletedUsageUnmeasured\<rparr>
                   else t))"

definition terminalization_validate :: "commitDigestTerminalization \<Rightarrow> go_error option" where
  "terminalization_validate t = first_error
     [validatePrintableASCII ''terminalizationMode'' (ct_Mode t) MaxCommandDigestBytes,
      fail_if (\<not> SettlementReviewSource_Valid (ct_Source t)) ErrStoreIntegrity,
      validatePrintableASCII ''terminalizationReason'' (ct_Reason t) MaxSettlementReviewUsageFieldBytes,
      validateSettlementReviewSHA256Digest ''terminalizationPolicyDigest'' (ct_PolicyDigest t)]"

subsection \<open>The hashed text\<close>

fun SettlementIntent_string :: "SettlementIntent \<Rightarrow> string" where
  "SettlementIntent_string SettlementIntentFinalize = ''finalize''"
| "SettlementIntent_string SettlementIntentRelease = ''release''"
| "SettlementIntent_string (SettlementIntentOther s) = s"

datatype digest_version = operationDigestVersionV2 | operationDigestVersionV3 | operationDigestVersionV4

fun version_string :: "digest_version \<Rightarrow> string" where
  "version_string operationDigestVersionV2 = ''workmax.agentturn.operation/v2''"
| "version_string operationDigestVersionV3 = ''workmax.agentturn.operation/v3''"
| "version_string operationDigestVersionV4 = ''workmax.agentturn.operation/v4''"

definition commitDigestEvent :: "EventDraft \<Rightarrow> string" where
  "commitDigestEvent e = json_object
     ([json_member ''type'' (json_string (ed_Type e))]
      @ (if ed_ResourceRefs e = [] then []
         else [json_member ''resourceRefs'' (''['' @ json_members (map json_string (ed_ResourceRefs e)) @ '']'')])
      @ [json_member ''data'' (json_compact (ed_Data e))])"

definition commitDigestEffect :: "EffectOutboxDraft \<Rightarrow> string" where
  "commitDigestEffect e = json_object
     [json_member ''outboxId'' (json_string (eod_OutboxID e)), json_member ''topic'' (json_string (eod_Topic e)),
      json_member ''dedupeKey'' (json_string (eod_DedupeKey e)), json_member ''payload'' (json_compact (eod_Payload e)),
      json_member ''availableAt'' (time_json (eod_AvailableAt e))]"

definition commitDigestSettlement :: "SettlementRequest \<Rightarrow> string" where
  "commitDigestSettlement q = json_object
     [json_member ''intent'' (json_string (SettlementIntent_string (sq_Intent q))),
      json_member ''usedUnits'' (FormatInt (sq_UsedUnits q))]"

definition commitDigestTerminalization_json :: "commitDigestTerminalization \<Rightarrow> string" where
  "commitDigestTerminalization_json t = json_object
     [json_member ''mode'' (json_string (ct_Mode t)),
      json_member ''source'' (json_string (SettlementReviewSource_string (ct_Source t))),
      json_member ''reason'' (json_string (ct_Reason t)),
      json_member ''policyDigest'' (json_string (ct_PolicyDigest t))]"

definition commit_payload ::
  "digest_version \<Rightarrow> commitDigestTerminalization option \<Rightarrow> CommitAttemptCommand \<Rightarrow> string"
where
  "commit_payload version terminalization c = json_object
     ([json_member ''version'' (json_string (version_string version))]
      @ (if cm_TerminalStatus c = TurnStatusOther '''' then []
         else [json_member ''terminalStatus'' (json_string (TurnStatus_string (cm_TerminalStatus c)))])
      @ (case cm_Event c of None \<Rightarrow> [] | Some e \<Rightarrow> [json_member ''event'' (commitDigestEvent e)])
      @ [json_member ''effects'' (''['' @ json_members (map commitDigestEffect (cm_Effects c)) @ '']'')]
      @ (if cm_TerminalStatus c = TurnStatusOther '''' then []
         else (case cm_Settlement c of None \<Rightarrow> [] | Some q \<Rightarrow> [json_member ''settlement'' (commitDigestSettlement q)]))
      @ (case terminalization of None \<Rightarrow> []
         | Some t \<Rightarrow> [json_member ''terminalization'' (commitDigestTerminalization_json t)]))"

text \<open>A raw message that is not JSON cannot be encoded.\<close>

definition commit_encodable :: "CommitAttemptCommand \<Rightarrow> bool" where
  "commit_encodable c \<longleftrightarrow> (case cm_Event c of None \<Rightarrow> True | Some e \<Rightarrow> json_Valid (ed_Data e))
     \<and> list_all (\<lambda>e. json_Valid (eod_Payload e)) (cm_Effects c)"

subsection \<open>Normal form\<close>

fun canonical_effects :: "EffectOutboxDraft list \<Rightarrow> EffectOutboxDraft list result" where
  "canonical_effects [] = Inr []"
| "canonical_effects (e # es) =
     (case canonicalExecutionTime (eod_AvailableAt e) of
        Inl err \<Rightarrow> Inl (Wrapf ''effect availableAt'' err)
      | Inr availableAt \<Rightarrow> map_sum id (\<lambda>rest. e\<lparr>eod_AvailableAt := availableAt\<rparr> # rest) (canonical_effects es))"

definition normal_settlement :: "CommitAttemptCommand \<Rightarrow> SettlementRequest" where
  "normal_settlement c =
     (let request = (case cm_Settlement c of
                       None \<Rightarrow> \<lparr>sq_Intent = SettlementIntentOther '''', sq_UsedUnits = 0\<rparr> | Some q \<Rightarrow> q);
          intent = SettlementRequest_resolve request (cm_TerminalStatus c)
      in \<lparr>sq_Intent = intent,
          sq_UsedUnits = (if intent = SettlementIntentRelease then 0 else sq_UsedUnits request)\<rparr>)"

definition version_error ::
  "(string \<Rightarrow> string) \<Rightarrow> CommitAttemptCommand \<Rightarrow> commitDigestTerminalization option \<Rightarrow> digest_version \<Rightarrow> bool"
where
  "version_error sha c terminalization version =
     (case version of
        operationDigestVersionV2 \<Rightarrow> terminalization \<noteq> None
      | operationDigestVersionV3 \<Rightarrow> terminalization = None \<or> cm_TerminalStatus c \<noteq> TurnStatusCompleted
          \<or> terminalization \<noteq> Some (newCompletedUsageTerminalization sha)
      | operationDigestVersionV4 \<Rightarrow>
          (case newProviderUsageTerminalization sha (cm_TerminalStatus c) of
             Inl e \<Rightarrow> True
           | Inr expected \<Rightarrow> terminalization \<noteq> Some expected))"

definition normalizeCommitCommandWithVersion ::
  "(string \<Rightarrow> string) \<Rightarrow> CommitAttemptCommand \<Rightarrow> commitDigestTerminalization option \<Rightarrow> digest_version
     \<Rightarrow> (CommitAttemptCommand \<times> string) result"
where
  "normalizeCommitCommandWithVersion sha c terminalization version =
     (if version_error sha c terminalization version then Inl ErrStoreIntegrity
      else (case canonical_effects (cm_Effects c) of
              Inl e \<Rightarrow> Inl e
            | Inr effects \<Rightarrow>
                let c1 = c\<lparr>cm_Effects := effects\<rparr>;
                    normalized = (if cm_TerminalStatus c = TurnStatusOther '''' then c1
                                  else c1\<lparr>cm_Settlement := Some (normal_settlement c)\<rparr>)
                in if \<not> commit_encodable normalized then Inl (Errorf ''json: error calling MarshalJSON'')
                   else Inr (normalized, ''sha256:'' @ sha (commit_payload version terminalization normalized))))"

definition normalizeCommitCommandWithTerminalization ::
  "(string \<Rightarrow> string) \<Rightarrow> CommitAttemptCommand \<Rightarrow> commitDigestTerminalization option
     \<Rightarrow> (CommitAttemptCommand \<times> string) result"
where
  "normalizeCommitCommandWithTerminalization sha c terminalization =
     normalizeCommitCommandWithVersion sha c terminalization
       (if terminalization \<noteq> None then operationDigestVersionV3 else operationDigestVersionV2)"

definition normalizeCommitCommand :: "(string \<Rightarrow> string) \<Rightarrow> CommitAttemptCommand \<Rightarrow> (CommitAttemptCommand \<times> string) result" where
  "normalizeCommitCommand sha c = normalizeCommitCommandWithTerminalization sha c None"

definition normalizeCompletedUsageCommitCommand ::
  "(string \<Rightarrow> string) \<Rightarrow> CommitAttemptCommand \<Rightarrow> commitDigestTerminalization \<Rightarrow> (CommitAttemptCommand \<times> string) result"
where
  "normalizeCompletedUsageCommitCommand sha c terminalization =
     (case first_error
        [fail_if (cm_TerminalStatus c \<noteq> TurnStatusCompleted) ErrStoreIntegrity,
         terminalization_validate terminalization,
         fail_if (terminalization \<noteq> newCompletedUsageTerminalization sha) ErrStoreIntegrity] of
        Some e \<Rightarrow> Inl e
      | None \<Rightarrow> normalizeCommitCommandWithTerminalization sha c (Some terminalization))"

definition normalizeProviderUsageCommitCommand ::
  "(string \<Rightarrow> string) \<Rightarrow> CommitAttemptCommand \<Rightarrow> commitDigestTerminalization \<Rightarrow> (CommitAttemptCommand \<times> string) result"
where
  "normalizeProviderUsageCommitCommand sha c terminalization =
     (case first_error
        [fail_if (\<not> TurnStatus_Valid (cm_TerminalStatus c) \<or> \<not> TurnStatus_Terminal (cm_TerminalStatus c))
           ErrStoreIntegrity,
         fail_if (newProviderUsageTerminalization sha (cm_TerminalStatus c) \<noteq> Inr terminalization) ErrStoreIntegrity,
         terminalization_validate terminalization] of
        Some e \<Rightarrow> Inl e
      | None \<Rightarrow> normalizeCommitCommandWithVersion sha
          (c\<lparr>cm_Settlement := Some \<lparr>sq_Intent = SettlementIntentFinalize, sq_UsedUnits = 0\<rparr>\<rparr>)
          (Some terminalization) operationDigestVersionV4)"

end
