(* ===== verification/Sql_Settlement.thy ===== *)
theory Sql_Settlement
  imports Effect_Outbox Sql_Attempts Commit_Digest
begin

text \<open>
  The commercial boundary of the SQL store, \<^verbatim>\<open>settlement.go\<close>, \<^verbatim>\<open>settlement_review.go\<close> and the
  bindings of \<^verbatim>\<open>settlement_review_usage.go\<close> in \<^verbatim>\<open>server/service/agentturn\<close>: which authority is
  installed and sealed, the call that settles a finished Turn, the evidence that a release would
  discard billable work, and the durable Review that is opened instead.

  An authority is what its methods return at some exchange on a database; the tables it writes are
  its own. The tables of the provider usage journal, of usage evidence and of resolutions are not
  in the model: what the functions that read them return is given by \<open>review_tables\<close>, one field per
  Go function.
\<close>

subsection \<open>Authorities and bindings\<close>

record SettlementReviewHoldCommand =
  hc_Review :: SettlementReviewRecord
  hc_PrincipalID :: PrincipalID

definition SettlementReviewHoldCommand_Validate ::
  "(string \<Rightarrow> string) \<Rightarrow> SettlementReviewHoldCommand \<Rightarrow> go_error option"
where
  "SettlementReviewHoldCommand_Validate sha c = first_error
     [SettlementReviewRecord_Validate sha (hc_Review c),
      fail_if (rv_Status (hc_Review c) \<noteq> SettlementReviewStatusPending) ErrStoreIntegrity,
      validateBoundedText ''principalId'' (hc_PrincipalID c) MaxPrincipalIDBytes]"

text \<open>
  The optional methods of an authority are its stronger interfaces. Only whether it resolves or
  measures Reviews matters here; what it says of an execution or of an expired reservation is the
  method itself.
\<close>

record SettlementAuthority =
  sa_Settle :: "nat \<Rightarrow> sql_db \<Rightarrow> SettlementCommand \<Rightarrow> go_error option"
  sa_HoldForReview :: "(nat \<Rightarrow> sql_db \<Rightarrow> SettlementReviewHoldCommand \<Rightarrow> go_error option) option"
  sa_ResolveReview :: bool
  sa_MeasureReview :: bool
  sa_MeasureProviderUsage :: bool
  sa_AuthorizeTurnExecution :: "(nat \<Rightarrow> sql_db \<Rightarrow> Turn \<Rightarrow> go_error option) option"
  sa_VerifyExpiredTurnReservation :: "(nat \<Rightarrow> sql_db \<Rightarrow> Turn \<Rightarrow> go_error option) option"

definition is_SettlementReviewUsageAuthority :: "SettlementAuthority \<Rightarrow> bool" where
  "is_SettlementReviewUsageAuthority a \<longleftrightarrow> \<not> Option.is_none (sa_HoldForReview a) \<and> sa_ResolveReview a \<and> sa_MeasureReview a"

definition is_SettlementReviewProviderUsageAuthority :: "SettlementAuthority \<Rightarrow> bool" where
  "is_SettlementReviewProviderUsageAuthority a \<longleftrightarrow>
     \<not> Option.is_none (sa_HoldForReview a) \<and> sa_ResolveReview a \<and> sa_MeasureProviderUsage a"

text \<open>Pointers to a store are its address.\<close>

record ProviderUsageJournal =
  pj_store :: nat
  pj_marker :: nat

record SettlementAuthorityBinding =
  sb_store :: nat
  sb_marker :: "nat option"
  sb_usageAware :: bool
  sb_providerUsageAware :: bool
  sb_providerJournal :: "ProviderUsageJournal option"

text \<open>The store with its settlement fields; the flag \<^verbatim>\<open>settlementViolated\<close> is in \<open>sn_store\<close>.\<close>

record SettlementStore =
  sn_store :: SQLStore
  sn_address :: nat
  sn_settlement :: "SettlementAuthority option"
  sn_settlementBinding :: "SettlementAuthorityBinding option"

abbreviation sn_violated :: "SettlementStore \<Rightarrow> bool" where
  "sn_violated store \<equiv> ss_settlementViolated (sn_store store)"

definition MatchesStore :: "ProviderUsageJournal \<Rightarrow> SettlementStore \<Rightarrow> bool" where
  "MatchesStore journal store \<longleftrightarrow> pj_marker journal = 1 \<and> pj_store journal = sn_address store"

definition install :: "SettlementAuthority option \<Rightarrow> SettlementStore \<Rightarrow> SettlementStore" where
  "install authority store = store\<lparr>sn_settlement := authority,
     sn_store := (sn_store store)\<lparr>ss_executionAuthority := Option.bind authority sa_AuthorizeTurnExecution\<rparr>\<rparr>"

definition WithSettlementAuthority :: "SettlementAuthority option \<Rightarrow> SettlementStore \<Rightarrow> SettlementStore" where
  "WithSettlementAuthority authority store =
     (if sn_settlementBinding store \<noteq> None
      then store\<lparr>sn_store := (sn_store store)\<lparr>ss_settlementViolated := True\<rparr>\<rparr>
      else install authority store)"

definition bind_authority ::
  "(SettlementAuthorityBinding \<Rightarrow> SettlementAuthorityBinding) \<Rightarrow> SettlementAuthority option \<Rightarrow> SettlementStore
     \<Rightarrow> SettlementAuthorityBinding result \<times> SettlementStore"
where
  "bind_authority seal authority store =
     (if Option.is_none authority \<or> \<not> Option.is_none (sn_settlement store) \<or> sn_settlementBinding store \<noteq> None \<or> sn_violated store
      then (Inl ErrSettlementBindingInvalid, store)
      else let binding = seal \<lparr>sb_store = sn_address store, sb_marker = Some 1, sb_usageAware = False,
                              sb_providerUsageAware = False, sb_providerJournal = None\<rparr>
           in (Inr binding, (install authority store)\<lparr>sn_settlementBinding := Some binding\<rparr>))"

definition BindSettlementReviewAuthority ::
  "SettlementAuthority option \<Rightarrow> SettlementStore \<Rightarrow> SettlementAuthorityBinding result \<times> SettlementStore"
where
  "BindSettlementReviewAuthority = bind_authority id"

definition BindSettlementReviewUsageAuthority ::
  "SettlementAuthority option \<Rightarrow> SettlementStore \<Rightarrow> SettlementAuthorityBinding result \<times> SettlementStore"
where
  "BindSettlementReviewUsageAuthority = bind_authority (\<lambda>b. b\<lparr>sb_usageAware := True\<rparr>)"

definition BindSettlementReviewProviderUsageAuthority ::
  "ProviderUsageJournal option \<Rightarrow> SettlementAuthority option \<Rightarrow> SettlementStore
     \<Rightarrow> SettlementAuthorityBinding result \<times> SettlementStore"
where
  "BindSettlementReviewProviderUsageAuthority journal authority store =
     (case journal of
        None \<Rightarrow> (Inl ErrSettlementBindingInvalid, store)
      | Some j \<Rightarrow>
          if \<not> MatchesStore j store then (Inl ErrSettlementBindingInvalid, store)
          else bind_authority (\<lambda>b. b\<lparr>sb_providerUsageAware := True, sb_providerJournal := Some j\<rparr>) authority store)"

text \<open>A store makes at most one binding, so comparing the pointers compares the bindings.\<close>

definition MatchesSettlementAuthorityBinding :: "SettlementStore \<Rightarrow> SettlementAuthorityBinding option \<Rightarrow> bool" where
  "MatchesSettlementAuthorityBinding store binding \<longleftrightarrow>
     (case binding of
        None \<Rightarrow> False
      | Some b \<Rightarrow> sn_settlementBinding store = Some b \<and> sb_store b = sn_address store \<and> sb_marker b = Some 1
          \<and> \<not> Option.is_none (sn_settlement store) \<and> \<not> sn_violated store
          \<and> (\<not> sb_providerUsageAware b
             \<or> (case sb_providerJournal b of None \<Rightarrow> False | Some j \<Rightarrow> MatchesStore j store)))"

definition hasSettlementAuthority :: "SettlementStore \<Rightarrow> bool" where
  "hasSettlementAuthority store \<longleftrightarrow> \<not> Option.is_none (sn_settlement store)"

type_synonym hold_authority = "nat \<Rightarrow> sql_db \<Rightarrow> SettlementReviewHoldCommand \<Rightarrow> go_error option"

definition reviewAuthority :: "SettlementStore \<Rightarrow> hold_authority option" where
  "reviewAuthority store = (if sn_violated store then None else Option.bind (sn_settlement store) sa_HoldForReview)"

text \<open>The two sealed authorities, as the method that holds a Turn for review.\<close>

definition settlementReviewUsageAuthorityLocked :: "SettlementStore \<Rightarrow> hold_authority result" where
  "settlementReviewUsageAuthorityLocked store =
     (if sn_violated store then Inl ErrSettlementBindingInvalid
      else (case sn_settlementBinding store of
              None \<Rightarrow> Inl ErrSettlementReviewUsageUnavailable
            | Some b \<Rightarrow>
                if \<not> sb_usageAware b then Inl ErrSettlementReviewUsageUnavailable
                else if sb_store b \<noteq> sn_address store \<or> sb_marker b \<noteq> Some 1 then Inl ErrSettlementBindingInvalid
                else (case sn_settlement store of
                        None \<Rightarrow> Inl ErrSettlementBindingInvalid
                      | Some a \<Rightarrow>
                          (case sa_HoldForReview a of
                             Some hold \<Rightarrow> if is_SettlementReviewUsageAuthority a then Inr hold
                                          else Inl ErrSettlementReviewUsageUnavailable
                           | None \<Rightarrow> Inl ErrSettlementReviewUsageUnavailable))))"

definition settlementReviewProviderUsageAuthorityLocked :: "SettlementStore \<Rightarrow> hold_authority result" where
  "settlementReviewProviderUsageAuthorityLocked store =
     (if sn_violated store then Inl ErrSettlementBindingInvalid
      else (case sn_settlementBinding store of
              None \<Rightarrow> Inl ErrSettlementReviewUsageUnavailable
            | Some b \<Rightarrow>
                if \<not> sb_providerUsageAware b then Inl ErrSettlementReviewUsageUnavailable
                else if sb_store b \<noteq> sn_address store \<or> sb_marker b \<noteq> Some 1
                        \<or> (case sb_providerJournal b of None \<Rightarrow> True | Some j \<Rightarrow> \<not> MatchesStore j store)
                then Inl ErrSettlementBindingInvalid
                else (case sn_settlement store of
                        None \<Rightarrow> Inl ErrSettlementBindingInvalid
                      | Some a \<Rightarrow>
                          (case sa_HoldForReview a of
                             Some hold \<Rightarrow> if is_SettlementReviewProviderUsageAuthority a then Inr hold
                                          else Inl ErrSettlementReviewUsageUnavailable
                           | None \<Rightarrow> Inl ErrSettlementReviewUsageUnavailable))))"

subsection \<open>Which policy a terminal commit is under\<close>

definition completedUsageTerminalization ::
  "(string \<Rightarrow> string) \<Rightarrow> SettlementStore \<Rightarrow> commitDigestTerminalization option result"
where
  "completedUsageTerminalization sha store =
     (case sn_settlementBinding store of
        None \<Rightarrow> Inr None
      | Some b \<Rightarrow>
          if \<not> sb_usageAware b then Inr None
          else if sn_violated store \<or> sb_store b \<noteq> sn_address store \<or> sb_marker b \<noteq> Some 1
          then Inl ErrSettlementBindingInvalid
          else (case sn_settlement store of
                  None \<Rightarrow> Inl ErrSettlementBindingInvalid
                | Some a \<Rightarrow> if is_SettlementReviewUsageAuthority a then Inr (Some (newCompletedUsageTerminalization sha))
                            else Inl ErrSettlementBindingInvalid))"

definition providerUsageTerminalization ::
  "(string \<Rightarrow> string) \<Rightarrow> SettlementStore \<Rightarrow> TurnStatus \<Rightarrow> commitDigestTerminalization option result"
where
  "providerUsageTerminalization sha store terminal =
     (case sn_settlementBinding store of
        None \<Rightarrow> Inr None
      | Some b \<Rightarrow>
          if \<not> sb_providerUsageAware b then Inr None
          else (case settlementReviewProviderUsageAuthorityLocked store of
                  Inl e \<Rightarrow> Inl e
                | Inr hold \<Rightarrow> map_sum id Some (newProviderUsageTerminalization sha terminal)))"

subsection \<open>Settlement\<close>

text \<open>A call of an authority; its own error is replaced by the sentinel the kernel returns.\<close>

definition ask_authority :: "(nat \<Rightarrow> sql_db \<Rightarrow> 'c \<Rightarrow> go_error option) \<Rightarrow> 'c \<Rightarrow> go_error \<Rightarrow> unit tx" where
  "ask_authority verdict c err s =
     (if verdict (st_tick s) (st_db s) c \<noteq> None then Inl err else Inr (), s\<lparr>st_tick := Suc (st_tick s)\<rparr>)"

definition settle :: "(string \<Rightarrow> string) \<Rightarrow> SettlementStore \<Rightarrow> SettlementCommand \<Rightarrow> unit tx" where
  "settle sha store c =
     tx_check (sn_violated store) ErrSettlementBindingInvalid (
     case sn_settlement store of
       None \<Rightarrow> tx_return ()
     | Some authority \<Rightarrow>
         tx_guard (SettlementCommand_Validate sha c)
           (ask_authority (sa_Settle authority) c ErrSettlementFailed))"

definition count_rows :: "sql_io \<Rightarrow> (sql_db \<Rightarrow> 'r list) \<Rightarrow> ('r \<Rightarrow> bool) \<Rightarrow> int tx" where
  "count_rows io table p = query io (\<lambda>db. int (length (filter p (table db))))"

definition usage_evidence :: "int \<Rightarrow> int \<Rightarrow> int \<Rightarrow> SettlementUsageEvidence" where
  "usage_evidence operations effects current =
     \<lparr>ue_PriorOperationCount = operations, ue_PriorEffectCount = effects, ue_PriorProviderUsageCount = 0,
      ue_CurrentEffectCount = current\<rparr>"

definition inspectAmbiguousRelease :: "sql_io \<Rightarrow> TurnID \<Rightarrow> int \<Rightarrow> SettlementUsageEvidence tx" where
  "inspectAmbiguousRelease io turnID currentEffects =
     tx_check (currentEffects < 0 \<or> currentEffects > int MaxEffectsPerOperation) ErrStoreIntegrity (
     tx_bind (count_rows io db_operations (\<lambda>r. op_TurnID r = turnID)) (\<lambda>operations.
     tx_bind (count_rows io db_outbox (\<lambda>r. ef_TurnID r = turnID)) (\<lambda>effects.
     tx_return (usage_evidence operations effects currentEffects))))"

definition inspectReplayReleaseEvidence :: "sql_io \<Rightarrow> TurnID \<Rightarrow> string \<Rightarrow> int \<Rightarrow> SettlementUsageEvidence tx" where
  "inspectReplayReleaseEvidence io turnID operationID currentEffects =
     tx_check (currentEffects < 0 \<or> currentEffects > int MaxEffectsPerOperation) ErrStoreIntegrity (
     tx_bind (count_rows io db_operations (\<lambda>r. op_TurnID r = turnID \<and> op_OperationID r \<noteq> operationID)) (\<lambda>operations.
     tx_bind (count_rows io db_outbox (\<lambda>r. ef_TurnID r = turnID \<and> ef_OperationID r \<noteq> operationID)) (\<lambda>effects.
     tx_return (usage_evidence operations effects currentEffects))))"

subsection \<open>Opening a Review\<close>

definition same_review_key :: "sqlSettlementReviewRow \<Rightarrow> sqlSettlementReviewRow \<Rightarrow> bool" where
  "same_review_key r row \<longleftrightarrow> sv_ReviewID r = sv_ReviewID row \<or> sv_TurnID r = sv_TurnID row
     \<or> sv_SettlementKey r = sv_SettlementKey row"

definition create_review :: "sql_io \<Rightarrow> sqlSettlementReviewRow \<Rightarrow> unit tx" where
  "create_review io = insert_row io db_reviews same_review_key
     (\<lambda>row db. db\<lparr>db_reviews := db_reviews db @ [row\<lparr>sv_ID := db_autoinc db\<rparr>]\<rparr>)"

definition persistSettlementReviewWithAuthority ::
  "sql_io \<Rightarrow> Turn \<Rightarrow> SettlementReviewRecord \<Rightarrow> hold_authority \<Rightarrow> unit tx"
where
  "persistSettlementReviewWithAuthority io turn review hold =
     tx_check (rv_Status review \<noteq> SettlementReviewStatusPending) ErrStoreIntegrity (
     case settlementReviewToSQLRow (io_sha io) review of
       Inl e \<Rightarrow> tx_fail ErrStoreIntegrity
     | Inr row \<Rightarrow>
         tx_bind (create_review io row) (\<lambda>_.
         let command = \<lparr>hc_Review = review, hc_PrincipalID = t_PrincipalID turn\<rparr> in
         tx_check (SettlementReviewHoldCommand_Validate (io_sha io) command \<noteq> None) ErrStoreIntegrity (
         ask_authority hold command (Wrapf ''hold pending review'' ErrSettlementReviewFailed))))"

definition persistSettlementReview ::
  "SettlementStore \<Rightarrow> sql_io \<Rightarrow> Turn \<Rightarrow> SettlementReviewRecord \<Rightarrow> unit tx"
where
  "persistSettlementReview store io turn review =
     tx_check (rv_Status review \<noteq> SettlementReviewStatusPending) ErrStoreIntegrity (
     tx_bind (tx_lift (if settlementReviewProviderUsageAware (io_sha io) review
                       then settlementReviewProviderUsageAuthorityLocked store
                       else if rv_Source review = SettlementReviewSourceExecutorCompletion
                       then settlementReviewUsageAuthorityLocked store
                       else (case reviewAuthority store of
                               None \<Rightarrow> Inl ErrSettlementUsageUnknown
                             | Some hold \<Rightarrow> Inr hold))) (\<lambda>hold.
     persistSettlementReviewWithAuthority io turn review hold))"

subsection \<open>Checking the Review of a finished Turn\<close>

record review_tables =
  rt_countProviderUsageJournal :: "nat \<Rightarrow> TurnID \<Rightarrow> int result"
  rt_lookupProviderUsage :: "nat \<Rightarrow> SettlementReviewRecord \<Rightarrow> int result"
  rt_resolutionState :: "nat \<Rightarrow> SettlementReviewRecord \<Rightarrow> go_error option"
  rt_usageEvidencePlugin :: "nat \<Rightarrow> string \<Rightarrow> EventPluginRef option result"

definition ask_table :: "(nat \<Rightarrow> 'a result) \<Rightarrow> 'a tx" where
  "ask_table f s = (f (st_tick s), s\<lparr>st_tick := Suc (st_tick s)\<rparr>)"

definition countProviderUsageJournalTx :: "review_tables \<Rightarrow> TurnID \<Rightarrow> int tx" where
  "countProviderUsageJournalTx tables turnID =
     tx_bind (ask_table (\<lambda>n. rt_countProviderUsageJournal tables n turnID)) (\<lambda>count.
     tx_check (count < 0) ErrStoreIntegrity (tx_return count))"

definition lookupOperationTx :: "sql_io \<Rightarrow> TurnID \<Rightarrow> string \<Rightarrow> sqlTurnOperationRow option tx" where
  "lookupOperationTx io turnID operationID =
     lookup_row io db_operations (\<lambda>r. op_TurnID r = turnID \<and> op_OperationID r = operationID)"

definition operation_effects :: "sqlTurnOperationRow \<Rightarrow> sql_db \<Rightarrow> sqlEffectOutboxRow list" where
  "operation_effects op db = sort_key ef_Ordinal
     (filter (\<lambda>r. ef_TurnID r = op_TurnID op \<and> ef_OperationID r = op_OperationID op) (db_outbox db))"

text \<open>The rows of an operation, each with its place and parent; \<open>None\<close> if a row is not as written.\<close>

fun effect_rows_of :: "sqlTurnOperationRow \<Rightarrow> int \<Rightarrow> sqlEffectOutboxRow list \<Rightarrow> EffectOutboxRecord list option" where
  "effect_rows_of op ordinal [] = Some []"
| "effect_rows_of op ordinal (row # rest) =
     (case effect_toRecord row of
        Inl e \<Rightarrow> None
      | Inr r \<Rightarrow>
          if ef_Ordinal row \<noteq> ordinal \<or> ef_TurnID row \<noteq> op_TurnID op \<or> ef_AttemptID row \<noteq> op_AttemptID op
             \<or> ef_TurnFencingToken row \<noteq> op_FencingToken op \<or> ef_OperationID row \<noteq> op_OperationID op
          then None
          else map_option (\<lambda>rs. r # rs) (effect_rows_of op (ordinal + 1) rest))"

definition executor_review_evidence ::
  "sql_io \<Rightarrow> Turn \<Rightarrow> SettlementReviewRecord \<Rightarrow> SettlementUsageEvidence tx"
where
  "executor_review_evidence io turn review =
     tx_bind (lookupOperationTx io (t_ID turn) (rv_OperationID review)) (\<lambda>found. case found of
       None \<Rightarrow> tx_fail ErrStoreIntegrity
     | Some op \<Rightarrow>
         tx_check (validateOperationRow op \<noteq> None \<or> op_AttemptID op \<noteq> rv_AttemptID review
                   \<or> op_FencingToken op \<noteq> sint (rv_FencingToken review) \<or> op_TurnStatus op \<noteq> t_Status turn
                   \<or> op_EffectCount op \<noteq> ue_CurrentEffectCount (rv_Evidence review)) ErrStoreIntegrity (
         tx_bind (query io (operation_effects op)) (\<lambda>rows.
         tx_check (int (length rows) \<noteq> op_EffectCount op) ErrStoreIntegrity (
         tx_check (effect_rows_of op 0 rows = None \<or> list_ex (\<lambda>r. ef_Status r \<noteq> EffectStatusReviewHold) rows)
           ErrStoreIntegrity (
         tx_bind (lookupAttemptByIDTx io (rv_AttemptID review)) (\<lambda>attemptFound. case attemptFound of
           None \<Rightarrow> tx_fail ErrStoreIntegrity
         | Some attemptRow \<Rightarrow>
             (case toAttempt attemptRow of
                Inl e \<Rightarrow> tx_fail ErrStoreIntegrity
              | Inr attempt \<Rightarrow>
                  tx_check (ta_TurnID attempt \<noteq> t_ID turn \<or> ta_FencingToken attempt \<noteq> rv_FencingToken review
                            \<or> ta_Status attempt \<noteq> attemptStatusForTurn (t_Status turn)) ErrStoreIntegrity (
                  inspectReplayReleaseEvidence io (t_ID turn) (op_OperationID op) (op_EffectCount op))))))))) "

definition review_evidence ::
  "sql_io \<Rightarrow> Turn \<Rightarrow> SettlementReviewRecord \<Rightarrow> SettlementUsageEvidence tx"
where
  "review_evidence io turn review =
     (if SettlementReviewSource_executor (rv_Source review) then executor_review_evidence io turn review
      else if rv_Source review = SettlementReviewSourceReconcile
              \<or> rv_Source review = SettlementReviewSourceReconcileTerminal
      then tx_check (rv_SettlementKey review \<noteq> reconcileSettlementKey (io_sha io) (t_ID turn) (rv_FencingToken review))
             ErrStoreIntegrity (inspectAmbiguousRelease io (t_ID turn) 0)
      else tx_fail ErrStoreIntegrity)"

definition review_children :: "review_tables \<Rightarrow> sql_io \<Rightarrow> Turn \<Rightarrow> SettlementReviewRecord \<Rightarrow> unit tx" where
  "review_children tables io turn review =
     tx_bind (if settlementReviewProviderUsageAware (io_sha io) review
              then tx_bind (ask_table (\<lambda>n. rt_lookupProviderUsage tables n review)) (\<lambda>receipts.
                   tx_check (receipts < ue_PriorProviderUsageCount (rv_Evidence review)) ErrStoreIntegrity (tx_return ()))
              else tx_bind (ask_table (\<lambda>n. rt_countProviderUsageJournal tables n (t_ID turn))) (\<lambda>count.
                   tx_check (ue_PriorProviderUsageCount (rv_Evidence review) \<noteq> 0 \<or> count \<noteq> 0) ErrStoreIntegrity
                     (tx_return ()))) (\<lambda>_.
     tx_bind (ask_table (\<lambda>n. case rt_resolutionState tables n review of Some e \<Rightarrow> Inl e | None \<Rightarrow> Inr ())) (\<lambda>_.
     if rv_Status review = SettlementReviewStatusPending then tx_return ()
     else tx_bind (ask_table (\<lambda>n. rt_usageEvidencePlugin tables n (rv_ReviewID review))) (\<lambda>plugin.
          tx_check (plugin \<noteq> Some (t_Plugin turn)) ErrStoreIntegrity (tx_return ()))))"

definition validateTerminalSettlementReviewTx ::
  "review_tables \<Rightarrow> sql_io \<Rightarrow> sqlTurnRow \<Rightarrow> Turn \<Rightarrow> SettlementReviewRecord \<Rightarrow> unit tx"
where
  "validateTerminalSettlementReviewTx tables io row turn review =
     tx_check (\<not> TurnStatus_Terminal (t_Status turn) \<or> rv_TurnID review \<noteq> t_ID turn
               \<or> rv_TerminalStatus review \<noteq> t_Status turn
               \<or> rv_FencingToken review \<noteq> word_of_int (tr_FencingToken row)) ErrStoreIntegrity (
     tx_bind (count_rows io db_outbox (\<lambda>r. ef_TurnID r = t_ID turn
        \<and> (ef_Status r = EffectStatusPending \<or> ef_Status r = EffectStatusDelivering))) (\<lambda>escaped.
     tx_check (escaped \<noteq> 0) ErrStoreIntegrity (
     tx_bind (review_evidence io turn review) (\<lambda>evidence.
     tx_check (ue_PriorOperationCount evidence \<noteq> ue_PriorOperationCount (rv_Evidence review)
               \<or> ue_PriorEffectCount evidence \<noteq> ue_PriorEffectCount (rv_Evidence review)
               \<or> ue_CurrentEffectCount evidence \<noteq> ue_CurrentEffectCount (rv_Evidence review)) ErrStoreIntegrity (
     review_children tables io turn review)))))"

end
