(* ===== verification/Sql_Commit.thy ===== *)
theory Sql_Commit
  imports Sql_Settlement
begin

text \<open>
  The commit of a worker, \<^verbatim>\<open>CommitAttempt\<close> of \<^verbatim>\<open>sql_execution_store.go\<close> in
  \<^verbatim>\<open>server/service/agentturn\<close>: under a live fence it writes one event, one immutable operation
  receipt and the effects of the operation, and for a terminal commit it finishes Turn and attempt
  and settles or opens a Review, in one transaction. A repeated commit is answered from its receipt.

  The transaction is split where the Go function branches: the replay of a receipt
  (\<open>commit_replay\<close>), the guards of a fresh commit (\<open>commit_guards\<close>), the evidence for a Review
  (\<open>commit_evidence\<close>), the state it moves to (\<open>commit_next\<close>) and the writes (\<open>commit_writes\<close>).
  The settlement fields are read twice, when the candidates are built (\<open>before\<close>) and inside the
  transaction (\<open>store\<close>), since another call may break a binding in between.
\<close>

subsection \<open>Receipts and effects\<close>

definition same_operation_key :: "sqlTurnOperationRow \<Rightarrow> sqlTurnOperationRow \<Rightarrow> bool" where
  "same_operation_key r row \<longleftrightarrow> op_TurnID r = op_TurnID row \<and> op_OperationID r = op_OperationID row"

definition create_operation :: "sql_io \<Rightarrow> sqlTurnOperationRow \<Rightarrow> unit tx" where
  "create_operation io = insert_row io db_operations same_operation_key
     (\<lambda>row db. db\<lparr>db_operations := db_operations db @ [row\<lparr>op_ID := db_autoinc db\<rparr>]\<rparr>)"

definition same_effect_key :: "sqlEffectOutboxRow \<Rightarrow> sqlEffectOutboxRow \<Rightarrow> bool" where
  "same_effect_key r row \<longleftrightarrow> ef_OutboxID r = ef_OutboxID row
     \<or> (ef_Topic r = ef_Topic row \<and> ef_DedupeKey r = ef_DedupeKey row)
     \<or> (ef_TurnID r = ef_TurnID row \<and> ef_OperationID r = ef_OperationID row \<and> ef_Ordinal r = ef_Ordinal row)"

text \<open>The payload column holds what the database makes of the JSON text.\<close>

definition create_effect :: "sql_io \<Rightarrow> sqlEffectOutboxRow \<Rightarrow> unit tx" where
  "create_effect io = insert_row io db_outbox same_effect_key
     (\<lambda>row db. db\<lparr>db_outbox := db_outbox db
        @ [row\<lparr>ef_ID := db_autoinc db, ef_PayloadJSON := io_json io (ef_PayloadJSON row)\<rparr>]\<rparr>)"

fun create_effects ::
  "sql_io \<Rightarrow> TurnAttempt \<Rightarrow> string \<Rightarrow> time \<Rightarrow> int \<Rightarrow> EffectOutboxDraft list \<Rightarrow> EffectOutboxRecord list tx"
where
  "create_effects io attempt operationID now ordinal [] = tx_return []"
| "create_effects io attempt operationID now ordinal (effect # rest) =
     (case buildEffectOutboxRow attempt operationID ordinal effect now of
        Inl e \<Rightarrow> tx_fail ErrStoreIntegrity
      | Inr (row, record) \<Rightarrow>
          tx_bind (create_effect io row) (\<lambda>_.
          tx_bind (create_effects io attempt operationID now (ordinal + 1) rest) (\<lambda>records.
          tx_return (record # records))))"

subsection \<open>Candidates\<close>

datatype operationTerminalizationMode =
    operationTerminalizationLegacy
  | operationTerminalizationCompletedUsageReview
  | operationTerminalizationProviderUsageReview

record commitOperationCandidate =
  cc_Command :: CommitAttemptCommand
  cc_Digest :: string
  cc_Mode :: operationTerminalizationMode

definition candidate_of :: "operationTerminalizationMode \<Rightarrow> CommitAttemptCommand \<times> string \<Rightarrow> commitOperationCandidate" where
  "candidate_of mode n = \<lparr>cc_Command = fst n, cc_Digest = snd n, cc_Mode = mode\<rparr>"

definition completedUsageCallerAssertionUntrusted :: "CommitAttemptCommand \<Rightarrow> bool" where
  "completedUsageCallerAssertionUntrusted c \<longleftrightarrow>
     (if cm_TerminalStatus c \<noteq> TurnStatusCompleted then False
      else (case cm_Settlement c of
              None \<Rightarrow> False
            | Some q \<Rightarrow> sq_Intent q = SettlementIntentRelease \<or> sq_UsedUnits q > 0))"

definition providerUsageCallerAssertionUntrusted :: "CommitAttemptCommand \<Rightarrow> bool" where
  "providerUsageCallerAssertionUntrusted c \<longleftrightarrow>
     (if cm_TerminalStatus c = TurnStatusOther '''' then False
      else (case cm_Settlement c of
              None \<Rightarrow> False
            | Some q \<Rightarrow> sq_Intent q = SettlementIntentRelease \<or> sq_UsedUnits q > 0))"

definition operationMatchesCommand :: "sqlTurnOperationRow \<Rightarrow> CommitAttemptCommand \<Rightarrow> string \<Rightarrow> bool" where
  "operationMatchesCommand row c digest \<longleftrightarrow>
     op_TurnID row = af_TurnID (cm_Fence c) \<and> op_OperationID row = cm_OperationID c
     \<and> op_OperationDigest row = digest \<and> op_AttemptID row = af_AttemptID (cm_Fence c)
     \<and> op_FencingToken row = sint (af_FencingToken (cm_Fence c))"

fun selectOperationReplayCandidate ::
  "sqlTurnOperationRow \<Rightarrow> commitOperationCandidate list \<Rightarrow> bool \<Rightarrow> commitOperationCandidate option"
where
  "selectOperationReplayCandidate row [] requireLegacy = None"
| "selectOperationReplayCandidate row (candidate # rest) requireLegacy =
     (if requireLegacy \<and> cc_Mode candidate \<noteq> operationTerminalizationLegacy
      then selectOperationReplayCandidate row rest requireLegacy
      else if operationMatchesCommand row (cc_Command candidate) (cc_Digest candidate) then Some candidate
      else selectOperationReplayCandidate row rest requireLegacy)"

record commit_plan =
  cp_Candidates :: "commitOperationCandidate list"
  cp_ProviderUsage :: bool
  cp_CompletedUsage :: bool
  cp_Untrusted :: bool

definition plan_of ::
  "CommitAttemptCommand \<Rightarrow> commitOperationCandidate list \<Rightarrow> bool \<Rightarrow> bool \<Rightarrow> commit_plan"
where
  "plan_of c candidates providerUsage completedUsage =
     \<lparr>cp_Candidates = candidates, cp_ProviderUsage = providerUsage, cp_CompletedUsage = completedUsage,
      cp_Untrusted = (completedUsage \<and> completedUsageCallerAssertionUntrusted c
                      \<or> providerUsage \<and> providerUsageCallerAssertionUntrusted c)\<rparr>"

definition provider_plan ::
  "(string \<Rightarrow> string) \<Rightarrow> CommitAttemptCommand \<Rightarrow> commitOperationCandidate \<Rightarrow> commitDigestTerminalization \<Rightarrow> commit_plan result"
where
  "provider_plan sha c legacy terminalization =
     (case normalizeProviderUsageCommitCommand sha c terminalization of
        Inl e \<Rightarrow> Inl e
      | Inr n4 \<Rightarrow>
          let v4 = candidate_of operationTerminalizationProviderUsageReview n4
          in if cm_TerminalStatus c = TurnStatusCompleted
             then (case normalizeCompletedUsageCommitCommand sha c (newCompletedUsageTerminalization sha) of
                     Inl e \<Rightarrow> Inl e
                   | Inr n3 \<Rightarrow> Inr (plan_of c
                       [v4, candidate_of operationTerminalizationCompletedUsageReview n3, legacy] True False))
             else Inr (plan_of c [v4, legacy] True False))"

definition commit_candidates ::
  "(string \<Rightarrow> string) \<Rightarrow> SettlementStore \<Rightarrow> CommitAttemptCommand \<Rightarrow> commit_plan result"
where
  "commit_candidates sha before c =
     (case normalizeCommitCommand sha c of
        Inl e \<Rightarrow> Inl e
      | Inr n2 \<Rightarrow>
          let legacy = candidate_of operationTerminalizationLegacy n2
          in case (if cm_TerminalStatus c = TurnStatusOther '''' then Inr None
                   else providerUsageTerminalization sha before (cm_TerminalStatus c)) of
               Inl e \<Rightarrow> Inl e
             | Inr (Some terminalization) \<Rightarrow> provider_plan sha c legacy terminalization
             | Inr None \<Rightarrow>
                 (case (if cm_TerminalStatus c = TurnStatusCompleted then completedUsageTerminalization sha before
                        else Inr None) of
                    Inl e \<Rightarrow> Inl e
                  | Inr None \<Rightarrow> Inr (plan_of c [legacy] False False)
                  | Inr (Some terminalization) \<Rightarrow>
                      (case normalizeCompletedUsageCommitCommand sha c terminalization of
                         Inl e \<Rightarrow> Inl e
                       | Inr n3 \<Rightarrow> Inr (plan_of c
                           [candidate_of operationTerminalizationCompletedUsageReview n3, legacy] False True))))"

subsection \<open>Replay of a receipt\<close>

definition canonicalJSONContent :: "string \<Rightarrow> string result" where
  "canonicalJSONContent raw =
     (if length raw = 0 \<or> \<not> json_Valid raw then Inl ErrStoreIntegrity else Inr (json_encode (json_decode raw)))"

definition sameJSONContent :: "string \<Rightarrow> string \<Rightarrow> bool" where
  "sameJSONContent left right =
     (case canonicalJSONContent left of
        Inl e \<Rightarrow> False
      | Inr l \<Rightarrow> (case canonicalJSONContent right of Inl e \<Rightarrow> False | Inr r \<Rightarrow> l = r))"

definition expectedOperationEvent :: "CommitAttemptCommand \<Rightarrow> SettlementReviewRecord option \<Rightarrow> EventDraft result" where
  "expectedOperationEvent c review =
     (if cm_TerminalStatus c = TurnStatusOther ''''
      then (case cm_Event c of None \<Rightarrow> Inl ErrStoreIntegrity | Some event \<Rightarrow> Inr event)
      else statusEventWithSettlementReview (cm_TerminalStatus c) (cm_TerminalStatus c = TurnStatusStopped) review)"

fun effects_match :: "int \<Rightarrow> EffectOutboxRecord list \<Rightarrow> EffectOutboxDraft list \<Rightarrow> bool" where
  "effects_match index [] [] = True"
| "effects_match index (effect # effects) (expected # rest) =
     (eor_Ordinal effect = index \<and> eor_OutboxID effect = eod_OutboxID expected
      \<and> eor_Topic effect = eod_Topic expected \<and> eor_DedupeKey effect = eod_DedupeKey expected
      \<and> sameJSONContent (eor_Payload effect) (eod_Payload expected)
      \<and> effects_match (index + 1) effects rest)"
| "effects_match index _ _ = False"

definition operationContentMatchesCommand ::
  "EventEnvelope \<Rightarrow> EffectOutboxRecord list \<Rightarrow> CommitAttemptCommand \<Rightarrow> SettlementReviewRecord option \<Rightarrow> bool"
where
  "operationContentMatchesCommand event effects c review =
     (case expectedOperationEvent c review of
        Inl e \<Rightarrow> False
      | Inr expected \<Rightarrow> ev_Type event = ed_Type expected \<and> ev_ResourceRefs event = ed_ResourceRefs expected
          \<and> sameJSONContent (ev_Data event) (ed_Data expected)
          \<and> effects_match 0 effects (cm_Effects c))"

definition operationEventMatchesStatus :: "EventEnvelope \<Rightarrow> TurnStatus \<Rightarrow> bool" where
  "operationEventMatchesStatus event status =
     (if status = TurnStatusRunning then \<not> HasPrefix (ev_Type event) ''core.''
      else TurnStatus_Terminal status \<and> ev_Type event = EventCoreTurnStatus
        \<and> unmarshal_string_field ''status'' (ev_Data event) = Some (TurnStatus_string status))"

text \<open>The Review that belongs to the operation in each mode; the checks that a Review of the mode is the right one.\<close>

definition operation_review ::
  "(string \<Rightarrow> string) \<Rightarrow> operationTerminalizationMode \<Rightarrow> sqlTurnOperationRow \<Rightarrow> SettlementReviewRecord option
     \<Rightarrow> SettlementReviewRecord option result"
where
  "operation_review sha mode op found =
     (case mode of
        operationTerminalizationLegacy \<Rightarrow>
          (case found of
             None \<Rightarrow> Inr None
           | Some review \<Rightarrow> Inr (if rv_Source review = SettlementReviewSourceExecutor
                                   \<and> rv_OperationID review = op_OperationID op then Some review else None))
      | operationTerminalizationCompletedUsageReview \<Rightarrow>
          (case found of
             None \<Rightarrow> Inl ErrStoreIntegrity
           | Some review \<Rightarrow>
               if rv_Source review \<noteq> SettlementReviewSourceExecutorCompletion
                  \<or> rv_OperationID review \<noteq> op_OperationID op then Inl ErrStoreIntegrity else Inr (Some review))
      | operationTerminalizationProviderUsageReview \<Rightarrow>
          (case found of
             None \<Rightarrow> Inl ErrStoreIntegrity
           | Some review \<Rightarrow>
               if rv_OperationID review \<noteq> op_OperationID op \<or> \<not> settlementReviewProviderUsageAware sha review
               then Inl ErrStoreIntegrity else Inr (Some review)))"

definition review_binds :: "(string \<Rightarrow> string) \<Rightarrow> Turn \<Rightarrow> sqlTurnOperationRow \<Rightarrow> SettlementReviewRecord \<Rightarrow> bool" where
  "review_binds sha turn op review \<longleftrightarrow> rv_AttemptID review = op_AttemptID op
     \<and> rv_FencingToken review = word_of_int (op_FencingToken op)
     \<and> rv_SettlementKey review = settlementKey sha (t_ID turn) (op_OperationID op)"

definition completed_review_matches ::
  "(string \<Rightarrow> string) \<Rightarrow> Turn \<Rightarrow> sqlTurnOperationRow \<Rightarrow> SettlementReviewRecord \<Rightarrow> SettlementUsageEvidence \<Rightarrow> bool"
where
  "completed_review_matches sha turn op review evidence \<longleftrightarrow> review_binds sha turn op review
     \<and> rv_TerminalStatus review = TurnStatusCompleted \<and> op_TurnStatus op = TurnStatusCompleted
     \<and> rv_Reason review = SettlementReviewReasonCompletedUsageUnmeasured
     \<and> rv_RequestDigest review = settlementReviewRequestDigestV1 sha review \<and> rv_Evidence review = evidence"

definition provider_review_matches ::
  "(string \<Rightarrow> string) \<Rightarrow> Turn \<Rightarrow> sqlTurnOperationRow \<Rightarrow> CommitAttemptCommand \<Rightarrow> SettlementReviewRecord
     \<Rightarrow> SettlementUsageEvidence \<Rightarrow> int \<Rightarrow> bool"
where
  "provider_review_matches sha turn op c review evidence providerCount \<longleftrightarrow> review_binds sha turn op review
     \<and> rv_Source review = (if cm_TerminalStatus c = TurnStatusCompleted then SettlementReviewSourceExecutorCompletion
                           else SettlementReviewSourceExecutorTerminal)
     \<and> rv_Reason review = (if cm_TerminalStatus c = TurnStatusCompleted then SettlementReviewReasonCompletedUsageUnmeasured
                           else SettlementReviewReasonTerminalUsageUnmeasured)
     \<and> rv_TerminalStatus review = cm_TerminalStatus c \<and> op_TurnStatus op = cm_TerminalStatus c
     \<and> rv_OperationID review = op_OperationID op
     \<and> rv_RequestDigest review = settlementReviewRequestDigestV2 sha review
     \<and> ue_PriorOperationCount (rv_Evidence review) = ue_PriorOperationCount evidence
     \<and> ue_PriorEffectCount (rv_Evidence review) = ue_PriorEffectCount evidence
     \<and> ue_CurrentEffectCount (rv_Evidence review) = ue_CurrentEffectCount evidence
     \<and> providerCount \<ge> ue_PriorProviderUsageCount (rv_Evidence review)"

definition executor_review_matches ::
  "(string \<Rightarrow> string) \<Rightarrow> Turn \<Rightarrow> sqlTurnOperationRow \<Rightarrow> SettlementReviewRecord \<Rightarrow> SettlementUsageEvidence \<Rightarrow> bool"
where
  "executor_review_matches sha turn op review evidence \<longleftrightarrow> review_binds sha turn op review
     \<and> rv_Source review = SettlementReviewSourceExecutor \<and> rv_OperationID review = op_OperationID op
     \<and> rv_TerminalStatus review = op_TurnStatus op \<and> rv_Evidence review = evidence"

definition operation_result ::
  "sqlTurnOperationRow \<Rightarrow> EventEnvelope \<Rightarrow> Turn \<Rightarrow> TurnAttempt \<Rightarrow> EffectOutboxRecord list
     \<Rightarrow> SettlementReviewRecord option \<Rightarrow> CommitAttemptResult"
where
  "operation_result op event turn attempt effects review =
     \<lparr>cmr_OperationID = op_OperationID op, cmr_OperationDigest = op_OperationDigest op, cmr_Event = event,
      cmr_Turn = turn, cmr_Attempt = attempt, cmr_TurnStatus = op_TurnStatus op, cmr_Effects = effects,
      cmr_SettlementReview = review, cmr_Replay = False\<rparr>"

text \<open>What the receipt itself names: its attempt, its event and its effects.\<close>

definition operation_rows ::
  "sql_io \<Rightarrow> sqlTurnRow \<Rightarrow> Turn \<Rightarrow> sqlTurnOperationRow \<Rightarrow> (TurnAttempt \<times> EventEnvelope \<times> EffectOutboxRecord list) tx"
where
  "operation_rows io row turn op =
     tx_check (validateOperationRow op \<noteq> None \<or> op_TurnID op \<noteq> tr_TurnID row
               \<or> op_EventSequence op > tr_LastEventSequence row) ErrStoreIntegrity (
     tx_bind (tx_catch (lockAttempt io (op_TurnID op) (op_AttemptID op) (op_FencingToken op))
        (\<lambda>e. tx_fail ErrStoreIntegrity)) (\<lambda>attemptRow.
     case toAttempt attemptRow of
       Inl e \<Rightarrow> tx_fail ErrStoreIntegrity
     | Inr attempt \<Rightarrow>
         tx_bind (tx_catch (take_row io db_events (\<lambda>r. er_TurnID r = op_TurnID op \<and> er_Sequence r = op_EventSequence op))
            (\<lambda>e. tx_fail ErrStoreIntegrity)) (\<lambda>eventRow.
         case toEnvelope eventRow turn of
           Inl e \<Rightarrow> tx_fail ErrStoreIntegrity
         | Inr event \<Rightarrow>
             tx_check (\<not> operationEventMatchesStatus event (op_TurnStatus op)) ErrStoreIntegrity (
             tx_bind (query io (operation_effects op)) (\<lambda>effectRows.
             tx_check (int (length effectRows) \<noteq> op_EffectCount op) ErrStoreIntegrity (
             case effect_rows_of op 0 effectRows of
               None \<Rightarrow> tx_fail ErrStoreIntegrity
             | Some effects \<Rightarrow> tx_return (attempt, event, effects)))))))"

text \<open>The commercial outcome the receipt must come with, by mode; it returns the Review to report.\<close>

definition hydrated_review ::
  "SettlementStore \<Rightarrow> review_tables \<Rightarrow> sql_io \<Rightarrow> sqlTurnRow \<Rightarrow> Turn \<Rightarrow> sqlTurnOperationRow \<Rightarrow> CommitAttemptCommand
     \<Rightarrow> operationTerminalizationMode \<Rightarrow> SettlementReviewRecord option \<Rightarrow> SettlementReviewRecord option tx"
where
  "hydrated_review store tables io row turn op c mode found =
     (let sha = io_sha io;
          evidence = inspectReplayReleaseEvidence io (t_ID turn) (op_OperationID op) (op_EffectCount op);
          validated = (\<lambda>review. tx_bind (validateTerminalSettlementReviewTx tables io row turn review)
                                  (\<lambda>_. tx_return (Some review)));
          isRelease = cm_TerminalStatus c \<noteq> TurnStatusOther ''''
            \<and> (case cm_Settlement c of None \<Rightarrow> False | Some q \<Rightarrow> sq_Intent q = SettlementIntentRelease)
      in case mode of
           operationTerminalizationCompletedUsageReview \<Rightarrow>
             (case found of
                None \<Rightarrow> tx_fail ErrStoreIntegrity
              | Some review \<Rightarrow>
                  tx_bind evidence (\<lambda>ev.
                  tx_check (\<not> completed_review_matches sha turn op review ev) ErrStoreIntegrity (validated review)))
         | operationTerminalizationProviderUsageReview \<Rightarrow>
             (case found of
                None \<Rightarrow> tx_fail ErrStoreIntegrity
              | Some review \<Rightarrow>
                  tx_bind evidence (\<lambda>ev.
                  tx_bind (countProviderUsageJournalTx tables (t_ID turn)) (\<lambda>providerCount.
                  tx_check (\<not> provider_review_matches sha turn op c review ev providerCount) ErrStoreIntegrity
                    (validated review))))
         | operationTerminalizationLegacy \<Rightarrow>
             if isRelease \<and> (hasSettlementAuthority store \<or> found \<noteq> None)
             then tx_bind evidence (\<lambda>ev.
                  if evidence_ambiguous ev
                  then (case found of
                          None \<Rightarrow> tx_fail ErrStoreIntegrity
                        | Some review \<Rightarrow>
                            tx_check (\<not> executor_review_matches sha turn op review ev) ErrStoreIntegrity
                              (validated review))
                  else tx_check (found \<noteq> None) ErrStoreIntegrity (tx_return None))
             else tx_check (found \<noteq> None) ErrStoreIntegrity (tx_return None))"

definition hydrateOperationResult ::
  "SettlementStore \<Rightarrow> review_tables \<Rightarrow> sql_io \<Rightarrow> sqlTurnRow \<Rightarrow> Turn \<Rightarrow> sqlTurnOperationRow \<Rightarrow> CommitAttemptCommand
     \<Rightarrow> operationTerminalizationMode \<Rightarrow> CommitAttemptResult tx"
where
  "hydrateOperationResult store tables io row turn op c mode =
     tx_bind (operation_rows io row turn op) (\<lambda>(attempt, event, effects).
     tx_bind (lookupSettlementReviewTx io (t_ID turn)) (\<lambda>found.
     tx_bind (tx_lift (operation_review (io_sha io) mode op found)) (\<lambda>operationReview.
     tx_check (\<not> operationContentMatchesCommand event effects c operationReview) ErrStoreIntegrity (
     tx_bind (hydrated_review store tables io row turn op c mode found) (\<lambda>review.
     tx_return (operation_result op event turn attempt effects review))))))"

definition commit_replay ::
  "SettlementStore \<Rightarrow> review_tables \<Rightarrow> sql_io \<Rightarrow> commitOperationCandidate list \<Rightarrow> bool \<Rightarrow> sqlTurnRow \<Rightarrow> Turn
     \<Rightarrow> sqlTurnOperationRow \<Rightarrow> CommitAttemptResult tx"
where
  "commit_replay store tables io candidates requireLegacy row turn op =
     (case selectOperationReplayCandidate op candidates requireLegacy of
        None \<Rightarrow> tx_fail (if requireLegacy then ErrSettlementCompletedUsageUntrusted else ErrOperationConflict)
      | Some candidate \<Rightarrow>
          tx_bind (hydrateOperationResult store tables io row turn op (cc_Command candidate) (cc_Mode candidate)) (\<lambda>replayed.
          tx_check (\<not> attemptMatchesFence (cmr_Attempt replayed) (cm_Fence (cc_Command candidate))) ErrOperationConflict (
          tx_return (replayed\<lparr>cmr_Replay := True\<rparr>))))"

definition resolveOperation_tx ::
  "SettlementStore \<Rightarrow> review_tables \<Rightarrow> sql_io \<Rightarrow> commitOperationCandidate list \<Rightarrow> bool \<Rightarrow> CommitAttemptResult option tx"
where
  "resolveOperation_tx store tables io candidates requireLegacy =
     (let c = cc_Command (hd candidates) in
      tx_bind (not_found_as ErrTurnNotFound (take_row io db_turns (\<lambda>r. tr_TurnID r = af_TurnID (cm_Fence c)))) (\<lambda>row.
      case toTurn row of
        Inl e \<Rightarrow> tx_fail ErrStoreIntegrity
      | Inr turn \<Rightarrow>
          tx_bind (lookupOperationTx io (af_TurnID (cm_Fence c)) (cm_OperationID c)) (\<lambda>found. case found of
            None \<Rightarrow> tx_return None
          | Some op \<Rightarrow>
              tx_bind (commit_replay store tables io candidates requireLegacy row turn op) (\<lambda>replayed.
              tx_return (Some replayed)))))"

definition resolveOperation ::
  "SettlementStore \<Rightarrow> review_tables \<Rightarrow> sql_io \<Rightarrow> commitOperationCandidate list \<Rightarrow> bool \<Rightarrow> CommitAttemptResult option tx"
where
  "resolveOperation store tables io candidates requireLegacy =
     (if candidates = [] then tx_fail ErrStoreIntegrity
      else Transaction io (resolveOperation_tx store tables io candidates requireLegacy))"

fun detectEffectConflict :: "sql_io \<Rightarrow> EffectOutboxDraft list \<Rightarrow> bool tx" where
  "detectEffectConflict io [] = tx_return False"
| "detectEffectConflict io (effect # rest) =
     tx_bind (outside io (lookup_row io db_outbox (\<lambda>r. ef_OutboxID r = eod_OutboxID effect
        \<or> (ef_Topic r = eod_Topic effect \<and> ef_DedupeKey r = eod_DedupeKey effect)))) (\<lambda>found.
     if found \<noteq> None then tx_return True else detectEffectConflict io rest)"

subsection \<open>A fresh commit\<close>

definition commit_guards ::
  "SQLStore \<Rightarrow> sql_io \<Rightarrow> CommitAttemptCommand \<Rightarrow> sqlTurnRow \<Rightarrow> Turn \<Rightarrow> sqlTurnAttemptRow \<Rightarrow> (TurnAttempt \<times> time) tx"
where
  "commit_guards store io c row turn attemptRow =
     tx_check (\<not> rowOwnsFence row (cm_Fence c) \<or> TurnStatus_Terminal (t_Status turn)) ErrAttemptFenced (
     case toAttempt attemptRow of
       Inl e \<Rightarrow> tx_fail ErrStoreIntegrity
     | Inr attempt \<Rightarrow>
         tx_check (\<not> attemptMatchesFence attempt (cm_Fence c) \<or> ta_Status attempt \<noteq> AttemptStatusRunning) ErrAttemptFenced (
         tx_bind (executionNow store io) (\<lambda>now.
         tx_check (\<not> ta_LeaseExpiresAt attempt > now) ErrAttemptLeaseExpired (
         tx_check (now < ta_LastHeartbeatAt attempt) ErrStoreIntegrity (
         tx_check (t_CancelRequestedAt turn \<noteq> None \<and> cm_TerminalStatus c \<noteq> TurnStatusStopped) ErrAttemptCancelled (
         tx_return (attempt, now)))))))"

definition commit_evidence ::
  "SettlementStore \<Rightarrow> review_tables \<Rightarrow> sql_io \<Rightarrow> commit_plan \<Rightarrow> CommitAttemptCommand \<Rightarrow> Turn
     \<Rightarrow> (SettlementUsageEvidence \<times> SettlementReviewSource) option tx"
where
  "commit_evidence store tables io plan c turn =
     (let inspect = inspectAmbiguousRelease io (t_ID turn) (int (length (cm_Effects c)))
      in if cp_ProviderUsage plan
         then tx_bind inspect (\<lambda>evidence.
              tx_bind (countProviderUsageJournalTx tables (t_ID turn)) (\<lambda>providerCount.
              tx_return (Some (evidence\<lparr>ue_PriorProviderUsageCount := providerCount\<rparr>,
                if cm_TerminalStatus c = TurnStatusCompleted then SettlementReviewSourceExecutorCompletion
                else SettlementReviewSourceExecutorTerminal))))
         else if cp_CompletedUsage plan
         then tx_bind inspect (\<lambda>evidence. tx_return (Some (evidence, SettlementReviewSourceExecutorCompletion)))
         else if hasSettlementAuthority store \<and> cm_TerminalStatus c \<noteq> TurnStatusOther ''''
              \<and> (case cm_Settlement c of None \<Rightarrow> False | Some q \<Rightarrow> sq_Intent q = SettlementIntentRelease)
         then tx_bind inspect (\<lambda>evidence.
              if evidence_ambiguous evidence
              then tx_check (Option.is_none (reviewAuthority store)) ErrSettlementUsageUnknown
                     (tx_return (Some (evidence, SettlementReviewSourceExecutor)))
              else tx_return None)
         else tx_return None)"

definition finished_turn :: "Turn \<Rightarrow> TurnStatus \<Rightarrow> time \<Rightarrow> Turn" where
  "finished_turn turn status now = turn\<lparr>t_Status := status, t_UpdatedAt := now, t_FinishedAt := Some now\<rparr>"

definition finished_attempt :: "TurnAttempt \<Rightarrow> TurnStatus \<Rightarrow> time \<Rightarrow> TurnAttempt" where
  "finished_attempt attempt status now =
     attempt\<lparr>ta_Status := attemptStatusForTurn status, ta_UpdatedAt := now, ta_FinishedAt := Some now\<rparr>"

definition open_review ::
  "(string \<Rightarrow> string) \<Rightarrow> commit_plan \<Rightarrow> CommitAttemptCommand \<Rightarrow> Turn \<Rightarrow> TurnAttempt
     \<Rightarrow> (SettlementUsageEvidence \<times> SettlementReviewSource) option \<Rightarrow> time \<Rightarrow> SettlementReviewRecord option result"
where
  "open_review sha plan c nextTurn nextAttempt evidence now =
     (case evidence of
        None \<Rightarrow> Inr None
      | Some (ev, source) \<Rightarrow>
          map_sum id Some
            ((if cp_ProviderUsage plan then buildProviderSettlementReviewRecord else buildSettlementReviewRecord)
               sha nextTurn (t_Status nextTurn) source (ta_ID nextAttempt) (ta_FencingToken nextAttempt)
               (cm_OperationID c) (settlementKey sha (t_ID nextTurn) (cm_OperationID c)) ev now))"

record commit_move =
  mv_Turn :: Turn
  mv_Attempt :: TurnAttempt
  mv_Review :: "SettlementReviewRecord option"
  mv_Draft :: EventDraft

definition commit_next ::
  "(string \<Rightarrow> string) \<Rightarrow> commit_plan \<Rightarrow> CommitAttemptCommand \<Rightarrow> Turn \<Rightarrow> TurnAttempt
     \<Rightarrow> (SettlementUsageEvidence \<times> SettlementReviewSource) option \<Rightarrow> time \<Rightarrow> commit_move result"
where
  "commit_next sha plan c turn attempt evidence now =
     (if cm_TerminalStatus c = TurnStatusOther ''''
      then (case cm_Event c of
              None \<Rightarrow> Inl ErrStoreIntegrity
            | Some draft \<Rightarrow> Inr \<lparr>mv_Turn = turn, mv_Attempt = attempt\<lparr>ta_UpdatedAt := now\<rparr>, mv_Review = None,
                                mv_Draft = draft\<rparr>)
      else if \<not> CanTransition (t_Status turn) (cm_TerminalStatus c)
      then Inl (transitionError (t_Status turn) (cm_TerminalStatus c))
      else if cm_TerminalStatus c = TurnStatusStopped \<and> t_CancelRequestedAt turn = None
      then Inl ErrCancellationNotRequested
      else let nextTurn = finished_turn turn (cm_TerminalStatus c) now;
               nextAttempt = finished_attempt attempt (cm_TerminalStatus c) now
           in case open_review sha plan c nextTurn nextAttempt evidence now of
                Inl e \<Rightarrow> Inl e
              | Inr review \<Rightarrow>
                  map_sum id (\<lambda>draft. \<lparr>mv_Turn = nextTurn, mv_Attempt = nextAttempt, mv_Review = review, mv_Draft = draft\<rparr>)
                    (statusEventWithSettlementReview (cm_TerminalStatus c) (cm_TerminalStatus c = TurnStatusStopped) review))"

definition operation_row ::
  "Turn \<Rightarrow> TurnAttempt \<Rightarrow> string \<Rightarrow> string \<Rightarrow> Sequence \<Rightarrow> nat \<Rightarrow> time \<Rightarrow> sqlTurnOperationRow"
where
  "operation_row turn attempt operationID digest seq effects now =
     \<lparr>op_ID = 0, op_TurnID = t_ID turn, op_OperationID = operationID, op_OperationDigest = digest,
      op_AttemptID = ta_ID attempt, op_FencingToken = sint (ta_FencingToken attempt),
      op_EventSequence = sint seq, op_TurnStatus = t_Status turn, op_EffectCount = int effects, op_CreatedAt = now\<rparr>"

definition commit_attempt_columns :: "bool \<Rightarrow> TurnAttempt \<Rightarrow> time \<Rightarrow> sqlTurnAttemptRow \<Rightarrow> sqlTurnAttemptRow" where
  "commit_attempt_columns terminal nextAttempt now r =
     (if terminal then r\<lparr>at_Status := ta_Status nextAttempt, at_FinishedAt := ta_FinishedAt nextAttempt, at_UpdatedAt := now\<rparr>
      else r\<lparr>at_UpdatedAt := now\<rparr>)"

definition commit_turn_columns :: "bool \<Rightarrow> Turn \<Rightarrow> Sequence \<Rightarrow> time \<Rightarrow> sqlTurnRow \<Rightarrow> sqlTurnRow" where
  "commit_turn_columns terminal nextTurn seq now r =
     (if terminal
      then r\<lparr>tr_Status := t_Status nextTurn, tr_LastEventSequence := sint seq, tr_ActiveAttemptID := None,
             tr_FinishedAt := t_FinishedAt nextTurn, tr_UpdatedAt := now\<rparr>
      else r\<lparr>tr_LastEventSequence := sint seq\<rparr>)"

definition settlement_command :: "(string \<Rightarrow> string) \<Rightarrow> CommitAttemptCommand \<Rightarrow> Turn \<Rightarrow> SettlementCommand" where
  "settlement_command sha c turn =
     (let request = (case cm_Settlement c of
                       None \<Rightarrow> \<lparr>sq_Intent = SettlementIntentOther '''', sq_UsedUnits = 0\<rparr> | Some q \<Rightarrow> q);
          intent = SettlementRequest_resolve request (t_Status turn)
      in \<lparr>stc_TurnID = t_ID turn, stc_PrincipalID = t_PrincipalID turn,
          stc_SettlementKey = settlementKey sha (t_ID turn) (cm_OperationID c),
          stc_AuthorizationKind = SettlementAuthorizationOperation, stc_AttemptID = af_AttemptID (cm_Fence c),
          stc_FencingToken = af_FencingToken (cm_Fence c), stc_OperationID = cm_OperationID c, stc_Intent = intent,
          stc_TerminalStatus = t_Status turn,
          stc_UsedUnits = (if intent = SettlementIntentRelease then 0 else sq_UsedUnits request)\<rparr>)"

definition commit_settlement ::
  "SettlementStore \<Rightarrow> sql_io \<Rightarrow> hold_authority option \<Rightarrow> CommitAttemptCommand \<Rightarrow> Turn \<Rightarrow> SettlementReviewRecord option
     \<Rightarrow> time \<Rightarrow> SettlementReviewRecord option tx"
where
  "commit_settlement store io providerHold c nextTurn review openedAt =
     (if cm_TerminalStatus c = TurnStatusOther '''' then tx_return None
      else (case review of
              None \<Rightarrow> tx_bind (settle (io_sha io) store (settlement_command (io_sha io) c nextTurn)) (\<lambda>_. tx_return None)
            | Some r \<Rightarrow>
                let opened = r\<lparr>rv_CreatedAt := openedAt, rv_UpdatedAt := openedAt\<rparr> in
                tx_bind (case providerHold of
                           Some hold \<Rightarrow> persistSettlementReviewWithAuthority io nextTurn opened hold
                         | None \<Rightarrow> persistSettlementReview store io nextTurn opened) (\<lambda>_.
                tx_return (Some opened))))"

definition held_effect :: "EffectOutboxRecord \<Rightarrow> EffectOutboxRecord" where
  "held_effect e = e\<lparr>eor_Status := EffectStatus_string EffectStatusReviewHold\<rparr>"

text \<open>With a Review the effects are held and the clock is read again, for the time at which it opens.\<close>

definition commit_hold ::
  "SQLStore \<Rightarrow> sql_io \<Rightarrow> TurnID \<Rightarrow> SettlementReviewRecord option \<Rightarrow> EffectOutboxRecord list \<Rightarrow> time
     \<Rightarrow> (EffectOutboxRecord list \<times> time) tx"
where
  "commit_hold store io turnID review effects now =
     (case review of
        None \<Rightarrow> tx_return (effects, now)
      | Some r \<Rightarrow>
          tx_bind (holdTurnEffectsForReview io turnID now) (\<lambda>_.
          tx_bind (executionNow store io) (\<lambda>openedAt.
          tx_return (map held_effect effects, openedAt))))"

definition commit_writes ::
  "SettlementStore \<Rightarrow> sql_io \<Rightarrow> hold_authority option \<Rightarrow> CommitAttemptCommand \<Rightarrow> string \<Rightarrow> sqlTurnRow
     \<Rightarrow> sqlTurnAttemptRow \<Rightarrow> commit_move \<Rightarrow> time \<Rightarrow> CommitAttemptResult tx"
where
  "commit_writes store io providerHold c digest row attemptRow move now =
     (let nextTurn = mv_Turn move; nextAttempt = mv_Attempt move;
          terminal = cm_TerminalStatus c \<noteq> TurnStatusOther '''' in
      tx_check (Turn_Validate nextTurn \<noteq> None) ErrStoreIntegrity (
      tx_check (TurnAttempt_Validate nextAttempt \<noteq> None) ErrStoreIntegrity (
      tx_bind (tx_lift (nextSQLSequence (tr_LastEventSequence row))) (\<lambda>seq.
      tx_bind (tx_lift (buildEvent nextTurn seq (mv_Draft move))) (\<lambda>event.
      tx_bind (insertEvent io event now) (\<lambda>_.
      let operation = operation_row nextTurn nextAttempt (cm_OperationID c) digest (ev_Sequence event)
                        (length (cm_Effects c)) now in
      tx_check (validateOperationRow operation \<noteq> None) ErrStoreIntegrity (
      tx_bind (create_operation io operation) (\<lambda>_.
      tx_bind (create_effects io nextAttempt (cm_OperationID c) now 0 (cm_Effects c)) (\<lambda>created.
      tx_bind (commit_hold (sn_store store) io (t_ID nextTurn) (mv_Review move) created now) (\<lambda>(effects, openedAt).
      tx_bind (updateAttemptColumns io (at_ID attemptRow) (commit_attempt_columns terminal nextAttempt now)) (\<lambda>_.
      tx_bind (updateTurnColumns (sn_store store) io (t_ID nextTurn)
                 (commit_turn_columns terminal nextTurn (ev_Sequence event) now)) (\<lambda>_.
      tx_bind (commit_settlement store io providerHold c nextTurn (mv_Review move) openedAt) (\<lambda>review.
      tx_return (operation_result operation event nextTurn nextAttempt effects review))))))))))))))"

definition commit_fresh ::
  "SettlementStore \<Rightarrow> review_tables \<Rightarrow> sql_io \<Rightarrow> commit_plan \<Rightarrow> hold_authority option \<Rightarrow> sqlTurnRow \<Rightarrow> Turn
     \<Rightarrow> sqlTurnAttemptRow \<Rightarrow> CommitAttemptResult tx"
where
  "commit_fresh store tables io plan providerHold row turn attemptRow =
     (let c = cc_Command (hd (cp_Candidates plan)); digest = cc_Digest (hd (cp_Candidates plan)) in
      tx_bind (commit_guards (sn_store store) io c row turn attemptRow) (\<lambda>(attempt, now).
      tx_bind (commit_evidence store tables io plan c turn) (\<lambda>evidence.
      tx_bind (tx_lift (commit_next (io_sha io) plan c turn attempt evidence now)) (\<lambda>move.
      commit_writes store io providerHold c digest row attemptRow move now))))"

definition commitAttempt_tx ::
  "SettlementStore \<Rightarrow> review_tables \<Rightarrow> sql_io \<Rightarrow> commit_plan \<Rightarrow> CommitAttemptResult tx"
where
  "commitAttempt_tx store tables io plan =
     (let c = cc_Command (hd (cp_Candidates plan)); fence = cm_Fence c in
      tx_bind (lockTurn (sn_store store) io (\<lambda>r. tr_TurnID r = af_TurnID fence)) (\<lambda>row.
      case toTurn row of
        Inl e \<Rightarrow> tx_fail ErrStoreIntegrity
      | Inr turn \<Rightarrow>
          tx_bind (tx_lift (if cp_ProviderUsage plan
                            then map_sum id Some (settlementReviewProviderUsageAuthorityLocked store)
                            else Inr None)) (\<lambda>providerHold.
          tx_try (lockAttempt io (af_TurnID fence) (af_AttemptID fence) (sint (af_FencingToken fence))) (\<lambda>locked.
          tx_guard (case locked of Inl e \<Rightarrow> if errors_is e ErrAttemptNotFound then None else Some e | Inr _ \<Rightarrow> None) (
          tx_bind (lookupOperationTx io (af_TurnID fence) (cm_OperationID c)) (\<lambda>found. case found of
            Some op \<Rightarrow> commit_replay store tables io (cp_Candidates plan) (cp_Untrusted plan) row turn op
          | None \<Rightarrow>
              tx_check (cp_Untrusted plan) ErrSettlementCompletedUsageUntrusted (
              case locked of
                Inl e \<Rightarrow> tx_fail ErrAttemptFenced
              | Inr attemptRow \<Rightarrow> commit_fresh store tables io plan providerHold row turn attemptRow)))))))"

text \<open>After a failure: was the operation committed after all, or by another call? Is an effect taken?\<close>

definition commit_failed ::
  "SettlementStore \<Rightarrow> review_tables \<Rightarrow> sql_io \<Rightarrow> go_context \<Rightarrow> commit_plan \<Rightarrow> go_error \<Rightarrow> CommitAttemptResult tx"
where
  "commit_failed store tables io ctx plan txErr =
     tx_guard (contextError (ctx 3)) (
     tx_bind (tx_catch (resolveOperation store tables io (cp_Candidates plan) (cp_Untrusted plan))
        (\<lambda>e. tx_fail (normalize ''commit-attempt'' e))) (\<lambda>found. case found of
       Some replay \<Rightarrow> tx_return replay
     | None \<Rightarrow>
         let classified = normalize ''commit-attempt'' txErr in
         tx_check (\<not> errors_is classified ErrStoreUnavailable) classified (
         tx_bind (tx_catch (detectEffectConflict io (cm_Effects (cc_Command (hd (cp_Candidates plan)))))
            (\<lambda>e. tx_fail (normalize ''commit-attempt'' e))) (\<lambda>conflict.
         tx_check conflict ErrEffectConflict (tx_fail classified)))))"

definition CommitAttempt ::
  "SettlementStore \<Rightarrow> SettlementStore \<Rightarrow> review_tables \<Rightarrow> sql_io \<Rightarrow> go_context \<Rightarrow> CommitAttemptCommand \<Rightarrow> CommitAttemptResult tx"
where
  "CommitAttempt before store tables io ctx c =
     tx_guard (first_error [contextError (ctx 0), CommitAttemptCommand_Validate c]) (
     tx_bind (tx_lift (commit_candidates (io_sha io) before c)) (\<lambda>plan.
     tx_try (writeTransaction (sn_store store) io (ctx 1) (ctx 2) (commitAttempt_tx store tables io plan)) (\<lambda>r. case r of
       Inr result \<Rightarrow> tx_return result
     | Inl txErr \<Rightarrow> commit_failed store tables io ctx plan txErr)))"


end
