(* ===== verification/Sql_Reconcile.thy ===== *)
theory Sql_Reconcile
  imports Sql_Commit
begin

text \<open>
  Retirement of Turns that have no live executor: \<^verbatim>\<open>ReconcileTerminal\<close> of
  \<^verbatim>\<open>server/service/agentturn/reconcile.go\<close> and the check of an expired reservation in
  \<^verbatim>\<open>reservation_admission.go\<close>.

  The transaction either finds the Turn finished, checks that its last event, its Review and its
  effects agree, and answers without a change; or it derives the state of the Turn again under lock,
  closes it under a new fence, and settles or opens a Review. The store before the transaction and
  within it are two arguments, since the authority may be replaced in between.
\<close>

subsection \<open>The precondition\<close>

definition verifyReconcilePrecondition :: "ReclaimReason \<Rightarrow> sqlTurnRow \<Rightarrow> bool \<Rightarrow> int \<Rightarrow> go_error option" where
  "verifyReconcilePrecondition reason row hasExpiredAttempt budget =
     (if tr_ActiveAttemptID row \<noteq> None \<and> \<not> hasExpiredAttempt then Some ErrReconcilePrecondition
      else (case reason of
              ReclaimReasonCancellationPending \<Rightarrow>
                if tr_CancelRequestedAt row = None then Some ErrReconcilePrecondition else None
            | ReclaimReasonAttemptsExhausted \<Rightarrow>
                if tr_CancelRequestedAt row \<noteq> None then Some ErrReconcilePrecondition
                else if tr_FencingToken row < budget then Some ErrReconcilePrecondition else None
            | ReclaimReasonReservationExpired \<Rightarrow>
                if tr_CancelRequestedAt row \<noteq> None then Some ErrReconcilePrecondition
                else (case tr_Status row of
                        TurnStatusQueued \<Rightarrow>
                          if tr_ActiveAttemptID row \<noteq> None \<or> tr_FencingToken row \<noteq> 0 \<or> tr_StartedAt row \<noteq> None
                          then Some ErrStoreIntegrity else None
                      | TurnStatusRunning \<Rightarrow>
                          if tr_ActiveAttemptID row = None \<or> \<not> hasExpiredAttempt \<or> tr_FencingToken row < 1
                             \<or> tr_StartedAt row = None
                          then Some ErrReconcilePrecondition else None
                      | _ \<Rightarrow> Some ErrReconcilePrecondition)
            | _ \<Rightarrow> Some ErrReconcilePrecondition))"

text \<open>The active attempt, if its lease has lapsed.\<close>

definition expiredActiveAttempt :: "sql_io \<Rightarrow> sqlTurnRow \<Rightarrow> time \<Rightarrow> sqlTurnAttemptRow option tx" where
  "expiredActiveAttempt io row now =
     (case tr_ActiveAttemptID row of
        None \<Rightarrow> tx_return None
      | Some active \<Rightarrow>
          tx_bind (lockAttempt io (tr_TurnID row) active (tr_FencingToken row)) (\<lambda>attempt.
          tx_check (at_Status attempt \<noteq> AttemptStatusRunning) ErrStoreIntegrity (
          tx_return (if at_LeaseExpiresAt attempt > now then None else Some attempt))))"

definition verifyExpiredTurnReservation :: "SettlementStore \<Rightarrow> Turn \<Rightarrow> unit tx" where
  "verifyExpiredTurnReservation store turn =
     (case Option.bind (sn_settlement store) sa_VerifyExpiredTurnReservation of
        None \<Rightarrow> tx_fail ErrReconcilePrecondition
      | Some verdict \<Rightarrow>
          tx_check (sn_violated store) ErrSettlementBindingInvalid (\<lambda>s.
            (case verdict (st_tick s) (st_db s) turn of Some e \<Rightarrow> Inl e | None \<Rightarrow> Inr (),
             s\<lparr>st_tick := Suc (st_tick s)\<rparr>)))"

subsection \<open>The event of a retirement\<close>

definition reconcile_payload :: "ReclaimReason \<Rightarrow> TurnStatus \<Rightarrow> string \<Rightarrow> string \<Rightarrow> string" where
  "reconcile_payload reason terminal reviewID reviewDigest = json_object
     ([json_member ''status'' (json_string (TurnStatus_string terminal))]
      @ (if terminal = TurnStatusStopped then [json_member ''cancellationRequested'' ''true''] else [])
      @ [json_member ''reconciled'' ''true'']
      @ (if ReclaimReason_string reason \<noteq> '''' then [json_member ''reason'' (json_string (ReclaimReason_string reason))] else [])
      @ (if reviewID \<noteq> '''' then [json_member ''settlementReviewId'' (json_string reviewID)] else [])
      @ (if reviewDigest \<noteq> '''' then [json_member ''settlementReviewDigest'' (json_string reviewDigest)] else []))"

definition reconcileEvent :: "ReclaimReason \<Rightarrow> TurnStatus \<Rightarrow> SettlementReviewRecord option \<Rightarrow> EventDraft result" where
  "reconcileEvent reason terminal review =
     (let draft = (\<lambda>reviewID digest. \<lparr>ed_Type = EventCoreTurnStatus, ed_ResourceRefs = [],
                     ed_Data = reconcile_payload reason terminal reviewID digest\<rparr>);
          checked = (\<lambda>d. case EventDraft_Validate d of Some e \<Rightarrow> Inl e | None \<Rightarrow> Inr d)
      in case review of
           None \<Rightarrow> checked (draft '''' '''')
         | Some r \<Rightarrow>
             if (rv_Source r \<noteq> SettlementReviewSourceReconcile \<and> rv_Source r \<noteq> SettlementReviewSourceReconcileTerminal)
                \<or> rv_TerminalStatus r \<noteq> terminal
             then Inl ErrStoreIntegrity
             else checked (draft (rv_ReviewID r) (rv_RequestDigest r)))"

subsection \<open>The marker in the last event\<close>

record reconcileEventData =
  rd_Status :: TurnStatus
  rd_Reconciled :: bool
  rd_Reason :: ReclaimReason
  rd_SettlementReviewID :: string
  rd_SettlementReviewDigest :: string

definition ReclaimReason_of :: "string \<Rightarrow> ReclaimReason" where
  "ReclaimReason_of s =
     (if s = ''lease_expired'' then ReclaimReasonLeaseExpired
      else if s = ''cancellation_pending'' then ReclaimReasonCancellationPending
      else if s = ''attempts_exhausted'' then ReclaimReasonAttemptsExhausted
      else if s = ''reservation_expired'' then ReclaimReasonReservationExpired
      else ReclaimReasonOther s)"

fun bool_field :: "string \<Rightarrow> (string \<times> json) list \<Rightarrow> bool \<Rightarrow> bool option" where
  "bool_field name [] acc = Some acc"
| "bool_field name ((k, v) # fs) acc =
     (if fold_name k \<noteq> name then bool_field name fs acc
      else (case v of
              JBool b \<Rightarrow> bool_field name fs b
            | JNull \<Rightarrow> bool_field name fs acc
            | _ \<Rightarrow> None))"

text \<open>Decoding into the struct; \<open>None\<close> is any error, a field of another type included.\<close>

definition unmarshal_reconcile :: "string \<Rightarrow> reconcileEventData option" where
  "unmarshal_reconcile s =
     (if \<not> json_Valid s then None
      else (case (case json_decode s of JObject fs \<Rightarrow> Some fs | JNull \<Rightarrow> Some [] | _ \<Rightarrow> None) of
              None \<Rightarrow> None
            | Some fs \<Rightarrow>
                (case (string_field ''status'' fs '''', bool_field ''cancellationrequested'' fs False,
                       bool_field ''reconciled'' fs False, string_field ''reason'' fs '''',
                       string_field ''settlementreviewid'' fs '''', string_field ''settlementreviewdigest'' fs '''') of
                   (Some status, Some cancellation, Some reconciled, Some reason, Some review, Some digest) \<Rightarrow>
                     Some \<lparr>rd_Status = TurnStatus_of status, rd_Reconciled = reconciled,
                           rd_Reason = ReclaimReason_of reason, rd_SettlementReviewID = review,
                           rd_SettlementReviewDigest = digest\<rparr>
                 | _ \<Rightarrow> None)))"

definition marker_of :: "Turn \<Rightarrow> reconcileEventData \<Rightarrow> (bool \<times> string \<times> string) result" where
  "marker_of turn payload =
     (let review = rd_SettlementReviewID payload; digest = rd_SettlementReviewDigest payload;
          unpaired = ((review = '''') \<noteq> (digest = ''''));
          unprintable = (review \<noteq> '''' \<and>
            (validatePrintableASCII ''settlementReviewId'' review MaxSettlementReviewIDBytes \<noteq> None
             \<or> validatePrintableASCII ''settlementReviewDigest'' digest MaxSettlementReviewDigestBytes \<noteq> None))
      in if \<not> rd_Reconciled payload
         then (if rd_Reason payload \<noteq> ReclaimReasonOther '''' \<or> unpaired then Inl ErrStoreIntegrity
               else if unprintable then Inl ErrStoreIntegrity
               else Inr (False, review, digest))
         else (case ReclaimReason_TerminalStatus (rd_Reason payload) of
                 (status, ok) \<Rightarrow>
                   if \<not> ok \<or> status \<noteq> t_Status turn \<or> unpaired then Inl ErrStoreIntegrity
                   else if unprintable then Inl ErrStoreIntegrity
                   else Inr (True, review, digest)))"

definition terminalSettlementReviewMarkerTx :: "sql_io \<Rightarrow> sqlTurnRow \<Rightarrow> Turn \<Rightarrow> (bool \<times> string \<times> string) tx" where
  "terminalSettlementReviewMarkerTx io row turn =
     tx_check (\<not> TurnStatus_Terminal (t_Status turn) \<or> tr_LastEventSequence row < 1) ErrStoreIntegrity (
     tx_bind (tx_catch (take_row io db_events (\<lambda>r. er_TurnID r = tr_TurnID row \<and> er_Sequence r = tr_LastEventSequence row))
        (\<lambda>e. tx_fail ErrStoreIntegrity)) (\<lambda>eventRow.
     case toEnvelope eventRow turn of
       Inl e \<Rightarrow> tx_fail ErrStoreIntegrity
     | Inr event \<Rightarrow>
         tx_check (ev_Type event \<noteq> EventCoreTurnStatus) ErrStoreIntegrity (
         case unmarshal_reconcile (ev_Data event) of
           None \<Rightarrow> tx_fail ErrStoreIntegrity
         | Some payload \<Rightarrow>
             tx_check (rd_Status payload \<noteq> t_Status turn) ErrStoreIntegrity (tx_lift (marker_of turn payload)))))"

subsection \<open>A Turn that is already finished\<close>

definition zero_event :: EventEnvelope where
  "zero_event = \<lparr>ev_SchemaVersion = 0, ev_FrameKind = '''', ev_EventID = '''', ev_TurnID = '''', ev_Sequence = 0,
     ev_Plugin = \<lparr>pr_ID = '''', pr_Version = '''', pr_ReleaseDigest = ''''\<rparr>, ev_Type = '''', ev_Visibility = '''',
     ev_ResourceRefs = [], ev_Data = ''''\<rparr>"

definition finished_result :: "Turn \<Rightarrow> SettlementReviewRecord option \<Rightarrow> ReconcileResult" where
  "finished_result turn review =
     \<lparr>rcr_Turn = turn, rcr_Event = zero_event, rcr_TerminalStatus = t_Status turn, rcr_Changed = False,
      rcr_FencedAttemptID = '''', rcr_SettlementReview = review\<rparr>"

definition reconcile_finished :: "review_tables \<Rightarrow> sql_io \<Rightarrow> sqlTurnRow \<Rightarrow> Turn \<Rightarrow> ReconcileResult tx" where
  "reconcile_finished tables io row turn =
     tx_bind (terminalSettlementReviewMarkerTx io row turn) (\<lambda>(reconciledEvent, markerReviewID, markerDigest).
     tx_bind (lookupSettlementReviewTx io (t_ID turn)) (\<lambda>found. case found of
       Some review \<Rightarrow>
         tx_bind (validateTerminalSettlementReviewTx tables io row turn review) (\<lambda>_.
         tx_check ((if SettlementReviewSource_executor (rv_Source review) then reconciledEvent
                    else if rv_Source review = SettlementReviewSourceReconcile
                            \<or> rv_Source review = SettlementReviewSourceReconcileTerminal then \<not> reconciledEvent
                    else True)
                   \<or> markerReviewID \<noteq> rv_ReviewID review \<or> markerDigest \<noteq> rv_RequestDigest review) ErrStoreIntegrity (
         tx_return (finished_result turn (Some review))))
     | None \<Rightarrow>
         tx_check (markerReviewID \<noteq> '''' \<or> markerDigest \<noteq> '''') ErrStoreIntegrity (
         tx_bind (count_rows io db_outbox (\<lambda>r. ef_TurnID r = t_ID turn \<and> ef_Status r = EffectStatusReviewHold)) (\<lambda>orphanedHolds.
         tx_check (orphanedHolds \<noteq> 0) ErrStoreIntegrity (
         tx_return (finished_result turn None))))))"

subsection \<open>A retirement\<close>

definition reconcile_evidence ::
  "SettlementStore \<Rightarrow> review_tables \<Rightarrow> sql_io \<Rightarrow> bool \<Rightarrow> Turn \<Rightarrow> SettlementUsageEvidence option tx"
where
  "reconcile_evidence store tables io providerUsageMode turn =
     (if providerUsageMode
      then tx_bind (inspectAmbiguousRelease io (t_ID turn) 0) (\<lambda>evidence.
           tx_bind (countProviderUsageJournalTx tables (t_ID turn)) (\<lambda>providerCount.
           tx_return (Some (evidence\<lparr>ue_PriorProviderUsageCount := providerCount\<rparr>))))
      else if hasSettlementAuthority store
      then tx_bind (inspectAmbiguousRelease io (t_ID turn) 0) (\<lambda>evidence.
           if evidence_ambiguous evidence
           then tx_check (Option.is_none (reviewAuthority store)) ErrSettlementUsageUnknown (tx_return (Some evidence))
           else tx_return None)
      else tx_return None)"

text \<open>Everything that must hold before the first write.\<close>

definition reconcile_guards ::
  "SettlementStore \<Rightarrow> sql_io \<Rightarrow> ReconcileCommand \<Rightarrow> TurnStatus \<Rightarrow> sqlTurnRow \<Rightarrow> Turn \<Rightarrow> (time \<times> sqlTurnAttemptRow option) tx"
where
  "reconcile_guards store io c terminal row turn =
     tx_bind (executionNow (sn_store store) io) (\<lambda>now.
     tx_bind (tx_lift (turnAttemptBudget (sn_store store))) (\<lambda>budget.
     tx_bind (expiredActiveAttempt io row now) (\<lambda>expired.
     tx_guard (verifyReconcilePrecondition (rcc_Reason c) row (expired \<noteq> None) budget) (
     tx_bind (if rcc_Reason c = ReclaimReasonReservationExpired then verifyExpiredTurnReservation store turn
              else tx_return ()) (\<lambda>_.
     tx_check (\<not> CanTransition (t_Status turn) terminal) (transitionError (t_Status turn) terminal) (
     tx_check (terminal = TurnStatusStopped \<and> t_CancelRequestedAt turn = None) ErrCancellationNotRequested (
     tx_return (now, expired))))))))"

definition retirement_review ::
  "(string \<Rightarrow> string) \<Rightarrow> bool \<Rightarrow> Turn \<Rightarrow> TurnStatus \<Rightarrow> Sequence \<Rightarrow> SettlementUsageEvidence option \<Rightarrow> time
     \<Rightarrow> SettlementReviewRecord option result"
where
  "retirement_review sha providerUsageMode nextTurn terminal fence evidence now =
     (case evidence of
        None \<Rightarrow> Inr None
      | Some ev \<Rightarrow>
          map_sum id Some
            (if providerUsageMode
             then buildProviderSettlementReviewRecord sha nextTurn terminal SettlementReviewSourceReconcileTerminal
                    '''' fence '''' (reconcileSettlementKey sha (t_ID nextTurn) fence) ev now
             else buildSettlementReviewRecord sha nextTurn terminal SettlementReviewSourceReconcile
                    '''' fence '''' (reconcileSettlementKey sha (t_ID nextTurn) fence) ev now))"

definition retired_columns :: "Turn \<Rightarrow> Sequence \<Rightarrow> Sequence \<Rightarrow> sqlTurnRow \<Rightarrow> sqlTurnRow" where
  "retired_columns nextTurn fence seq r =
     r\<lparr>tr_Status := t_Status nextTurn, tr_UpdatedAt := t_UpdatedAt nextTurn, tr_FinishedAt := t_FinishedAt nextTurn,
       tr_FencingToken := sint fence, tr_ActiveAttemptID := None, tr_LastEventSequence := sint seq\<rparr>"

definition release_command :: "(string \<Rightarrow> string) \<Rightarrow> Turn \<Rightarrow> TurnStatus \<Rightarrow> Sequence \<Rightarrow> SettlementCommand" where
  "release_command sha turn terminal fence =
     \<lparr>stc_TurnID = t_ID turn, stc_PrincipalID = t_PrincipalID turn,
      stc_SettlementKey = reconcileSettlementKey sha (t_ID turn) fence,
      stc_AuthorizationKind = SettlementAuthorizationReconcile, stc_AttemptID = '''', stc_FencingToken = fence,
      stc_OperationID = '''', stc_Intent = SettlementIntentRelease, stc_TerminalStatus = terminal, stc_UsedUnits = 0\<rparr>"

definition retirement_settlement ::
  "SettlementStore \<Rightarrow> sql_io \<Rightarrow> hold_authority option \<Rightarrow> Turn \<Rightarrow> Sequence \<Rightarrow> SettlementReviewRecord option \<Rightarrow> time
     \<Rightarrow> SettlementReviewRecord option tx"
where
  "retirement_settlement store io providerHold nextTurn fence review openedAt =
     (case review of
        None \<Rightarrow> tx_bind (settle (io_sha io) store (release_command (io_sha io) nextTurn (t_Status nextTurn) fence))
                  (\<lambda>_. tx_return None)
      | Some r \<Rightarrow>
          let opened = r\<lparr>rv_CreatedAt := openedAt, rv_UpdatedAt := openedAt\<rparr> in
          tx_bind (case providerHold of
                     Some hold \<Rightarrow> persistSettlementReviewWithAuthority io nextTurn opened hold
                   | None \<Rightarrow> persistSettlementReview store io nextTurn opened) (\<lambda>_.
          tx_return (Some opened)))"

definition retirement_hold :: "SQLStore \<Rightarrow> sql_io \<Rightarrow> TurnID \<Rightarrow> bool \<Rightarrow> time \<Rightarrow> time tx" where
  "retirement_hold store io turnID reviewed now =
     (if reviewed then tx_bind (holdTurnEffectsForReview io turnID now) (\<lambda>_. executionNow store io)
      else tx_return now)"

definition retirement_writes ::
  "SettlementStore \<Rightarrow> sql_io \<Rightarrow> hold_authority option \<Rightarrow> ReclaimReason \<Rightarrow> sqlTurnRow \<Rightarrow> Turn \<Rightarrow> Sequence
     \<Rightarrow> sqlTurnAttemptRow option \<Rightarrow> SettlementReviewRecord option \<Rightarrow> time \<Rightarrow> ReconcileResult tx"
where
  "retirement_writes store io providerHold reason row nextTurn fence expired review now =
     tx_bind (case expired of None \<Rightarrow> tx_return ()
              | Some attempt \<Rightarrow> updateAttemptColumns io (at_ID attempt) (expired_columns now)) (\<lambda>_.
     tx_bind (tx_lift (nextSQLSequence (tr_LastEventSequence row))) (\<lambda>seq.
     tx_bind (tx_lift (reconcileEvent reason (t_Status nextTurn) review)) (\<lambda>draft.
     tx_bind (tx_lift (buildEvent nextTurn seq draft)) (\<lambda>event.
     tx_bind (insertEvent io event now) (\<lambda>_.
     tx_bind (updateTurnColumns (sn_store store) io (t_ID nextTurn) (retired_columns nextTurn fence seq)) (\<lambda>_.
     tx_bind (retirement_hold (sn_store store) io (t_ID nextTurn) (review \<noteq> None) now) (\<lambda>openedAt.
     tx_bind (retirement_settlement store io providerHold nextTurn fence review openedAt) (\<lambda>opened.
     tx_return \<lparr>rcr_Turn = nextTurn, rcr_Event = event, rcr_TerminalStatus = t_Status nextTurn, rcr_Changed = True,
       rcr_FencedAttemptID = (case expired of None \<Rightarrow> '''' | Some attempt \<Rightarrow> at_AttemptID attempt),
       rcr_SettlementReview = opened\<rparr>))))))))"

definition reconcile_fresh ::
  "SettlementStore \<Rightarrow> review_tables \<Rightarrow> sql_io \<Rightarrow> ReconcileCommand \<Rightarrow> TurnStatus \<Rightarrow> hold_authority option \<Rightarrow> sqlTurnRow
     \<Rightarrow> Turn \<Rightarrow> ReconcileResult tx"
where
  "reconcile_fresh store tables io c terminal providerHold row turn =
     tx_bind (reconcile_guards store io c terminal row turn) (\<lambda>(now, expired).
     tx_bind (reconcile_evidence store tables io (\<not> Option.is_none providerHold) turn) (\<lambda>evidence.
     tx_bind (tx_lift (nextExecutionFence (tr_FencingToken row))) (\<lambda>fence.
     let nextTurn = finished_turn turn terminal now in
     tx_check (t_StartedAt nextTurn = None \<and> t_Status turn = TurnStatusRunning) ErrStoreIntegrity (
     tx_check (Turn_Validate nextTurn \<noteq> None) ErrStoreIntegrity (
     tx_bind (tx_lift (retirement_review (io_sha io) (\<not> Option.is_none providerHold) nextTurn terminal fence evidence now)) (\<lambda>review.
     retirement_writes store io providerHold (rcc_Reason c) row nextTurn fence expired review now))))))"

definition reconcileTerminal_tx ::
  "SettlementStore \<Rightarrow> review_tables \<Rightarrow> sql_io \<Rightarrow> ReconcileCommand \<Rightarrow> TurnStatus \<Rightarrow> bool \<Rightarrow> ReconcileResult tx"
where
  "reconcileTerminal_tx store tables io c terminal providerUsageMode =
     tx_bind (lockTurn (sn_store store) io (\<lambda>r. tr_TurnID r = rcc_TurnID c)) (\<lambda>row.
     case toTurn row of
       Inl e \<Rightarrow> tx_fail ErrStoreIntegrity
     | Inr turn \<Rightarrow>
         tx_bind (tx_lift (if providerUsageMode
                           then map_sum id Some (settlementReviewProviderUsageAuthorityLocked store)
                           else Inr None)) (\<lambda>providerHold.
         if TurnStatus_Terminal (t_Status turn) then reconcile_finished tables io row turn
         else reconcile_fresh store tables io c terminal providerHold row turn))"

definition ReconcileTerminal ::
  "SettlementStore \<Rightarrow> SettlementStore \<Rightarrow> review_tables \<Rightarrow> sql_io \<Rightarrow> go_context \<Rightarrow> ReconcileCommand \<Rightarrow> ReconcileResult tx"
where
  "ReconcileTerminal before store tables io ctx c =
     tx_guard (first_error [contextError (ctx 0), ReconcileCommand_Validate c]) (
     case ReclaimReason_TerminalStatus (rcc_Reason c) of
       (terminal, ok) \<Rightarrow>
         tx_check (\<not> ok) (Errorf ''reconcile reason has no terminal status'') (
         tx_bind (tx_lift (providerUsageTerminalization (io_sha io) before terminal)) (\<lambda>mode.
         tx_catch (writeTransaction (sn_store store) io (ctx 1) (ctx 2)
             (reconcileTerminal_tx store tables io c terminal (mode \<noteq> None)))
           (\<lambda>e. tx_fail (normalize ''reconcile-terminal'' e)))))"

end
