(* ===== verification/Runtime_Loops.thy ===== *)
theory Runtime_Loops
  imports Complex_Main "HOL-Library.Sublist" Effect_Outbox Sql_Reconcile
begin

text \<open>
  The background loops of the runtime: the admission gate (\<^verbatim>\<open>admission_gate.go\<close>), the dispatcher that
  drains the effect outbox (\<^verbatim>\<open>effect_dispatcher.go\<close>) and the scheduler of reconciliation (the second
  half of \<^verbatim>\<open>reconcile.go\<close>).

  A loop runs beside the owner of its context and of its gate, so what a pass sees of them is data: a
  \<open>loop_view\<close> gives, for one pass, the context at every check, the gates, by address, at every \<^verbatim>\<open>Acquire\<close>, how the
  pause ends and what the context shows while the loop waits for shutdown. Pauses have no length, so
  the interval and its jitter only matter to \<^verbatim>\<open>Validate\<close>; a \<^verbatim>\<open>float64\<close> is the rational it stands for.
  The calls of an observer are collected in a list; a pulse changes nothing and is left out. A loop is
  a partial function: not returning is \<open>None\<close>.
\<close>

subsection \<open>The admission gate\<close>

record AdmissionGate =
  ag_closed :: bool

definition NewAdmissionGate :: AdmissionGate where
  "NewAdmissionGate = \<lparr>ag_closed = False\<rparr>"

definition gate_Open :: "AdmissionGate option \<Rightarrow> bool" where
  "gate_Open gate = (case gate of None \<Rightarrow> False | Some g \<Rightarrow> \<not> ag_closed g)"

definition Acquire :: "AdmissionGate option \<Rightarrow> go_error option" where
  "Acquire gate = (case gate of None \<Rightarrow> None | Some g \<Rightarrow> fail_if (ag_closed g) ErrAdmissionClosed)"

definition gate_Close :: "AdmissionGate option \<Rightarrow> AdmissionGate option" where
  "gate_Close gate = map_option (ag_closed_update (\<lambda>_. True)) gate"

subsection \<open>What a pass sees\<close>

record loop_view =
  lv_head :: ctx_obs
  lv_pass :: "nat \<Rightarrow> go_context"
  lv_gates :: "nat \<Rightarrow> nat \<Rightarrow> AdmissionGate"
  lv_after :: ctx_obs
  lv_sleep :: ctx_obs
  lv_shutdown :: "nat \<Rightarrow> ctx_obs"

text \<open>
  The wait blocks until the context is done. The pause ends with the timer (the context is shown as
  live) or with the context; a nil context has already been refused at the head of the loop.
\<close>

partial_function (option) wait_done :: "(nat \<Rightarrow> ctx_obs) \<Rightarrow> nat \<Rightarrow> go_error option" where
  "wait_done ctx k = (case contextError (ctx k) of Some e \<Rightarrow> Some e | None \<Rightarrow> wait_done ctx (Suc k))"

definition waitForAdmissionShutdown :: "(nat \<Rightarrow> ctx_obs) \<Rightarrow> go_error option" where
  "waitForAdmissionShutdown ctx = (case contextError (ctx 0) of Some e \<Rightarrow> Some e | None \<Rightarrow> wait_done ctx 1)"

definition sleepContext :: "ctx_obs \<Rightarrow> go_error option" where
  "sleepContext obs = contextError obs"

subsection \<open>The dispatcher of effects\<close>

abbreviation DefaultWorkerIdleBackoff :: duration where "DefaultWorkerIdleBackoff \<equiv> 1000000000"
abbreviation MaxWorkerIdleBackoff :: duration where "MaxWorkerIdleBackoff \<equiv> 60000000000"
abbreviation DefaultEffectDeliveryTimeout :: duration where "DefaultEffectDeliveryTimeout \<equiv> 15000000000"

record EffectDispatcherOptions =
  do_LeaseOwnerID :: string
  do_AdmissionGate :: "nat option"
  do_BatchLimit :: int
  do_Topics :: "string list"
  do_IdleBackoff :: duration
  do_DeliveryTimeout :: duration

definition dispatcher_applyDefaults :: "EffectDispatcherOptions \<Rightarrow> EffectDispatcherOptions" where
  "dispatcher_applyDefaults opts = opts
     \<lparr>do_IdleBackoff := (if do_IdleBackoff opts \<le> 0 then DefaultWorkerIdleBackoff else do_IdleBackoff opts),
      do_DeliveryTimeout := (if do_DeliveryTimeout opts \<le> 0 then DefaultEffectDeliveryTimeout else do_DeliveryTimeout opts)\<rparr>"

definition dispatcher_claim :: "EffectDispatcherOptions \<Rightarrow> ClaimEffectsCommand" where
  "dispatcher_claim opts = \<lparr>ce_LeaseOwnerID = do_LeaseOwnerID opts, ce_Limit = do_BatchLimit opts, ce_Topics = do_Topics opts\<rparr>"

definition EffectDispatcherOptions_Validate :: "EffectDispatcherOptions \<Rightarrow> go_error option" where
  "EffectDispatcherOptions_Validate opts = first_error
     [ClaimEffectsCommand_Validate (dispatcher_claim opts),
      fail_if (do_IdleBackoff opts \<le> 0 \<or> do_IdleBackoff opts > MaxWorkerIdleBackoff)
        (Errorf ''idleBackoff must be between 1ns and the limit''),
      fail_if (do_DeliveryTimeout opts \<le> 0 \<or> do_DeliveryTimeout opts \<ge> DefaultEffectLeaseTTL)
        (Errorf ''deliveryTimeout must be between 1ns and the lease'')]"

text \<open>
  The deliverer is a provider: what it reports for the n-th delivery of a pass, and its error. A gate
  is shared by its address, so the options and the dispatcher hold that.
\<close>

type_synonym Deliverer = "nat \<Rightarrow> nat \<Rightarrow> EffectDelivery \<Rightarrow> DeliveryReport \<times> go_error option"

record EffectDispatcher =
  ed_store :: SQLStore
  ed_deliverer :: Deliverer
  ed_options :: EffectDispatcherOptions
  ed_admission :: "nat option"

definition NewEffectDispatcher ::
  "SQLStore option \<Rightarrow> Deliverer option \<Rightarrow> EffectDispatcherOptions \<Rightarrow> EffectDispatcher result"
where
  "NewEffectDispatcher store deliverer options =
     (case (store, deliverer) of
        (Some st, Some dl) \<Rightarrow>
          (let opts = dispatcher_applyDefaults options in
           case EffectDispatcherOptions_Validate opts of
             Some e \<Rightarrow> Inl e
           | None \<Rightarrow> Inr \<lparr>ed_store = st, ed_deliverer = dl, ed_options = opts, ed_admission = do_AdmissionGate opts\<rparr>)
      | _ \<Rightarrow> Inl (Errorf ''effect dispatcher requires an outbox store and a deliverer''))"

definition dispatcher_MatchesAdmissionGate :: "EffectDispatcher option \<Rightarrow> nat option \<Rightarrow> bool" where
  "dispatcher_MatchesAdmissionGate dispatcher expected =
     (case dispatcher of None \<Rightarrow> False | Some d \<Rightarrow> ed_admission d = expected)"

record EffectDispatchFailure =
  dfl_OutboxID :: string
  dfl_Topic :: string
  dfl_Err :: go_error

record EffectDispatchReport =
  dr_Claimed :: int
  dr_Delivered :: int
  dr_Retried :: int
  dr_DeadLettered :: int
  dr_Failures :: "EffectDispatchFailure list"

definition no_dispatch :: EffectDispatchReport where
  "no_dispatch = \<lparr>dr_Claimed = 0, dr_Delivered = 0, dr_Retried = 0, dr_DeadLettered = 0, dr_Failures = []\<rparr>"

definition unknown_report :: "string \<Rightarrow> bool \<Rightarrow> DeliveryReport" where
  "unknown_report code safe = \<lparr>rp_Outcome = DeliveryOutcomeUnknown, rp_ErrorCode = code, rp_RetryAfter = 0,
     rp_IdempotentRetrySafe = safe\<rparr>"

definition classified_report :: "DeliveryReport \<times> go_error option \<Rightarrow> DeliveryReport" where
  "classified_report answer =
     (let report = (case snd answer of None \<Rightarrow> fst answer
                    | Some e \<Rightarrow> unknown_report ''deliverer_error'' (rp_IdempotentRetrySafe (fst answer))) in
      if DeliveryReport_Validate report \<noteq> None then unknown_report ''invalid_report'' False else report)"

definition dispatch ::
  "EffectDispatcher \<Rightarrow> sql_io \<Rightarrow> go_context \<Rightarrow> DeliveryReport \<times> go_error option \<Rightarrow> EffectDelivery \<Rightarrow> CompleteEffectResult tx"
where
  "dispatch dispatcher io ctx answer delivery =
     CompleteEffect (ed_store dispatcher) io ctx \<lparr>co_Fence = dl_Fence delivery, co_Report = classified_report answer\<rparr>"

definition count_dispatch :: "EffectDelivery \<Rightarrow> CompleteEffectResult result \<Rightarrow> EffectDispatchReport \<Rightarrow> EffectDispatchReport" where
  "count_dispatch delivery outcome report =
     (case outcome of
        Inl e \<Rightarrow> report\<lparr>dr_Failures := dr_Failures report
                   @ [\<lparr>dfl_OutboxID = dl_OutboxID delivery, dfl_Topic = dl_Topic delivery, dfl_Err = e\<rparr>]\<rparr>
      | Inr result \<Rightarrow>
          (case cer_Status result of
             EffectStatusDelivered \<Rightarrow> report\<lparr>dr_Delivered := dr_Delivered report + 1\<rparr>
           | EffectStatusPending \<Rightarrow> report\<lparr>dr_Retried := dr_Retried report + 1\<rparr>
           | EffectStatusDeadLetter \<Rightarrow> report\<lparr>dr_DeadLettered := dr_DeadLettered report + 1\<rparr>
           | _ \<Rightarrow> report))"

fun dispatch_loop ::
  "EffectDispatcher \<Rightarrow> loop_view \<Rightarrow> sql_io \<Rightarrow> nat \<Rightarrow> nat \<Rightarrow> EffectDelivery list \<Rightarrow> EffectDispatchReport \<Rightarrow> sql_state
     \<Rightarrow> (EffectDispatchReport \<times> go_error option) \<times> sql_state"
where
  "dispatch_loop dispatcher view io pass n [] report s = ((report, None), s)"
| "dispatch_loop dispatcher view io pass n (delivery # rest) report s =
     (case contextError (lv_pass view (2 * n + 2) 0) of
        Some e \<Rightarrow> ((report, Some e), s)
      | None \<Rightarrow>
          (case dispatch dispatcher io (lv_pass view (2 * n + 3)) (ed_deliverer dispatcher pass n delivery) delivery s of
             (outcome, s') \<Rightarrow>
               dispatch_loop dispatcher view io pass (Suc n) rest (count_dispatch delivery outcome report) s'))"

definition DispatchOnce ::
  "EffectDispatcher \<Rightarrow> loop_view \<Rightarrow> sql_io \<Rightarrow> nat \<Rightarrow> sql_state \<Rightarrow> (EffectDispatchReport \<times> go_error option) \<times> sql_state"
where
  "DispatchOnce dispatcher view io pass s =
     (case first_error [contextError (lv_pass view 0 0), Acquire (map_option (lv_gates view 0) (ed_admission dispatcher))] of
        Some e \<Rightarrow> ((no_dispatch, Some e), s)
      | None \<Rightarrow>
          (case ClaimEffects (ed_store dispatcher) io (lv_pass view 1) (dispatcher_claim (ed_options dispatcher)) s of
             ((deliveries, Some e), s') \<Rightarrow> ((no_dispatch, Some e), s')
           | ((deliveries, None), s') \<Rightarrow>
               dispatch_loop dispatcher view io pass 0 deliveries (no_dispatch\<lparr>dr_Claimed := int (length deliveries)\<rparr>) s'))"

definition observed_dispatch ::
  "EffectDispatchReport \<times> go_error option \<Rightarrow> (EffectDispatchReport \<times> go_error option) list"
where
  "observed_dispatch r =
     (case snd r of
        None \<Rightarrow> [r]
      | Some e \<Rightarrow> if errors_is e ErrNoClaimableEffects \<or> errors_is e ErrAdmissionClosed then [] else [r])"

text \<open>\<open>view\<close> gives what each pass sees; the result lists what was observed, the error of \<^verbatim>\<open>Run\<close> and the state.\<close>

partial_function (option) dispatcher_Run ::
  "EffectDispatcher \<Rightarrow> (nat \<Rightarrow> loop_view) \<Rightarrow> sql_io \<Rightarrow> nat \<Rightarrow> (EffectDispatchReport \<times> go_error option) list \<Rightarrow> sql_state
     \<Rightarrow> (((EffectDispatchReport \<times> go_error option) list \<times> go_error) \<times> sql_state) option"
where
  "dispatcher_Run dispatcher view io pass seen s =
     (case contextError (lv_head (view pass)) of
        Some e \<Rightarrow> Some ((seen, e), s)
      | None \<Rightarrow>
          (case DispatchOnce dispatcher (view pass) io pass s of
             ((report, err), s') \<Rightarrow>
               (let seen' = seen @ observed_dispatch (report, err) in
                case err of
                  None \<Rightarrow>
                    if dr_Claimed report \<ge> ClaimEffectsCommand_limit (dispatcher_claim (ed_options dispatcher))
                    then dispatcher_Run dispatcher view io (Suc pass) seen' s'
                    else (case sleepContext (lv_sleep (view pass)) of
                            Some e \<Rightarrow> Some ((seen', e), s')
                          | None \<Rightarrow> dispatcher_Run dispatcher view io (Suc pass) seen' s')
                | Some e \<Rightarrow>
                    if errors_is e ErrNoClaimableEffects
                    then (case sleepContext (lv_sleep (view pass)) of
                            Some e' \<Rightarrow> Some ((seen', e'), s')
                          | None \<Rightarrow> dispatcher_Run dispatcher view io (Suc pass) seen' s')
                    else if errors_is e ErrAdmissionClosed
                    then map_option (\<lambda>e'. ((seen', e'), s')) (waitForAdmissionShutdown (lv_shutdown (view pass)))
                    else (case first_error [contextError (lv_after (view pass)), sleepContext (lv_sleep (view pass))] of
                            Some e' \<Rightarrow> Some ((seen', e'), s')
                          | None \<Rightarrow> dispatcher_Run dispatcher view io (Suc pass) seen' s'))))"

subsection \<open>The scheduler of reconciliation\<close>

abbreviation DefaultReconcileInterval :: duration where "DefaultReconcileInterval \<equiv> 30000000000"
abbreviation MaxReconcileInterval :: duration where "MaxReconcileInterval \<equiv> 3600000000000"

text \<open>The \<^verbatim>\<open>float64\<close> nearest to 0.2.\<close>

definition DefaultReconcileJitterFraction :: rat where
  "DefaultReconcileJitterFraction = 3602879701896397 / 18014398509481984"

record ReconcilerOptions =
  ro_ReconcilerID :: string
  ro_ReconcilerBuildDigest :: string
  ro_AdmissionGate :: "nat option"
  ro_BatchLimit :: int
  ro_Interval :: duration
  ro_JitterFraction :: rat

definition reconciler_applyDefaults :: "ReconcilerOptions \<Rightarrow> ReconcilerOptions" where
  "reconciler_applyDefaults opts = opts
     \<lparr>ro_Interval := (if ro_Interval opts \<le> 0 then DefaultReconcileInterval else ro_Interval opts),
      ro_JitterFraction := (if ro_JitterFraction opts = 0 then DefaultReconcileJitterFraction else ro_JitterFraction opts)\<rparr>"

definition ReconcilerOptions_Validate :: "ReconcilerOptions \<Rightarrow> go_error option" where
  "ReconcilerOptions_Validate opts = first_error
     [validatePrintableASCII ''reconcilerId'' (ro_ReconcilerID opts) MaxWorkerIDBytes,
      validatePrintableASCII ''reconcilerBuildDigest'' (ro_ReconcilerBuildDigest opts) MaxWorkerBuildDigestBytes,
      fail_if (ro_Interval opts \<le> 0 \<or> ro_Interval opts > MaxReconcileInterval) (Errorf ''interval must be between 1ns and the limit''),
      fail_if (ro_JitterFraction opts < 0 \<or> ro_JitterFraction opts \<ge> 1) (Errorf ''jitterFraction must be in [0,1)''),
      ReclaimQuery_Validate \<lparr>rcq_Limit = ro_BatchLimit opts, rcq_ActionableOnly = False\<rparr>]"

text \<open>
  The scanner and the store of the code are both the SQL store. \<open>rc_before\<close> and \<open>rc_store\<close> are that store
  as \<open>ReconcileTerminal\<close> sees it before and inside its transaction.
\<close>

record Reconciler =
  rc_before :: SettlementStore
  rc_store :: SettlementStore
  rc_tables :: review_tables
  rc_options :: ReconcilerOptions
  rc_admission :: "nat option"

definition NewReconciler ::
  "SettlementStore option \<Rightarrow> (SettlementStore \<times> SettlementStore) option \<Rightarrow> review_tables \<Rightarrow> ReconcilerOptions \<Rightarrow> Reconciler result"
where
  "NewReconciler scanner store tables options =
     (case (scanner, store) of
        (Some _, Some (before, st)) \<Rightarrow>
          (let opts = reconciler_applyDefaults options in
           case ReconcilerOptions_Validate opts of
             Some e \<Rightarrow> Inl e
           | None \<Rightarrow> Inr \<lparr>rc_before = before, rc_store = st, rc_tables = tables, rc_options = opts,
                          rc_admission = ro_AdmissionGate opts\<rparr>)
      | _ \<Rightarrow> Inl (Errorf ''reconciler requires a scanner and a reconcile store''))"

definition reconciler_MatchesAdmissionGate :: "Reconciler option \<Rightarrow> nat option \<Rightarrow> bool" where
  "reconciler_MatchesAdmissionGate reconciler expected =
     (case reconciler of None \<Rightarrow> False | Some r \<Rightarrow> rc_admission r = expected)"

record ReconcileFailure =
  rfl_TurnID :: TurnID
  rfl_Reason :: ReclaimReason
  rfl_Err :: go_error

record ReconcileReport =
  rpt_Scanned :: int
  rpt_Retired :: "ReconcileResult list"
  rpt_Skipped :: int
  rpt_Failures :: "ReconcileFailure list"

definition no_reconcile :: ReconcileReport where
  "no_reconcile = \<lparr>rpt_Scanned = 0, rpt_Retired = [], rpt_Skipped = 0, rpt_Failures = []\<rparr>"

definition benign_race :: "go_error \<Rightarrow> bool" where
  "benign_race e = list_ex (errors_is e)
     [ErrReconcilePrecondition, ErrTurnTerminal, ErrTurnNotFound, ErrCancellationNotRequested]"

definition count_reconcile :: "ReclaimableTurn \<Rightarrow> ReconcileResult result \<Rightarrow> ReconcileReport \<Rightarrow> ReconcileReport" where
  "count_reconcile candidate outcome report =
     (case outcome of
        Inr result \<Rightarrow>
          if rcr_Changed result then report\<lparr>rpt_Retired := rpt_Retired report @ [result]\<rparr>
          else report\<lparr>rpt_Skipped := rpt_Skipped report + 1\<rparr>
      | Inl e \<Rightarrow>
          if benign_race e then report\<lparr>rpt_Skipped := rpt_Skipped report + 1\<rparr>
          else report\<lparr>rpt_Failures := rpt_Failures report
                 @ [\<lparr>rfl_TurnID = rt_TurnID candidate, rfl_Reason = rt_Reason candidate, rfl_Err = e\<rparr>]\<rparr>)"

definition reconcile_command :: "ReconcilerOptions \<Rightarrow> ReclaimableTurn \<Rightarrow> ReconcileCommand" where
  "reconcile_command opts candidate = \<lparr>rcc_TurnID = rt_TurnID candidate, rcc_Reason = rt_Reason candidate,
     rcc_ReconcilerID = ro_ReconcilerID opts, rcc_ReconcilerBuildDigest = ro_ReconcilerBuildDigest opts\<rparr>"

fun reconcile_loop ::
  "Reconciler \<Rightarrow> loop_view \<Rightarrow> sql_io \<Rightarrow> nat \<Rightarrow> ReclaimableTurn list \<Rightarrow> ReconcileReport \<Rightarrow> sql_state
     \<Rightarrow> (ReconcileReport \<times> go_error option) \<times> sql_state"
where
  "reconcile_loop reconciler view io n [] report s = ((report, None), s)"
| "reconcile_loop reconciler view io n (candidate # rest) report s =
     (case first_error [contextError (lv_pass view (2 * n + 2) 0), Acquire (map_option (lv_gates view n) (rc_admission reconciler))] of
        Some e \<Rightarrow> ((report, Some e), s)
      | None \<Rightarrow>
          (case ReconcileTerminal (rc_before reconciler) (rc_store reconciler) (rc_tables reconciler) io
                  (lv_pass view (2 * n + 3)) (reconcile_command (rc_options reconciler) candidate) s of
             (outcome, s') \<Rightarrow>
               reconcile_loop reconciler view io (Suc n) rest (count_reconcile candidate outcome report) s'))"

definition ReconcileOnce ::
  "Reconciler \<Rightarrow> loop_view \<Rightarrow> sql_io \<Rightarrow> sql_state \<Rightarrow> (ReconcileReport \<times> go_error option) \<times> sql_state"
where
  "ReconcileOnce reconciler view io s =
     (case contextError (lv_pass view 0 0) of
        Some e \<Rightarrow> ((no_reconcile, Some e), s)
      | None \<Rightarrow>
          (case ListReclaimableTurns (sn_store (rc_store reconciler)) io (lv_pass view 1)
                  \<lparr>rcq_Limit = ro_BatchLimit (rc_options reconciler), rcq_ActionableOnly = True\<rparr> s of
             (Inl e, s') \<Rightarrow> ((no_reconcile, Some e), s')
           | (Inr candidates, s') \<Rightarrow>
               reconcile_loop reconciler view io 0 candidates (no_reconcile\<lparr>rpt_Scanned := int (length candidates)\<rparr>) s'))"

definition observed_reconcile :: "ReconcileReport \<times> go_error option \<Rightarrow> (ReconcileReport \<times> go_error option) list" where
  "observed_reconcile r =
     (case snd r of None \<Rightarrow> [r] | Some e \<Rightarrow> if errors_is e ErrAdmissionClosed then [] else [r])"

definition batchLimit :: "Reconciler \<Rightarrow> int" where
  "batchLimit reconciler = ReclaimQuery_limit \<lparr>rcq_Limit = ro_BatchLimit (rc_options reconciler), rcq_ActionableOnly = False\<rparr>"

partial_function (option) reconciler_Run ::
  "Reconciler \<Rightarrow> (nat \<Rightarrow> loop_view) \<Rightarrow> sql_io \<Rightarrow> nat \<Rightarrow> (ReconcileReport \<times> go_error option) list \<Rightarrow> sql_state
     \<Rightarrow> (((ReconcileReport \<times> go_error option) list \<times> go_error) \<times> sql_state) option"
where
  "reconciler_Run reconciler view io pass seen s =
     (case contextError (lv_head (view pass)) of
        Some e \<Rightarrow> Some ((seen, e), s)
      | None \<Rightarrow>
          (case ReconcileOnce reconciler (view pass) io s of
             ((report, err), s') \<Rightarrow>
               (let seen' = seen @ observed_reconcile (report, err) in
                case err of
                  Some e \<Rightarrow>
                    if errors_is e ErrAdmissionClosed
                    then map_option (\<lambda>e'. ((seen', e'), s')) (waitForAdmissionShutdown (lv_shutdown (view pass)))
                    else (case first_error [contextError (lv_after (view pass)), sleepContext (lv_sleep (view pass))] of
                            Some e' \<Rightarrow> Some ((seen', e'), s')
                          | None \<Rightarrow> reconciler_Run reconciler view io (Suc pass) seen' s')
                | None \<Rightarrow>
                    if rpt_Scanned report \<ge> batchLimit reconciler \<and> rpt_Scanned report > 0
                    then reconciler_Run reconciler view io (Suc pass) seen' s'
                    else (case sleepContext (lv_sleep (view pass)) of
                            Some e' \<Rightarrow> Some ((seen', e'), s')
                          | None \<Rightarrow> reconciler_Run reconciler view io (Suc pass) seen' s'))))"

subsection \<open>A loop that follows its context\<close>

text \<open>
  The contract of the loops: at the head a done context ends the loop with its error; otherwise a pass
  leads to the next pass, or ends the loop with an error of the context or a fatal error of the pass,
  or leaves the loop waiting for shutdown.
\<close>

definition context_errors :: "loop_view \<Rightarrow> go_error set" where
  "context_errors v = {e. Some e \<in> contextError ` ({lv_head v, lv_after v, lv_sleep v} \<union> range (lv_shutdown v))}"

locale context_loop =
  fixes run :: "(nat \<Rightarrow> loop_view) \<Rightarrow> nat \<Rightarrow> 'o list \<Rightarrow> 's \<Rightarrow> (('o list \<times> go_error) \<times> 's) option"
    and fatal :: "go_error \<Rightarrow> bool"
  assumes done_context: "contextError (lv_head (view p)) = Some e \<Longrightarrow> run view p seen s = Some ((seen, e), s)"
    and one_pass: "contextError (lv_head (view p)) = None \<Longrightarrow>
      (\<exists>more s'. run view p seen s = run view (Suc p) (seen @ more) s')
      \<or> (\<exists>more e s'. run view p seen s = Some ((seen @ more, e), s') \<and> (e \<in> context_errors (view p) \<or> fatal e))
      \<or> (\<exists>more s'. run view p seen s = map_option (\<lambda>e. ((seen @ more, e), s')) (waitForAdmissionShutdown (lv_shutdown (view p))))"
begin

text \<open>If the context ends, the loop ends, at the latest at the head of that pass and with an error of the context.\<close>

lemma shutdown_ends:
  assumes "contextError (ctx k) \<noteq> None"
  shows "\<exists>e j. waitForAdmissionShutdown ctx = Some e \<and> contextError (ctx j) = Some e"
proof -
  have waits: "\<exists>e j. wait_done ctx i = Some e \<and> contextError (ctx j) = Some e" if "i \<le> k" for i
    using that
  proof (induction rule: inc_induct)
    case base
    then show ?case using assms by (auto simp: wait_done.simps [of ctx k])
  next
    case (step i)
    then show ?case by (cases "contextError (ctx i)") (auto simp: wait_done.simps [of ctx i])
  qed
  show ?thesis
  proof (cases "contextError (ctx 0)")
    case None
    then have "1 \<le> k" using assms by (cases k) auto
    from waits [OF this] None show ?thesis by (simp add: waitForAdmissionShutdown_def)
  qed (auto simp: waitForAdmissionShutdown_def)
qed

lemma loop_ends:
  assumes "contextError (lv_head (view (p + n))) \<noteq> None"
    and "\<And>q. p \<le> q \<Longrightarrow> q < p + n \<Longrightarrow> \<exists>k. contextError (lv_shutdown (view q) k) \<noteq> None"
  shows "\<exists>more e s' q. run view p seen s = Some ((seen @ more, e), s') \<and> p \<le> q \<and> q \<le> p + n
    \<and> (e \<in> context_errors (view q) \<or> fatal e)"
  using assms
proof (induction n arbitrary: p seen s)
  case 0
  then obtain e where "contextError (lv_head (view p)) = Some e" by auto
  with done_context [of view p, OF this, of seen s] show ?case
    by (intro exI [of _ "[]"] exI [of _ e] exI [of _ s] exI [of _ p]) (auto simp: context_errors_def image_iff)
next
  case (Suc n)
  show ?case
  proof (cases "contextError (lv_head (view p))")
    case (Some e)
    with done_context [of view p, OF this, of seen s] show ?thesis
      by (intro exI [of _ "[]"] exI [of _ e] exI [of _ s] exI [of _ p]) (auto simp: context_errors_def image_iff)
  next
    case None
    from one_pass [of view p, OF this, of seen s] show ?thesis
    proof (elim disjE exE conjE)
      fix more s' assume "run view p seen s = run view (Suc p) (seen @ more) s'"
      moreover obtain more' e s'' q where "run view (Suc p) (seen @ more) s' = Some (((seen @ more) @ more', e), s'')"
          "Suc p \<le> q" "q \<le> Suc p + n" "e \<in> context_errors (view q) \<or> fatal e"
        using Suc.IH [of "Suc p" "seen @ more" s'] Suc.prems by auto
      ultimately show ?thesis by (intro exI [of _ "more @ more'"] exI [of _ e] exI [of _ s''] exI [of _ q]) simp
    next
      fix more e s' assume "run view p seen s = Some ((seen @ more, e), s')" "e \<in> context_errors (view p)"
      then show ?thesis by (intro exI [of _ more] exI [of _ e] exI [of _ s'] exI [of _ p]) simp
    next
      fix more e s' assume "run view p seen s = Some ((seen @ more, e), s')" "fatal e"
      then show ?thesis by (intro exI [of _ more] exI [of _ e] exI [of _ s'] exI [of _ p]) simp
    next
      fix more s'
      assume wait: "run view p seen s = map_option (\<lambda>e. ((seen @ more, e), s')) (waitForAdmissionShutdown (lv_shutdown (view p)))"
      obtain k where "contextError (lv_shutdown (view p) k) \<noteq> None" using Suc.prems(2) [of p] by auto
      from shutdown_ends [of "lv_shutdown (view p)" k, OF this] obtain e j where "waitForAdmissionShutdown (lv_shutdown (view p)) = Some e"
          "contextError (lv_shutdown (view p) j) = Some e" by blast
      with wait show ?thesis
        by (intro exI [of _ more] exI [of _ e] exI [of _ s'] exI [of _ p]) (auto simp: context_errors_def image_iff intro!: exI [of _ j])
    qed
  qed
qed

end

subsection \<open>The loops satisfy the contract\<close>

lemma pause_error: "sleepContext (lv_sleep v) = Some e \<Longrightarrow> e \<in> context_errors v"
    "first_error [contextError (lv_after v), sleepContext (lv_sleep v)] = Some e \<Longrightarrow> e \<in> context_errors v"
  by (auto simp: context_errors_def sleepContext_def image_iff split: option.splits elim!: first_error.elims)

interpretation dispatching: context_loop "\<lambda>view. dispatcher_Run dispatcher view io" "\<lambda>_. False"
proof unfold_locales
  fix view p seen s
  show "dispatcher_Run dispatcher view io p seen s = Some ((seen, e), s)" if "contextError (lv_head (view p)) = Some e" for e
    using that by (simp add: dispatcher_Run.simps [of _ _ _ p])
  assume "contextError (lv_head (view p)) = None"
  then show "(\<exists>more s'. dispatcher_Run dispatcher view io p seen s = dispatcher_Run dispatcher view io (Suc p) (seen @ more) s')
      \<or> (\<exists>more e s'. dispatcher_Run dispatcher view io p seen s = Some ((seen @ more, e), s') \<and> (e \<in> context_errors (view p) \<or> False))
      \<or> (\<exists>more s'. dispatcher_Run dispatcher view io p seen s
            = map_option (\<lambda>e. ((seen @ more, e), s')) (waitForAdmissionShutdown (lv_shutdown (view p))))"
    using pause_error [of "view p"]
    by (subst (1 3 4) dispatcher_Run.simps) (auto simp: Let_def split: prod.splits option.splits if_splits)
qed

interpretation reconciling: context_loop "\<lambda>view. reconciler_Run reconciler view io" "\<lambda>_. False"
proof unfold_locales
  fix view p seen s
  show "reconciler_Run reconciler view io p seen s = Some ((seen, e), s)" if "contextError (lv_head (view p)) = Some e" for e
    using that by (simp add: reconciler_Run.simps [of _ _ _ p])
  assume "contextError (lv_head (view p)) = None"
  then show "(\<exists>more s'. reconciler_Run reconciler view io p seen s = reconciler_Run reconciler view io (Suc p) (seen @ more) s')
      \<or> (\<exists>more e s'. reconciler_Run reconciler view io p seen s = Some ((seen @ more, e), s') \<and> (e \<in> context_errors (view p) \<or> False))
      \<or> (\<exists>more s'. reconciler_Run reconciler view io p seen s
            = map_option (\<lambda>e. ((seen @ more, e), s')) (waitForAdmissionShutdown (lv_shutdown (view p))))"
    using pause_error [of "view p"]
    by (subst (1 3 4) reconciler_Run.simps) (auto simp: Let_def split: prod.splits option.splits if_splits)
qed

subsection \<open>One pass of the dispatcher\<close>

lemma CompleteEffect_run:
  assumes "runs (CompleteEffect store io ctx c) s r s'"
  shows "\<exists>t t'. st_db t = io_others io (st_tick s) (st_db s) \<and> runs (completeEffect_tx store io c) t r t' \<and> st_db s' = st_db t'"
  by (rule runs_writeTransaction [OF conjunct2 [OF runs_CompleteEffect [OF assms]]])

lemma completion_status:
  assumes "runs (CompleteEffect store io ctx c) s r s'"
  shows "cer_Status r \<in> {EffectStatusDelivered, EffectStatusPending, EffectStatusDeadLetter}"
proof -
  from CompleteEffect_run [OF assms] obtain t t' where "runs (completeEffect_tx store io c) t r t'" by blast
  from completeEffect_tx_cases [OF this] show ?thesis
    by (auto simp: EffectStatus_Terminal_def effectResultFromRow_def completion_defs Let_def
        dest!: resolveEffectCompletion_cases)
qed

definition counted :: "EffectDispatchReport \<Rightarrow> int" where
  "counted report = dr_Delivered report + dr_Retried report + dr_DeadLettered report + int (length (dr_Failures report))"

lemma count_dispatch_counted:
  assumes "dispatch dispatcher io ctx answer delivery s = (outcome, s')"
  shows "counted (count_dispatch delivery outcome report) = counted report + 1"
    "dr_Claimed (count_dispatch delivery outcome report) = dr_Claimed report"
    "\<exists>fs. dr_Failures (count_dispatch delivery outcome report) = dr_Failures report @ fs
       \<and> subseq (map dfl_OutboxID fs) [dl_OutboxID delivery]"
proof -
  have "cer_Status r \<in> {EffectStatusDelivered, EffectStatusPending, EffectStatusDeadLetter}" if "outcome = Inr r" for r
    using completion_status [of "ed_store dispatcher" io ctx _ s r s'] assms that by (simp add: dispatch_def runs_def)
  then show "counted (count_dispatch delivery outcome report) = counted report + 1"
    "dr_Claimed (count_dispatch delivery outcome report) = dr_Claimed report"
    "\<exists>fs. dr_Failures (count_dispatch delivery outcome report) = dr_Failures report @ fs
       \<and> subseq (map dfl_OutboxID fs) [dl_OutboxID delivery]"
    by (cases outcome; auto simp: count_dispatch_def counted_def)+
qed

lemma dispatch_loop_counts:
  assumes "dispatch_loop dispatcher view io pass n deliveries report s = ((final, err), s')"
  shows "counted report \<le> counted final \<and> counted final \<le> counted report + int (length deliveries)
    \<and> (err = None \<longrightarrow> counted final = counted report + int (length deliveries)) \<and> dr_Claimed final = dr_Claimed report
    \<and> (\<exists>fs. dr_Failures final = dr_Failures report @ fs \<and> subseq (map dfl_OutboxID fs) (map dl_OutboxID deliveries))"
  using assms
proof (induction dispatcher view io pass n deliveries report s rule: dispatch_loop.induct)
  case (2 dispatcher view io pass n delivery rest report s)
  show ?case
  proof (cases "contextError (lv_pass view (2 * n + 2) 0)")
    case None
    obtain outcome s1 where d: "dispatch dispatcher io (lv_pass view (2 * n + 3)) (ed_deliverer dispatcher pass n delivery) delivery s = (outcome, s1)"
      by (meson surj_pair)
    note c = count_dispatch_counted [OF d, of report]
    from c(3) obtain fs where fs: "dr_Failures (count_dispatch delivery outcome report) = dr_Failures report @ fs"
        "subseq (map dfl_OutboxID fs) [dl_OutboxID delivery]" by blast
    have "dispatch_loop dispatcher view io pass (Suc n) rest (count_dispatch delivery outcome report) s1 = ((final, err), s')"
      using 2(2) None d by simp
    from 2(1) [OF None d [symmetric] this [unfolded prod.inject]] obtain gs where
      "counted report + 1 \<le> counted final" "counted final \<le> counted report + 1 + int (length rest)"
      "err = None \<longrightarrow> counted final = counted report + 1 + int (length rest)" "dr_Claimed final = dr_Claimed report"
      "dr_Failures final = (dr_Failures report @ fs) @ gs" "subseq (map dfl_OutboxID gs) (map dl_OutboxID rest)"
      using c fs(1) by auto
    moreover from this(6) fs(2) have "subseq (map dfl_OutboxID (fs @ gs)) (map dl_OutboxID (delivery # rest))"
      using list_emb_append_mono [of "(=)" "map dfl_OutboxID fs" "[dl_OutboxID delivery]"] by simp
    ultimately show ?thesis by (auto intro!: exI [of _ "fs @ gs"])
  next
    case (Some e)
    have "final = report" "err = Some e" using 2(2) unfolding dispatch_loop.simps Some by simp_all
    then show ?thesis by simp
  qed
qed auto

text \<open>
  An unknown outcome: the deliverer failed without vouching for a repeat, or its report is not valid.
\<close>

definition outcome_unknown :: "DeliveryReport \<times> go_error option \<Rightarrow> bool" where
  "outcome_unknown answer \<longleftrightarrow>
     (case snd answer of None \<Rightarrow> DeliveryReport_Validate (fst answer) \<noteq> None | Some e \<Rightarrow> \<not> rp_IdempotentRetrySafe (fst answer))"

lemma classified_unknown:
  assumes "outcome_unknown answer"
  shows "rp_Outcome (classified_report answer) = DeliveryOutcomeUnknown \<and> \<not> rp_IdempotentRetrySafe (classified_report answer)"
  using assms by (auto simp: outcome_unknown_def classified_report_def unknown_report_def Let_def split: option.splits)

lemma unknown_completion_dead:
  assumes "rp_Outcome report = DeliveryOutcomeUnknown" "\<not> rp_IdempotentRetrySafe report"
    "resolveEffectCompletion store row report now = Inr nxt"
  shows "nxt = completion_dead row report now"
  using assms by (simp add: resolveEffectCompletion_def Let_def)


subsection \<open>A sample pass\<close>

definition sample_pass_view :: "ctx_obs \<Rightarrow> loop_view" where
  "sample_pass_view head = \<lparr>lv_head = head, lv_pass = (\<lambda>_. live_ctx), lv_gates = (\<lambda>_ _. NewAdmissionGate), lv_after = LiveContext,
     lv_sleep = LiveContext, lv_shutdown = (\<lambda>_. DoneContext ContextCanceled)\<rparr>"

definition sample_dispatcher :: EffectDispatcher where
  "sample_dispatcher = \<lparr>ed_store = sample_sql, ed_deliverer = (\<lambda>_ _ _. (unknown_report [] False, Some (Errorf ''timeout''))),
     ed_options = \<lparr>do_LeaseOwnerID = ''w-1'', do_AdmissionGate = Some 3, do_BatchLimit = 0, do_Topics = [],
       do_IdleBackoff = Second, do_DeliveryTimeout = Second\<rparr>, ed_admission = Some 3\<rparr>"

definition sample_pass :: "(EffectDispatchReport \<times> go_error option) \<times> sql_state" where
  "sample_pass = DispatchOnce sample_dispatcher (sample_pass_view LiveContext) (sample_io sample_time) 0 sample_outbox"

lemma sample_pass_run: "DispatchOnce sample_dispatcher (sample_pass_view LiveContext) (sample_io sample_time) 0 sample_outbox
    = ((no_dispatch\<lparr>dr_Claimed := 1, dr_DeadLettered := 1\<rparr>, None), snd sample_pass)"
proof -
  have "fst sample_pass = (no_dispatch\<lparr>dr_Claimed := 1, dr_DeadLettered := 1\<rparr>, None)" by code_simp
  then show ?thesis unfolding sample_pass_def by (metis prod.collapse)
qed

definition sample_ambiguous :: "CompleteEffectResult result \<times> sql_state" where
  "sample_ambiguous = dispatch sample_dispatcher (sample_io (sample_time + Second)) live_ctx
     (unknown_report [] False, Some (Errorf ''timeout'')) (sample_delivery ''w-1'' sample_time 1) sample_leased"

lemma sample_ambiguous_runs:
  "runs (dispatch sample_dispatcher (sample_io (sample_time + Second)) live_ctx
     (unknown_report [] False, Some (Errorf ''timeout'')) (sample_delivery ''w-1'' sample_time 1)) sample_leased
     (projr (fst sample_ambiguous)) (snd sample_ambiguous)"
proof -
  have "\<not> isl (fst sample_ambiguous)" by code_simp
  then show ?thesis unfolding sample_ambiguous_def by (simp add: runs_def prod_eq_iff)
qed

lemma sample_ambiguous_facts:
  "outcome_unknown (unknown_report [] False, Some (Errorf ''timeout''))"
  "outbox_keys (io_others (sample_io (sample_time + Second)) (st_tick sample_leased) (st_db sample_leased))"
  "df_OutboxID (dl_Fence (sample_delivery ''w-1'' sample_time 1)) = ''e-1''"
  by code_simp+

definition sample_views :: "nat \<Rightarrow> loop_view" where
  "sample_views pass = sample_pass_view (if pass = 0 then LiveContext else DoneContext ContextCanceled)"

definition sample_unbound :: SettlementStore where
  "sample_unbound = \<lparr>sn_store = sample_sql, sn_address = 1, sn_settlement = None, sn_settlementBinding = None\<rparr>"

definition sample_reconciler :: Reconciler where
  "sample_reconciler = \<lparr>rc_before = sample_unbound, rc_store = sample_unbound,
     rc_tables = \<lparr>rt_countProviderUsageJournal = (\<lambda>_ _. Inr 0), rt_lookupProviderUsage = (\<lambda>_ _. Inr 0),
       rt_resolutionState = (\<lambda>_ _. None), rt_usageEvidencePlugin = (\<lambda>_ _. Inr None)\<rparr>,
     rc_options = \<lparr>ro_ReconcilerID = ''r-1'', ro_ReconcilerBuildDigest = ''b'', ro_AdmissionGate = Some 3, ro_BatchLimit = 0,
       ro_Interval = Second, ro_JitterFraction = 0\<rparr>, rc_admission = Some 3\<rparr>"

subsection \<open>Properties of the loops\<close>

text \<open>
  Accounting of a pass of the dispatcher. A pass that returns without error has counted each
  effect it leased exactly once: as delivered, to be retried, dead-lettered, or as a failure. A pass
  that is cut short while it delivers has counted at most as many as it leased. A pass that ends
  before its claim, or with an error of its claim, reports nothing; effects that such a claim leased
  before it failed are counted nowhere. The failures name leased effects in the order of the claim.
\<close>

theorem dispatch_accounts:
  assumes "DispatchOnce dispatcher view io pass s = ((report, err), s')"
  shows "err \<noteq> None \<and> report = no_dispatch
    \<or> (\<exists>deliveries s1. ClaimEffects (ed_store dispatcher) io (lv_pass view 1) (dispatcher_claim (ed_options dispatcher)) s
          = ((deliveries, None), s1)
        \<and> dr_Claimed report = int (length deliveries)
        \<and> dr_Delivered report + dr_Retried report + dr_DeadLettered report + int (length (dr_Failures report)) \<le> dr_Claimed report
        \<and> (err = None \<longrightarrow>
             dr_Delivered report + dr_Retried report + dr_DeadLettered report + int (length (dr_Failures report)) = dr_Claimed report)
        \<and> subseq (map dfl_OutboxID (dr_Failures report)) (map dl_OutboxID deliveries))"
proof (cases "first_error [contextError (lv_pass view 0 0), Acquire (map_option (lv_gates view 0) (ed_admission dispatcher))]")
  case (Some e)
  have "report = no_dispatch" "err = Some e" using assms unfolding DispatchOnce_def by (simp_all add: Some)
  then show ?thesis by simp
next
  case None
  obtain deliveries claim_err s1 where c: "ClaimEffects (ed_store dispatcher) io (lv_pass view 1)
      (dispatcher_claim (ed_options dispatcher)) s = ((deliveries, claim_err), s1)" by (metis surj_pair)
  show ?thesis
  proof (cases claim_err)
    case (Some e)
    have "report = no_dispatch" "err = Some e" using assms c unfolding DispatchOnce_def by (simp_all add: Some None)
    then show ?thesis by simp
  next
    case no_error: None
    have "dispatch_loop dispatcher view io pass 0 deliveries (no_dispatch\<lparr>dr_Claimed := int (length deliveries)\<rparr>) s1 = ((report, err), s')"
      using assms None c no_error unfolding DispatchOnce_def by simp
    from dispatch_loop_counts [OF this] c no_error show ?thesis
      by (intro disjI2 exI [of _ deliveries] exI [of _ s1]) (auto simp: counted_def no_dispatch_def)
  qed
qed

theorem dispatch_accounts_witness:
  "\<exists>deliveries s1. ClaimEffects sample_sql (sample_io sample_time) live_ctx (dispatcher_claim (ed_options sample_dispatcher)) sample_outbox
      = ((deliveries, None), s1) \<and> length deliveries = 1"
  using dispatch_accounts [OF sample_pass_run] by (auto simp: sample_dispatcher_def sample_pass_view_def no_dispatch_def)

text \<open>
  C39. Ambiguity is never resolved by guessing. If the provider call failed without vouching that a
  repeat is safe, or answered with a report that is not valid, and the completion is recorded, then
  the effect has ended: it is dead-lettered now, or had ended before and this is the answer of that
  end. It stays exactly so whatever dispatchers do afterwards, and no later claim hands it out again.
\<close>

theorem unknown_outcome_not_resent:
  assumes "runs (dispatch dispatcher io ctx answer delivery) s r s'" "outcome_unknown answer"
    and "outbox_keys (io_others io (st_tick s) (st_db s))"
    and "(outbox_step store)\<^sup>*\<^sup>* (st_db s') db"
  shows "\<exists>row. outbox_at (st_db s') (df_OutboxID (dl_Fence delivery)) = Some row \<and> EffectStatus_Terminal (ef_Status row)
    \<and> (ef_Status row = EffectStatusDeadLetter \<and> cer_Status r = EffectStatusDeadLetter \<or> cer_Replay r)
    \<and> outbox_at db (df_OutboxID (dl_Fence delivery)) = Some row
    \<and> (\<forall>io' owner topics turn u x u'. st_db u = db \<longrightarrow>
         runs (claimEffect_tx store' io' (df_OutboxID (dl_Fence delivery)) owner topics turn) u x u' \<longrightarrow> x = None)"
proof -
  let ?c = "\<lparr>co_Fence = dl_Fence delivery, co_Report = classified_report answer\<rparr>"
  let ?i = "df_OutboxID (dl_Fence delivery)" and ?others = "io_others io (st_tick s) (st_db s)"
  from CompleteEffect_run [OF assms(1) [unfolded dispatch_def]] obtain t t' where
    t: "st_db t = ?others" "runs (completeEffect_tx (ed_store dispatcher) io ?c) t r t'" "st_db s' = st_db t'" by blast
  have keys: "outbox_keys (st_db s')"
    using outbox_step_evolves [OF outbox_step.complete [OF t(2)]] assms(3) t(1,3) by simp
  from completeEffect_tx_cases [OF t(2)] obtain row0 where row0: "outbox_at ?others ?i = Some row0"
      "EffectStatus_Terminal (ef_Status row0) \<and> r = effectResultFromRow row0 True \<and> st_db s' = ?others
       \<or> (\<exists>now nxt. resolveEffectCompletion (ed_store dispatcher) row0 (classified_report answer) now = Inr nxt
            \<and> ef_Status row0 = EffectStatusDelivering
            \<and> r = ec_result nxt \<and> st_db s' = set_effect (ef_ID row0) (ec_columns nxt) ?others)"
    using t(1,3) by auto
  obtain row where row: "outbox_at (st_db s') ?i = Some row" "EffectStatus_Terminal (ef_Status row)"
      "ef_Status row = EffectStatusDeadLetter \<and> cer_Status r = EffectStatusDeadLetter \<or> cer_Replay r"
    using row0(2)
  proof (elim disjE exE conjE)
    assume "EffectStatus_Terminal (ef_Status row0)" "r = effectResultFromRow row0 True" "st_db s' = ?others"
    then show thesis using row0(1) by (intro that [of row0]) (simp_all add: effectResultFromRow_def)
  next
    fix now nxt
    assume n: "resolveEffectCompletion (ed_store dispatcher) row0 (classified_report answer) now = Inr nxt"
      "ef_Status row0 = EffectStatusDelivering" "r = ec_result nxt" "st_db s' = set_effect (ef_ID row0) (ec_columns nxt) ?others"
    have dead: "nxt = completion_dead row0 (classified_report answer) now"
      using unknown_completion_dead [OF _ _ n(1)] classified_unknown [OF assms(2)] by blast
    note m = outbox_at_member [OF row0(1)]
    have "counters_fit row0" using assms(3) m by (auto simp: outbox_keys_def)
    then have "counters_fit (ec_columns nxt row0)" by (simp add: dead completion_defs counters_fit_def)
    then have "outbox_at (st_db s') ?i = Some (ec_columns nxt row0)"
      using set_effect_keys [where f = "ec_columns nxt", OF assms(3) conjunct1 [OF m] effect_evolves_same [OF completion_evolves(1) [OF n(1,2)]]] m n(4) by simp
    then show thesis
      by (intro that [of "ec_columns nxt row0"]) (simp_all add: dead n(3) completion_defs EffectStatus_Terminal_def)
  qed
  from outbox_steps_evolve [OF assms(4) keys] row(1) obtain row' where "outbox_at db ?i = Some row'" "effect_evolves row row'" by blast
  then have final: "outbox_at db ?i = Some row" using effect_evolves_final row(2) by blast
  have "x = None" if "st_db u = db" "runs (claimEffect_tx store' io' ?i owner topics turn) u x u'" for io' owner topics turn u x u'
    using claimEffect_tx_cases [OF that(2)] that(1) final row(2) by (auto simp: effect_claimable_def EffectStatus_Terminal_def)
  then show ?thesis using row final by blast
qed


theorem unknown_outcome_not_resent_witness:
  "\<exists>row. outbox_at (st_db (snd sample_ambiguous)) ''e-1'' = Some row \<and> EffectStatus_Terminal (ef_Status row)"
  using unknown_outcome_not_resent [OF sample_ambiguous_runs, of sample_sql "st_db (snd sample_ambiguous)" sample_sql]
    sample_ambiguous_facts by auto

text \<open>
  C40. The background loops follow their context. Let the context of a loop be done at the head of some
  pass, and let it also end while the loop waits for shutdown behind a closed gate. Then \<^verbatim>\<open>Run\<close> of the
  dispatcher and \<^verbatim>\<open>Run\<close> of the reconciler return, whatever the database, the provider and the gate do
  in between, at the latest at the head of that pass, and the error they return is one the context
  gave: no failure of a pass ends a loop.
\<close>

theorem background_loops_end:
  assumes "contextError (lv_head (view n)) \<noteq> None"
    and "\<And>q. q < n \<Longrightarrow> \<exists>k. contextError (lv_shutdown (view q) k) \<noteq> None"
  shows "(\<exists>seen e s' q. dispatcher_Run dispatcher view io 0 [] s = Some ((seen, e), s') \<and> q \<le> n \<and> e \<in> context_errors (view q))
    \<and> (\<exists>seen e s' q. reconciler_Run reconciler view io 0 [] s = Some ((seen, e), s') \<and> q \<le> n \<and> e \<in> context_errors (view q))"
  using dispatching.loop_ends [of view 0 n dispatcher io "[]" s] reconciling.loop_ends [of view 0 n reconciler io "[]" s] assms
  by auto


theorem background_loops_end_witness:
  "(\<exists>seen e s' q. dispatcher_Run sample_dispatcher sample_views (sample_io sample_time) 0 [] sample_outbox = Some ((seen, e), s')
      \<and> q \<le> 1 \<and> e \<in> context_errors (sample_views q))
   \<and> (\<exists>seen e s' q. reconciler_Run sample_reconciler sample_views (sample_io sample_time) 0 [] sample_outbox = Some ((seen, e), s')
      \<and> q \<le> 1 \<and> e \<in> context_errors (sample_views q))"
  by (rule background_loops_end) (auto simp: sample_views_def sample_pass_view_def)


end
