(* ===== verification/Commit_Safety.thy ===== *)
theory Commit_Safety
  imports Sql_Commit
begin

text \<open>
  What a commit does to the database: it writes only under the live fence of the worker, once per
  operation, and a terminal commit closes the Turn together with its commercial outcome.
\<close>

subsection \<open>Replay only reads\<close>

lemma reads_guard [tx_reads]: "reads k \<Longrightarrow> reads (tx_guard g k)"
  by (cases g) (simp_all add: tx_guard_def tx_reads)

lemma reads_ask [tx_reads]: "reads (ask_table f)" "reads (ask_authority verdict c e)"
  by (simp_all add: reads_def ask_table_def ask_authority_def)

lemma reads_count_rows [tx_reads]: "reads (count_rows io table p)"
  by (simp add: count_rows_def tx_reads)

lemma reads_inspect [tx_reads]:
  "reads (inspectAmbiguousRelease io i n)" "reads (inspectReplayReleaseEvidence io i j n)"
  unfolding inspectAmbiguousRelease_def inspectReplayReleaseEvidence_def by (intro tx_reads)+

lemma reads_countProviderUsageJournalTx [tx_reads]: "reads (countProviderUsageJournalTx tables i)"
  unfolding countProviderUsageJournalTx_def by (intro tx_reads)

lemma reads_settle [tx_reads]: "reads (settle sha store c)"
  unfolding settle_def by (intro tx_reads) (simp add: tx_reads split: option.split)

lemma reads_lookupOperationTx [tx_reads]: "reads (lookupOperationTx io i j)"
  by (simp add: lookupOperationTx_def tx_reads)

lemma reads_executor_review_evidence: "reads (executor_review_evidence io turn review)"
  unfolding executor_review_evidence_def
  by (intro tx_reads, simp split: option.split, intro conjI allI impI tx_reads)
    (simp add: tx_reads split: option.split sum.split)

lemma reads_review_evidence [tx_reads]: "reads (review_evidence io turn review)"
  by (simp add: review_evidence_def tx_reads reads_executor_review_evidence)

lemma reads_review_children [tx_reads]: "reads (review_children tables io turn review)"
  unfolding review_children_def by (intro tx_reads) (simp_all add: tx_reads)

lemma reads_validateTerminalSettlementReviewTx [tx_reads]:
  "reads (validateTerminalSettlementReviewTx tables io row turn review)"
  unfolding validateTerminalSettlementReviewTx_def by (intro tx_reads)

lemma reads_operation_rows [tx_reads]: "reads (operation_rows io row turn op)"
  unfolding operation_rows_def
  by (intro tx_reads, simp split: sum.split, intro conjI allI impI tx_reads, simp split: sum.split,
      intro conjI allI impI tx_reads) (simp add: tx_reads split: option.split)

lemma reads_hydrated_review [tx_reads]: "reads (hydrated_review store tables io row turn op c mode found)"
  unfolding hydrated_review_def Let_def
  by (cases mode; cases found) (auto intro!: tx_reads simp: tx_reads)

lemma reads_hydrate [tx_reads]: "reads (hydrateOperationResult store tables io row turn op c mode)"
  unfolding hydrateOperationResult_def by (intro tx_reads) (auto intro!: tx_reads)

lemma reads_commit_replay [tx_reads]: "reads (commit_replay store tables io cs q row turn op)"
  unfolding commit_replay_def by (simp split: option.split) (intro conjI allI impI tx_reads)

lemma reads_resolveOperation_tx [tx_reads]: "reads (resolveOperation_tx store tables io cs q)"
  unfolding resolveOperation_tx_def Let_def
  by (intro tx_reads, simp split: sum.split, intro conjI allI impI tx_reads)
    (simp split: option.split, intro conjI allI impI tx_reads)

lemma reads_commit_evidence [tx_reads]: "reads (commit_evidence store tables io plan c turn)"
  unfolding commit_evidence_def Let_def by (auto intro!: tx_reads)

lemma reads_commit_guards [tx_reads]: "reads (commit_guards store io c row turn a)"
  unfolding commit_guards_def by (intro tx_reads) (simp split: sum.split, intro conjI allI impI tx_reads)

subsection \<open>Candidates and receipts\<close>

text \<open>Every candidate is the caller's command: only times and the settlement request are put in normal form.\<close>

definition same_commit :: "CommitAttemptCommand \<Rightarrow> CommitAttemptCommand \<Rightarrow> bool" where
  "same_commit c c' \<longleftrightarrow> cm_Fence c' = cm_Fence c \<and> cm_OperationID c' = cm_OperationID c \<and> cm_Event c' = cm_Event c
     \<and> cm_TerminalStatus c' = cm_TerminalStatus c \<and> canonical_effects (cm_Effects c) = Inr (cm_Effects c')"

lemma normalize_version_same:
  assumes "normalizeCommitCommandWithVersion sha c t v = Inr n"
  shows "same_commit c (fst n)"
  using assms unfolding normalizeCommitCommandWithVersion_def same_commit_def Let_def
  by (auto split: if_splits sum.splits)

lemma normalize_same:
  "normalizeCommitCommand sha c = Inr n \<Longrightarrow> same_commit c (fst n)"
  "normalizeCompletedUsageCommitCommand sha c t = Inr n \<Longrightarrow> same_commit c (fst n)"
  "normalizeProviderUsageCommitCommand sha c t = Inr n \<Longrightarrow> same_commit c (fst n)"
proof -
  show "normalizeCommitCommand sha c = Inr n \<Longrightarrow> same_commit c (fst n)"
    "normalizeCompletedUsageCommitCommand sha c t = Inr n \<Longrightarrow> same_commit c (fst n)"
    by (auto simp: normalizeCommitCommand_def normalizeCommitCommandWithTerminalization_def
        normalizeCompletedUsageCommitCommand_def intro: normalize_version_same split: option.splits)
  assume "normalizeProviderUsageCommitCommand sha c t = Inr n"
  then have "same_commit (c\<lparr>cm_Settlement := Some \<lparr>sq_Intent = SettlementIntentFinalize, sq_UsedUnits = 0\<rparr>\<rparr>) (fst n)"
    by (auto simp: normalizeProviderUsageCommitCommand_def intro: normalize_version_same split: option.splits)
  then show "same_commit c (fst n)" by (simp add: same_commit_def)
qed

lemmas normalize_pair = normalize_same [where n = "(c', d)" for c' d, unfolded fst_conv]

lemma plan_of_sel [simp]:
  "cp_Candidates (plan_of c cs p q) = cs" "cp_ProviderUsage (plan_of c cs p q) = p"
  "cp_CompletedUsage (plan_of c cs p q) = q"
  by (simp_all add: plan_of_def)

lemma candidate_of_sel [simp]:
  "cc_Command (candidate_of m n) = fst n" "cc_Digest (candidate_of m n) = snd n" "cc_Mode (candidate_of m n) = m"
  by (simp_all add: candidate_of_def)

definition plan_for :: "CommitAttemptCommand \<Rightarrow> commit_plan \<Rightarrow> bool" where
  "plan_for c plan \<longleftrightarrow> cp_Candidates plan \<noteq> [] \<and> (\<forall>k \<in> set (cp_Candidates plan). same_commit c (cc_Command k))
     \<and> (cp_ProviderUsage plan \<or> cp_CompletedUsage plan \<longrightarrow> cm_TerminalStatus c \<noteq> TurnStatusOther '''')"

lemma provider_plan_for:
  assumes "provider_plan sha c legacy t = Inr plan" "same_commit c (cc_Command legacy)"
    and "cm_TerminalStatus c \<noteq> TurnStatusOther ''''"
  shows "plan_for c plan"
  using assms unfolding provider_plan_def Let_def plan_for_def
  by (auto split: sum.splits if_splits dest!: normalize_pair)

lemma commit_candidates_for:
  assumes "commit_candidates sha before c = Inr plan"
  shows "plan_for c plan"
proof -
  from assms obtain n2 where n2: "normalizeCommitCommand sha c = Inr n2"
    by (auto simp: commit_candidates_def split: sum.splits)
  let ?legacy = "candidate_of operationTerminalizationLegacy n2"
  have legacy: "same_commit c (cc_Command ?legacy)" using normalize_same(1) [OF n2] by simp
  let ?p = "if cm_TerminalStatus c = TurnStatusOther '''' then Inr None
    else providerUsageTerminalization sha before (cm_TerminalStatus c)"
  have split: "\<exists>p. ?p = Inr p" using assms n2 by (cases ?p) (simp_all add: commit_candidates_def Let_def)
  show ?thesis
  proof (cases "\<exists>t. ?p = Inr (Some t)")
    case True
    then obtain t where t: "?p = Inr (Some t)" by blast
    then have "provider_plan sha c ?legacy t = Inr plan" "cm_TerminalStatus c \<noteq> TurnStatusOther ''''"
      using assms n2 by (auto simp: commit_candidates_def Let_def split: if_splits)
    from provider_plan_for [OF this(1) legacy this(2)] show ?thesis .
  next
    case False
    with split have "?p = Inr None" by auto
    with assms n2 legacy show ?thesis
      by (auto simp: commit_candidates_def Let_def plan_for_def split: sum.splits if_splits option.splits
          dest!: normalize_pair)
  qed
qed

lemma select_SomeD:
  "selectOperationReplayCandidate op cs q = Some k \<Longrightarrow>
     k \<in> set cs \<and> operationMatchesCommand op (cc_Command k) (cc_Digest k)"
  by (induction cs) (auto split: if_splits)

lemma runs_hydrate:
  assumes "runs (hydrateOperationResult store tables io row turn op c mode) s r s'"
  shows "cmr_OperationID r = op_OperationID op \<and> cmr_OperationDigest r = op_OperationDigest op
    \<and> cmr_TurnStatus r = op_TurnStatus op \<and> cmr_Turn r = turn"
  using assms unfolding hydrateOperationResult_def
  by (auto simp: runs_bind runs_check runs_basic operation_result_def split: prod.splits)

text \<open>A replay answers for the receipt it was given, and only to the worker and command that wrote it.\<close>

definition answers_receipt :: "commitOperationCandidate list \<Rightarrow> sqlTurnOperationRow \<Rightarrow> CommitAttemptResult \<Rightarrow> bool" where
  "answers_receipt cs op r \<longleftrightarrow> cmr_Replay r \<and> cmr_OperationID r = op_OperationID op
     \<and> cmr_OperationDigest r = op_OperationDigest op \<and> cmr_TurnStatus r = op_TurnStatus op
     \<and> (\<exists>k \<in> set cs. operationMatchesCommand op (cc_Command k) (cc_Digest k)
          \<and> attemptMatchesFence (cmr_Attempt r) (cm_Fence (cc_Command k)))"

lemma runs_commit_replay:
  assumes "runs (commit_replay store tables io cs q row turn op) s r s'"
  shows "answers_receipt cs op r \<and> st_db s' = st_db s"
proof -
  from assms obtain k r0 s1 where "selectOperationReplayCandidate op cs q = Some k"
      "runs (hydrateOperationResult store tables io row turn op (cc_Command k) (cc_Mode k)) s r0 s1"
      "attemptMatchesFence (cmr_Attempt r0) (cm_Fence (cc_Command k))" "r = r0\<lparr>cmr_Replay := True\<rparr>"
    unfolding commit_replay_def by (auto simp: runs_basic runs_bind runs_check split: option.splits)
  with select_SomeD runs_hydrate have "answers_receipt cs op r" unfolding answers_receipt_def by fastforce
  with readsD [OF reads_commit_replay assms] show ?thesis by simp
qed


subsection \<open>The writes of a fresh commit\<close>

definition effect_written ::
  "sql_io \<Rightarrow> TurnAttempt \<Rightarrow> string \<Rightarrow> time \<Rightarrow> EffectOutboxDraft \<Rightarrow> sqlEffectOutboxRow \<Rightarrow> bool"
where
  "effect_written io attempt operationID now d row \<longleftrightarrow>
     (\<exists>n ordinal availableAt. canonicalExecutionTime (eod_AvailableAt d) = Inr availableAt
        \<and> row = (new_effect_row attempt operationID ordinal d availableAt now)
                  \<lparr>ef_ID := n, ef_PayloadJSON := io_json io (eod_Payload d)\<rparr>)"

lemma runs_create_operation:
  assumes "runs (create_operation io row) s u s'"
  shows "(\<forall>r \<in> set (db_operations (st_db s)). \<not> same_operation_key r row)
    \<and> st_db s' = (st_db s)\<lparr>db_operations := db_operations (st_db s) @ [row\<lparr>op_ID := db_autoinc (st_db s)\<rparr>],
         db_autoinc := Suc (db_autoinc (st_db s))\<rparr>"
  using runs_insert_row [OF assms [unfolded create_operation_def]] by simp

lemma runs_create_effect:
  assumes "runs (create_effect io row) s u s'"
  shows "(\<forall>r \<in> set (db_outbox (st_db s)). \<not> same_effect_key r row)
    \<and> st_db s' = (st_db s)\<lparr>db_outbox := db_outbox (st_db s)
         @ [row\<lparr>ef_ID := db_autoinc (st_db s), ef_PayloadJSON := io_json io (ef_PayloadJSON row)\<rparr>],
         db_autoinc := Suc (db_autoinc (st_db s))\<rparr>"
  using runs_insert_row [OF assms [unfolded create_effect_def]] by simp

lemma runs_create_review:
  assumes "runs (create_review io row) s u s'"
  shows "(\<forall>r \<in> set (db_reviews (st_db s)). \<not> same_review_key r row)
    \<and> st_db s' = (st_db s)\<lparr>db_reviews := db_reviews (st_db s) @ [row\<lparr>sv_ID := db_autoinc (st_db s)\<rparr>],
         db_autoinc := Suc (db_autoinc (st_db s))\<rparr>"
  using runs_insert_row [OF assms [unfolded create_review_def]] by simp

lemma buildEffectOutboxRow_Inr:
  assumes "buildEffectOutboxRow attempt operationID ordinal d now = Inr (row, rc)"
  shows "\<exists>availableAt. canonicalExecutionTime (eod_AvailableAt d) = Inr availableAt
    \<and> row = new_effect_row attempt operationID ordinal d availableAt now \<and> rc = effect_record row"
proof -
  from assms obtain t where t: "canonicalExecutionTime (eod_AvailableAt d) = Inr t"
      "map_sum id (Pair (new_effect_row attempt operationID ordinal d t now))
         (effect_toRecord (new_effect_row attempt operationID ordinal d t now)) = Inr (row, rc)"
    by (auto simp: buildEffectOutboxRow_def Let_def split: if_splits sum.splits)
  from t(2) have "row = new_effect_row attempt operationID ordinal d t now"
      "effect_toRecord (new_effect_row attempt operationID ordinal d t now) = Inr rc"
    by (cases "effect_toRecord (new_effect_row attempt operationID ordinal d t now)"; simp)+
  with t(1) show ?thesis by (auto simp: effect_toRecord_def split: if_splits)
qed

lemma runs_create_effects:
  assumes "runs (create_effects io attempt operationID now ordinal ds) s records s'"
  shows "\<exists>rows. list_all2 (effect_written io attempt operationID now) ds rows
    \<and> map ef_Ordinal rows = map (\<lambda>k. ordinal + int k) [0..<length ds]
    \<and> map eor_OutboxID records = map eod_OutboxID ds
    \<and> st_db s' = (st_db s)\<lparr>db_outbox := db_outbox (st_db s) @ rows, db_autoinc := db_autoinc (st_db s) + length rows\<rparr>"
  using assms
proof (induction ds arbitrary: s ordinal records)
  case Nil
  then show ?case by (simp add: runs_basic)
next
  case (Cons d ds)
  from Cons.prems obtain row rc s1 rest where
    steps: "buildEffectOutboxRow attempt operationID ordinal d now = Inr (row, rc)"
      "runs (create_effect io row) s () s1" "records = rc # rest"
      "runs (create_effects io attempt operationID now (ordinal + 1) ds) s1 rest s'"
    by (auto simp: runs_basic runs_bind split: sum.splits)
  from Cons.IH [OF steps(4)] obtain rows where
    rows: "list_all2 (effect_written io attempt operationID now) ds rows"
      "map ef_Ordinal rows = map (\<lambda>k. ordinal + 1 + int k) [0..<length ds]" "map eor_OutboxID rest = map eod_OutboxID ds"
      "st_db s' = (st_db s1)\<lparr>db_outbox := db_outbox (st_db s1) @ rows, db_autoinc := db_autoinc (st_db s1) + length rows\<rparr>"
    by blast
  from buildEffectOutboxRow_Inr [OF steps(1)] obtain t where
    t: "canonicalExecutionTime (eod_AvailableAt d) = Inr t" "row = new_effect_row attempt operationID ordinal d t now"
      "rc = effect_record row" by blast
  let ?row = "row\<lparr>ef_ID := db_autoinc (st_db s), ef_PayloadJSON := io_json io (ef_PayloadJSON row)\<rparr>"
  have "effect_written io attempt operationID now d ?row"
    using t unfolding effect_written_def by (auto simp: new_effect_row_def)
  moreover have "map (\<lambda>k. ordinal + int k) [0..<Suc (length ds)] = ordinal # map (\<lambda>k. ordinal + 1 + int k) [0..<length ds]"
    by (simp add: upt_conv_Cons map_Suc_upt [symmetric] del: upt_Suc map_Suc_upt)
  ultimately show ?case using rows t steps(3) runs_create_effect [OF steps(2)]
    by (intro exI [of _ "?row # rows"]) (simp add: new_effect_row_def effect_record_def del: upt_Suc)
qed

definition hold_rows :: "TurnID \<Rightarrow> time \<Rightarrow> sqlEffectOutboxRow list \<Rightarrow> sqlEffectOutboxRow list" where
  "hold_rows turnID now = update_rows
     (\<lambda>r. ef_TurnID r = turnID \<and> (ef_Status r = EffectStatusPending \<or> ef_Status r = EffectStatusDelivering))
     (\<lambda>r. r\<lparr>ef_Status := EffectStatusReviewHold, ef_LeaseOwnerID := None, ef_LeaseExpiresAt := None,
            ef_UpdatedAt := (if ef_UpdatedAt r > now then ef_UpdatedAt r else now)\<rparr>)"

lemma hold_rows_status:
  assumes "e \<in> set (hold_rows i now rows)" "ef_TurnID e = i"
  shows "ef_Status e \<noteq> EffectStatusPending \<and> ef_Status e \<noteq> EffectStatusDelivering"
proof -
  let ?p = "\<lambda>r. ef_TurnID r = i \<and> (ef_Status r = EffectStatusPending \<or> ef_Status r = EffectStatusDelivering)"
  let ?f = "\<lambda>r. r\<lparr>ef_Status := EffectStatusReviewHold, ef_LeaseOwnerID := None, ef_LeaseExpiresAt := None,
    ef_UpdatedAt := (if ef_UpdatedAt r > now then ef_UpdatedAt r else now)\<rparr>"
  from assms(1) obtain r where r: "e = (if ?p r then ?f r else r)" unfolding hold_rows_def set_update_rows by blast
  show ?thesis
  proof (cases "?p r")
    case True
    from r if_P [OF True] have "e = ?f r" by (rule trans)
    then show ?thesis by simp
  next
    case False
    from r if_not_P [OF False] have "e = r" by (rule trans)
    with False assms(2) show ?thesis by blast
  qed
qed

lemma runs_commit_hold:
  assumes "runs (commit_hold store io turnID review effects now) s (effects', openedAt) s'"
  shows "st_db s' = (st_db s)\<lparr>db_outbox := (if review = None then db_outbox (st_db s)
      else hold_rows turnID now (db_outbox (st_db s)))\<rparr>
    \<and> map eor_OutboxID effects' = map eor_OutboxID effects"
  using assms unfolding commit_hold_def holdTurnEffectsForReview_def hold_rows_def
  by (auto simp: runs_basic runs_bind runs_statement held_effect_def split: option.splits dest!: runs_executionNow)

text \<open>The commercial outcome of a terminal commit: the authority has accepted, or a Review is open.\<close>

definition accepted :: "(nat \<Rightarrow> sql_db \<Rightarrow> 'c \<Rightarrow> go_error option) \<Rightarrow> 'c \<Rightarrow> bool" where
  "accepted verdict c \<longleftrightarrow> (\<exists>n db. verdict n db c = None)"

definition settled :: "(string \<Rightarrow> string) \<Rightarrow> SettlementStore \<Rightarrow> SettlementCommand \<Rightarrow> bool" where
  "settled sha store c \<longleftrightarrow> \<not> sn_violated store
     \<and> (\<forall>authority. sn_settlement store = Some authority \<longrightarrow>
          SettlementCommand_Validate sha c = None \<and> accepted (sa_Settle authority) c)"

lemma runs_ask_authority: "runs (ask_authority verdict c e) s u s' \<Longrightarrow> accepted verdict c \<and> st_db s' = st_db s"
  by (auto simp: runs_def ask_authority_def accepted_def split: if_splits)

lemma runs_settle:
  assumes "runs (settle sha store c) s u s'"
  shows "settled sha store c \<and> st_db s' = st_db s"
proof -
  from assms have "settled sha store c" unfolding settle_def
    by (auto simp: runs_check runs_guard runs_basic settled_def split: option.splits dest!: runs_ask_authority)
  with readsD [OF reads_settle assms] show ?thesis by simp
qed

definition review_opened :: "sql_io \<Rightarrow> SettlementReviewRecord \<Rightarrow> nat \<Rightarrow> sqlSettlementReviewRow" where
  "review_opened io review n = (review_row review)\<lparr>sv_ID := n\<rparr>"

lemma runs_persistWithAuthority:
  assumes "runs (persistSettlementReviewWithAuthority io turn review hold) s u s'"
  shows "rv_Status review = SettlementReviewStatusPending \<and> SettlementReviewRecord_Validate (io_sha io) review = None
    \<and> accepted hold \<lparr>hc_Review = review, hc_PrincipalID = t_PrincipalID turn\<rparr>
    \<and> st_db s' = (st_db s)\<lparr>db_reviews := db_reviews (st_db s) @ [review_opened io review (db_autoinc (st_db s))],
         db_autoinc := Suc (db_autoinc (st_db s))\<rparr>"
proof -
  from assms obtain s1 where steps: "rv_Status review = SettlementReviewStatusPending"
      "SettlementReviewRecord_Validate (io_sha io) review = None" "runs (create_review io (review_row review)) s () s1"
      "runs (ask_authority hold \<lparr>hc_Review = review, hc_PrincipalID = t_PrincipalID turn\<rparr>
         (Wrapf ''hold pending review'' ErrSettlementReviewFailed)) s1 () s'"
    unfolding persistSettlementReviewWithAuthority_def settlementReviewToSQLRow_def Let_def
    by (auto simp: runs_check runs_basic runs_bind split: option.splits sum.splits)
  with runs_create_review [OF steps(3)] runs_ask_authority [OF steps(4)] show ?thesis by (simp add: review_opened_def)
qed


definition held :: "SettlementStore \<Rightarrow> SettlementReviewHoldCommand \<Rightarrow> bool" where
  "held store c \<longleftrightarrow> \<not> sn_violated store
     \<and> (\<exists>authority hold. sn_settlement store = Some authority \<and> sa_HoldForReview authority = Some hold \<and> accepted hold c)"

definition commercial_outcome ::
  "sql_io \<Rightarrow> SettlementStore \<Rightarrow> CommitAttemptCommand \<Rightarrow> Turn \<Rightarrow> SettlementReviewRecord option \<Rightarrow> bool"
where
  "commercial_outcome io store c turn review =
     (case review of
        None \<Rightarrow> settled (io_sha io) store (settlement_command (io_sha io) c turn)
      | Some rv \<Rightarrow> rv_Status rv = SettlementReviewStatusPending \<and> SettlementReviewRecord_Validate (io_sha io) rv = None
          \<and> held store \<lparr>hc_Review = rv, hc_PrincipalID = t_PrincipalID turn\<rparr>)"

definition installed_hold :: "SettlementStore \<Rightarrow> hold_authority \<Rightarrow> bool" where
  "installed_hold store hold \<longleftrightarrow> \<not> sn_violated store
     \<and> (\<exists>authority. sn_settlement store = Some authority \<and> sa_HoldForReview authority = Some hold)"

lemma installed_holdI:
  "settlementReviewUsageAuthorityLocked store = Inr hold \<Longrightarrow> installed_hold store hold"
  "settlementReviewProviderUsageAuthorityLocked store = Inr hold \<Longrightarrow> installed_hold store hold"
  "reviewAuthority store = Some hold \<Longrightarrow> installed_hold store hold"
  unfolding settlementReviewUsageAuthorityLocked_def settlementReviewProviderUsageAuthorityLocked_def
    reviewAuthority_def installed_hold_def
  by (auto split: if_splits option.splits simp: bind_eq_Some_conv)

lemma runs_persist:
  assumes "runs (persistSettlementReview store io turn review) s u s'"
  shows "\<exists>hold. installed_hold store hold \<and> runs (persistSettlementReviewWithAuthority io turn review hold) s u s'"
  using assms unfolding persistSettlementReview_def
  by (auto simp: runs_check runs_bind runs_basic split: if_splits option.splits intro: installed_holdI)

definition review_rows :: "SettlementReviewRecord option \<Rightarrow> nat \<Rightarrow> sqlSettlementReviewRow list" where
  "review_rows review n = (case review of None \<Rightarrow> [] | Some rv \<Rightarrow> [(review_row rv)\<lparr>sv_ID := n\<rparr>])"

lemma runs_commit_settlement:
  assumes "runs (commit_settlement store io providerHold c turn review openedAt) s out s'"
    and "\<And>hold. providerHold = Some hold \<Longrightarrow> installed_hold store hold"
  shows "st_db s' = (st_db s)\<lparr>db_reviews := db_reviews (st_db s) @ review_rows out (db_autoinc (st_db s)),
      db_autoinc := db_autoinc (st_db s) + length (review_rows out (db_autoinc (st_db s)))\<rparr>
    \<and> (cm_TerminalStatus c = TurnStatusOther '''' \<longrightarrow> out = None)
    \<and> (cm_TerminalStatus c \<noteq> TurnStatusOther '''' \<longrightarrow> commercial_outcome io store c turn out
         \<and> out = map_option (\<lambda>rv. rv\<lparr>rv_CreatedAt := openedAt, rv_UpdatedAt := openedAt\<rparr>) review)"
proof (cases "cm_TerminalStatus c = TurnStatusOther '''' \<or> review = None")
  case True
  then show ?thesis using assms(1)
    by (auto simp: commit_settlement_def runs_basic runs_bind commercial_outcome_def review_rows_def
        split: if_splits dest!: runs_settle)
next
  case False
  then obtain rv where rv: "review = Some rv" by blast
  let ?o = "rv\<lparr>rv_CreatedAt := openedAt, rv_UpdatedAt := openedAt\<rparr>"
  from assms(1) False rv have out: "out = Some ?o" and "runs (case providerHold of
      Some hold \<Rightarrow> persistSettlementReviewWithAuthority io turn ?o hold | None \<Rightarrow> persistSettlementReview store io turn ?o) s () s'"
    by (auto simp: commit_settlement_def Let_def runs_bind runs_basic)
  with assms(2) obtain hold where "installed_hold store hold" "runs (persistSettlementReviewWithAuthority io turn ?o hold) s () s'"
    by (cases providerHold) (auto dest: runs_persist)
  with runs_persistWithAuthority [OF this(2)] out rv False show ?thesis
    by (auto simp: commercial_outcome_def held_def installed_hold_def review_rows_def review_opened_def)
qed

text \<open>Everything a fresh commit writes, from the database \<open>db\<close> it found to the one it leaves.\<close>

definition committed ::
  "SettlementStore \<Rightarrow> sql_io \<Rightarrow> CommitAttemptCommand \<Rightarrow> string \<Rightarrow> sqlTurnRow \<Rightarrow> sqlTurnAttemptRow \<Rightarrow> time
     \<Rightarrow> CommitAttemptResult \<Rightarrow> sql_db \<Rightarrow> sql_db \<Rightarrow> bool"
where
  "committed store io c digest row attemptRow now r db db' \<longleftrightarrow>
     (let terminal = cm_TerminalStatus c \<noteq> TurnStatusOther ''''; turn = cmr_Turn r; attempt = cmr_Attempt r;
          seq = ev_Sequence (cmr_Event r); review = cmr_SettlementReview r in
      \<not> cmr_Replay r \<and> cmr_OperationID r = cm_OperationID c \<and> cmr_OperationDigest r = digest
      \<and> nextSQLSequence (tr_LastEventSequence row) = Inr seq
      \<and> (\<exists>er n. eventToSQLRow (io_json io) (cmr_Event r) now = Inr er \<and> db_events db' = db_events db @ [er\<lparr>er_ID := n\<rparr>])
      \<and> (\<forall>op \<in> set (db_operations db). \<not> (op_TurnID op = t_ID turn \<and> op_OperationID op = cm_OperationID c))
      \<and> (\<exists>n. db_operations db' = db_operations db
            @ [(operation_row turn attempt (cm_OperationID c) digest seq (length (cm_Effects c)) now)\<lparr>op_ID := n\<rparr>])
      \<and> (\<exists>rows. list_all2 (effect_written io attempt (cm_OperationID c) now) (cm_Effects c) rows
            \<and> map ef_Ordinal rows = map int [0..<length (cm_Effects c)]
            \<and> db_outbox db' = (if review = None then db_outbox db @ rows else hold_rows (t_ID turn) now (db_outbox db @ rows)))
      \<and> db_attempts db' = update_rows (\<lambda>a. at_ID a = at_ID attemptRow) (commit_attempt_columns terminal attempt now) (db_attempts db)
      \<and> db_turns db' = update_rows (\<lambda>t. tr_TurnID t = t_ID turn) (commit_turn_columns terminal turn seq now) (db_turns db)
      \<and> (\<exists>n. db_reviews db' = db_reviews db @ review_rows review n)
      \<and> db_autoinc db \<le> db_autoinc db'
      \<and> (if terminal then commercial_outcome io store c turn review else review = None))"

lemma runs_commit_writes:
  assumes "runs (commit_writes store io providerHold c digest row attemptRow move now) s r s'"
    and "\<And>hold. providerHold = Some hold \<Longrightarrow> installed_hold store hold"
    and "cm_TerminalStatus c = TurnStatusOther '''' \<Longrightarrow> mv_Review move = None"
  shows "committed store io c digest row attemptRow now r (st_db s) (st_db s')
    \<and> cmr_Turn r = mv_Turn move \<and> cmr_Attempt r = mv_Attempt move
    \<and> buildEvent (mv_Turn move) (ev_Sequence (cmr_Event r)) (mv_Draft move) = Inr (cmr_Event r)
    \<and> (\<exists>t. cmr_SettlementReview r = map_option (\<lambda>rv. rv\<lparr>rv_CreatedAt := t, rv_UpdatedAt := t\<rparr>) (mv_Review move))"
proof -
  let ?turn = "mv_Turn move" and ?attempt = "mv_Attempt move" and ?terminal = "cm_TerminalStatus c \<noteq> TurnStatusOther ''''"
  let ?op = "\<lambda>event. operation_row ?turn ?attempt (cm_OperationID c) digest (ev_Sequence event) (length (cm_Effects c)) now"
  from assms(1) obtain seq event s1 s2 s3 s4 s5 s6 created effects openedAt review where
    steps: "nextSQLSequence (tr_LastEventSequence row) = Inr seq" "buildEvent ?turn seq (mv_Draft move) = Inr event"
      "runs (insertEvent io event now) s () s1" "runs (create_operation io (?op event)) s1 () s2"
      "runs (create_effects io ?attempt (cm_OperationID c) now 0 (cm_Effects c)) s2 created s3"
      "runs (commit_hold (sn_store store) io (t_ID ?turn) (mv_Review move) created now) s3 (effects, openedAt) s4"
      "runs (updateAttemptColumns io (at_ID attemptRow) (commit_attempt_columns ?terminal ?attempt now)) s4 () s5"
      "runs (updateTurnColumns (sn_store store) io (t_ID ?turn)
         (commit_turn_columns ?terminal ?turn (ev_Sequence event) now)) s5 () s6"
      "runs (commit_settlement store io providerHold c ?turn (mv_Review move) openedAt) s6 review s'"
      "r = operation_result (?op event) event ?turn ?attempt effects review"
    unfolding commit_writes_def Let_def runs_check runs_bind runs_basic by (auto simp: runs_bind runs_basic)
  have seq: "ev_Sequence event = seq" using buildEvent_Inr [OF steps(2)] by simp
  from runs_insertEvent [OF steps(3)] obtain er where er: "eventToSQLRow (io_json io) event now = Inr er"
    and d1: "st_db s1 = (st_db s)\<lparr>db_events := db_events (st_db s) @ [er\<lparr>er_ID := db_autoinc (st_db s)\<rparr>],
       db_autoinc := Suc (db_autoinc (st_db s))\<rparr>" by blast
  note d2 = runs_create_operation [OF steps(4)]
  from runs_create_effects [OF steps(5)] obtain rows where
    rows: "list_all2 (effect_written io ?attempt (cm_OperationID c) now) (cm_Effects c) rows"
      "map ef_Ordinal rows = map int [0..<length (cm_Effects c)]"
      "st_db s3 = (st_db s2)\<lparr>db_outbox := db_outbox (st_db s2) @ rows, db_autoinc := db_autoinc (st_db s2) + length rows\<rparr>"
    by auto
  note d4 = runs_commit_hold [OF steps(6)]
  note d5 = runs_updateAttemptColumns [OF steps(7)] and d6 = runs_updateTurnColumns [OF steps(8)]
  note d7 = runs_commit_settlement [OF steps(9) assms(2)]
  have review: "cmr_SettlementReview r = review" "review = None \<longleftrightarrow> mv_Review move = None"
      "review = map_option (\<lambda>rv. rv\<lparr>rv_CreatedAt := openedAt, rv_UpdatedAt := openedAt\<rparr>) (mv_Review move)"
    using steps(10) d7 assms(3) by (auto simp: operation_result_def)
  have res: "cmr_Turn r = ?turn" "cmr_Attempt r = ?attempt" "cmr_Event r = event" "\<not> cmr_Replay r"
      "cmr_OperationID r = cm_OperationID c" "cmr_OperationDigest r = digest"
    using steps(10) by (simp_all add: operation_result_def operation_row_def)
  have db: "db_events (st_db s') = db_events (st_db s) @ [er\<lparr>er_ID := db_autoinc (st_db s)\<rparr>]"
      "db_operations (st_db s') = db_operations (st_db s) @ [(operation_row ?turn ?attempt (cm_OperationID c) digest seq
         (length (cm_Effects c)) now)\<lparr>op_ID := Suc (db_autoinc (st_db s))\<rparr>]"
      "db_outbox (st_db s') = (if review = None then db_outbox (st_db s) @ rows
         else hold_rows (t_ID ?turn) now (db_outbox (st_db s) @ rows))"
      "db_attempts (st_db s') = update_rows (\<lambda>a. at_ID a = at_ID attemptRow) (commit_attempt_columns ?terminal ?attempt now)
         (db_attempts (st_db s))"
      "db_turns (st_db s') = update_rows (\<lambda>t. tr_TurnID t = t_ID ?turn) (commit_turn_columns ?terminal ?turn seq now) (db_turns (st_db s))"
      "db_reviews (st_db s') = db_reviews (st_db s) @ review_rows review (db_autoinc (st_db s6))"
      "db_autoinc (st_db s) \<le> db_autoinc (st_db s')"
    using d1 d2 d4 d5 d6 d7 rows(3) seq review(2) by simp_all
  have fresh: "\<forall>op \<in> set (db_operations (st_db s)). \<not> (op_TurnID op = t_ID ?turn \<and> op_OperationID op = cm_OperationID c)"
    using d1 d2 by (simp add: same_operation_key_def operation_row_def)
  have "committed store io c digest row attemptRow now r (st_db s) (st_db s')"
    unfolding committed_def Let_def res review(1) seq
  proof (intro conjI)
    show "\<exists>er n. eventToSQLRow (io_json io) event now = Inr er \<and> db_events (st_db s') = db_events (st_db s) @ [er\<lparr>er_ID := n\<rparr>]"
      using er db(1) by blast
    show "if ?terminal then commercial_outcome io store c ?turn review else review = None"
      unfolding if_bool_eq_conj using d7 by blast
  qed (use res steps(1) db fresh rows(1,2) in blast)+
  with res review(1,3) seq steps(2) show ?thesis by blast
qed


subsection \<open>When a fresh commit is allowed\<close>

text \<open>The state of the database in which a worker may commit: its fence is live and the Turn is open.\<close>

definition commit_allowed ::
  "sql_io \<Rightarrow> CommitAttemptCommand \<Rightarrow> sql_db \<Rightarrow> sqlTurnRow \<Rightarrow> Turn \<Rightarrow> sqlTurnAttemptRow \<Rightarrow> time \<Rightarrow> bool"
where
  "commit_allowed io c db row turn a now \<longleftrightarrow>
     turn_at db (af_TurnID (cm_Fence c)) = Some row \<and> toTurn row = Inr turn \<and> rowOwnsFence row (cm_Fence c)
     \<and> \<not> TurnStatus_Terminal (t_Status turn)
     \<and> a \<in> set (db_attempts db) \<and> toAttempt a = Inr (row_attempt a) \<and> attemptMatchesFence (row_attempt a) (cm_Fence c)
     \<and> at_Status a = AttemptStatusRunning \<and> clock_read io now \<and> at_LastHeartbeatAt a \<le> now \<and> now < at_LeaseExpiresAt a
     \<and> (t_CancelRequestedAt turn \<noteq> None \<longrightarrow> cm_TerminalStatus c = TurnStatusStopped)"

text \<open>The state it moves to.\<close>

definition commit_moves :: "CommitAttemptCommand \<Rightarrow> Turn \<Rightarrow> TurnAttempt \<Rightarrow> time \<Rightarrow> Turn \<Rightarrow> TurnAttempt \<Rightarrow> bool" where
  "commit_moves c turn attempt now nextTurn nextAttempt \<longleftrightarrow>
     (if cm_TerminalStatus c = TurnStatusOther ''''
      then nextTurn = turn \<and> nextAttempt = attempt\<lparr>ta_UpdatedAt := now\<rparr>
      else CanTransition (t_Status turn) (cm_TerminalStatus c)
        \<and> (cm_TerminalStatus c = TurnStatusStopped \<longrightarrow> t_CancelRequestedAt turn \<noteq> None)
        \<and> nextTurn = finished_turn turn (cm_TerminalStatus c) now
        \<and> nextAttempt = finished_attempt attempt (cm_TerminalStatus c) now)"

lemma commit_next_Inr:
  assumes "commit_next sha plan c turn attempt evidence now = Inr move"
  shows "commit_moves c turn attempt now (mv_Turn move) (mv_Attempt move)
    \<and> (cm_TerminalStatus c = TurnStatusOther '''' \<longrightarrow> mv_Review move = None \<and> cm_Event c = Some (mv_Draft move))
    \<and> (cm_TerminalStatus c \<noteq> TurnStatusOther '''' \<longrightarrow>
         statusEventWithSettlementReview (cm_TerminalStatus c) (cm_TerminalStatus c = TurnStatusStopped) (mv_Review move)
           = Inr (mv_Draft move))"
proof (cases "cm_TerminalStatus c = TurnStatusOther ''''")
  case True
  then show ?thesis using assms by (auto simp: commit_next_def commit_moves_def split: option.splits)
next
  case False
  let ?t = "finished_turn turn (cm_TerminalStatus c) now" and ?a = "finished_attempt attempt (cm_TerminalStatus c) now"
  from assms False obtain review where
    steps: "CanTransition (t_Status turn) (cm_TerminalStatus c)"
      "cm_TerminalStatus c = TurnStatusStopped \<longrightarrow> t_CancelRequestedAt turn \<noteq> None"
      "map_sum id (\<lambda>draft. \<lparr>mv_Turn = ?t, mv_Attempt = ?a, mv_Review = review, mv_Draft = draft\<rparr>)
         (statusEventWithSettlementReview (cm_TerminalStatus c) (cm_TerminalStatus c = TurnStatusStopped) review) = Inr move"
    by (auto simp: commit_next_def Let_def split: if_splits sum.splits)
  then show ?thesis using False
    by (cases "statusEventWithSettlementReview (cm_TerminalStatus c) (cm_TerminalStatus c = TurnStatusStopped) review")
      (auto simp: commit_moves_def)
qed

lemma runs_commit_guards:
  assumes "runs (commit_guards store io c row turn a) s (attempt, now) s'"
  shows "rowOwnsFence row (cm_Fence c) \<and> \<not> TurnStatus_Terminal (t_Status turn) \<and> toAttempt a = Inr attempt
    \<and> attemptMatchesFence attempt (cm_Fence c) \<and> ta_Status attempt = AttemptStatusRunning \<and> clock_read io now
    \<and> ta_LastHeartbeatAt attempt \<le> now \<and> now < ta_LeaseExpiresAt attempt
    \<and> (t_CancelRequestedAt turn \<noteq> None \<longrightarrow> cm_TerminalStatus c = TurnStatusStopped) \<and> st_db s' = st_db s"
  using assms unfolding commit_guards_def clock_read_def
  by (auto simp: runs_check runs_decode runs_bind runs_basic not_less dest!: runs_executionNow)

text \<open>A fresh commit as a whole: allowed in the database it found, and the writes it makes there.\<close>

definition commits ::
  "SettlementStore \<Rightarrow> sql_io \<Rightarrow> CommitAttemptCommand \<Rightarrow> string \<Rightarrow> CommitAttemptResult \<Rightarrow> sql_db \<Rightarrow> sql_db \<Rightarrow> bool"
where
  "commits store io c digest r db db' \<longleftrightarrow> (\<exists>row turn a now.
     commit_allowed io c db row turn a now
     \<and> commit_moves c turn (row_attempt a) now (cmr_Turn r) (cmr_Attempt r)
     \<and> (\<exists>draft. buildEvent (cmr_Turn r) (ev_Sequence (cmr_Event r)) draft = Inr (cmr_Event r)
          \<and> (if cm_TerminalStatus c = TurnStatusOther '''' then cm_Event c = Some draft
             else statusEventWithSettlementReview (cm_TerminalStatus c) (cm_TerminalStatus c = TurnStatusStopped)
                    (cmr_SettlementReview r) = Inr draft))
     \<and> committed store io c digest row a now r db db')"

lemma statusEvent_times:
  "statusEventWithSettlementReview st b (map_option (\<lambda>rv. rv\<lparr>rv_CreatedAt := t, rv_UpdatedAt := t'\<rparr>) review)
     = statusEventWithSettlementReview st b review"
  by (cases review) (simp_all add: statusEventWithSettlementReview_def)


lemma runs_commit_fresh:
  assumes "runs (commit_fresh store tables io plan providerHold row turn a) s r s'"
    and "c = cc_Command (hd (cp_Candidates plan))" "turn_at (st_db s) (af_TurnID (cm_Fence c)) = Some row"
    and "toTurn row = Inr turn" "a \<in> set (db_attempts (st_db s))"
    and "\<And>hold. providerHold = Some hold \<Longrightarrow> installed_hold store hold"
  shows "commits store io c (cc_Digest (hd (cp_Candidates plan))) r (st_db s) (st_db s')"
proof -
  let ?digest = "cc_Digest (hd (cp_Candidates plan))"
  from assms(1) obtain attempt now s1 evidence s2 move where
    steps: "runs (commit_guards (sn_store store) io c row turn a) s (attempt, now) s1"
      "runs (commit_evidence store tables io plan c turn) s1 evidence s2"
      "commit_next (io_sha io) plan c turn attempt evidence now = Inr move"
      "runs (commit_writes store io providerHold c ?digest row a move now) s2 r s'"
    unfolding commit_fresh_def Let_def assms(2) [symmetric] by (auto simp: runs_bind runs_basic)
  note g = runs_commit_guards [OF steps(1)]
  have attempt: "attempt = row_attempt a" using g toAttempt_Inr by blast
  have d2: "st_db s2 = st_db s" using readsD [OF reads_commit_evidence steps(2)] g by simp
  note n = commit_next_Inr [OF steps(3)]
  have "cm_TerminalStatus c = TurnStatusOther '''' \<Longrightarrow> mv_Review move = None" using n by blast
  note w = runs_commit_writes [OF steps(4) assms(6) this, unfolded d2]
  have allowed: "commit_allowed io c (st_db s) row turn a now"
    unfolding commit_allowed_def using g assms(3-5) by (simp add: attempt)
  have "commit_moves c turn (row_attempt a) now (cmr_Turn r) (cmr_Attempt r)" using n w by (simp add: attempt)
  moreover have "buildEvent (cmr_Turn r) (ev_Sequence (cmr_Event r)) (mv_Draft move) = Inr (cmr_Event r)
      \<and> (if cm_TerminalStatus c = TurnStatusOther '''' then cm_Event c = Some (mv_Draft move)
         else statusEventWithSettlementReview (cm_TerminalStatus c) (cm_TerminalStatus c = TurnStatusStopped)
                (cmr_SettlementReview r) = Inr (mv_Draft move))"
    using n w by (auto simp: statusEvent_times)
  ultimately show ?thesis unfolding commits_def using allowed w by blast
qed

lemma runs_try_result: "runs (tx_try m k) s y s' \<longleftrightarrow> (\<exists>x s1. m s = (x, s1) \<and> runs (k x) s1 y s')"
  by (cases "m s") (simp add: runs_def tx_try_def)

text \<open>A transaction of a commit either answers from the receipt it finds or commits afresh.\<close>

lemma commitAttempt_tx_cases:
  assumes "runs (commitAttempt_tx store tables io plan) s r s'" "c = cc_Command (hd (cp_Candidates plan))"
  obtains (replay) op where "op \<in> set (db_operations (st_db s))" "op_TurnID op = af_TurnID (cm_Fence c)"
      "op_OperationID op = cm_OperationID c" "answers_receipt (cp_Candidates plan) op r" "st_db s' = st_db s"
    | (fresh) "commits store io c (cc_Digest (hd (cp_Candidates plan))) r (st_db s) (st_db s')" "\<not> cp_Untrusted plan"
proof -
  let ?f = "cm_Fence c"
  from assms(1) obtain row s1 turn providerHold locked s2 found s3 where
    steps: "runs (lockTurn (sn_store store) io (\<lambda>r. tr_TurnID r = af_TurnID ?f)) s row s1" "toTurn row = Inr turn"
      "(if cp_ProviderUsage plan then map_sum id Some (settlementReviewProviderUsageAuthorityLocked store) else Inr None)
         = Inr providerHold"
      "lockAttempt io (af_TurnID ?f) (af_AttemptID ?f) (sint (af_FencingToken ?f)) s1 = (locked, s2)"
      "runs (lookupOperationTx io (af_TurnID ?f) (cm_OperationID c)) s2 found s3"
      "runs (case found of Some op \<Rightarrow> commit_replay store tables io (cp_Candidates plan) (cp_Untrusted plan) row turn op
             | None \<Rightarrow> tx_check (cp_Untrusted plan) ErrSettlementCompletedUsageUntrusted (case locked of
                 Inl e \<Rightarrow> tx_fail ErrAttemptFenced
               | Inr a \<Rightarrow> commit_fresh store tables io plan providerHold row turn a)) s3 r s'"
    unfolding commitAttempt_tx_def Let_def assms(2) [symmetric] runs_bind runs_decode runs_basic runs_try_result runs_guard
    by blast
  have s1: "turn_at (st_db s) (af_TurnID ?f) = Some row" "st_db s1 = st_db s"
    using runs_lockTurn [OF steps(1)] by (auto simp: turn_at_def)
  have s2: "st_db s2 = st_db s" using readsD_fail [OF reads_lockAttempt steps(4)] s1(2) by simp
  note look = runs_lookup_row [OF steps(5) [unfolded lookupOperationTx_def]]
  have s3: "st_db s3 = st_db s" using look s2 by simp
  show thesis
  proof (cases found)
    case (Some op)
    then have "find (\<lambda>r. op_TurnID r = af_TurnID ?f \<and> op_OperationID r = cm_OperationID c) (db_operations (st_db s)) = Some op"
      using look s2 by simp
    from find_SomeD [OF this] runs_commit_replay [of store tables io _ _ row turn op s3 r s'] steps(6) Some s3
    show thesis by (intro replay [of op]) auto
  next
    case None
    with steps(6) obtain a where a: "locked = Inr a" "\<not> cp_Untrusted plan"
        "runs (commit_fresh store tables io plan providerHold row turn a) s3 r s'"
      by (auto simp: runs_check runs_basic split: sum.splits)
    have "a \<in> set (db_attempts (st_db s))"
      using runs_lockAttempt [of io _ _ _ s1 a s2] steps(4) a(1) s1(2) find_SomeD by (fastforce simp: runs_def)
    moreover have "installed_hold store hold" if "providerHold = Some hold" for hold
    proof -
      from steps(3) that have "settlementReviewProviderUsageAuthorityLocked store = Inr hold"
        by (cases "settlementReviewProviderUsageAuthorityLocked store") (auto split: if_splits)
      then show ?thesis by (rule installed_holdI)
    qed
    ultimately have "commits store io c (cc_Digest (hd (cp_Candidates plan))) r (st_db s3) (st_db s')"
      using s1(1) s3 steps(2) by (intro runs_commit_fresh [OF a(3) assms(2)]) simp_all
    then show thesis unfolding s3 by (rule fresh) (rule a(2))
  qed
qed


subsection \<open>Commits and execution epochs\<close>

lemma commit_columns_sel [simp]:
  "at_ID (commit_attempt_columns b a' now a) = at_ID a" "at_AttemptID (commit_attempt_columns b a' now a) = at_AttemptID a"
  "at_TurnID (commit_attempt_columns b a' now a) = at_TurnID a"
  "at_FencingToken (commit_attempt_columns b a' now a) = at_FencingToken a"
  "at_Status (commit_attempt_columns b a' now a) = (if b then ta_Status a' else at_Status a)"
  "same_attempt (commit_attempt_columns b a' now a) a"
  by (simp_all add: commit_attempt_columns_def same_attempt_def)

lemma commit_turn_columns_sel [simp]:
  "tr_TurnID (commit_turn_columns b t q now r) = tr_TurnID r" "tr_FencingToken (commit_turn_columns b t q now r) = tr_FencingToken r"
  "tr_ActiveAttemptID (commit_turn_columns b t q now r) = (if b then None else tr_ActiveAttemptID r)"
  "tr_Status (commit_turn_columns b t q now r) = (if b then t_Status t else tr_Status r)"
  "tr_LastEventSequence (commit_turn_columns b t q now r) = sint q"
  by (simp_all add: commit_turn_columns_def)

lemma attemptStatusForTurn_not_running [simp]: "attemptStatusForTurn st \<noteq> AttemptStatusRunning"
  by (cases st) simp_all

lemma commit_moves_sel:
  assumes "commit_moves c turn attempt now nextTurn nextAttempt"
  shows "t_ID nextTurn = t_ID turn" "ta_ID nextAttempt = ta_ID attempt" "ta_FencingToken nextAttempt = ta_FencingToken attempt"
    "ta_TurnID nextAttempt = ta_TurnID attempt" "t_PrincipalID nextTurn = t_PrincipalID turn"
    "cm_TerminalStatus c \<noteq> TurnStatusOther '''' \<Longrightarrow> t_Status nextTurn = cm_TerminalStatus c
       \<and> ta_Status nextAttempt = attemptStatusForTurn (cm_TerminalStatus c)"
  using assms by (auto simp: commit_moves_def finished_turn_def finished_attempt_def split: if_splits)

text \<open>The tables of execution after a commit.\<close>

lemma commits_epoch:
  assumes "commits store io c digest r db db'"
  obtains row a now where "turn_at db (af_TurnID (cm_Fence c)) = Some row" "a \<in> set (db_attempts db)"
    "at_Status a = AttemptStatusRunning" "tr_ActiveAttemptID row = Some (at_AttemptID a)"
    "at_TurnID a = af_TurnID (cm_Fence c)" "\<not> TurnStatus_Terminal (tr_Status row)"
    "t_ID (cmr_Turn r) = af_TurnID (cm_Fence c)"
    "db_attempts db' = update_rows (\<lambda>x. at_ID x = at_ID a)
       (commit_attempt_columns (cm_TerminalStatus c \<noteq> TurnStatusOther '''') (cmr_Attempt r) now) (db_attempts db)"
    "db_turns db' = update_rows (\<lambda>t. tr_TurnID t = af_TurnID (cm_Fence c))
       (commit_turn_columns (cm_TerminalStatus c \<noteq> TurnStatusOther '''') (cmr_Turn r) (ev_Sequence (cmr_Event r)) now) (db_turns db)"
    "db_autoinc db \<le> db_autoinc db'"
    "cm_TerminalStatus c \<noteq> TurnStatusOther '''' \<Longrightarrow> ta_Status (cmr_Attempt r) \<noteq> AttemptStatusRunning
       \<and> t_Status (cmr_Turn r) = cm_TerminalStatus c"
proof -
  from assms obtain row turn a now where
    ok: "commit_allowed io c db row turn a now" "commit_moves c turn (row_attempt a) now (cmr_Turn r) (cmr_Attempt r)"
      "committed store io c digest row a now r db db'" by (auto simp: commits_def)
  have row: "tr_TurnID row = af_TurnID (cm_Fence c)" "t_ID turn = tr_TurnID row" "t_Status turn = tr_Status row"
    using ok(1) find_SomeD [of _ "db_turns db" row]
    by (auto simp: commit_allowed_def turn_at_def row_turn_def dest!: toTurn_Inr)
  have i: "t_ID (cmr_Turn r) = af_TurnID (cm_Fence c)" using commit_moves_sel(1) [OF ok(2)] row by simp
  show thesis
    by (rule that [of row a now])
      (use ok(1,3) row i commit_moves_sel(6) [OF ok(2)] in
        \<open>auto simp: commit_allowed_def committed_def Let_def rowOwnsFence_def attemptMatchesFence_def\<close>)
qed

text \<open>
  An update of one Turn and of running attempts of it keeps the execution epochs when the attempts
  stay under the Turn.
\<close>

lemma update_ok_kept:
  assumes ok: "attempts_ok db"
    and turns: "db_turns db' = update_rows (\<lambda>t. tr_TurnID t = i) f (db_turns db)"
    and rows: "db_attempts db' = update_rows p g (db_attempts db)" and inc: "db_autoinc db \<le> db_autoinc db'"
    and f: "\<And>t. tr_TurnID (f t) = tr_TurnID t"
      "\<And>t. turn_at db i = Some t \<Longrightarrow> tr_FencingToken t \<le> tr_FencingToken (f t)"
    and g: "\<And>a. same_attempt (g a) a"
      "\<And>a. a \<in> set (db_attempts db) \<Longrightarrow> p a \<Longrightarrow> at_Status a = AttemptStatusRunning \<and> at_TurnID a = i"
    and under: "\<And>t a. turn_at db i = Some t \<Longrightarrow> a \<in> set (db_attempts db) \<Longrightarrow> attempt_under t a \<Longrightarrow>
      attempt_under (f t) (if p a then g a else a)"
  shows "attempts_ok db' \<and> epochs_kept db db'"
proof
  have id: "at_ID (g a) = at_ID a" "at_AttemptID (g a) = at_AttemptID a" "at_TurnID (g a) = at_TurnID a" for a
    using g(1) [of a] by (simp_all add: same_attempt_def)
  have "at_ID x' < db_autoinc db' \<and> (\<exists>u \<in> set (db_turns db'). attempt_under u x')" if "x' \<in> set (db_attempts db')" for x'
  proof -
    from that obtain x where x: "x \<in> set (db_attempts db)" "x' = (if p x then g x else x)"
      unfolding rows set_update_rows by blast
    from ok x(1) obtain u where u: "u \<in> set (db_turns db)" "attempt_under u x" "at_ID x < db_autoinc db"
      unfolding attempts_ok_def by blast
    have "(if tr_TurnID u = i then f u else u) \<in> set (db_turns db')" unfolding turns set_update_rows using u(1) by blast
    moreover have "attempt_under (if tr_TurnID u = i then f u else u) x'"
    proof (cases "tr_TurnID u = i")
      case True
      then have "turn_at db i = Some u" using turn_at_unique [OF ok u(1)] by simp
      from under [OF this x(1) u(2)] True x(2) show ?thesis by simp
    next
      case False
      then have "\<not> p x" using g(2) [OF x(1)] u(2) by (auto simp: attempt_under_def)
      then show ?thesis using False u(2) x(2) by simp
    qed
    ultimately show ?thesis using u(3) inc x(2) id by (auto split: if_splits)
  qed
  moreover have "map at_ID (db_attempts db') = map at_ID (db_attempts db)"
    "map at_AttemptID (db_attempts db') = map at_AttemptID (db_attempts db)"
    "map tr_TurnID (db_turns db') = map tr_TurnID (db_turns db)"
    unfolding rows turns by (simp_all add: map_update_rows id f(1))
  ultimately show "attempts_ok db'" using ok unfolding attempts_ok_def by simp
  have at: "attempt_at db' j = map_option (\<lambda>x. if p x then g x else x) (attempt_at db j)" for j
    by (rule attempt_at_update [OF rows]) (rule id)
  have tn: "turn_at db' j = map_option (\<lambda>x. if tr_TurnID x = i then f x else x) (turn_at db j)" for j
    by (rule turn_at_update [OF turns]) (rule f(1))
  have "attempt_kept x (if p x then g x else x)" if "attempt_at db j = Some x" for j x
    using g(2) [of x] find_SomeD [OF that [unfolded attempt_at_def]] g(1) [of x] by (auto simp: attempt_kept_def same_attempt_def)
  moreover have "tr_FencingToken t \<le> tr_FencingToken (if tr_TurnID t = i then f t else t)" if "turn_at db j = Some t" for j t
    using f(2) [of t] find_SomeD [OF that [unfolded turn_at_def]] that by auto
  ultimately show "epochs_kept db db'" unfolding epochs_kept_def at tn by auto
qed

lemma commits_ok_kept:
  assumes ok: "attempts_ok db" and c: "commits store io c digest r db db'"
  shows "attempts_ok db'" "epochs_kept db db'"
  using c
proof (atomize (full), cases rule: commits_epoch)
  case (1 row a now)
  have only: "x = a" if "x \<in> set (db_attempts db)" "at_ID x = at_ID a \<or> at_AttemptID x = at_AttemptID a" for x
    using ok 1(2) that unfolding attempts_ok_def distinct_map by (blast dest: inj_onD)
  show "attempts_ok db' \<and> epochs_kept db db'"
  proof (rule update_ok_kept [OF ok 1(9,8,10)])
    fix t x
    assume "turn_at db (af_TurnID (cm_Fence c)) = Some t" "x \<in> set (db_attempts db)" "attempt_under t x"
    moreover from this have "at_Status x = AttemptStatusRunning \<Longrightarrow> x = a"
      using only [of x] 1(1,4) by (simp add: attempt_under_def)
    ultimately show "attempt_under (commit_turn_columns (cm_TerminalStatus c \<noteq> TurnStatusOther '''') (cmr_Turn r)
        (ev_Sequence (cmr_Event r)) now t) (if at_ID x = at_ID a then
          commit_attempt_columns (cm_TerminalStatus c \<noteq> TurnStatusOther '''') (cmr_Attempt r) now x else x)"
      using 1(11) by (auto simp: attempt_under_def)
  qed (use only 1(3,5) in auto)
qed

text \<open>Claims, heartbeats and commits together, as they interleave.\<close>

inductive work_step :: "SettlementStore \<Rightarrow> sql_db \<Rightarrow> sql_db \<Rightarrow> bool" for store where
  own: "attempt_step (sn_store store) db db' \<Longrightarrow> work_step store db db'"
| commit: "runs (commitAttempt_tx store tables io plan) s r s' \<Longrightarrow> work_step store (st_db s) (st_db s')"

lemma commit_tx_ok_kept:
  assumes "runs (commitAttempt_tx store tables io plan) s r s'" "attempts_ok (st_db s)"
  shows "attempts_ok (st_db s') \<and> epochs_kept (st_db s) (st_db s')"
  using assms(1) refl
proof (cases rule: commitAttempt_tx_cases)
  case (fresh)
  then show ?thesis using commits_ok_kept [OF assms(2)] by blast
qed (use assms(2) in simp)

interpretation sql_work: execution_steps "work_step store" for store
proof
  fix db db'
  assume "work_step store db db'" "attempts_ok db"
  then have "attempts_ok db' \<and> epochs_kept db db'"
    by (induction rule: work_step.induct) (simp_all add: attempt_step_ok_kept commit_tx_ok_kept)
  then show "attempts_ok db'" "epochs_kept db db'" by simp_all
qed


subsection \<open>A finished Turn\<close>

definition closed :: "sqlTurnRow \<Rightarrow> bool" where
  "closed t \<longleftrightarrow> TurnStatus_Terminal (tr_Status t) \<and> tr_ActiveAttemptID t = None"

text \<open>The row, the log and the receipts of a Turn are as they were.\<close>

definition turn_frozen :: "TurnID \<Rightarrow> sql_db \<Rightarrow> sql_db \<Rightarrow> bool" where
  "turn_frozen i db db' \<longleftrightarrow> turn_at db' i = turn_at db i
     \<and> filter (\<lambda>e. er_TurnID e = i) (db_events db') = filter (\<lambda>e. er_TurnID e = i) (db_events db)
     \<and> filter (\<lambda>p. op_TurnID p = i) (db_operations db') = filter (\<lambda>p. op_TurnID p = i) (db_operations db)"

lemma turn_frozen_refl [simp]: "turn_frozen i db db"
  by (simp add: turn_frozen_def)

lemma turn_frozen_trans: "turn_frozen i db db1 \<Longrightarrow> turn_frozen i db1 db2 \<Longrightarrow> turn_frozen i db db2"
  by (simp add: turn_frozen_def)

lemma event_row_turn:
  assumes "buildEvent t q d = Inr e" "eventToSQLRow col e now = Inr r"
  shows "er_TurnID r = t_ID t"
  using assms by (auto simp: buildEvent_def eventToSQLRow_def Let_def split: if_splits option.splits sum.splits)

lemma toTurn_sel:
  assumes "toTurn row = Inr turn"
  shows "t_ID turn = tr_TurnID row" "t_Status turn = tr_Status row"
  using toTurn_Inr [OF assms] by (auto simp: row_turn_def)

lemma turn_at_id: "turn_at db i = Some t \<Longrightarrow> tr_TurnID t = i"
  using find_SomeD [of _ "db_turns db" t] by (auto simp: turn_at_def)

lemma epoch_frozen:
  assumes row: "turn_at db (ca_TurnID c) = Some row" "toTurn row = Inr turn"
    and e: "opens_epoch store io c db row turn now attempt expired nextTurn db'"
    and t: "turn_at db i = Some t" "closed t"
  shows "turn_frozen i db db'"
proof -
  from e obtain n columns es where db: "epoch_db db c expired now attempt n columns db'"
    and st: "starts_turn io row turn now nextTurn columns es" and ev: "db_events db' = db_events db @ es"
    and free: "t_Status turn = TurnStatusQueued \<or> t_Status turn = TurnStatusRunning"
    by (auto simp: opens_epoch_def free_turn_def)
  have id: "tr_TurnID row = ca_TurnID c" "tr_TurnID t = i" using turn_at_id row(1) t(1) by auto
  have other: "i \<noteq> ca_TurnID c"
  proof
    assume "i = ca_TurnID c"
    then have "tr_Status t = t_Status turn" using row t(1) toTurn_sel(2) by simp
    then show False using free t(2) by (auto simp: closed_def)
  qed
  have "turn_at db' i = map_option (\<lambda>r. if tr_TurnID r = ca_TurnID c then columns (owned_columns attempt now r) else r) (turn_at db i)"
    using db by (intro turn_at_update) (auto simp: epoch_db_def starts_turn_columns [OF st] owned_columns_def)
  moreover have "er_TurnID x \<noteq> i" if "x \<in> set es" for x
    using st that other id toTurn_sel(1) [OF row(2)]
    by (auto simp: starts_turn_def split: if_splits dest!: event_row_turn)
  ultimately show ?thesis using db ev t id other
    by (auto simp: turn_frozen_def epoch_db_def filter_empty_conv)
qed

lemma commits_frozen:
  assumes c: "commits store io c digest r db db'" and t: "turn_at db i = Some t" "closed t"
  shows "turn_frozen i db db'"
  using c
proof (cases rule: commits_epoch)
  case (1 row a now)
  have other: "i \<noteq> af_TurnID (cm_Fence c)" using 1(1,6) t by (auto simp: closed_def)
  from c obtain row' turn a' now' draft er n m where
    w: "buildEvent (cmr_Turn r) (ev_Sequence (cmr_Event r)) draft = Inr (cmr_Event r)"
      "eventToSQLRow (io_json io) (cmr_Event r) now' = Inr er" "db_events db' = db_events db @ [er\<lparr>er_ID := n\<rparr>]"
      "db_operations db' = db_operations db @ [(operation_row (cmr_Turn r) (cmr_Attempt r) (cm_OperationID c) digest
         (ev_Sequence (cmr_Event r)) (length (cm_Effects c)) now')\<lparr>op_ID := m\<rparr>]"
    unfolding commits_def committed_def Let_def by blast
  have "turn_at db' i = map_option (\<lambda>x. if tr_TurnID x = af_TurnID (cm_Fence c) then
      commit_turn_columns (cm_TerminalStatus c \<noteq> TurnStatusOther '''') (cmr_Turn r) (ev_Sequence (cmr_Event r)) now x else x)
      (turn_at db i)" by (rule turn_at_update [OF 1(9)]) simp
  then show ?thesis using w event_row_turn [OF w(1,2)] 1(7) other t(1) turn_at_id [OF t(1)]
    by (auto simp: turn_frozen_def operation_row_def)
qed

lemma work_step_frozen:
  assumes "work_step store db db'" "attempts_ok db" "turn_at db i = Some t" "closed t"
  shows "turn_frozen i db db'"
  using assms
proof (induction rule: work_step.induct)
  case (own db db')
  then show ?case
  proof (induction rule: attempt_step.induct)
    case (claim io c s r s')
    from claim(2,1) show ?case
      by (cases rule: claimAttempt_tx_cases) (use claim.prems epoch_frozen in auto)
  next
    case (heartbeat io f s r s')
    from heartbeat(1) show ?case by (cases rule: heartbeatAttempt_tx_cases) (simp add: turn_frozen_def turn_at_def)
  qed
next
  case (commit tables io plan s r s')
  from commit(1) refl show ?case
    by (cases rule: commitAttempt_tx_cases) (use commit.prems commits_frozen in auto)
qed

text \<open>A locale for what it means that steps leave closed Turns alone, on top of the contract of execution.\<close>

locale closing_steps = execution_steps +
  assumes step_frozen: "step db db' \<Longrightarrow> attempts_ok db \<Longrightarrow> turn_at db i = Some t \<Longrightarrow> closed t \<Longrightarrow> turn_frozen i db db'"
begin

lemma steps_frozen:
  assumes "step\<^sup>*\<^sup>* db db'" "attempts_ok db" "turn_at db i = Some t" "closed t"
  shows "turn_frozen i db db'"
  using assms(1)
proof (induction rule: rtranclp_induct)
  case (step db1 db2)
  have "attempts_ok db1" using steps_ok_kept [OF step(1) assms(2)] by simp
  moreover have "turn_at db1 i = Some t" using step.IH assms(3) by (simp add: turn_frozen_def)
  ultimately show ?case using step_frozen [OF step(2)] assms(4) step.IH turn_frozen_trans by blast
qed simp

lemma no_runner:
  assumes "attempts_ok db" "turn_at db i = Some t" "closed t" "a \<in> set (db_attempts db)" "at_TurnID a = i"
  shows "at_Status a \<noteq> AttemptStatusRunning"
  using attempts_okD [OF assms(1,4)] assms(2,3,5) by (auto simp: attempt_under_def closed_def)

end

interpretation sql_closing: closing_steps "work_step store" for store
  by unfold_locales (rule work_step_frozen)


subsection \<open>The whole call\<close>

lemma runs_resolveOperation:
  assumes "runs (resolveOperation store tables io cs q) s (Some r) s'"
  shows "\<exists>op. op \<in> set (db_operations (st_db s')) \<and> op_TurnID op = af_TurnID (cm_Fence (cc_Command (hd cs)))
    \<and> op_OperationID op = cm_OperationID (cc_Command (hd cs)) \<and> answers_receipt cs op r"
proof -
  let ?c = "cc_Command (hd cs)"
  from assms have "runs (Transaction io (resolveOperation_tx store tables io cs q)) s (Some r) s'"
    by (simp add: resolveOperation_def runs_basic split: if_splits)
  from runs_Transaction [OF this] obtain s1 s2 where
    body: "runs (resolveOperation_tx store tables io cs q) s1 (Some r) s2" "st_db s' = st_db s2" by blast
  from body(1) obtain row u1 turn found u2 where
    steps: "runs (not_found_as ErrTurnNotFound (take_row io db_turns (\<lambda>r. tr_TurnID r = af_TurnID (cm_Fence ?c)))) s1 row u1"
      "toTurn row = Inr turn" "runs (lookupOperationTx io (af_TurnID (cm_Fence ?c)) (cm_OperationID ?c)) u1 found u2"
      "runs (case found of None \<Rightarrow> tx_return None | Some op \<Rightarrow>
         tx_bind (commit_replay store tables io cs q row turn op) (\<lambda>replayed. tx_return (Some replayed))) u2 (Some r) s2"
    unfolding resolveOperation_tx_def Let_def runs_bind runs_decode by blast
  from steps(4) obtain op u3 where op: "found = Some op" "runs (commit_replay store tables io cs q row turn op) u2 r u3" "s2 = u3"
    by (auto simp: runs_bind runs_basic split: option.splits)
  have u2: "st_db u2 = st_db u1" using readsD [OF reads_lookupOperationTx steps(3)] .
  have "find (\<lambda>r. op_TurnID r = af_TurnID (cm_Fence ?c) \<and> op_OperationID r = cm_OperationID ?c) (db_operations (st_db u1)) = Some op"
    using runs_lookup_row [OF steps(3) [unfolded lookupOperationTx_def]] op(1) by simp
  from find_SomeD [OF this] runs_commit_replay [OF op(2)] u2 op(3) body(2) show ?thesis by auto
qed

lemma CommitAttempt_cases:
  assumes "runs (CommitAttempt before store tables io ctx c) s r s'"
  obtains (wrote) plan s1 s2 where "commit_candidates (io_sha io) before c = Inr plan"
      "st_db s1 = io_others io (st_tick s) (st_db s)" "runs (commitAttempt_tx store tables io plan) s1 r s2" "st_db s' = st_db s2"
    | (resolved) plan s1 where "commit_candidates (io_sha io) before c = Inr plan"
      "runs (resolveOperation store tables io (cp_Candidates plan) (cp_Untrusted plan)) s1 (Some r) s'"
proof -
  from assms obtain plan where plan: "commit_candidates (io_sha io) before c = Inr plan"
    and "runs (tx_try (writeTransaction (sn_store store) io (ctx 1) (ctx 2) (commitAttempt_tx store tables io plan))
      (\<lambda>r. case r of Inr result \<Rightarrow> tx_return result | Inl txErr \<Rightarrow> commit_failed store tables io ctx plan txErr)) s r s'"
    unfolding CommitAttempt_def by (auto simp: runs_guard runs_bind runs_basic)
  then consider (ok) "runs (writeTransaction (sn_store store) io (ctx 1) (ctx 2) (commitAttempt_tx store tables io plan)) s r s'"
    | (failed) e s1 where "runs (commit_failed store tables io ctx plan e) s1 r s'"
    by (auto simp: runs_try runs_basic)
  then show thesis
  proof cases
    case ok
    from runs_writeTransaction [OF this] plan show thesis by (blast intro: wrote)
  next
    case (failed e s1)
    then have "runs (resolveOperation store tables io (cp_Candidates plan) (cp_Untrusted plan)) s1 (Some r) s'"
      unfolding commit_failed_def Let_def
      by (auto simp: runs_guard runs_bind runs_check runs_basic runs_catch_fail split: option.splits)
    with plan show thesis by (blast intro: resolved)
  qed
qed

lemma plan_head:
  assumes "plan_for c plan"
  shows "same_commit c (cc_Command (hd (cp_Candidates plan)))" "hd (cp_Candidates plan) \<in> set (cp_Candidates plan)"
  using assms by (auto simp: plan_for_def)

text \<open>No receipt is written twice, also by a call that fails.\<close>

definition receipts_unique :: "sql_db \<Rightarrow> bool" where
  "receipts_unique db \<longleftrightarrow> distinct (map (\<lambda>p. (op_TurnID p, op_OperationID p)) (db_operations db))"

lemma receipt_unique:
  assumes "receipts_unique db" "p \<in> set (db_operations db)" "q \<in> set (db_operations db)"
    and "op_TurnID p = op_TurnID q" "op_OperationID p = op_OperationID q"
  shows "p = q"
  using assms(1) unfolding receipts_unique_def distinct_map
  by (rule inj_onD [OF conjunct2]) (use assms(2-) in simp_all)

lemma commit_tx_with_receipt:
  assumes "runs (commitAttempt_tx store tables io plan) s r s'" "c = cc_Command (hd (cp_Candidates plan))"
    and "op \<in> set (db_operations (st_db s))" "op_TurnID op = af_TurnID (cm_Fence c)" "op_OperationID op = cm_OperationID c"
    and "receipts_unique (st_db s)"
  shows "st_db s' = st_db s \<and> answers_receipt (cp_Candidates plan) op r"
  using assms(1,2)
proof (cases rule: commitAttempt_tx_cases)
  case (replay op')
  then have "op' = op" using receipt_unique [OF assms(6) _ assms(3), of op'] assms(4,5) by simp
  with replay show ?thesis by simp
next
  case fresh
  from fresh(1) obtain row turn a now where "committed store io c (cc_Digest (hd (cp_Candidates plan))) row a now r (st_db s) (st_db s')"
    by (auto simp: commits_def)
  moreover from fresh(1) have "t_ID (cmr_Turn r) = af_TurnID (cm_Fence c)" by (rule commits_epoch)
  ultimately show ?thesis using assms(3-5) by (auto simp: committed_def Let_def)
qed

lemma reads_outside: "io_others io = (\<lambda>_ db. db) \<Longrightarrow> reads m \<Longrightarrow> reads (outside io m)"
  by (simp add: reads_def outside_def)

lemma reads_Transaction:
  assumes "io_others io = (\<lambda>_ db. db)" "reads m"
  shows "reads (Transaction io m)"
  unfolding reads_def
proof
  fix s
  show "st_db (snd (Transaction io m s)) = st_db s"
    by (rule Transaction_db) (use assms(1) readsD [OF assms(2)] in simp_all)
qed

lemma reads_detectEffectConflict: "io_others io = (\<lambda>_ db. db) \<Longrightarrow> reads (detectEffectConflict io es)"
  by (induction es) (auto intro!: tx_reads reads_outside)

lemma reads_commit_failed:
  assumes "io_others io = (\<lambda>_ db. db)"
  shows "reads (commit_failed store tables io ctx plan e)"
  unfolding commit_failed_def Let_def resolveOperation_def
  using reads_Transaction [OF assms] reads_detectEffectConflict [OF assms]
  by (intro tx_reads) (auto intro!: tx_reads split: option.split)


text \<open>The key of a receipt is the same for every candidate form of a command.\<close>

lemma candidate_key:
  assumes "commit_candidates sha before c = Inr plan" "op_TurnID op = af_TurnID (cm_Fence c)" "op_OperationID op = cm_OperationID c"
  shows "op_TurnID op = af_TurnID (cm_Fence (cc_Command (hd (cp_Candidates plan))))"
    "op_OperationID op = cm_OperationID (cc_Command (hd (cp_Candidates plan)))"
  using plan_head(1) [OF commit_candidates_for [OF assms(1)]] assms(2,3) by (simp_all add: same_commit_def)

lemma CommitAttempt_receipt_keeps:
  assumes "op \<in> set (db_operations (st_db s))" "op_TurnID op = af_TurnID (cm_Fence c)" "op_OperationID op = cm_OperationID c"
    and "receipts_unique (st_db s)" "io_others io = (\<lambda>_ db. db)"
  shows "st_db (snd (CommitAttempt before store tables io ctx c s)) = st_db s"
proof (cases "commit_candidates (io_sha io) before c")
  case (Inl e)
  then show ?thesis by (auto simp: CommitAttempt_def tx_guard_def tx_bind_def tx_lift_def tx_fail_def split: option.split)
next
  case (Inr plan)
  let ?w = "writeTransaction (sn_store store) io (ctx 1) (ctx 2) (commitAttempt_tx store tables io plan)"
  have w: "st_db (snd (?w s)) = st_db s"
  proof (rule writeTransaction_db [where P = "\<lambda>d. d = st_db s"])
    fix s1 x s2
    assume "st_db s1 = io_others io (st_tick s) (st_db s)" "runs (commitAttempt_tx store tables io plan) s1 x s2"
    then show "st_db s2 = st_db s"
      using commit_tx_with_receipt [OF _ refl _ candidate_key [OF Inr assms(2,3)], of store tables io s1 x s2] assms(1,4,5) by simp
  qed (simp_all add: assms(5))
  have "st_db (snd (tx_try ?w (\<lambda>r. case r of Inr result \<Rightarrow> tx_return result
      | Inl txErr \<Rightarrow> commit_failed store tables io ctx plan txErr) s)) = st_db s"
  proof (cases "?w s")
    case (Pair x s1)
    have s1: "st_db s1 = st_db s" using w unfolding Pair by simp
    show ?thesis
    proof (cases x)
      case (Inl e)
      have "st_db (snd (commit_failed store tables io ctx plan e s1)) = st_db s1"
        using reads_commit_failed [OF assms(5)] unfolding reads_def by blast
      then show ?thesis unfolding tx_try_def Pair Inl by (simp add: s1)
    next
      case (Inr y)
      show ?thesis unfolding tx_try_def Pair Inr by (simp add: tx_return_def s1)
    qed
  qed
  then show ?thesis
    by (simp add: CommitAttempt_def tx_guard_def tx_bind_def tx_lift_def tx_fail_def Inr split: option.split)
qed

lemma CommitAttempt_receipt_answers:
  assumes "op \<in> set (db_operations (st_db s))" "op_TurnID op = af_TurnID (cm_Fence c)" "op_OperationID op = cm_OperationID c"
    and "receipts_unique (st_db s)" "io_others io = (\<lambda>_ db. db)"
    and run: "runs (CommitAttempt before store tables io ctx c) s r s'"
  shows "\<exists>plan. commit_candidates (io_sha io) before c = Inr plan \<and> answers_receipt (cp_Candidates plan) op r"
proof -
  have s': "st_db s' = st_db s" using CommitAttempt_receipt_keeps [OF assms(1-5)] run by (metis runs_def snd_conv)
  show ?thesis
    using run
  proof (cases rule: CommitAttempt_cases)
    case (wrote plan s1 s2)
    then show ?thesis using commit_tx_with_receipt [OF wrote(3) refl _ candidate_key [OF wrote(1) assms(2,3)]] assms(1,4,5) by auto
  next
    case (resolved plan s1)
    from runs_resolveOperation [OF resolved(2)] obtain op' where
      op': "op' \<in> set (db_operations (st_db s))" "op_TurnID op' = op_TurnID op" "op_OperationID op' = op_OperationID op"
        "answers_receipt (cp_Candidates plan) op' r" using s' candidate_key [OF resolved(1) assms(2,3)] by auto
    have "op' = op" by (rule receipt_unique [OF assms(4) op'(1) assms(1) op'(2,3)])
    with op'(4) resolved(1) show ?thesis by blast
  qed
qed


subsection \<open>A sample commit\<close>

definition sample_authority :: SettlementAuthority where
  "sample_authority = \<lparr>sa_Settle = (\<lambda>_ _ _. None), sa_HoldForReview = Some (\<lambda>_ _ _. None), sa_ResolveReview = True,
     sa_MeasureReview = True, sa_MeasureProviderUsage = True, sa_AuthorizeTurnExecution = None,
     sa_VerifyExpiredTurnReservation = Some (\<lambda>_ _ _. None)\<rparr>"

definition sample_settling :: SettlementStore where
  "sample_settling = WithSettlementAuthority (Some sample_authority)
     \<lparr>sn_store = sample_sql, sn_address = 1, sn_settlement = None, sn_settlementBinding = None\<rparr>"

definition sample_tables :: review_tables where
  "sample_tables = \<lparr>rt_countProviderUsageJournal = (\<lambda>_ _. Inr 0), rt_lookupProviderUsage = (\<lambda>_ _. Inr 0),
     rt_resolutionState = (\<lambda>_ _. None), rt_usageEvidencePlugin = (\<lambda>_ _. Inr None)\<rparr>"

definition sample_fence :: AttemptFence where
  "sample_fence = \<lparr>af_TurnID = ''turn-1'', af_AttemptID = ''att-1'', af_FencingToken = 1, af_WorkerID = ''w-1'',
     af_WorkerBuildDigest = ''b''\<rparr>"

definition sample_emit :: CommitAttemptCommand where
  "sample_emit = \<lparr>cm_Fence = sample_fence, cm_OperationID = ''op-1'',
     cm_Event = Some \<lparr>ed_Type = ''a.b'', ed_ResourceRefs = [], ed_Data = ''{}''\<rparr>, cm_TerminalStatus = TurnStatusOther '''',
     cm_Effects = [\<lparr>eod_OutboxID = ''o-1'', eod_Topic = ''mail'', eod_DedupeKey = ''k'', eod_Payload = ''{}'',
       eod_AvailableAt = sample_time\<rparr>], cm_Settlement = None\<rparr>"

definition sample_emitted :: "CommitAttemptResult result \<times> sql_state" where
  "sample_emitted = CommitAttempt sample_settling sample_settling sample_tables (sample_io (sample_time + Second)) live_ctx
     sample_emit sample_running"

text \<open>The same Turn after an operation and its effect, and the plan of a worker that then gives up.\<close>

definition sample_receipt :: sqlTurnOperationRow where
  "sample_receipt = \<lparr>op_ID = 4, op_TurnID = ''turn-1'', op_OperationID = ''op-1'', op_OperationDigest = ''d'',
     op_AttemptID = ''att-1'', op_FencingToken = 1, op_EventSequence = 2, op_TurnStatus = TurnStatusRunning,
     op_EffectCount = 0, op_CreatedAt = sample_time\<rparr>"

definition sample_worked :: sql_state where
  "sample_worked = sample_running\<lparr>st_db := (st_db sample_running)\<lparr>db_operations := [sample_receipt], db_autoinc := 5\<rparr>\<rparr>"

definition sample_fail :: CommitAttemptCommand where
  "sample_fail = \<lparr>cm_Fence = sample_fence, cm_OperationID = ''op-2'', cm_Event = None, cm_TerminalStatus = TurnStatusFailed,
     cm_Effects = [], cm_Settlement = Some \<lparr>sq_Intent = SettlementIntentRelease, sq_UsedUnits = 0\<rparr>\<rparr>"

definition sample_fail_plan :: commit_plan where
  "sample_fail_plan = plan_of sample_fail
     [\<lparr>cc_Command = sample_fail, cc_Digest = ''sha256:e'', cc_Mode = operationTerminalizationLegacy\<rparr>] False False"

definition sample_failed :: "CommitAttemptResult result \<times> sql_state" where
  "sample_failed = commitAttempt_tx sample_settling sample_tables (sample_io (sample_time + Second)) sample_fail_plan sample_worked"

lemma sample_emitted_runs:
  "runs (CommitAttempt sample_settling sample_settling sample_tables (sample_io (sample_time + Second)) live_ctx sample_emit)
     sample_running (projr (fst sample_emitted)) (snd sample_emitted)"
  "\<not> cmr_Replay (projr (fst sample_emitted))"
proof -
  have *: "case fst sample_emitted of Inl e \<Rightarrow> False | Inr r \<Rightarrow> \<not> cmr_Replay r" by code_simp
  then have "\<not> isl (fst sample_emitted)" by (auto split: sum.splits)
  then show "runs (CommitAttempt sample_settling sample_settling sample_tables (sample_io (sample_time + Second)) live_ctx sample_emit)
     sample_running (projr (fst sample_emitted)) (snd sample_emitted)" unfolding sample_emitted_def by (rule result_run)
  from * show "\<not> cmr_Replay (projr (fst sample_emitted))" by (auto split: sum.splits)
qed

lemma sample_failed_runs:
  "runs (commitAttempt_tx sample_settling sample_tables (sample_io (sample_time + Second)) sample_fail_plan)
     sample_worked (projr (fst sample_failed)) (snd sample_failed)"
  "\<not> cmr_Replay (projr (fst sample_failed)) \<and> cmr_SettlementReview (projr (fst sample_failed)) \<noteq> None"
proof -
  have *: "case fst sample_failed of Inl e \<Rightarrow> False | Inr r \<Rightarrow> \<not> cmr_Replay r \<and> \<not> Option.is_none (cmr_SettlementReview r)"
    by code_simp
  then have "\<not> isl (fst sample_failed)" by (auto split: sum.splits)
  then show "runs (commitAttempt_tx sample_settling sample_tables (sample_io (sample_time + Second)) sample_fail_plan)
     sample_worked (projr (fst sample_failed)) (snd sample_failed)" unfolding sample_failed_def by (rule result_run)
  from * show "\<not> cmr_Replay (projr (fst sample_failed)) \<and> cmr_SettlementReview (projr (fst sample_failed)) \<noteq> None"
    by (auto simp: Option.is_none_def split: sum.splits)
qed


subsection \<open>Properties\<close>

text \<open>
  C27. Commit under the fence. A commit that is not a replay was allowed in the database its
  transaction found: the Turn is open, the worker's fence is the Turn's, its attempt is running and
  its lease live on the database clock, and a cancelled Turn is only stopped. What it wrote is
  exactly one event under the next sequence number, one receipt for an operation that had none,
  the effects of the command in order, and the Turn and attempt they belong to; a terminal commit
  finishes both, and its commercial outcome is in the same transaction: the installed authority
  accepted the settlement, or a pending Review is stored that it agreed to hold.
\<close>

theorem commit_under_fence:
  assumes "runs (CommitAttempt before store tables io ctx c) s r s'" "\<not> cmr_Replay r"
  shows "\<exists>plan. commit_candidates (io_sha io) before c = Inr plan
    \<and> same_commit c (cc_Command (hd (cp_Candidates plan)))
    \<and> commits store io (cc_Command (hd (cp_Candidates plan))) (cc_Digest (hd (cp_Candidates plan))) r
        (io_others io (st_tick s) (st_db s)) (st_db s')"
  using assms(1)
proof (cases rule: CommitAttempt_cases)
  case (wrote plan s1 s2)
  note head = plan_head(1) [OF commit_candidates_for [OF wrote(1)]]
  from wrote(3) refl show ?thesis
    by (cases rule: commitAttempt_tx_cases) (use assms(2) wrote head in \<open>auto simp: answers_receipt_def\<close>)
next
  case (resolved plan s1)
  from runs_resolveOperation [OF resolved(2)] assms(2) show ?thesis by (auto simp: answers_receipt_def)
qed

theorem commit_under_fence_witness:
  "\<exists>plan. commit_candidates (io_sha (sample_io (sample_time + Second))) sample_settling sample_emit = Inr plan
    \<and> same_commit sample_emit (cc_Command (hd (cp_Candidates plan)))
    \<and> commits sample_settling (sample_io (sample_time + Second)) (cc_Command (hd (cp_Candidates plan)))
        (cc_Digest (hd (cp_Candidates plan))) (projr (fst sample_emitted))
        (io_others (sample_io (sample_time + Second)) (st_tick sample_running) (st_db sample_running)) (st_db (snd sample_emitted))"
  by (rule commit_under_fence [OF sample_emitted_runs])

text \<open>
  C28. At most once. When the database holds the receipt of an operation, a commit of that operation
  writes nothing, whatever command it carries and whatever fails in it; and if it returns a result,
  the result is a replay for that receipt, to the worker that wrote it, for a command with the
  recorded digest.
\<close>

theorem commit_at_most_once:
  assumes "op \<in> set (db_operations (st_db s))" "op_TurnID op = af_TurnID (cm_Fence c)" "op_OperationID op = cm_OperationID c"
    and "receipts_unique (st_db s)" "io_others io = (\<lambda>_ db. db)"
  shows "st_db (snd (CommitAttempt before store tables io ctx c s)) = st_db s
    \<and> (\<forall>r. fst (CommitAttempt before store tables io ctx c s) = Inr r \<longrightarrow>
         cmr_Replay r \<and> cmr_OperationDigest r = op_OperationDigest op \<and> cmr_TurnStatus r = op_TurnStatus op
         \<and> op_AttemptID op = af_AttemptID (cm_Fence c) \<and> op_FencingToken op = sint (af_FencingToken (cm_Fence c))
         \<and> (\<exists>plan. commit_candidates (io_sha io) before c = Inr plan \<and> op_OperationDigest op \<in> cc_Digest ` set (cp_Candidates plan)))"
proof (intro conjI allI impI)
  show "st_db (snd (CommitAttempt before store tables io ctx c s)) = st_db s" by (rule CommitAttempt_receipt_keeps [OF assms])
next
  fix r
  assume "fst (CommitAttempt before store tables io ctx c s) = Inr r"
  then have "runs (CommitAttempt before store tables io ctx c) s r (snd (CommitAttempt before store tables io ctx c s))"
    by (metis runs_def prod.collapse)
  from CommitAttempt_receipt_answers [OF assms this] obtain plan k where
    plan: "commit_candidates (io_sha io) before c = Inr plan" "answers_receipt (cp_Candidates plan) op r"
      "k \<in> set (cp_Candidates plan)" "operationMatchesCommand op (cc_Command k) (cc_Digest k)"
    by (auto simp: answers_receipt_def)
  from commit_candidates_for [OF plan(1)] plan(3) have "same_commit c (cc_Command k)" by (simp add: plan_for_def)
  with plan show "cmr_Replay r" "cmr_OperationDigest r = op_OperationDigest op" "cmr_TurnStatus r = op_TurnStatus op"
    "op_AttemptID op = af_AttemptID (cm_Fence c)" "op_FencingToken op = sint (af_FencingToken (cm_Fence c))"
    "\<exists>plan. commit_candidates (io_sha io) before c = Inr plan \<and> op_OperationDigest op \<in> cc_Digest ` set (cp_Candidates plan)"
    by (auto simp: answers_receipt_def operationMatchesCommand_def same_commit_def)
qed

theorem commit_at_most_once_witness:
  "st_db (snd (CommitAttempt sample_settling sample_settling sample_tables (sample_io (sample_time + Second)) live_ctx
     sample_emit sample_worked)) = st_db sample_worked"
proof -
  have "sample_receipt \<in> set (db_operations (st_db sample_worked))" "receipts_unique (st_db sample_worked)"
    by (simp_all add: sample_worked_def receipts_unique_def)
  from commit_at_most_once [OF this(1) _ _ this(2)] show ?thesis
    by (simp add: sample_receipt_def sample_emit_def sample_fence_def sample_io_def)
qed

end
