(* ===== verification/Reconcile_Safety.thy ===== *)
theory Reconcile_Safety
  imports Sql_Reconcile Commit_Safety Sql_Refinement
begin

text \<open>
  What retirements do, and how everything that writes to a Turn interleaves.

  \<open>retires\<close> says what a retirement found and wrote. \<open>kernel_step\<close> puts claims, heartbeats, commits,
  retirements, admissions' later writes (append, transition, cancel) of any workers and clients into
  one step relation; the locale \<open>closing_steps\<close> is interpreted on it, so that a Turn that a commit or
  a retirement closed stays as it is under all of them.
\<close>

subsection \<open>Reading the guards backwards\<close>

lemma reads_expiredActiveAttempt [tx_reads]: "reads (expiredActiveAttempt io row now)"
  unfolding expiredActiveAttempt_def by (auto intro!: tx_reads split: option.split)

lemma reads_verifyExpired [tx_reads]: "reads (verifyExpiredTurnReservation store turn)"
  unfolding verifyExpiredTurnReservation_def tx_check_def
  by (auto simp: reads_basic split: option.split) (simp_all add: reads_def)

lemma reads_marker [tx_reads]: "reads (terminalSettlementReviewMarkerTx io row turn)"
  unfolding terminalSettlementReviewMarkerTx_def
  by (intro tx_reads) (auto intro!: tx_reads split: sum.split option.split)

lemma reads_reconcile_finished [tx_reads]: "reads (reconcile_finished tables io row turn)"
  unfolding reconcile_finished_def
  by (intro tx_reads) (auto intro!: tx_reads reads_validateTerminalSettlementReviewTx reads_count_rows split: option.split)

lemma reads_reconcile_evidence [tx_reads]: "reads (reconcile_evidence store tables io mode turn)"
  unfolding reconcile_evidence_def
  by (auto intro!: tx_reads reads_inspect reads_countProviderUsageJournalTx)

text \<open>The active attempt of the Turn has lapsed, or there is none.\<close>

definition owner_lapsed :: "sql_db \<Rightarrow> sqlTurnRow \<Rightarrow> time \<Rightarrow> sqlTurnAttemptRow option \<Rightarrow> bool" where
  "owner_lapsed db row now expired =
     (case tr_ActiveAttemptID row of
        None \<Rightarrow> expired = None
      | Some active \<Rightarrow> (\<exists>a. expired = Some a \<and> a \<in> set (db_attempts db) \<and> at_TurnID a = tr_TurnID row
          \<and> at_AttemptID a = active \<and> at_FencingToken a = tr_FencingToken row
          \<and> at_Status a = AttemptStatusRunning \<and> at_LeaseExpiresAt a \<le> now))"

definition retirement_reason :: "SettlementStore \<Rightarrow> ReconcileCommand \<Rightarrow> sqlTurnRow \<Rightarrow> sqlTurnAttemptRow option \<Rightarrow> Turn \<Rightarrow> bool" where
  "retirement_reason store c row expired turn =
     (case rcc_Reason c of
        ReclaimReasonCancellationPending \<Rightarrow> tr_CancelRequestedAt row \<noteq> None
      | ReclaimReasonAttemptsExhausted \<Rightarrow> tr_CancelRequestedAt row = None
          \<and> (\<exists>budget. turnAttemptBudget (sn_store store) = Inr budget \<and> budget \<le> tr_FencingToken row)
      | ReclaimReasonReservationExpired \<Rightarrow> tr_CancelRequestedAt row = None
          \<and> (tr_Status row = TurnStatusQueued \<and> tr_FencingToken row = 0 \<and> tr_StartedAt row = None
             \<or> tr_Status row = TurnStatusRunning \<and> expired \<noteq> None)
          \<and> (\<exists>authority verdict. sn_settlement store = Some authority
               \<and> sa_VerifyExpiredTurnReservation authority = Some verdict \<and> accepted verdict turn)
      | _ \<Rightarrow> False)"

lemma runs_expiredActiveAttempt:
  assumes "runs (expiredActiveAttempt io row now) s expired s'"
  shows "(tr_ActiveAttemptID row \<noteq> None \<and> expired = None \<or> owner_lapsed (st_db s) row now expired) \<and> st_db s' = st_db s"
proof (cases "tr_ActiveAttemptID row")
  case None
  then show ?thesis using assms by (simp add: expiredActiveAttempt_def owner_lapsed_def runs_basic)
next
  case (Some active)
  from assms Some obtain a s1 where a: "runs (lockAttempt io (tr_TurnID row) active (tr_FencingToken row)) s a s1"
      "at_Status a = AttemptStatusRunning" "expired = (if at_LeaseExpiresAt a > now then None else Some a)" "s' = s1"
    by (auto simp: expiredActiveAttempt_def runs_bind runs_check runs_basic)
  note l = runs_lockAttempt [OF a(1)]
  then have "a \<in> set (db_attempts (st_db s)) \<and> at_TurnID a = tr_TurnID row \<and> at_AttemptID a = active
      \<and> at_FencingToken a = tr_FencingToken row" using find_SomeD by fastforce
  then show ?thesis using Some a(2-4) l by (auto simp: owner_lapsed_def not_less)
qed

lemma runs_verifyExpired:
  assumes "runs (verifyExpiredTurnReservation store turn) s u s'"
  shows "\<exists>authority verdict. sn_settlement store = Some authority
    \<and> sa_VerifyExpiredTurnReservation authority = Some verdict \<and> accepted verdict turn"
  using assms unfolding verifyExpiredTurnReservation_def
  by (auto simp: runs_basic runs_check bind_eq_Some_conv split: option.splits)
    (auto simp: runs_def accepted_def split: option.splits)

definition retirable ::
  "SettlementStore \<Rightarrow> sql_io \<Rightarrow> ReconcileCommand \<Rightarrow> sql_db \<Rightarrow> sqlTurnRow \<Rightarrow> Turn \<Rightarrow> time \<Rightarrow> sqlTurnAttemptRow option \<Rightarrow> bool"
where
  "retirable store io c db row turn now expired \<longleftrightarrow>
     turn_at db (rcc_TurnID c) = Some row \<and> toTurn row = Inr turn \<and> \<not> TurnStatus_Terminal (t_Status turn)
     \<and> clock_read io now \<and> owner_lapsed db row now expired \<and> retirement_reason store c row expired turn"

lemma runs_reconcile_guards:
  assumes "runs (reconcile_guards store io c terminal row turn) s (now, expired) s'"
  shows "clock_read io now \<and> owner_lapsed (st_db s) row now expired \<and> retirement_reason store c row expired turn
    \<and> CanTransition (t_Status turn) terminal \<and> (terminal = TurnStatusStopped \<longrightarrow> t_CancelRequestedAt turn \<noteq> None)
    \<and> st_db s' = st_db s"
proof -
  from assms obtain s1 budget s2 s3 where
    steps: "runs (executionNow (sn_store store) io) s now s1" "turnAttemptBudget (sn_store store) = Inr budget"
      "runs (expiredActiveAttempt io row now) s1 expired s2"
      "verifyReconcilePrecondition (rcc_Reason c) row (expired \<noteq> None) budget = None"
      "runs (if rcc_Reason c = ReclaimReasonReservationExpired then verifyExpiredTurnReservation store turn else tx_return ()) s2 () s3"
      "CanTransition (t_Status turn) terminal" "terminal = TurnStatusStopped \<longrightarrow> t_CancelRequestedAt turn \<noteq> None" "s' = s3"
    unfolding reconcile_guards_def by (auto simp: runs_bind runs_guard runs_check runs_basic)
  have clock: "clock_read io now" "st_db s1 = st_db s" using runs_executionNow [OF steps(1)] by (auto simp: clock_read_def)
  note e = runs_expiredActiveAttempt [OF steps(3), unfolded clock(2)]
  have live: "\<not> (tr_ActiveAttemptID row \<noteq> None \<and> expired = None)" using steps(4) unfolding verifyReconcilePrecondition_def by (metis option.distinct(1))
  have s3: "st_db s3 = st_db s2" using steps(5) readsD [OF reads_verifyExpired] by (auto simp: runs_basic split: if_splits)
  have "retirement_reason store c row expired turn"
    using steps(2,4,5) runs_verifyExpired
    by (auto simp: verifyReconcilePrecondition_def retirement_reason_def split: ReclaimReason.splits TurnStatus.splits if_splits)
  then show ?thesis using clock(1) e live s3 steps(6-8) by auto
qed

subsection \<open>What a retirement writes\<close>

text \<open>
  The commercial side: the authority released the reservation, which it is asked for only if no
  operation and no effect of the Turn is on record, or a pending Review is stored that it agreed to
  hold.
\<close>

definition retirement_outcome ::
  "sql_io \<Rightarrow> SettlementStore \<Rightarrow> sql_db \<Rightarrow> Turn \<Rightarrow> Sequence \<Rightarrow> SettlementReviewRecord option \<Rightarrow> bool"
where
  "retirement_outcome io store db turn fence review =
     (case review of
        None \<Rightarrow> settled (io_sha io) store (release_command (io_sha io) turn (t_Status turn) fence)
          \<and> (hasSettlementAuthority store \<longrightarrow>
               (\<forall>op \<in> set (db_operations db). op_TurnID op \<noteq> t_ID turn) \<and> (\<forall>e \<in> set (db_outbox db). ef_TurnID e \<noteq> t_ID turn))
      | Some rv \<Rightarrow> rv_Status rv = SettlementReviewStatusPending \<and> SettlementReviewRecord_Validate (io_sha io) rv = None
          \<and> held store \<lparr>hc_Review = rv, hc_PrincipalID = t_PrincipalID turn\<rparr>)"

definition retired ::
  "SettlementStore \<Rightarrow> sql_io \<Rightarrow> ReconcileCommand \<Rightarrow> sqlTurnRow \<Rightarrow> sqlTurnAttemptRow option \<Rightarrow> time \<Rightarrow> Sequence
     \<Rightarrow> ReconcileResult \<Rightarrow> sql_db \<Rightarrow> sql_db \<Rightarrow> bool"
where
  "retired store io c row expired now fence r db db' \<longleftrightarrow>
     (let turn = rcr_Turn r; seq = ev_Sequence (rcr_Event r); review = rcr_SettlementReview r in
      rcr_Changed r \<and> nextExecutionFence (tr_FencingToken row) = Inr fence
      \<and> nextSQLSequence (tr_LastEventSequence row) = Inr seq
      \<and> (\<exists>draft er n. reconcileEvent (rcc_Reason c) (t_Status turn) review = Inr draft \<and> buildEvent turn seq draft = Inr (rcr_Event r)
           \<and> eventToSQLRow (io_json io) (rcr_Event r) now = Inr er \<and> db_events db' = db_events db @ [er\<lparr>er_ID := n\<rparr>])
      \<and> db_attempts db' = update_rows (\<lambda>a. map_option at_ID expired = Some (at_ID a)) (expired_columns now) (db_attempts db)
      \<and> db_turns db' = update_rows (\<lambda>t. tr_TurnID t = t_ID turn) (retired_columns turn fence seq) (db_turns db)
      \<and> db_operations db' = db_operations db
      \<and> db_outbox db' = (if review = None then db_outbox db else hold_rows (t_ID turn) now (db_outbox db))
      \<and> (\<exists>n. db_reviews db' = db_reviews db @ review_rows review n)
      \<and> db_autoinc db \<le> db_autoinc db'
      \<and> rcr_FencedAttemptID r = (case expired of None \<Rightarrow> '''' | Some a \<Rightarrow> at_AttemptID a)
      \<and> retirement_outcome io store db turn fence review)"

lemma runs_count_rows:
  "runs (count_rows io table p) s n s' \<Longrightarrow> n = int (length (filter p (table (st_db s)))) \<and> st_db s' = st_db s"
  by (auto simp: count_rows_def runs_query)

lemma runs_inspect:
  assumes "runs (inspectAmbiguousRelease io i n) s ev s'"
  shows "ue_PriorOperationCount ev = int (length (filter (\<lambda>r. op_TurnID r = i) (db_operations (st_db s))))
    \<and> ue_PriorEffectCount ev = int (length (filter (\<lambda>r. ef_TurnID r = i) (db_outbox (st_db s)))) \<and> st_db s' = st_db s"
  using assms unfolding inspectAmbiguousRelease_def
  by (auto simp: runs_check runs_bind runs_basic usage_evidence_def dest!: runs_count_rows)

text \<open>No evidence is found only where the authority would release nothing that ran.\<close>

lemma runs_reconcile_evidence:
  assumes "runs (reconcile_evidence store tables io mode turn) s evidence s'"
  shows "st_db s' = st_db s \<and> (evidence = None \<longrightarrow> hasSettlementAuthority store \<longrightarrow>
    (\<forall>op \<in> set (db_operations (st_db s)). op_TurnID op \<noteq> t_ID turn) \<and> (\<forall>e \<in> set (db_outbox (st_db s)). ef_TurnID e \<noteq> t_ID turn))"
proof -
  have "(\<forall>op \<in> set (db_operations (st_db s)). op_TurnID op \<noteq> t_ID turn) \<and> (\<forall>e \<in> set (db_outbox (st_db s)). ef_TurnID e \<noteq> t_ID turn)"
    if none: "evidence = None" "hasSettlementAuthority store"
  proof -
    from assms none obtain ev s1 where "runs (inspectAmbiguousRelease io (t_ID turn) 0) s ev s1" "\<not> evidence_ambiguous ev"
      unfolding reconcile_evidence_def by (auto simp: runs_bind runs_basic runs_check split: if_splits)
    from runs_inspect [OF this(1)] this(2) show ?thesis
      by (auto simp: evidence_ambiguous_def filter_empty_conv not_less)
  qed
  then show ?thesis using readsD [OF reads_reconcile_evidence assms] by blast
qed

lemma runs_retirement_settlement:
  assumes "runs (retirement_settlement store io providerHold turn fence review openedAt) s out s'"
    and "\<And>hold. providerHold = Some hold \<Longrightarrow> installed_hold store hold"
  shows "st_db s' = (st_db s)\<lparr>db_reviews := db_reviews (st_db s) @ review_rows out (db_autoinc (st_db s)),
      db_autoinc := db_autoinc (st_db s) + length (review_rows out (db_autoinc (st_db s)))\<rparr>
    \<and> out = map_option (\<lambda>rv. rv\<lparr>rv_CreatedAt := openedAt, rv_UpdatedAt := openedAt\<rparr>) review
    \<and> (case out of
        None \<Rightarrow> settled (io_sha io) store (release_command (io_sha io) turn (t_Status turn) fence)
      | Some rv \<Rightarrow> rv_Status rv = SettlementReviewStatusPending \<and> SettlementReviewRecord_Validate (io_sha io) rv = None
          \<and> held store \<lparr>hc_Review = rv, hc_PrincipalID = t_PrincipalID turn\<rparr>)"
proof (cases review)
  case None
  then show ?thesis using assms(1)
    by (auto simp: retirement_settlement_def runs_basic runs_bind review_rows_def dest!: runs_settle)
next
  case (Some rv)
  let ?o = "rv\<lparr>rv_CreatedAt := openedAt, rv_UpdatedAt := openedAt\<rparr>"
  from assms(1) Some have out: "out = Some ?o" and "runs (case providerHold of
      Some hold \<Rightarrow> persistSettlementReviewWithAuthority io turn ?o hold | None \<Rightarrow> persistSettlementReview store io turn ?o) s () s'"
    by (auto simp: retirement_settlement_def Let_def runs_bind runs_basic)
  with assms(2) obtain hold where "installed_hold store hold" "runs (persistSettlementReviewWithAuthority io turn ?o hold) s () s'"
    by (cases providerHold) (auto dest: runs_persist)
  with runs_persistWithAuthority [OF this(2)] out Some show ?thesis
    by (auto simp: held_def installed_hold_def review_rows_def review_opened_def)
qed

lemma reconcileEvent_times:
  "reconcileEvent reason st (map_option (\<lambda>rv. rv\<lparr>rv_CreatedAt := t, rv_UpdatedAt := t'\<rparr>) review) = reconcileEvent reason st review"
  by (cases review) (simp_all add: reconcileEvent_def split: option.split)

lemma runs_retirement_hold:
  assumes "runs (retirement_hold store io i reviewed now) s openedAt s'"
  shows "st_db s' = (st_db s)\<lparr>db_outbox := (if reviewed then hold_rows i now (db_outbox (st_db s)) else db_outbox (st_db s))\<rparr>"
  using assms unfolding retirement_hold_def holdTurnEffectsForReview_def hold_rows_def
  by (auto simp: runs_basic runs_bind runs_statement split: if_splits dest!: runs_executionNow)

lemma update_rows_none: "update_rows (\<lambda>_. False) f rows = rows"
  by (simp add: update_rows_def)

lemma runs_retirement_writes:
  assumes "runs (retirement_writes store io providerHold (rcc_Reason c) row turn fence expired review now) s r s'"
    and "\<And>hold. providerHold = Some hold \<Longrightarrow> installed_hold store hold"
    and "nextExecutionFence (tr_FencingToken row) = Inr fence"
    and "review = None \<Longrightarrow> hasSettlementAuthority store \<Longrightarrow>
      (\<forall>op \<in> set (db_operations (st_db s)). op_TurnID op \<noteq> t_ID turn) \<and> (\<forall>e \<in> set (db_outbox (st_db s)). ef_TurnID e \<noteq> t_ID turn)"
  shows "retired store io c row expired now fence r (st_db s) (st_db s') \<and> rcr_Turn r = turn"
proof -
  let ?exp = "\<lambda>a. map_option at_ID expired = Some (at_ID a)"
  from assms(1) obtain s1 seq draft event s2 s3 openedAt s4 out where
    steps: "runs (case expired of None \<Rightarrow> tx_return () | Some a \<Rightarrow> updateAttemptColumns io (at_ID a) (expired_columns now)) s () s1"
      "nextSQLSequence (tr_LastEventSequence row) = Inr seq" "reconcileEvent (rcc_Reason c) (t_Status turn) review = Inr draft"
      "buildEvent turn seq draft = Inr event" "runs (insertEvent io event now) s1 () s2"
      "runs (updateTurnColumns (sn_store store) io (t_ID turn) (retired_columns turn fence seq)) s2 () s3"
      "runs (retirement_hold (sn_store store) io (t_ID turn) (review \<noteq> None) now) s3 openedAt s4"
      "runs (retirement_settlement store io providerHold turn fence review openedAt) s4 out s'"
      "r = \<lparr>rcr_Turn = turn, rcr_Event = event, rcr_TerminalStatus = t_Status turn, rcr_Changed = True,
         rcr_FencedAttemptID = (case expired of None \<Rightarrow> '''' | Some a \<Rightarrow> at_AttemptID a), rcr_SettlementReview = out\<rparr>"
    unfolding retirement_writes_def by (auto simp: runs_bind runs_basic)
  have d1: "st_db s1 = (st_db s)\<lparr>db_attempts := update_rows ?exp (expired_columns now) (db_attempts (st_db s))\<rparr>"
  proof (cases expired)
    case (Some a)
    then have exp: "?exp = (\<lambda>r. at_ID r = at_ID a)" by auto
    have "runs (updateAttemptColumns io (at_ID a) (expired_columns now)) s () s1" using steps(1) Some by simp
    from runs_updateAttemptColumns [OF this] show ?thesis unfolding exp .
  qed (use steps(1) in \<open>simp add: runs_basic update_rows_none\<close>)
  from runs_insertEvent [OF steps(5)] obtain er where er: "eventToSQLRow (io_json io) event now = Inr er"
      "st_db s2 = (st_db s1)\<lparr>db_events := db_events (st_db s1) @ [er\<lparr>er_ID := db_autoinc (st_db s1)\<rparr>],
         db_autoinc := Suc (db_autoinc (st_db s1))\<rparr>" by blast
  note d3 = runs_updateTurnColumns [OF steps(6)] and d4 = runs_retirement_hold [OF steps(7)]
  note d5 = runs_retirement_settlement [OF steps(8) assms(2)]
  have seq: "ev_Sequence event = seq" using buildEvent_Inr [OF steps(4)] by simp
  have none: "out = None \<longleftrightarrow> review = None" using d5 by auto
  have event: "reconcileEvent (rcc_Reason c) (t_Status turn) out = Inr draft" using d5 steps(3) by (simp add: reconcileEvent_times)
  have "retirement_outcome io store (st_db s) turn fence out"
    unfolding retirement_outcome_def
    using conjunct2 [OF conjunct2 [OF d5]] assms(4) none by (cases out) simp_all
  then have "retired store io c row expired now fence r (st_db s) (st_db s')"
    using assms(3) steps(2,4,9) er d1 d3 d4 d5 seq none event
    by (auto simp: retired_def Let_def)
  then show ?thesis using steps(9) by simp
qed

text \<open>A retirement as a whole.\<close>

definition retires :: "SettlementStore \<Rightarrow> sql_io \<Rightarrow> ReconcileCommand \<Rightarrow> ReconcileResult \<Rightarrow> sql_db \<Rightarrow> sql_db \<Rightarrow> bool" where
  "retires store io c r db db' \<longleftrightarrow> (\<exists>row turn now expired fence.
     retirable store io c db row turn now expired
     \<and> rcr_Turn r = finished_turn turn (fst (ReclaimReason_TerminalStatus (rcc_Reason c))) now
     \<and> retired store io c row expired now fence r db db')"

lemma reconcile_finished_result:
  assumes "runs (reconcile_finished tables io row turn) s r s'"
  shows "\<exists>x. r = finished_result turn x"
proof -
  from assms obtain found s1 m1 m2 m3 where
    "runs (case found of
       Some review \<Rightarrow>
         tx_bind (validateTerminalSettlementReviewTx tables io row turn review) (\<lambda>_.
         tx_check ((if SettlementReviewSource_executor (rv_Source review) then m1
                    else if rv_Source review = SettlementReviewSourceReconcile
                            \<or> rv_Source review = SettlementReviewSourceReconcileTerminal then \<not> m1
                    else True)
                   \<or> m2 \<noteq> rv_ReviewID review \<or> m3 \<noteq> rv_RequestDigest review) ErrStoreIntegrity (
         tx_return (finished_result turn (Some review))))
     | None \<Rightarrow>
         tx_check (m2 \<noteq> [] \<or> m3 \<noteq> []) ErrStoreIntegrity (
         tx_bind (count_rows io db_outbox (\<lambda>r. ef_TurnID r = t_ID turn \<and> ef_Status r = EffectStatusReviewHold)) (\<lambda>orphanedHolds.
         tx_check (orphanedHolds \<noteq> 0) ErrStoreIntegrity (
         tx_return (finished_result turn None))))) s1 r s'"
    unfolding reconcile_finished_def runs_bind [where m = "terminalSettlementReviewMarkerTx io row turn"]
      split_beta runs_bind [where m = "lookupSettlementReviewTx io (t_ID turn)"] by blast
  then show ?thesis
    by (cases found) (auto simp only: option.case runs_bind runs_check runs_basic)
qed

lemma reconcileTerminal_tx_cases:
  assumes "runs (reconcileTerminal_tx store tables io c terminal mode) s r s'"
    and "fst (ReclaimReason_TerminalStatus (rcc_Reason c)) = terminal"
  obtains (finished) row turn where "turn_at (st_db s) (rcc_TurnID c) = Some row" "toTurn row = Inr turn"
      "TurnStatus_Terminal (t_Status turn)" "\<not> rcr_Changed r" "rcr_Turn r = turn" "st_db s' = st_db s"
    | (retires) "retires store io c r (st_db s) (st_db s')"
proof -
  from assms(1) obtain row s1 turn providerHold where
    steps: "runs (lockTurn (sn_store store) io (\<lambda>r. tr_TurnID r = rcc_TurnID c)) s row s1" "toTurn row = Inr turn"
      "(if mode then map_sum id Some (settlementReviewProviderUsageAuthorityLocked store) else Inr None) = Inr providerHold"
      "runs (if TurnStatus_Terminal (t_Status turn) then reconcile_finished tables io row turn
             else reconcile_fresh store tables io c terminal providerHold row turn) s1 r s'"
    unfolding reconcileTerminal_tx_def runs_bind runs_decode runs_basic by blast
  have s1: "turn_at (st_db s) (rcc_TurnID c) = Some row" "st_db s1 = st_db s"
    using runs_lockTurn [OF steps(1)] by (auto simp: turn_at_def)
  have hold: "installed_hold store hold" if "providerHold = Some hold" for hold
  proof -
    from steps(3) that have "settlementReviewProviderUsageAuthorityLocked store = Inr hold"
      by (cases "settlementReviewProviderUsageAuthorityLocked store") (auto split: if_splits)
    then show ?thesis by (rule installed_holdI)
  qed
  show thesis
  proof (cases "TurnStatus_Terminal (t_Status turn)")
    case True
    with steps(4) have run: "runs (reconcile_finished tables io row turn) s1 r s'" by simp
    from reconcile_finished_result [OF run] finished [OF s1(1) steps(2) True] readsD [OF reads_reconcile_finished run] s1(2)
    show thesis by (auto simp: finished_result_def)
  next
    case False
    let ?next = "\<lambda>now. finished_turn turn terminal now"
    from steps(4) False obtain now expired s2 evidence s3 fence review where
      fresh: "runs (reconcile_guards store io c terminal row turn) s1 (now, expired) s2"
        "runs (reconcile_evidence store tables io (\<not> Option.is_none providerHold) turn) s2 evidence s3"
        "nextExecutionFence (tr_FencingToken row) = Inr fence"
        "retirement_review (io_sha io) (\<not> Option.is_none providerHold) (?next now) terminal fence evidence now = Inr review"
        "runs (retirement_writes store io providerHold (rcc_Reason c) row (?next now) fence expired review now) s3 r s'"
      unfolding reconcile_fresh_def Let_def by (auto simp: runs_bind runs_check runs_basic)
    note g = runs_reconcile_guards [OF fresh(1), unfolded s1(2)] and e = runs_reconcile_evidence [OF fresh(2)]
    have s3: "st_db s3 = st_db s" "st_db s2 = st_db s" using g e by simp_all
    have id: "t_ID (?next now) = t_ID turn" by (simp add: finished_turn_def)
    have "evidence = None" if "review = None"
      using fresh(4) that by (cases evidence) (auto simp: retirement_review_def map_sum_def split: sum.splits)
    then have "retired store io c row expired now fence r (st_db s3) (st_db s') \<and> rcr_Turn r = ?next now"
      using e s3 id by (intro runs_retirement_writes [OF fresh(5) hold fresh(3)]) simp_all
    then have "retires store io c r (st_db s) (st_db s')"
      unfolding retires_def retirable_def assms(2) s3(1) using s1(1) steps(2) False g by blast
    then show thesis by (rule retires)
  qed
qed

subsection \<open>Retirements and execution epochs\<close>

text \<open>A column of 64 bits holds the fence.\<close>

definition bigint_fences :: "sql_db \<Rightarrow> bool" where
  "bigint_fences db \<longleftrightarrow> (\<forall>t \<in> set (db_turns db). tr_FencingToken t < 2 ^ 63)"

lemma retired_columns_sel [simp]:
  "tr_TurnID (retired_columns t f q r) = tr_TurnID r" "tr_FencingToken (retired_columns t f q r) = sint f"
  "tr_ActiveAttemptID (retired_columns t f q r) = None" "tr_Status (retired_columns t f q r) = t_Status t"
  by (simp_all add: retired_columns_def)

lemma expired_columns_same: "same_attempt (expired_columns now a) a"
  by (simp add: expired_columns_def same_attempt_def)

lemma retires_epoch:
  assumes "retires store io c r db db'" "bigint_fences db"
  obtains row turn now expired fence where "turn_at db (rcc_TurnID c) = Some row" "toTurn row = Inr turn"
    "\<not> TurnStatus_Terminal (tr_Status row)" "owner_lapsed db row now expired" "sint fence = tr_FencingToken row + 1"
    "t_ID (rcr_Turn r) = rcc_TurnID c" "TurnStatus_Terminal (t_Status (rcr_Turn r))"
    "db_attempts db' = update_rows (\<lambda>a. map_option at_ID expired = Some (at_ID a)) (expired_columns now) (db_attempts db)"
    "db_turns db' = update_rows (\<lambda>t. tr_TurnID t = rcc_TurnID c) (retired_columns (rcr_Turn r) fence (ev_Sequence (rcr_Event r))) (db_turns db)"
    "db_autoinc db \<le> db_autoinc db'"
proof -
  from assms(1) obtain row turn now expired fence where
    ok: "retirable store io c db row turn now expired"
      "rcr_Turn r = finished_turn turn (fst (ReclaimReason_TerminalStatus (rcc_Reason c))) now"
      "retired store io c row expired now fence r db db'" by (auto simp: retires_def)
  have row: "turn_at db (rcc_TurnID c) = Some row" "toTurn row = Inr turn" using ok(1) by (simp_all add: retirable_def)
  note sel = toTurn_sel [OF row(2)] turn_at_id [OF row(1)]
  have "row \<in> set (db_turns db)" using row(1) find_SomeD by (fastforce simp: turn_at_def)
  then have bound: "tr_FencingToken row < 2 ^ 64" using assms(2) by (fastforce simp: bigint_fences_def)
  have fence: "sint fence = tr_FencingToken row + 1"
    using ok(3) nextExecutionFence_Inr [OF _ bound] by (auto simp: retired_def Let_def)
  have "TurnStatus_Terminal (t_Status (rcr_Turn r))"
    using ok(1,2) by (auto simp: retirable_def retirement_reason_def finished_turn_def split: ReclaimReason.splits)
  with ok row sel fence show thesis
    by (intro that [of row turn now expired fence]) (auto simp: retirable_def retired_def Let_def finished_turn_def)
qed

lemma retires_ok_kept:
  assumes ok: "attempts_ok db" and r: "retires store io c r db db'" "bigint_fences db"
  shows "attempts_ok db' \<and> epochs_kept db db'"
  using r
proof (cases rule: retires_epoch)
  case (1 row turn now expired fence)
  let ?p = "\<lambda>a. map_option at_ID expired = Some (at_ID a)"
  have uniq: "x = a" if "x \<in> set (db_attempts db)" "a \<in> set (db_attempts db)" "at_ID x = at_ID a \<or> at_AttemptID x = at_AttemptID a" for x a
    using ok that unfolding attempts_ok_def distinct_map by (blast dest: inj_onD)
  have expired: "a \<in> set (db_attempts db) \<and> at_Status a = AttemptStatusRunning \<and> at_TurnID a = rcc_TurnID c
      \<and> tr_ActiveAttemptID row = Some (at_AttemptID a)" if "expired = Some a" for a
    using 1(4) that turn_at_id [OF 1(1)] by (auto simp: owner_lapsed_def split: option.splits)
  show ?thesis
  proof (rule update_ok_kept [OF ok 1(9,8,10)])
    fix t x
    assume t: "turn_at db (rcc_TurnID c) = Some t" "x \<in> set (db_attempts db)" "attempt_under t x"
    have "?p x" if "at_Status x = AttemptStatusRunning"
    proof -
      have "tr_ActiveAttemptID row = Some (at_AttemptID x)" using t 1(1) that by (simp add: attempt_under_def)
      then obtain a where "expired = Some a" "at_AttemptID a = at_AttemptID x"
        using 1(4) by (auto simp: owner_lapsed_def)
      moreover from this have "x = a" using expired by (intro uniq [OF t(2)]) simp_all
      ultimately show ?thesis by simp
    qed
    then show "attempt_under (retired_columns (rcr_Turn r) fence (ev_Sequence (rcr_Event r)) t) (if ?p x then expired_columns now x else x)"
      using t(3) 1(1,5) t(1) by (auto simp: attempt_under_def expired_columns_def)
  next
    fix a assume a: "a \<in> set (db_attempts db)" "?p a"
    then obtain e where e: "expired = Some e" "at_ID e = at_ID a" by (cases expired) auto
    then have "a = e" using expired by (intro uniq [OF a(1)]) simp_all
    then show "at_Status a = AttemptStatusRunning \<and> at_TurnID a = rcc_TurnID c" using expired [OF e(1)] by simp
  qed (use 1(1,5) expired_columns_same in auto)
qed

lemma retires_frozen:
  assumes r: "retires store io c r db db'" "bigint_fences db" and t: "turn_at db i = Some t" "closed t"
  shows "turn_frozen i db db'"
  using r
proof (cases rule: retires_epoch)
  case (1 row turn now expired fence)
  have other: "i \<noteq> rcc_TurnID c" using 1(1,3) t by (auto simp: closed_def)
  from r(1) obtain draft er n now' where
    w: "buildEvent (rcr_Turn r) (ev_Sequence (rcr_Event r)) draft = Inr (rcr_Event r)"
      "eventToSQLRow (io_json io) (rcr_Event r) now' = Inr er" "db_events db' = db_events db @ [er\<lparr>er_ID := n\<rparr>]"
      "db_operations db' = db_operations db"
    unfolding retires_def retired_def Let_def by blast
  have "turn_at db' i = map_option (\<lambda>x. if tr_TurnID x = rcc_TurnID c then
      retired_columns (rcr_Turn r) fence (ev_Sequence (rcr_Event r)) x else x) (turn_at db i)"
    by (rule turn_at_update [OF 1(9)]) simp
  then show ?thesis using w event_row_turn [OF w(1,2)] 1(6) other t(1) turn_at_id [OF t(1)]
    by (auto simp: turn_frozen_def)
qed

subsection \<open>Writes to the log\<close>

lemma write_event_frame:
  assumes "runs (write_event store io row turn d now columns) s e s'"
  shows "\<exists>seq er n. buildEvent turn seq d = Inr e \<and> eventToSQLRow (io_json io) e now = Inr er
    \<and> st_db s' = (st_db s)\<lparr>db_turns := update_rows (\<lambda>r. tr_TurnID r = t_ID turn) (columns seq) (db_turns (st_db s)),
         db_events := db_events (st_db s) @ [er\<lparr>er_ID := n\<rparr>], db_autoinc := Suc (db_autoinc (st_db s))\<rparr>"
proof -
  from assms obtain seq s1 where
    steps: "buildEvent turn seq d = Inr e" "runs (insertEvent io e now) s () s1"
      "runs (updateTurnColumns store io (t_ID turn) (columns seq)) s1 () s'"
    unfolding write_event_def by (auto simp: runs_bind runs_basic)
  from runs_insertEvent [OF steps(2)] obtain er where "eventToSQLRow (io_json io) e now = Inr er"
    "st_db s1 = (st_db s)\<lparr>db_events := db_events (st_db s) @ [er\<lparr>er_ID := db_autoinc (st_db s)\<rparr>],
       db_autoinc := Suc (db_autoinc (st_db s))\<rparr>" by blast
  with steps runs_updateTurnColumns [OF steps(3)] show ?thesis
    by (intro exI [of _ seq] exI [of _ er] exI [of _ "db_autoinc (st_db s)"]) simp
qed

text \<open>A write to the log of an open Turn that leaves its owner alone.\<close>

definition logs :: "TurnID \<Rightarrow> sql_db \<Rightarrow> sql_db \<Rightarrow> bool" where
  "logs i db db' \<longleftrightarrow> (\<exists>row columns er. turn_at db i = Some row \<and> \<not> TurnStatus_Terminal (tr_Status row)
     \<and> (\<forall>r. tr_TurnID (columns r) = tr_TurnID r \<and> tr_FencingToken (columns r) = tr_FencingToken r
          \<and> tr_ActiveAttemptID (columns r) = tr_ActiveAttemptID r)
     \<and> er_TurnID er = i \<and> db_events db' = db_events db @ [er]
     \<and> db_turns db' = update_rows (\<lambda>r. tr_TurnID r = i) columns (db_turns db)
     \<and> db_attempts db' = db_attempts db \<and> db_operations db' = db_operations db \<and> db_autoinc db \<le> db_autoinc db')"

lemma write_event_logs:
  assumes "runs (write_event store io row turn d now columns) s e s'"
    and "turn_at (st_db s) i = Some row" "\<not> TurnStatus_Terminal (tr_Status row)" "t_ID turn = i"
    and "\<And>q r. tr_TurnID (columns q r) = tr_TurnID r" "\<And>q r. tr_FencingToken (columns q r) = tr_FencingToken r"
      "\<And>q r. tr_ActiveAttemptID (columns q r) = tr_ActiveAttemptID r"
  shows "logs i (st_db s) (st_db s')"
proof -
  from write_event_frame [OF assms(1)] obtain seq er n where
    w: "buildEvent turn seq d = Inr e" "eventToSQLRow (io_json io) e now = Inr er"
      "st_db s' = (st_db s)\<lparr>db_turns := update_rows (\<lambda>r. tr_TurnID r = t_ID turn) (columns seq) (db_turns (st_db s)),
         db_events := db_events (st_db s) @ [er\<lparr>er_ID := n\<rparr>], db_autoinc := Suc (db_autoinc (st_db s))\<rparr>" by blast
  show ?thesis unfolding logs_def
    by (rule exI [of _ row], rule exI [of _ "columns seq"], rule exI [of _ "er\<lparr>er_ID := n\<rparr>"])
      (use assms(2-) w event_row_turn [OF w(1,2)] in simp)
qed

lemma logs_ok_kept:
  assumes "attempts_ok db" "logs i db db'"
  shows "attempts_ok db' \<and> epochs_kept db db'"
proof -
  from assms(2) obtain row columns er where
    w: "\<forall>r. tr_TurnID (columns r) = tr_TurnID r \<and> tr_FencingToken (columns r) = tr_FencingToken r
          \<and> tr_ActiveAttemptID (columns r) = tr_ActiveAttemptID r"
      "db_turns db' = update_rows (\<lambda>r. tr_TurnID r = i) columns (db_turns db)" "db_attempts db' = db_attempts db"
      "db_autoinc db \<le> db_autoinc db'" unfolding logs_def by blast
  have "db_attempts db' = update_rows (\<lambda>_. False) id (db_attempts db)" using w(3) by (simp add: update_rows_none)
  from update_ok_kept [OF assms(1) w(2) this w(4)] w(1) show ?thesis by (simp add: same_attempt_def attempt_under_def)
qed

lemma logs_frozen:
  assumes "logs j db db'" "turn_at db i = Some t" "closed t"
  shows "turn_frozen i db db'"
proof -
  from assms(1) obtain row columns er where
    w: "turn_at db j = Some row" "\<not> TurnStatus_Terminal (tr_Status row)" "\<forall>r. tr_TurnID (columns r) = tr_TurnID r"
      "er_TurnID er = j" "db_events db' = db_events db @ [er]" "db_operations db' = db_operations db"
      "db_turns db' = update_rows (\<lambda>r. tr_TurnID r = j) columns (db_turns db)" unfolding logs_def by blast
  have "i \<noteq> j" using w(1,2) assms(2,3) by (auto simp: closed_def)
  moreover have "turn_at db' i = map_option (\<lambda>r. if tr_TurnID r = j then columns r else r) (turn_at db i)"
    by (rule turn_at_update [OF w(7)]) (use w(3) in simp)
  ultimately show ?thesis using w(4-6) assms(2) turn_at_id [OF assms(2)] by (simp add: turn_frozen_def)
qed

lemma append_logs:
  assumes "runs (appendEvent_tx store io i d) s e s'"
  shows "logs i (st_db s) (st_db s')"
proof -
  from assms obtain row s1 turn now s2 where
    steps: "runs (lockTurn store io (\<lambda>r. tr_TurnID r = i)) s row s1" "toTurn row = Inr turn"
      "\<not> TurnStatus_Terminal (t_Status turn)" "runs (executionNow store io) s1 now s2"
      "runs (write_event store io row turn d now (\<lambda>seq r. r\<lparr>tr_LastEventSequence := sint seq\<rparr>)) s2 e s'"
    unfolding appendEvent_tx_def by (auto simp: runs_bind runs_decode runs_check)
  have row: "turn_at (st_db s) i = Some row" "st_db s2 = st_db s"
    using runs_lockTurn [OF steps(1)] runs_executionNow [OF steps(4)] by (auto simp: turn_at_def)
  from write_event_logs [OF steps(5), of i] row steps(3) toTurn_sel [OF steps(2)] turn_at_id [OF row(1)] show ?thesis by simp
qed

lemma transition_logs:
  assumes "runs (transition_tx store io i to d) s r s'"
  shows "st_db s' = st_db s \<or> logs i (st_db s) (st_db s')"
proof -
  from assms obtain row s1 turn where lock: "runs (lockTurn store io (\<lambda>r. tr_TurnID r = i)) s row s1" "toTurn row = Inr turn"
    and body: "runs (if t_Status turn = to then tx_return \<lparr>tres_Turn = turn, tres_Changed = False, tres_Event = None\<rparr>
      else tx_check (\<not> CanTransition (t_Status turn) to) (transitionError (t_Status turn) to) (
        tx_check (to = TurnStatusStopped \<and> t_CancelRequestedAt turn = None) ErrCancellationNotRequested (
        tx_bind (executionNow store io) (\<lambda>now. let nextTurn = transitioned turn to now in
        tx_check (Turn_Validate nextTurn \<noteq> None) ErrStoreIntegrity (
        tx_bind (write_event store io row nextTurn d now (transition_columns nextTurn)) (\<lambda>event.
        tx_return \<lparr>tres_Turn = nextTurn, tres_Changed = True, tres_Event = Some event\<rparr>)))))) s1 r s'"
    unfolding transition_tx_def runs_bind runs_decode runs_check by blast
  have row: "turn_at (st_db s) i = Some row" "st_db s1 = st_db s" using runs_lockTurn [OF lock(1)] by (auto simp: turn_at_def)
  show ?thesis
  proof (cases "t_Status turn = to")
    case True
    with body row(2) show ?thesis by (simp add: runs_basic)
  next
    case False
    with body obtain now s2 e where w: "CanTransition (t_Status turn) to" "runs (executionNow store io) s1 now s2"
        "runs (write_event store io row (transitioned turn to now) d now (transition_columns (transitioned turn to now))) s2 e s'"
      by (auto simp: Let_def runs_bind runs_check runs_basic)
    have s2: "st_db s2 = st_db s" using runs_executionNow [OF w(2)] row(2) by auto
    have "\<not> TurnStatus_Terminal (tr_Status row)" using w(1) False CanTransition_terminal [of "t_Status turn" to] toTurn_sel(2) [OF lock(2)] by auto
    moreover have "t_ID (transitioned turn to now) = i"
      using toTurn_sel(1) [OF lock(2)] turn_at_id [OF row(1)] transitioned_same_identity [of turn to now]
      by (simp add: same_identity_def)
    ultimately have "logs i (st_db s) (st_db s')"
      using write_event_logs [OF w(3), of i] row(1) s2 by (simp add: transition_columns_def)
    then show ?thesis by blast
  qed
qed

lemma cancel_logs:
  assumes "runs (requestCancel_tx store io p th i d) s r s'" "attempts_ok (st_db s)"
  shows "st_db s' = st_db s \<or> logs i (st_db s) (st_db s')"
proof -
  from assms(1) obtain row s1 turn where lock: "runs (lockTurn store io (owned_row p th i)) s row s1" "toTurn row = Inr turn"
    and body: "runs (if TurnStatus_Terminal (t_Status turn) \<or> t_CancelRequestedAt turn \<noteq> None
      then tx_return \<lparr>cres_Turn = turn, cres_NewlyRequested = False, cres_Event = None\<rparr>
      else tx_bind (executionNow store io) (\<lambda>now. let nextTurn = cancelled turn now in
        tx_check (Turn_Validate nextTurn \<noteq> None) ErrStoreIntegrity (
        tx_bind (write_event store io row nextTurn d now (cancel_columns nextTurn)) (\<lambda>event.
        tx_return \<lparr>cres_Turn = nextTurn, cres_NewlyRequested = True, cres_Event = Some event\<rparr>)))) s1 r s'"
    unfolding requestCancel_tx_def runs_bind runs_decode by blast
  have f: "find (owned_row p th i) (db_turns (st_db s)) = Some row" "st_db s1 = st_db s" using runs_lockTurn [OF lock(1)] by auto
  have "row \<in> set (db_turns (st_db s))" "tr_TurnID row = i" using find_SomeD [OF f(1)] by (auto simp: owned_row_def)
  then have row: "turn_at (st_db s) i = Some row" "t_ID turn = i"
    using turn_at_unique [OF assms(2)] toTurn_sel(1) [OF lock(2)] by auto
  show ?thesis
  proof (cases "TurnStatus_Terminal (t_Status turn) \<or> t_CancelRequestedAt turn \<noteq> None")
    case True
    with body f(2) show ?thesis by (auto simp: runs_basic)
  next
    case False
    with body obtain now s2 e where w: "runs (executionNow store io) s1 now s2"
        "runs (write_event store io row (cancelled turn now) d now (cancel_columns (cancelled turn now))) s2 e s'"
      by (auto simp: Let_def runs_bind runs_check runs_basic)
    have s2: "st_db s2 = st_db s" using runs_executionNow [OF w(1)] f(2) by auto
    have "logs i (st_db s) (st_db s')"
      using write_event_logs [OF w(2), of i] row s2 False toTurn_sel(2) [OF lock(2)] by (simp add: cancel_columns_def)
    then show ?thesis by blast
  qed
qed

subsection \<open>Everything that writes to Turns\<close>

lemma admit_tx_frame:
  assumes "runs (admit_tx store io c first) s t s'" "buildEvent c 1 d = Inr first"
  shows "\<exists>row er. (\<forall>r \<in> set (db_turns (st_db s)). tr_TurnID r \<noteq> tr_TurnID row) \<and> er_TurnID er = tr_TurnID row
    \<and> st_db s' = (st_db s)\<lparr>db_turns := db_turns (st_db s) @ [row], db_events := db_events (st_db s) @ [er],
         db_autoinc := Suc (Suc (db_autoinc (st_db s)))\<rparr>"
proof -
  from assms(1) obtain now s1 er s2 where
    steps: "runs (executionNow store io) s now s1" "t = c\<lparr>t_CreatedAt := now, t_UpdatedAt := now\<rparr>"
      "eventToSQLRow (io_json io) first now = Inr er" "runs (create_turn io (turnToSQLRow t 1)) s1 () s2"
      "runs (create_event io er) s2 () s'"
    unfolding admit_tx_def Let_def by (auto simp: runs_bind runs_check runs_basic runs_decode)
  have s1: "st_db s1 = st_db s" using runs_executionNow [OF steps(1)] by auto
  note c = runs_insert_row [OF steps(4) [unfolded create_turn_def]] and e = runs_insert_row [OF steps(5) [unfolded create_event_def]]
  have er: "er_TurnID er = t_ID t" using event_row_turn [OF assms(2) steps(3)] steps(2) by simp
  show ?thesis
    by (rule exI [of _ "(turnToSQLRow t 1)\<lparr>tr_ID := db_autoinc (st_db s)\<rparr>"], rule exI [of _ "er\<lparr>er_ID := Suc (db_autoinc (st_db s))\<rparr>"])
      (use c e s1 er in \<open>auto simp: same_turn_key_def turnToSQLRow_def\<close>)
qed

lemma admit_ok_kept_frozen:
  assumes "runs (admit_tx store io c first) s t s'" "buildEvent c 1 d = Inr first" "attempts_ok (st_db s)"
  shows "attempts_ok (st_db s')" "epochs_kept (st_db s) (st_db s')"
    "turn_at (st_db s) i = Some u \<Longrightarrow> turn_frozen i (st_db s) (st_db s')"
proof -
  from admit_tx_frame [OF assms(1,2)] obtain row er where
    new: "\<forall>r \<in> set (db_turns (st_db s)). tr_TurnID r \<noteq> tr_TurnID row" and er: "er_TurnID er = tr_TurnID row"
    and db: "st_db s' = (st_db s)\<lparr>db_turns := db_turns (st_db s) @ [row], db_events := db_events (st_db s) @ [er],
         db_autoinc := Suc (Suc (db_autoinc (st_db s)))\<rparr>" by blast
  have at: "turn_at (st_db s') j = Some v" if "turn_at (st_db s) j = Some v" for j v
    using that by (simp add: db turn_at_def find_append)
  show "attempts_ok (st_db s')" using assms(3) new unfolding attempts_ok_def db by fastforce
  show "epochs_kept (st_db s) (st_db s')" using at by (auto simp: epochs_kept_def db attempt_at_def)
  show "turn_frozen i (st_db s) (st_db s')" if "turn_at (st_db s) i = Some u"
  proof -
    have "tr_TurnID row \<noteq> i" using new find_SomeD [OF that [unfolded turn_at_def]] by auto
    then show ?thesis using at [OF that] that er by (simp add: turn_frozen_def db)
  qed
qed

lemma outbox_step_only:
  assumes "outbox_step store db db'"
  shows "\<exists>rows. db' = db\<lparr>db_outbox := rows\<rparr>"
  using assms
proof (cases rule: outbox_step.cases)
  case (claim io i owner topics turn s x s')
  from claimEffect_tx_cases [OF claim(3)] show ?thesis unfolding claim(1,2) set_effect_def by (metis sql_db.surjective sql_db.update_convs(5))
next
  case (complete io c s r s')
  from completeEffect_tx_cases [OF complete(3)] show ?thesis unfolding complete(1,2) set_effect_def
    by (metis sql_db.surjective sql_db.update_convs(5))
next
  case (hold io turn now s u s')
  then show ?thesis by (auto simp: holdTurnEffectsForReview_def runs_statement)
qed

inductive kernel_step :: "SettlementStore \<Rightarrow> sql_db \<Rightarrow> sql_db \<Rightarrow> bool" for store where
  work: "work_step store db db' \<Longrightarrow> kernel_step store db db'"
| retire: "runs (reconcileTerminal_tx store tables io c terminal mode) s r s' \<Longrightarrow>
    fst (ReclaimReason_TerminalStatus (rcc_Reason c)) = terminal \<Longrightarrow> bigint_fences (st_db s) \<Longrightarrow>
    kernel_step store (st_db s) (st_db s')"
| admit: "runs (admit_tx (sn_store store) io c first) s t s' \<Longrightarrow> buildEvent c 1 d = Inr first \<Longrightarrow> kernel_step store (st_db s) (st_db s')"
| append: "runs (appendEvent_tx (sn_store store) io i d) s e s' \<Longrightarrow> kernel_step store (st_db s) (st_db s')"
| transition: "runs (transition_tx (sn_store store) io i to d) s tr s' \<Longrightarrow> kernel_step store (st_db s) (st_db s')"
| cancel: "runs (requestCancel_tx (sn_store store) io p th i d) s cr s' \<Longrightarrow> kernel_step store (st_db s) (st_db s')"
| effect: "outbox_step (sn_store store) db db' \<Longrightarrow> kernel_step store db db'"

lemma kernel_step_ok_kept:
  assumes "kernel_step store db db'" "attempts_ok db"
  shows "attempts_ok db' \<and> epochs_kept db db'"
  using assms
proof (induction rule: kernel_step.induct)
  case (work db db')
  then show ?case using sql_work.step_ok sql_work.step_kept by blast
next
  case (retire tables io c terminal mode s r s')
  from retire(1,2) show ?case
    by (cases rule: reconcileTerminal_tx_cases) (use retire(3,4) retires_ok_kept in auto)
next
  case (admit io c first s t s' d)
  then show ?case using admit_ok_kept_frozen(1,2) by blast
next
  case (append io i d s e s')
  from logs_ok_kept [OF append(2) append_logs [OF append(1)]] show ?case .
next
  case (transition io i to d s tr s')
  then show ?case using transition_logs [OF transition(1)] logs_ok_kept [OF transition(2)] by auto
next
  case (cancel io p th i d s cr s')
  then show ?case using cancel_logs [OF cancel] logs_ok_kept [OF cancel(2)] by auto
next
  case (effect db db')
  from outbox_step_only [OF effect(1)] effect(2) show ?case
    by (auto simp: attempts_ok_def epochs_kept_def turn_at_def attempt_at_def)
qed

lemma kernel_step_frozen:
  assumes "kernel_step store db db'" "attempts_ok db" "turn_at db i = Some t" "closed t"
  shows "turn_frozen i db db'"
  using assms
proof (induction rule: kernel_step.induct)
  case (work db db')
  then show ?case by (rule work_step_frozen)
next
  case (retire tables io c terminal mode s r s')
  from retire(1,2) show ?case
    by (cases rule: reconcileTerminal_tx_cases) (use retire(3-) retires_frozen in auto)
next
  case (admit io c first s t s' d)
  then show ?case using admit_ok_kept_frozen(3) by blast
next
  case (append io j d s e s')
  then show ?case using logs_frozen append_logs by blast
next
  case (transition io j to d s tr s')
  then show ?case using transition_logs [OF transition(1)] logs_frozen by auto
next
  case (cancel io p th j d s cr s')
  then show ?case using cancel_logs [OF cancel(1,2)] logs_frozen by auto
next
  case (effect db db')
  from outbox_step_only [OF effect(1)] show ?case by (auto simp: turn_frozen_def turn_at_def)
qed

interpretation kernel: closing_steps "kernel_step store" for store
  by unfold_locales (use kernel_step_ok_kept kernel_step_frozen in blast)+

text \<open>No worker commits to a closed Turn: what a commit returns there is an answer from a receipt.\<close>

lemma closed_commit_replays:
  assumes "runs (commitAttempt_tx store tables io plan) s r s'"
    and "turn_at (st_db s) (af_TurnID (cm_Fence (cc_Command (hd (cp_Candidates plan))))) = Some t" "closed t"
  shows "cmr_Replay r \<and> st_db s' = st_db s"
  using assms(1) refl
proof (cases rule: commitAttempt_tx_cases)
  case fresh
  from fresh(1) show ?thesis by (rule commits_epoch) (use assms(2,3) in \<open>auto simp: closed_def\<close>)
qed (simp add: answers_receipt_def)

text \<open>A superseded worker commits nothing: what a commit under an older fence returns is an answer from a receipt.\<close>

lemma superseded_commit_replays:
  assumes "runs (commitAttempt_tx store tables io plan) s r s'" "f = cm_Fence (cc_Command (hd (cp_Candidates plan)))"
    and "turn_at (st_db s) (af_TurnID f) = Some t" "sint (af_FencingToken f) < tr_FencingToken t"
  shows "cmr_Replay r \<and> st_db s' = st_db s"
  using assms(1) refl
proof (cases rule: commitAttempt_tx_cases)
  case fresh
  then show ?thesis using assms(2-4) by (auto simp: commits_def commit_allowed_def rowOwnsFence_def)
qed (simp add: answers_receipt_def)

subsection \<open>A sample cancellation\<close>

text \<open>The user cancels after the second claim of the sample Turn.\<close>

definition sample_third_stopping :: "CancelResult result \<times> sql_state" where
  "sample_third_stopping = requestCancel_tx sample_sql (sample_io (sample_time + 63 * Second)) ''p'' ''th'' ''turn-1''
     sample_draft (snd sample_third)"

lemma sample_third_stopping_runs:
  "runs (requestCancel_tx sample_sql (sample_io (sample_time + 63 * Second)) ''p'' ''th'' ''turn-1'' sample_draft)
     (snd sample_third) (projr (fst sample_third_stopping)) (snd sample_third_stopping)"
proof -
  have "\<not> isl (fst sample_third_stopping)" by code_simp
  then show ?thesis unfolding sample_third_stopping_def by (rule result_run)
qed

subsection \<open>A sample retirement\<close>

text \<open>The worker of the sample has stopped; its lease has lapsed and so has the reservation. One operation is on record.\<close>

definition sample_retire :: ReconcileCommand where
  "sample_retire = \<lparr>rcc_TurnID = ''turn-1'', rcc_Reason = ReclaimReasonReservationExpired, rcc_ReconcilerID = ''r-1'',
     rcc_ReconcilerBuildDigest = ''b''\<rparr>"

definition sample_later :: sql_io where
  "sample_later = sample_io (sample_time + 60 * Second)"

definition sample_retired :: "ReconcileResult result \<times> sql_state" where
  "sample_retired = ReconcileTerminal sample_settling sample_settling sample_tables sample_later live_ctx sample_retire sample_worked"

lemma sample_retired_runs:
  "runs (ReconcileTerminal sample_settling sample_settling sample_tables sample_later live_ctx sample_retire)
     sample_worked (projr (fst sample_retired)) (snd sample_retired)"
  "rcr_Changed (projr (fst sample_retired))" "rcr_SettlementReview (projr (fst sample_retired)) \<noteq> None"
proof -
  have *: "case fst sample_retired of Inl e \<Rightarrow> False | Inr r \<Rightarrow> rcr_Changed r \<and> \<not> Option.is_none (rcr_SettlementReview r)"
    by code_simp
  then have "\<not> isl (fst sample_retired)" by (auto split: sum.splits)
  then show "runs (ReconcileTerminal sample_settling sample_settling sample_tables sample_later live_ctx sample_retire)
     sample_worked (projr (fst sample_retired)) (snd sample_retired)" unfolding sample_retired_def by (rule result_run)
  from * show "rcr_Changed (projr (fst sample_retired))" "rcr_SettlementReview (projr (fst sample_retired)) \<noteq> None"
    by (auto simp: Option.is_none_def split: sum.splits)
qed

subsection \<open>Properties\<close>

lemma ReconcileTerminal_retires:
  assumes "runs (ReconcileTerminal before store tables io ctx c) s r s'" "rcr_Changed r"
  shows "retires store io c r (io_others io (st_tick s) (st_db s)) (st_db s')"
proof -
  from assms(1) obtain mode where
    "runs (writeTransaction (sn_store store) io (ctx 1) (ctx 2)
       (reconcileTerminal_tx store tables io c (fst (ReclaimReason_TerminalStatus (rcc_Reason c))) mode)) s r s'"
    unfolding ReconcileTerminal_def
    by (auto simp: runs_guard runs_check runs_bind runs_basic runs_catch_fail split: prod.splits)
  from runs_writeTransaction [OF this] obtain s1 s2 where
    tx: "st_db s1 = io_others io (st_tick s) (st_db s)"
      "runs (reconcileTerminal_tx store tables io c (fst (ReclaimReason_TerminalStatus (rcc_Reason c))) mode) s1 r s2"
      "st_db s' = st_db s2" by blast
  from tx(2) refl show ?thesis
    by (cases rule: reconcileTerminal_tx_cases) (use assms(2) tx(1,3) in auto)
qed

text \<open>
  C21. Late workers. When a Turn is claimed and later claimed again for a new epoch, the new fence
  is larger. From then on, whatever admissions, claims, heartbeats, commits, retirements, appended
  events, transitions, cancellations and effect deliveries of any sessions commit, before the second
  claim and after it, a heartbeat under the first fence never succeeds, and a commit transaction
  under it can at most answer from a receipt and changes nothing, whether its worker is slow,
  paused or restarted.
\<close>

theorem late_worker_fenced:
  assumes "attempts_ok (st_db s0)" "honest_io io1" "honest_io io2"
    and "runs (claimAttempt_tx (sn_store store) io1 c1) s0 r1 s1" "(kernel_step store)\<^sup>*\<^sup>* (st_db s1) (st_db s2)"
    and "runs (claimAttempt_tx (sn_store store) io2 c2) s2 r2 s3" "clr_Claimed r2" "ca_TurnID c2 = ca_TurnID c1"
    and "f = TurnAttempt_Fence (clr_Attempt r1)"
  shows "sint (af_FencingToken f) < sint (ta_FencingToken (clr_Attempt r2))
    \<and> (\<forall>io ctx u r u'. (kernel_step store)\<^sup>*\<^sup>* (st_db s3) (io_others io (st_tick u) (st_db u)) \<longrightarrow>
         \<not> runs (HeartbeatAttempt (sn_store store) io ctx \<lparr>hb_Fence = f\<rparr>) u r u')
    \<and> (\<forall>tables io plan u r u'. (kernel_step store)\<^sup>*\<^sup>* (st_db s3) (st_db u) \<longrightarrow>
         cm_Fence (cc_Command (hd (cp_Candidates plan))) = f \<longrightarrow> runs (commitAttempt_tx store tables io plan) u r u' \<longrightarrow>
         cmr_Replay r \<and> st_db u' = st_db u)"
proof -
  let ?i = "ca_TurnID c1" and ?f1 = "sint (ta_FencingToken (clr_Attempt r1))" and ?f2 = "sint (ta_FencingToken (clr_Attempt r2))"
  have k1: "attempts_ok (st_db s1)" using attempt_step_ok_kept [OF attempt_step.claim [OF assms(2,4)] assms(1)] by simp
  have k2: "attempts_ok (st_db s2)" using kernel.steps_ok_kept [OF assms(5) k1] by simp
  have k3: "attempts_ok (st_db s3)" using attempt_step_ok_kept [OF attempt_step.claim [OF assms(3,6)] k2] by simp
  from claimed_fence [OF assms(4,2,1)] obtain t1 where t1: "turn_at (st_db s1) ?i = Some t1" "tr_FencingToken t1 = ?f1"
      "ta_TurnID (clr_Attempt r1) = ?i" by blast
  from kernel.fence_monotone [OF assms(5) k1 t1(1)] obtain t2 where
    t2: "turn_at (st_db s2) ?i = Some t2" "?f1 \<le> tr_FencingToken t2" using t1(2) by auto
  have lt: "?f1 < ?f2" using claimed_epoch_rises [OF assms(6,3) k2 assms(7)] t2 assms(8) by simp
  from claimed_fence [OF assms(6,3) k2] obtain t3 where t3: "turn_at (st_db s3) ?i = Some t3" "tr_FencingToken t3 = ?f2"
    using assms(8) by auto
  have f: "af_TurnID f = ?i" "sint (af_FencingToken f) = ?f1" using assms(9) t1(3) by (simp_all add: TurnAttempt_Fence_def)
  have past: "\<exists>t. turn_at db (af_TurnID f) = Some t \<and> sint (af_FencingToken f) < tr_FencingToken t"
    if "(kernel_step store)\<^sup>*\<^sup>* (st_db s3) db" for db
    using kernel.fence_monotone [OF that k3 t3(1)] t3(2) lt f by auto
  have heartbeat: "\<not> runs (HeartbeatAttempt (sn_store store) io ctx \<lparr>hb_Fence = f\<rparr>) u r u'"
    if "(kernel_step store)\<^sup>*\<^sup>* (st_db s3) (io_others io (st_tick u) (st_db u))" for io ctx u r u'
  proof
    assume "runs (HeartbeatAttempt (sn_store store) io ctx \<lparr>hb_Fence = f\<rparr>) u r u'"
    from runs_HeartbeatAttempt [OF this] obtain u1 u2 where "st_db u1 = io_others io (st_tick u) (st_db u)"
      "runs (heartbeatAttempt_tx (sn_store store) io f) u1 r u2" by auto
    with past [OF that] heartbeat_fenced [of u1 f] show False by auto
  qed
  have commit: "cmr_Replay r \<and> st_db u' = st_db u"
    if "(kernel_step store)\<^sup>*\<^sup>* (st_db s3) (st_db u)" "cm_Fence (cc_Command (hd (cp_Candidates plan))) = f"
      "runs (commitAttempt_tx store tables io plan) u r u'" for tables io plan u r u'
  proof -
    from past [OF that(1)] obtain t where "turn_at (st_db u) (af_TurnID f) = Some t" "sint (af_FencingToken f) < tr_FencingToken t" by blast
    then show ?thesis by (rule superseded_commit_replays [OF that(3) that(2) [symmetric]])
  qed
  have "sint (af_FencingToken f) < ?f2" using lt f(2) by simp
  then show ?thesis using heartbeat commit by blast
qed

theorem late_worker_fenced_witness:
  "\<forall>r s5. \<not> runs (HeartbeatAttempt sample_sql (sample_io (sample_time + 64 * Second)) live_ctx
     \<lparr>hb_Fence = TurnAttempt_Fence (clr_Attempt (projr (fst sample_second)))\<rparr>) (snd sample_third_stopping) r s5"
proof -
  let ?store = "sample_settling\<lparr>sn_store := sample_sql\<rparr>"
  have "kernel_step ?store (st_db (snd sample_third)) (st_db (snd sample_third_stopping))"
    by (rule kernel_step.cancel) (use sample_third_stopping_runs in simp)
  then have steps: "(kernel_step ?store)\<^sup>*\<^sup>* (st_db (snd sample_third))
      (io_others (sample_io (sample_time + 64 * Second)) (st_tick (snd sample_third_stopping)) (st_db (snd sample_third_stopping)))"
    by (simp add: sample_io_def)
  have turn: "ca_TurnID (sample_claim_command ''att-3'' ''w-3'') = ca_TurnID (sample_claim_command ''att-2'' ''w-2'')"
    by (simp add: sample_claim_command_def)
  have st: "sn_store ?store = sample_sql" by simp
  from late_worker_fenced [of _ _ _ ?store, unfolded st, OF sample_attempts_ok sample_quiet(2) sample_quiet(2) sample_second_runs(1)
      rtranclp.rtrancl_refl sample_third_runs turn refl] steps show ?thesis by blast
qed

text \<open>
  C30. Retirement under proof. A retirement that changes a Turn found it, in the database its
  transaction sees, open and without a live executor: there is no active attempt, or the lease of
  the active one has lapsed on the database clock; and the reason it was given still holds: a
  recorded cancellation, an exhausted budget, or a reservation that the installed authority proved
  expired. It wrote the terminal status of that reason under the next fence and one event for it,
  ended the lapsed attempt, and left receipts alone. Its commercial outcome is in the same
  transaction: a release, which is asked for only if the authority has no operation and no effect
  of the Turn to answer for, or a pending Review that the authority agreed to hold, with every
  undelivered effect of the Turn held back.
\<close>

theorem retirement_under_proof:
  assumes "runs (ReconcileTerminal before store tables io ctx c) s r s'" "rcr_Changed r"
  shows "\<exists>row turn now expired fence.
     retirable store io c (io_others io (st_tick s) (st_db s)) row turn now expired
     \<and> rcr_Turn r = finished_turn turn (fst (ReclaimReason_TerminalStatus (rcc_Reason c))) now
     \<and> retired store io c row expired now fence r (io_others io (st_tick s) (st_db s)) (st_db s')"
  using ReconcileTerminal_retires [OF assms] unfolding retires_def .

theorem retirement_under_proof_witness:
  "\<exists>row turn now expired fence.
     retirable sample_settling sample_later sample_retire (io_others sample_later (st_tick sample_worked) (st_db sample_worked)) row turn now expired
     \<and> rcr_Turn (projr (fst sample_retired)) = finished_turn turn (fst (ReclaimReason_TerminalStatus (rcc_Reason sample_retire))) now
     \<and> retired sample_settling sample_later sample_retire row expired now fence (projr (fst sample_retired))
         (io_others sample_later (st_tick sample_worked) (st_db sample_worked)) (st_db (snd sample_retired))"
  by (rule retirement_under_proof [OF sample_retired_runs(1,2)])

text \<open>
  C31. A retired Turn stays retired. A retirement leaves the Turn closed in the status of its reason
  and under a fence one above the one it found. From then on, whatever admissions, claims,
  heartbeats, commits, retirements, appended events, transitions, cancellations and effect
  deliveries of any sessions commit, the row of the Turn, its log and its receipts stay exactly as
  they are and no attempt of it runs; a partitioned worker that comes back and commits gets at most
  the answer of an old receipt, and changes nothing.
\<close>

theorem retired_turn_final:
  assumes "runs (ReconcileTerminal before store tables io ctx c) s r s'" "rcr_Changed r"
    and "attempts_ok (io_others io (st_tick s) (st_db s))" "bigint_fences (io_others io (st_tick s) (st_db s))"
    and "(kernel_step store)\<^sup>*\<^sup>* (st_db s') db"
  shows "(\<exists>t0 t. turn_at (io_others io (st_tick s) (st_db s)) (rcc_TurnID c) = Some t0 \<and> turn_at (st_db s') (rcc_TurnID c) = Some t
      \<and> closed t \<and> tr_Status t = fst (ReclaimReason_TerminalStatus (rcc_Reason c)) \<and> tr_FencingToken t = tr_FencingToken t0 + 1)
    \<and> turn_frozen (rcc_TurnID c) (st_db s') db
    \<and> (\<forall>a \<in> set (db_attempts db). at_TurnID a = rcc_TurnID c \<longrightarrow> at_Status a \<noteq> AttemptStatusRunning)
    \<and> (\<forall>tables' io' plan u x u'. st_db u = db \<longrightarrow> af_TurnID (cm_Fence (cc_Command (hd (cp_Candidates plan)))) = rcc_TurnID c \<longrightarrow>
         runs (commitAttempt_tx store tables' io' plan) u x u' \<longrightarrow> cmr_Replay x \<and> st_db u' = db)"
proof -
  let ?db = "io_others io (st_tick s) (st_db s)" and ?i = "rcc_TurnID c"
  note ret = ReconcileTerminal_retires [OF assms(1,2)]
  have status: "t_Status (rcr_Turn r) = fst (ReclaimReason_TerminalStatus (rcc_Reason c))"
    using ret by (auto simp: retires_def finished_turn_def)
  obtain t0 t where t: "turn_at ?db ?i = Some t0" "turn_at (st_db s') ?i = Some t" "closed t"
      "tr_Status t = fst (ReclaimReason_TerminalStatus (rcc_Reason c))" "tr_FencingToken t = tr_FencingToken t0 + 1"
    using ret assms(4)
  proof (cases rule: retires_epoch)
    case (1 row turn now expired fence)
    let ?f = "retired_columns (rcr_Turn r) fence (ev_Sequence (rcr_Event r))"
    have "turn_at (st_db s') ?i = map_option (\<lambda>x. if tr_TurnID x = ?i then ?f x else x) (turn_at ?db ?i)"
      by (rule turn_at_update [OF 1(9)]) simp
    then show thesis using 1(1,5,7) turn_at_id [OF 1(1)] status by (intro that [of row "?f row"]) (auto simp: closed_def)
  qed
  have ok: "attempts_ok (st_db s')" using retires_ok_kept [OF assms(3) ret assms(4)] by simp
  note frozen = kernel.steps_frozen [OF assms(5) ok t(2,3)]
  have db: "attempts_ok db" "turn_at db ?i = Some t"
    using kernel.steps_ok_kept [OF assms(5) ok] frozen t(2) by (simp_all add: turn_frozen_def)
  have "cmr_Replay x \<and> st_db u' = db"
    if "st_db u = db" "af_TurnID (cm_Fence (cc_Command (hd (cp_Candidates plan)))) = ?i" "runs (commitAttempt_tx store tables' io' plan) u x u'"
    for tables' io' plan u x u'
    using closed_commit_replays [OF that(3), of t] that(1,2) db(2) t(3) by simp
  then show ?thesis using kernel.no_runner [OF db t(3)] t frozen by blast
qed

theorem retired_turn_final_witness:
  "turn_frozen ''turn-1'' (st_db (snd sample_retired)) (st_db (snd sample_retired))
    \<and> (\<exists>t0 t. turn_at (st_db sample_worked) ''turn-1'' = Some t0 \<and> turn_at (st_db (snd sample_retired)) ''turn-1'' = Some t
        \<and> closed t \<and> tr_Status t = TurnStatusTimeout \<and> tr_FencingToken t = tr_FencingToken t0 + 1)"
proof -
  have others: "io_others sample_later (st_tick sample_worked) (st_db sample_worked) = st_db sample_worked"
    by (simp add: sample_later_def sample_io_def)
  have "attempts_ok (st_db sample_worked)" "bigint_fences (st_db sample_worked)" by code_simp+
  then have ok: "attempts_ok (io_others sample_later (st_tick sample_worked) (st_db sample_worked))"
    "bigint_fences (io_others sample_later (st_tick sample_worked) (st_db sample_worked))" unfolding others .
  note final = retired_turn_final [OF sample_retired_runs(1,2) ok rtranclp.rtrancl_refl]
  have id: "rcc_TurnID sample_retire = ''turn-1''" "fst (ReclaimReason_TerminalStatus (rcc_Reason sample_retire)) = TurnStatusTimeout"
    by (simp_all add: sample_retire_def)
  show ?thesis
    by (rule conjI [OF conjunct1 [OF conjunct2 [OF final]] conjunct1 [OF final], unfolded others id])
qed

text \<open>A fresh terminal commit leaves its Turn closed in the status it names.\<close>

lemma valid_terminal:
  "CommitAttemptCommand_Validate c = None \<Longrightarrow> cm_TerminalStatus c \<noteq> TurnStatusOther '''' \<Longrightarrow> TurnStatus_Terminal (cm_TerminalStatus c)"
  by (auto simp: CommitAttemptCommand_Validate_def commit_outcome_error_def err_simps)

lemma commits_closed:
  assumes "commits store io c digest r db db'" "cm_TerminalStatus c \<noteq> TurnStatusOther ''''" "TurnStatus_Terminal (cm_TerminalStatus c)"
  shows "\<exists>t. turn_at db' (af_TurnID (cm_Fence c)) = Some t \<and> tr_Status t = cm_TerminalStatus c \<and> closed t"
  using assms(1)
proof (cases rule: commits_epoch)
  case (1 row a now)
  let ?f = "commit_turn_columns True (cmr_Turn r) (ev_Sequence (cmr_Event r)) now"
  have "turn_at db' (af_TurnID (cm_Fence c)) = map_option (\<lambda>x. if tr_TurnID x = af_TurnID (cm_Fence c) then ?f x else x)
      (turn_at db (af_TurnID (cm_Fence c)))"
    using 1(9) assms(2) by (intro turn_at_update) simp_all
  then show ?thesis using 1(1,11) turn_at_id assms(2,3) by (intro exI [of _ "?f row"]) (auto simp: closed_def)
qed

text \<open>
  C29. A terminal commit is final. It leaves the Turn in the status it names, without an active
  attempt, and when it opens a Review no effect of the Turn is left pending or in delivery. From
  then on, whatever admissions, claims, heartbeats, commits, retirements, appended events,
  transitions, cancellations and effect deliveries of any sessions commit, the row of the Turn, its
  log and its receipts stay exactly as they are, and no attempt of it runs again.
\<close>

theorem terminal_commit_final:
  assumes "runs (commitAttempt_tx store tables io plan) s r s'" "\<not> cmr_Replay r" "plan_for c plan"
    and "cm_TerminalStatus c \<noteq> TurnStatusOther ''''" "CommitAttemptCommand_Validate c = None"
    and "attempts_ok (st_db s)" "(kernel_step store)\<^sup>*\<^sup>* (st_db s') db"
  shows "(\<exists>t. turn_at (st_db s') (af_TurnID (cm_Fence c)) = Some t \<and> tr_Status t = cm_TerminalStatus c \<and> closed t)
    \<and> (cmr_SettlementReview r \<noteq> None \<longrightarrow> (\<forall>e \<in> set (db_outbox (st_db s')). ef_TurnID e = af_TurnID (cm_Fence c) \<longrightarrow>
         ef_Status e \<noteq> EffectStatusPending \<and> ef_Status e \<noteq> EffectStatusDelivering))
    \<and> turn_frozen (af_TurnID (cm_Fence c)) (st_db s') db
    \<and> (\<forall>a \<in> set (db_attempts db). at_TurnID a = af_TurnID (cm_Fence c) \<longrightarrow> at_Status a \<noteq> AttemptStatusRunning)"
proof -
  let ?i = "af_TurnID (cm_Fence c)" and ?k = "cc_Command (hd (cp_Candidates plan))"
  have k: "cm_Fence ?k = cm_Fence c" "cm_TerminalStatus ?k = cm_TerminalStatus c"
    using plan_head(1) [OF assms(3)] by (simp_all add: same_commit_def)
  from assms(1) refl have w: "commits store io ?k (cc_Digest (hd (cp_Candidates plan))) r (st_db s) (st_db s')"
    by (cases rule: commitAttempt_tx_cases) (use assms(2) in \<open>auto simp: answers_receipt_def\<close>)
  obtain t where t: "turn_at (st_db s') ?i = Some t" "tr_Status t = cm_TerminalStatus c" "closed t"
    using commits_closed [OF w] valid_terminal [OF assms(5,4)] assms(4) k by auto
  have hold: "ef_Status e \<noteq> EffectStatusPending \<and> ef_Status e \<noteq> EffectStatusDelivering"
    if "cmr_SettlementReview r \<noteq> None" "e \<in> set (db_outbox (st_db s'))" "ef_TurnID e = ?i" for e
  proof -
    from w have "t_ID (cmr_Turn r) = ?i" by (rule commits_epoch) (simp add: k)
    with w that(1) obtain rows now where "db_outbox (st_db s') = hold_rows ?i now rows"
      by (auto simp: commits_def committed_def Let_def)
    then show ?thesis using that(2,3) hold_rows_status by simp
  qed
  have ok: "attempts_ok (st_db s')" using commits_ok_kept(1) [OF assms(6) w] .
  note frozen = kernel.steps_frozen [OF assms(7) ok t(1,3)]
  have "attempts_ok db" "turn_at db ?i = Some t"
    using kernel.steps_ok_kept [OF assms(7) ok] frozen t(1) by (simp_all add: turn_frozen_def)
  from kernel.no_runner [OF this t(3)] t hold frozen show ?thesis by blast
qed

theorem terminal_commit_final_witness:
  "turn_frozen ''turn-1'' (st_db (snd sample_failed)) (st_db (snd sample_failed))
    \<and> [e \<leftarrow> db_outbox (st_db (snd sample_failed)). ef_TurnID e = ''turn-1'' \<and> ef_Status e = EffectStatusPending] = []
    \<and> (\<exists>t. turn_at (st_db (snd sample_failed)) ''turn-1'' = Some t \<and> tr_Status t = TurnStatusFailed \<and> closed t)"
proof -
  have plan: "plan_for sample_fail sample_fail_plan"
    by (simp add: plan_for_def sample_fail_plan_def same_commit_def sample_fail_def)
  have valid: "CommitAttemptCommand_Validate sample_fail = None" and ok: "attempts_ok (st_db sample_worked)" by code_simp+
  have "cm_TerminalStatus sample_fail \<noteq> TurnStatusOther ''''" by (simp add: sample_fail_def)
  from terminal_commit_final [OF sample_failed_runs(1) _ plan this valid ok rtranclp.rtrancl_refl] sample_failed_runs(2)
  show ?thesis by (auto simp: sample_fail_def sample_fence_def filter_empty_conv)
qed

end
