(* ===== verification/Reconcile_Pass.thy ===== *)
theory Reconcile_Pass
  imports Runtime_Loops Reconcile_Safety
begin

text \<open>
  A whole pass of the reconciler over the database: the composition of \<^verbatim>\<open>ReconcileOnce\<close>, the scan and the
  retirements, beside sessions that run any transactions of the kernel.
\<close>

subsection \<open>Transactions that keep a closed Turn\<close>

text \<open>Other sessions commit kernel transactions, on fences that fit their column.\<close>

definition kernel_sessions :: "SettlementStore \<Rightarrow> sql_io \<Rightarrow> bool" where
  "kernel_sessions store io \<longleftrightarrow> (\<forall>n db. bigint_fences db \<longrightarrow>
     (kernel_step store)\<^sup>*\<^sup>* db (io_others io n db) \<and> bigint_fences (io_others io n db))"

definition kernel_run :: "SettlementStore \<Rightarrow> sql_db \<Rightarrow> sql_db \<Rightarrow> bool" where
  "kernel_run store db0 db \<longleftrightarrow> (kernel_step store)\<^sup>*\<^sup>* db0 db \<and> bigint_fences db"

lemma kernel_run_others: "kernel_sessions store io \<Longrightarrow> kernel_run store db0 db \<Longrightarrow> kernel_run store db0 (io_others io n db)"
  unfolding kernel_sessions_def kernel_run_def by (meson rtranclp_trans)

lemma kernel_run_trans: "kernel_run store a b \<Longrightarrow> kernel_run store b c \<Longrightarrow> kernel_run store a c"
  unfolding kernel_run_def by (meson rtranclp_trans)

lemma retires_bigint:
  assumes "retires store io c r db db'" "bigint_fences db"
  shows "bigint_fences db'"
  using assms
proof (cases rule: retires_epoch)
  case (1 row turn now expired fence)
  have "sint fence < 2 ^ 63" using sint_lt [of fence] by simp
  with assms(2) show ?thesis unfolding bigint_fences_def 1(9) by (auto simp: update_rows_def)
qed

lemma retire_kernel_run:
  assumes "runs (reconcileTerminal_tx store tables io c terminal mode) s r s'"
    and "fst (ReclaimReason_TerminalStatus (rcc_Reason c)) = terminal" "kernel_run store db0 (st_db s)"
  shows "kernel_run store db0 (st_db s')"
proof -
  have big: "bigint_fences (st_db s)" using assms(3) by (simp add: kernel_run_def)
  have "kernel_step store (st_db s) (st_db s')" by (rule kernel_step.retire [OF assms(1,2) big])
  moreover have "bigint_fences (st_db s')"
    using assms(1,2) by (cases rule: reconcileTerminal_tx_cases) (use big retires_bigint in auto)
  ultimately show ?thesis using assms(3) by (auto simp: kernel_run_def)
qed

lemma keeps_ReconcileTerminal:
  assumes "kernel_sessions store io"
  shows "keeps (kernel_run store db0) (ReconcileTerminal before store tables io ctx c)"
  unfolding ReconcileTerminal_def split_beta
  by (intro keeps_guard keeps_check keeps_bind keeps_basic keeps_catch keeps_writeTransaction)
    (use assms retire_kernel_run kernel_run_others in auto)

lemma keeps_ListReclaimableTurns:
  assumes "kernel_sessions store io"
  shows "keeps (kernel_run store db0) (ListReclaimableTurns st io ctx q)"
  unfolding ListReclaimableTurns_def
  by (intro keeps_guard keeps_catch keeps_bind keeps_outside keeps_reads [OF reads_executionNow] keeps_reads [OF reads_query] keeps_basic)
    (use assms kernel_run_others in \<open>auto intro: keeps_basic split: sum.splits\<close>)

subsection \<open>A pass\<close>

definition retired_in :: "sql_db \<Rightarrow> ReconcileResult \<Rightarrow> bool" where
  "retired_in db r \<longleftrightarrow> (\<exists>t. turn_at db (t_ID (rcr_Turn r)) = Some t \<and> closed t \<and> tr_Status t = t_Status (rcr_Turn r))"

lemma retired_in_kept:
  assumes "kernel_run store db db'" "attempts_ok db" "retired_in db r"
  shows "retired_in db' r"
proof -
  from assms(3) obtain t where t: "turn_at db (t_ID (rcr_Turn r)) = Some t" "closed t" "tr_Status t = t_Status (rcr_Turn r)"
    by (auto simp: retired_in_def)
  from kernel.steps_frozen [of store db db', OF _ assms(2) t(1,2)] assms(1)
  have "turn_at db' (t_ID (rcr_Turn r)) = Some t" by (simp add: kernel_run_def turn_frozen_def t(1))
  with t show ?thesis by (auto simp: retired_in_def)
qed

lemma kernel_run_ok: "kernel_run store db db' \<Longrightarrow> attempts_ok db \<Longrightarrow> attempts_ok db'"
  using kernel.steps_ok_kept [of store db db'] by (simp add: kernel_run_def)

lemma retires_retired_in:
  assumes "retires store io c r db db'" "bigint_fences db"
  shows "retired_in db' r"
  using assms
proof (cases rule: retires_epoch)
  case (1 row turn now expired fence)
  have "turn_at db' (rcc_TurnID c) = map_option (\<lambda>x. if tr_TurnID x = rcc_TurnID c then
      retired_columns (rcr_Turn r) fence (ev_Sequence (rcr_Event r)) x else x) (turn_at db (rcc_TurnID c))"
    by (rule turn_at_update [OF 1(9)]) simp
  then show ?thesis using 1(1,6,7) turn_at_id [OF 1(1)] by (simp add: retired_in_def closed_def)
qed

definition reconciled :: "ReconcileReport \<Rightarrow> int" where
  "reconciled report = int (length (rpt_Retired report)) + rpt_Skipped report + int (length (rpt_Failures report))"

lemma count_reconcile_counted:
  "reconciled (count_reconcile candidate outcome report) = reconciled report + 1"
  "rpt_Scanned (count_reconcile candidate outcome report) = rpt_Scanned report"
  "set (rpt_Retired (count_reconcile candidate outcome report)) =
     set (rpt_Retired report) \<union> {r. outcome = Inr r \<and> rcr_Changed r}"
  by (cases outcome; auto simp: count_reconcile_def reconciled_def)+

lemma reconcile_one:
  assumes "ReconcileTerminal before store tables io ctx c s = (outcome, s')" "kernel_sessions store io" "bigint_fences (st_db s)"
  shows "kernel_run store (st_db s) (st_db s')" "outcome = Inr r \<Longrightarrow> rcr_Changed r \<Longrightarrow> retired_in (st_db s') r"
proof -
  have here: "kernel_run store (st_db s) (st_db s)" using assms(3) by (simp add: kernel_run_def)
  with keeps_ReconcileTerminal [OF assms(2), of "st_db s" before tables ctx c] assms(1)
  show "kernel_run store (st_db s) (st_db s')" unfolding keeps_def by (metis snd_conv)
  assume r: "outcome = Inr r" "rcr_Changed r"
  then have "retires store io c r (io_others io (st_tick s) (st_db s)) (st_db s')"
    using assms(1) by (intro ReconcileTerminal_retires) (simp_all add: runs_def)
  moreover have "bigint_fences (io_others io (st_tick s) (st_db s))"
    using kernel_run_others [OF assms(2) here] by (simp add: kernel_run_def)
  ultimately show "retired_in (st_db s') r" by (rule retires_retired_in)
qed

lemma reconcile_loop_sound:
  assumes "reconcile_loop reconciler view io n candidates report s = ((final, err), s')" "kernel_sessions (rc_store reconciler) io"
    and "attempts_ok (st_db s)" "bigint_fences (st_db s)" "\<And>r. r \<in> set (rpt_Retired report) \<Longrightarrow> retired_in (st_db s) r"
  shows "kernel_run (rc_store reconciler) (st_db s) (st_db s')
    \<and> (\<forall>r \<in> set (rpt_Retired final). retired_in (st_db s') r)
    \<and> reconciled final \<le> reconciled report + int (length candidates) \<and> rpt_Scanned final = rpt_Scanned report
    \<and> (err = None \<longrightarrow> reconciled final = reconciled report + int (length candidates))"
  using assms
proof (induction reconciler view io n candidates report s rule: reconcile_loop.induct)
  case (1 reconciler view io n report s)
  then show ?case by (auto simp: kernel_run_def)
next
  case (2 reconciler view io n candidate rest report s)
  let ?store = "rc_store reconciler"
  show ?case
  proof (cases "first_error [contextError (lv_pass view (2 * n + 2) 0), Acquire (map_option (lv_gates view n) (rc_admission reconciler))]")
    case (Some e)
    have "final = report" "err = Some e" "s' = s" using 2(2) unfolding reconcile_loop.simps Some by simp_all
    then show ?thesis using 2(5,6) by (auto simp: kernel_run_def)
  next
    case None
    obtain outcome s1 where one: "ReconcileTerminal (rc_before reconciler) ?store (rc_tables reconciler) io
        (lv_pass view (2 * n + 3)) (reconcile_command (rc_options reconciler) candidate) s = (outcome, s1)" by (meson surj_pair)
    note step = reconcile_one [OF one 2(3,5)]
    note counts = count_reconcile_counted [of candidate outcome report]
    have rest: "reconcile_loop reconciler view io (Suc n) rest (count_reconcile candidate outcome report) s1 = ((final, err), s')"
      using 2(2) unfolding reconcile_loop.simps None one by simp
    have ok: "attempts_ok (st_db s1)" "bigint_fences (st_db s1)"
      using kernel_run_ok [OF step(1) 2(4)] step(1) by (simp_all add: kernel_run_def)
    have "retired_in (st_db s1) r" if "r \<in> set (rpt_Retired (count_reconcile candidate outcome report))" for r
      using that step(2) retired_in_kept [OF step(1) 2(4) 2(6)] unfolding counts(3) by blast
    note ih = 2(1) [OF None one [symmetric] rest 2(3) ok this]
    have "kernel_run ?store (st_db s) (st_db s')" using kernel_run_trans [OF step(1)] ih by blast
    then show ?thesis using ih counts(1,2) by auto
  qed
qed

subsection \<open>A sample pass\<close>

text \<open>Of two Turns one was cancelled before any worker claimed it.\<close>

definition sample_keeper :: Reconciler where
  "sample_keeper = sample_reconciler\<lparr>rc_before := sample_settling, rc_store := sample_settling, rc_tables := sample_tables\<rparr>"

definition sample_sweep :: "(ReconcileReport \<times> go_error option) \<times> sql_state" where
  "sample_sweep = ReconcileOnce sample_keeper (sample_pass_view LiveContext) (sample_io (sample_time + 31 * Second)) sample_waiting"

lemma sample_sweep_facts:
  "attempts_ok (st_db sample_waiting)" "bigint_fences (st_db sample_waiting)"
  "length (rpt_Retired (fst (fst sample_sweep))) = 1"
  by code_simp+

lemma sample_sweep_sessions: "kernel_sessions (rc_store sample_keeper) (sample_io t)" "rc_store sample_keeper = sample_settling"
  by (simp_all add: kernel_sessions_def sample_io_def sample_keeper_def)

subsection \<open>The property\<close>

text \<open>
  C38. A pass of the reconciler. Let the reconciler run beside sessions that commit any transactions of
  the kernel. Whatever fails in a pass, and wherever its context or the gate stops it, what it does to
  the database is a sequence of kernel transactions, so that every guarantee of these transactions
  holds across the pass. Every Turn it reports as retired is closed in the database at the end of the
  pass, in the reported status. If the pass returns without an error, each candidate of the scan is
  counted exactly once, as retired, skipped or failed; if it ends with an error, candidates may be
  left uncounted, and the counts add up to at most the number of candidates.
\<close>

theorem reconcile_pass_sound:
  assumes "ReconcileOnce reconciler view io s = ((report, err), s')" "kernel_sessions (rc_store reconciler) io"
    and "attempts_ok (st_db s)" "bigint_fences (st_db s)"
  shows "(kernel_step (rc_store reconciler))\<^sup>*\<^sup>* (st_db s) (st_db s') \<and> attempts_ok (st_db s')
    \<and> (\<forall>r \<in> set (rpt_Retired report). \<exists>t. turn_at (st_db s') (t_ID (rcr_Turn r)) = Some t \<and> closed t
         \<and> tr_Status t = t_Status (rcr_Turn r))
    \<and> int (length (rpt_Retired report)) + rpt_Skipped report + int (length (rpt_Failures report)) \<le> rpt_Scanned report
    \<and> (err = None \<longrightarrow>
         int (length (rpt_Retired report)) + rpt_Skipped report + int (length (rpt_Failures report)) = rpt_Scanned report)"
proof -
  let ?store = "rc_store reconciler"
  have here: "kernel_run ?store (st_db s) (st_db s)" using assms(4) by (simp add: kernel_run_def)
  have goal: ?thesis if "kernel_run ?store (st_db s) (st_db s')" "\<forall>r \<in> set (rpt_Retired report). retired_in (st_db s') r"
      "reconciled report \<le> rpt_Scanned report" "err = None \<longrightarrow> reconciled report = rpt_Scanned report"
    using that kernel_run_ok [OF that(1) assms(3)] by (simp add: kernel_run_def retired_in_def reconciled_def)
  show ?thesis
  proof (cases "contextError (lv_pass view 0 0)")
    case (Some e)
    have "report = no_reconcile" "s' = s" using assms(1) unfolding ReconcileOnce_def by (simp_all add: Some)
    then show ?thesis using here by (intro goal) (simp_all add: no_reconcile_def reconciled_def)
  next
    case None
    let ?q = "\<lparr>rcq_Limit = ro_BatchLimit (rc_options reconciler), rcq_ActionableOnly = True\<rparr>"
    obtain listed s1 where l: "ListReclaimableTurns (sn_store ?store) io (lv_pass view 1) ?q s = (listed, s1)" by (meson surj_pair)
    have scan: "kernel_run ?store (st_db s) (st_db s1)"
      using keeps_ListReclaimableTurns [OF assms(2), of "st_db s" "sn_store ?store" "lv_pass view 1" ?q] here l
      unfolding keeps_def by (metis snd_conv)
    show ?thesis
    proof (cases listed)
      case (Inl e)
      have "report = no_reconcile" "s' = s1" using assms(1) l Inl unfolding ReconcileOnce_def by (simp_all add: None)
      then show ?thesis using scan by (intro goal) (simp_all add: no_reconcile_def reconciled_def)
    next
      case (Inr candidates)
      have loop: "reconcile_loop reconciler view io 0 candidates (no_reconcile\<lparr>rpt_Scanned := int (length candidates)\<rparr>) s1 = ((report, err), s')"
        using assms(1) l Inr unfolding ReconcileOnce_def by (simp add: None)
      note pass = reconcile_loop_sound [OF loop assms(2) kernel_run_ok [OF scan assms(3)]]
      have big: "bigint_fences (st_db s1)" using scan by (simp add: kernel_run_def)
      show ?thesis using pass [OF big] kernel_run_trans [OF scan] by (intro goal) (auto simp: no_reconcile_def reconciled_def)
    qed
  qed
qed


theorem reconcile_pass_sound_witness:
  "(kernel_step sample_settling)\<^sup>*\<^sup>* (st_db sample_waiting) (st_db (snd sample_sweep))
   \<and> (\<exists>r t. rpt_Retired (fst (fst sample_sweep)) = [r] \<and> turn_at (st_db (snd sample_sweep)) (t_ID (rcr_Turn r)) = Some t \<and> closed t)"
proof -
  obtain r where r: "rpt_Retired (fst (fst sample_sweep)) = [r]"
    using sample_sweep_facts(3) by (cases "rpt_Retired (fst (fst sample_sweep))") auto
  show ?thesis
    using reconcile_pass_sound [of sample_keeper "sample_pass_view LiveContext" "sample_io (sample_time + 31 * Second)" sample_waiting
        "fst (fst sample_sweep)" "snd (fst sample_sweep)" "snd sample_sweep"] sample_sweep_facts(1,2) sample_sweep_sessions r
    by (auto simp: sample_sweep_def [symmetric])
qed


end
