(* ===== verification/Plugin_Scope.thy ===== *)
theory Plugin_Scope
  imports Sql_Commit "HOL-Library.List_Lexorder" "HOL-Library.Char_ord"
begin

text \<open>
  The execution view of one worker process, \<^verbatim>\<open>server/service/agentturn/plugin_scoped_store.go\<close>: a
  store bound to a set of plugin releases, with a digest of that set that every call checks again.

  A pointer to a store is its address, \<open>None\<close> is nil. SHA-256 is the parameter \<open>sha\<close>; digests are
  compared in hexadecimal. Strings are ordered by their bytes, and the sort is stable; the order of
  equal keys, which needs a field with a NUL byte, is not relied on.
\<close>

subsection \<open>Operations\<close>

definition pluginScopeKey :: "EventPluginRef \<Rightarrow> string" where
  "pluginScopeKey plugin = pr_ID plugin @ [CHR 0x00] @ pr_Version plugin @ [CHR 0x00] @ pr_ReleaseDigest plugin"

definition PutUint64 :: "64 word \<Rightarrow> string" where
  "PutUint64 v = map (\<lambda>k. char_of (uint (drop_bit (56 - 8 * k) v))) [0..<8]"

definition sized :: "string \<Rightarrow> string" where
  "sized field = PutUint64 (word_of_nat (length field)) @ field"

definition scope_payload :: "EventPluginRef list \<Rightarrow> string" where
  "scope_payload scope = concat (map (\<lambda>p. concat (map sized [pr_ID p, pr_Version p, pr_ReleaseDigest p])) scope)"

definition pluginScopeDigest :: "(string \<Rightarrow> string) \<Rightarrow> EventPluginRef list \<Rightarrow> string" where
  "pluginScopeDigest sha scope = sha (scope_payload scope)"

record PluginScopedExecutionStore =
  ps_base :: "SettlementStore option"
  ps_scope :: "EventPluginRef list"
  ps_digest :: string

definition NewPluginScopedExecutionStore ::
  "(string \<Rightarrow> string) \<Rightarrow> SettlementStore option \<Rightarrow> EventPluginRef list \<Rightarrow> PluginScopedExecutionStore result"
where
  "NewPluginScopedExecutionStore sha base scope =
     (if Option.is_none base \<or> length scope = 0 then Inl ErrPluginScopeMismatch
      else (case validateClaimPluginScope scope of
              Some e \<Rightarrow> Inl e
            | None \<Rightarrow> let copyOfScope = sort_key pluginScopeKey scope
                      in Inr \<lparr>ps_base = base, ps_scope = copyOfScope, ps_digest = pluginScopeDigest sha copyOfScope\<rparr>))"

definition intact :: "(string \<Rightarrow> string) \<Rightarrow> PluginScopedExecutionStore \<Rightarrow> bool" where
  "intact sha store \<longleftrightarrow> \<not> Option.is_none (ps_base store) \<and> length (ps_scope store) > 0
     \<and> validateClaimPluginScope (ps_scope store) = None \<and> ps_digest store = pluginScopeDigest sha (ps_scope store)"

definition Matches ::
  "(string \<Rightarrow> string) \<Rightarrow> PluginScopedExecutionStore \<Rightarrow> SettlementStore option \<Rightarrow> EventPluginRef list \<Rightarrow> bool"
where
  "Matches sha store base scope \<longleftrightarrow> intact sha store \<and> \<not> Option.is_none base
     \<and> map_option sn_address (ps_base store) = map_option sn_address base \<and> length scope \<noteq> 0
     \<and> validateClaimPluginScope scope = None
     \<and> ps_digest store = pluginScopeDigest sha (sort_key pluginScopeKey scope)"

text \<open>Every operation checks the binding, then calls the base store; claims carry the scope of the view.\<close>

definition with_base ::
  "(string \<Rightarrow> string) \<Rightarrow> PluginScopedExecutionStore \<Rightarrow> (SettlementStore \<Rightarrow> 'a tx) \<Rightarrow> 'a tx"
where
  "with_base sha store call =
     (case ps_base store of
        None \<Rightarrow> tx_fail ErrPluginScopeMismatch
      | Some base \<Rightarrow> tx_check (\<not> intact sha store) ErrPluginScopeMismatch (call base))"

definition scoped_ClaimNext ::
  "PluginScopedExecutionStore \<Rightarrow> sql_io \<Rightarrow> go_context \<Rightarrow> ClaimNextCommand \<Rightarrow> ClaimAttemptResult tx"
where
  "scoped_ClaimNext store io ctx c = with_base (io_sha io) store
     (\<lambda>base. ClaimNext (sn_store base) io ctx (c\<lparr>cn_PluginScope := ps_scope store\<rparr>))"

definition scoped_ClaimAttempt ::
  "PluginScopedExecutionStore \<Rightarrow> sql_io \<Rightarrow> go_context \<Rightarrow> ClaimAttemptCommand \<Rightarrow> ClaimAttemptResult tx"
where
  "scoped_ClaimAttempt store io ctx c = with_base (io_sha io) store
     (\<lambda>base. ClaimAttempt (sn_store base) io ctx (c\<lparr>ca_PluginScope := ps_scope store\<rparr>))"

definition scoped_HeartbeatAttempt ::
  "PluginScopedExecutionStore \<Rightarrow> sql_io \<Rightarrow> go_context \<Rightarrow> HeartbeatAttemptCommand \<Rightarrow> HeartbeatAttemptResult tx"
where
  "scoped_HeartbeatAttempt store io ctx c = with_base (io_sha io) store (\<lambda>base. HeartbeatAttempt (sn_store base) io ctx c)"

definition scoped_CommitAttempt ::
  "PluginScopedExecutionStore \<Rightarrow> review_tables \<Rightarrow> sql_io \<Rightarrow> go_context \<Rightarrow> CommitAttemptCommand \<Rightarrow> CommitAttemptResult tx"
where
  "scoped_CommitAttempt store tables io ctx c = with_base (io_sha io) store (\<lambda>base. CommitAttempt base base tables io ctx c)"

subsection \<open>The encoding of a scope\<close>

lemma length_PutUint64 [simp]: "length (PutUint64 n) = 8"
  by (simp add: PutUint64_def)

lemma PutUint64_inject:
  assumes "PutUint64 m = PutUint64 n"
  shows "m = n"
proof -
  have digit: "uint m div 256 ^ k mod 256 = uint n div 256 ^ k mod 256" if "k < 8" for k :: nat
  proof -
    have "PutUint64 m ! (7 - k) = PutUint64 n ! (7 - k)" using assms by simp
    then have "(of_char (PutUint64 m ! (7 - k)) :: int) = of_char (PutUint64 n ! (7 - k))" by simp
    moreover have "(of_char (PutUint64 v ! (7 - k)) :: int) = uint v div 256 ^ k mod 256" for v
    proof -
      have "56 - 8 * (7 - k) = 8 * k" "(2 :: int) ^ (8 * k) = 256 ^ k" "[0..<8] ! (7 - k) = 7 - k"
        using that by (simp_all add: power_mult nth_upt [of 0 "7 - k" 8, simplified])
      then have "PutUint64 v ! (7 - k) = char_of (uint (drop_bit (8 * k) v))"
        using that by (simp add: PutUint64_def del: upt_rec_numeral)
      moreover have "uint (drop_bit (8 * k) v) = drop_bit (8 * k) (uint v)"
        by (simp only: unsigned_drop_bit_eq take_bit_int_eq_self [OF uint_ge_0 uint_lt2p])
      ultimately show ?thesis using \<open>2 ^ (8 * k) = 256 ^ k\<close> by (simp add: drop_bit_eq_div)
    qed
    ultimately show ?thesis by simp
  qed
  have "uint m mod 256 ^ k = uint n mod 256 ^ k" if "k \<le> 8" for k
    using that
  proof (induction k)
    case (Suc k)
    have split: "a mod 256 ^ Suc k = 256 ^ k * (a div 256 ^ k mod 256) + a mod 256 ^ k" for a :: int
      using zmod_zmult2_eq [of 256 a "256 ^ k"] by (simp only: power_Suc2)
    show ?case using digit [of k] Suc by (simp only: split)
  qed simp
  from this [of 8] show ?thesis using uint_lt2p [of m] uint_lt2p [of n] by (simp add: word_uint_eq_iff)
qed

lemma sized_inject:
  assumes "length a < 2 ^ 64" "length b < 2 ^ 64"
  shows "sized a @ s = sized b @ t \<longleftrightarrow> a = b \<and> s = t"
proof -
  have "length a = length b" if "PutUint64 (word_of_nat (length a)) = PutUint64 (word_of_nat (length b))"
    using arg_cong [OF PutUint64_inject [OF that], of unat] assms by (simp add: unat_of_nat)
  then show ?thesis by (auto simp: sized_def)
qed

definition short_fields :: "EventPluginRef \<Rightarrow> bool" where
  "short_fields p \<longleftrightarrow> length (pr_ID p) < 2 ^ 64 \<and> length (pr_Version p) < 2 ^ 64 \<and> length (pr_ReleaseDigest p) < 2 ^ 64"

lemma scope_payload_inject:
  assumes "list_all short_fields xs" "list_all short_fields ys" "scope_payload xs = scope_payload ys"
  shows "xs = ys"
  using assms
proof (induction xs arbitrary: ys)
  case Nil
  then show ?case by (cases ys) (simp_all add: scope_payload_def sized_def PutUint64_def)
next
  case (Cons p xs)
  show ?case
  proof (cases ys)
    case Nil
    then show ?thesis using Cons.prems(3) by (simp add: scope_payload_def sized_def PutUint64_def)
  next
    case (Cons q ys')
    have "sized (pr_ID p) @ sized (pr_Version p) @ sized (pr_ReleaseDigest p) @ scope_payload xs
        = sized (pr_ID q) @ sized (pr_Version q) @ sized (pr_ReleaseDigest q) @ scope_payload ys'"
      using Cons.prems(3) Cons by (simp add: scope_payload_def)
    then have "pr_ID p = pr_ID q \<and> pr_Version p = pr_Version q \<and> pr_ReleaseDigest p = pr_ReleaseDigest q
        \<and> scope_payload xs = scope_payload ys'"
      using Cons.prems(1,2) Cons by (simp add: sized_inject short_fields_def)
    then show ?thesis using Cons.IH Cons.prems(1,2) Cons by simp
  qed
qed

lemma valid_scope_short: "validateClaimPluginScope scope = None \<Longrightarrow> list_all short_fields scope"
  by (auto simp: validateClaimPluginScope_None_iff list_all_iff short_fields_def validatePluginRef_def
      validateBoundedText_def err_simps)


text \<open>Without NUL bytes in id and version the key determines the release, and so the order of the sorted scope.\<close>

definition no_nul :: "EventPluginRef \<Rightarrow> bool" where
  "no_nul p \<longleftrightarrow> CHR 0x00 \<notin> set (pr_ID p) \<and> CHR 0x00 \<notin> set (pr_Version p)"

lemma split_at_nul: "CHR 0x00 \<notin> set a \<Longrightarrow> CHR 0x00 \<notin> set b \<Longrightarrow> a @ CHR 0x00 # s = b @ CHR 0x00 # t \<longleftrightarrow> a = b \<and> s = t"
  by (induction a arbitrary: b) (case_tac [!] b, auto)

lemma pluginScopeKey_inj: "list_all no_nul scope \<Longrightarrow> inj_on pluginScopeKey (set scope)"
  by (rule inj_onI) (auto simp: list_all_iff no_nul_def pluginScopeKey_def split_at_nul intro: EventPluginRef.equality)

lemma sort_key_set_unique:
  fixes key :: "'a \<Rightarrow> 'b::linorder"
  assumes "distinct xs" "distinct ys" "set xs = set ys" "inj_on key (set xs)"
  shows "sort_key key xs = sort_key key ys"
proof -
  have "map key (sort_key key xs) = map key (sort_key key ys)"
    by (rule sorted_distinct_set_unique) (use assms in \<open>simp_all add: distinct_map\<close>)
  then show ?thesis using assms(3,4) by (simp add: inj_on_map_eq_map)
qed

subsection \<open>What the binding guarantees\<close>

lemma NewPluginScopedExecutionStore_Inr:
  assumes "NewPluginScopedExecutionStore sha base scope = Inr store"
  shows "ps_base store = base" "\<not> Option.is_none base" "scope \<noteq> []" "validateClaimPluginScope scope = None"
    "ps_scope store = sort_key pluginScopeKey scope" "ps_digest store = sha (scope_payload (sort_key pluginScopeKey scope))"
  using assms by (auto simp: NewPluginScopedExecutionStore_def pluginScopeDigest_def Let_def split: if_splits option.splits)

lemma valid_scope_sorted [simp]: "validateClaimPluginScope (sort_key key xs) = None \<longleftrightarrow> validateClaimPluginScope xs = None"
  by (auto simp: validateClaimPluginScope_None_iff)

lemma digest_inject:
  assumes "validateClaimPluginScope xs = None" "validateClaimPluginScope ys = None"
    "inj_on sha {scope_payload xs, scope_payload ys}"
  shows "sha (scope_payload xs) = sha (scope_payload ys) \<longleftrightarrow> xs = ys"
  using scope_payload_inject [OF valid_scope_short [OF assms(1)] valid_scope_short [OF assms(2)]] assms(3)
  by (auto dest: inj_onD)

lemma intact_tampered:
  assumes "NewPluginScopedExecutionStore sha base scope = Inr store" "intact sha (store\<lparr>ps_scope := tampered\<rparr>)"
    "inj_on sha {scope_payload (sort_key pluginScopeKey scope), scope_payload tampered}"
  shows "tampered = ps_scope store"
  using assms(2) digest_inject [of "sort_key pluginScopeKey scope" tampered sha] assms(3)
    NewPluginScopedExecutionStore_Inr [OF assms(1)]
  by (simp add: intact_def pluginScopeDigest_def)

lemma runs_with_base:
  "runs (with_base sha store call) s r s' \<longleftrightarrow> intact sha store \<and> (\<exists>base. ps_base store = Some base \<and> runs (call base) s r s')"
  by (auto simp: with_base_def tx_runs runs_basic intact_def split: option.splits)

text \<open>A view whose scope slice was changed refuses all four operations.\<close>

lemma tampered_view_refuses:
  assumes "NewPluginScopedExecutionStore (io_sha io) base scope = Inr store" "tampered \<noteq> ps_scope store"
    "inj_on (io_sha io) {scope_payload (sort_key pluginScopeKey scope), scope_payload tampered}"
  shows "scoped_ClaimNext (store\<lparr>ps_scope := tampered\<rparr>) io ctx c1 = tx_fail ErrPluginScopeMismatch"
    "scoped_ClaimAttempt (store\<lparr>ps_scope := tampered\<rparr>) io ctx c2 = tx_fail ErrPluginScopeMismatch"
    "scoped_HeartbeatAttempt (store\<lparr>ps_scope := tampered\<rparr>) io ctx c3 = tx_fail ErrPluginScopeMismatch"
    "scoped_CommitAttempt (store\<lparr>ps_scope := tampered\<rparr>) tables io ctx c4 = tx_fail ErrPluginScopeMismatch"
  using intact_tampered [OF assms(1) _ assms(3)] assms(2)
  by (auto simp: scoped_ClaimNext_def scoped_ClaimAttempt_def scoped_HeartbeatAttempt_def scoped_CommitAttempt_def
      with_base_def tx_check_def split: option.splits)

subsection \<open>A claim stays in the scope of its command\<close>

lemma claim_epoch_plugin:
  assumes "runs (claim_epoch store io c row turn now expired) s r s'"
  shows "t_Plugin (clr_Turn r) = t_Plugin turn"
  using assms unfolding claim_epoch_def claim_started_def
  by (auto simp: runs_bind runs_basic runs_check runs_decode Let_def split: if_splits)

lemma claimAttempt_tx_in_scope:
  assumes "runs (claimAttempt_tx store io c) s r s'"
  shows "claimPluginScopeAllows (ca_PluginScope c) (t_Plugin (clr_Turn r))"
proof -
  from assms obtain row s1 turn found s2 where
    steps: "claimPluginScopeAllows (ca_PluginScope c) (t_Plugin turn)"
      "runs (case found of Some existing \<Rightarrow> claim_replay store io c row turn existing
             | None \<Rightarrow> claim_fresh store io c row turn) s2 r s'"
    unfolding claimAttempt_tx_def by (auto simp: runs_bind runs_decode runs_check)
  have "t_Plugin (clr_Turn r) = t_Plugin turn"
    using steps(2) claim_epoch_plugin
    by (cases found) (auto simp: claim_fresh_def claim_replay_def runs_bind runs_basic runs_decode runs_check)
  with steps(1) show ?thesis by simp
qed

lemma resolveClaim_in_scope:
  assumes "runs (resolveClaim store io c) s (Some r) s'"
  shows "claimPluginScopeAllows (ca_PluginScope c) (t_Plugin (clr_Turn r))"
  using assms unfolding resolveClaim_def
  by (auto simp: runs_bind runs_basic runs_decode runs_check split: option.splits)

lemma ClaimAttempt_in_scope:
  assumes "runs (ClaimAttempt store io ctx c) s r s'"
  shows "claimPluginScopeAllows (ca_PluginScope c) (t_Plugin (clr_Turn r))"
  using assms claimAttempt_tx_in_scope resolveClaim_in_scope unfolding ClaimAttempt_def
  by (auto simp: runs_try runs_guard runs_basic dest!: runs_writeTransaction split: option.splits)

lemma claim_next_loop_in_scope:
  assumes "runs (claim_next_loop store io ctx k c ids) s r s'"
  shows "claimPluginScopeAllows (cn_PluginScope c) (t_Plugin (clr_Turn r))"
  using assms
proof (induction store io ctx k c ids arbitrary: s rule: claim_next_loop.induct)
  case (2 store io ctx k c turnID rest)
  then show ?case using ClaimAttempt_in_scope [of store io _ "claimFor c turnID"]
    by (auto simp: runs_try runs_guard runs_basic claimFor_def split: if_splits)
qed (simp add: runs_basic)

lemma ClaimNext_in_scope:
  assumes "runs (ClaimNext store io ctx c) s r s'"
  shows "claimPluginScopeAllows (cn_PluginScope c) (t_Plugin (clr_Turn r))"
  using assms ClaimAttempt_in_scope [of store io _ "claimFor c _"] claim_next_loop_in_scope unfolding ClaimNext_def
  by (auto simp: runs_guard runs_bind claimFor_def split: option.splits)


subsection \<open>Properties of the scoped view\<close>

definition sample_scope :: "EventPluginRef list" where
  "sample_scope = [\<lparr>pr_ID = ''b'', pr_Version = ''1'', pr_ReleaseDigest = ''s''\<rparr>, \<lparr>pr_ID = ''a'', pr_Version = ''1'', pr_ReleaseDigest = ''r''\<rparr>]"

definition sample_base :: "SettlementStore option" where
  "sample_base = Some \<lparr>sn_store = sample_sql, sn_address = 7, sn_settlement = None, sn_settlementBinding = None\<rparr>"

definition sample_view :: "(string \<Rightarrow> string) \<Rightarrow> PluginScopedExecutionStore" where
  "sample_view sha = projr (NewPluginScopedExecutionStore sha sample_base sample_scope)"

definition sample_next :: ClaimNextCommand where
  "sample_next = \<lparr>cn_AttemptID = ''att-2'', cn_WorkerID = ''w-2'', cn_WorkerBuildDigest = ''b'', cn_ScanLimit = 0, cn_PluginScope = []\<rparr>"

definition sample_scoped :: "ClaimAttemptResult result \<times> sql_state" where
  "sample_scoped = scoped_ClaimNext (sample_view sample_sha) (sample_io (sample_time + 31 * Second)) live_ctx sample_next sample_running"

lemma sample_scope_facts: "list_all no_nul sample_scope" "validateClaimPluginScope sample_scope = None"
    "validateClaimPluginScope (rev sample_scope) = None" "set (tl sample_scope) \<noteq> set sample_scope"
  by code_simp+

lemma sample_view_new: "NewPluginScopedExecutionStore sha sample_base sample_scope = Inr (sample_view sha)"
  using sample_scope_facts(2) by (simp add: sample_view_def NewPluginScopedExecutionStore_def sample_base_def sample_scope_def Let_def)

lemma sample_scoped_runs:
  "runs (scoped_ClaimNext (sample_view sample_sha) (sample_io (sample_time + 31 * Second)) live_ctx sample_next)
     sample_running (projr (fst sample_scoped)) (snd sample_scoped)"
proof -
  have "\<not> isl (fst sample_scoped)" by code_simp
  then show ?thesis unfolding sample_scoped_def by (rule result_run)
qed

text \<open>
  C37. A view matches exactly the binding it was built with. For a view built over a base store and a
  scope, unless SHA-256 collides on the two encoded scopes, \<open>Matches\<close> accepts another base and another
  scope if and only if it is the same store object and the other scope is valid and lists the same
  releases, in any order. The order of the caller's list never matters, provided that no id or
  version contains the NUL byte that separates the fields of the sort key.
\<close>

theorem scope_matches_exactly:
  assumes "NewPluginScopedExecutionStore sha base scope = Inr store"
    and "inj_on sha {scope_payload (sort_key pluginScopeKey scope), scope_payload (sort_key pluginScopeKey other)}"
    and "list_all no_nul scope"
  shows "Matches sha store base' other \<longleftrightarrow>
    map_option sn_address base' = map_option sn_address base \<and> validateClaimPluginScope other = None \<and> set other = set scope"
proof -
  note new = NewPluginScopedExecutionStore_Inr [OF assms(1)]
  have same: "sort_key pluginScopeKey scope = sort_key pluginScopeKey other \<longleftrightarrow> set other = set scope"
    if "validateClaimPluginScope other = None"
  proof
    assume "set other = set scope"
    then show "sort_key pluginScopeKey scope = sort_key pluginScopeKey other"
      using new(4) that pluginScopeKey_inj [OF assms(3)]
      by (intro sort_key_set_unique) (simp_all add: validateClaimPluginScope_None_iff)
  next
    assume "sort_key pluginScopeKey scope = sort_key pluginScopeKey other"
    then show "set other = set scope" by (metis set_sort)
  qed
  have some: "\<not> Option.is_none base'" if "map_option sn_address base' = map_option sn_address base"
    using that new(2) by (cases base; cases base') simp_all
  have intact: "intact sha store" using new by (simp add: intact_def pluginScopeDigest_def)
  show ?thesis
  proof (cases "validateClaimPluginScope other = None")
    case True
    have "sha (scope_payload (sort_key pluginScopeKey scope)) = sha (scope_payload (sort_key pluginScopeKey other))
        \<longleftrightarrow> set other = set scope"
      using digest_inject [OF _ _ assms(2)] new(4) True same [OF True] by simp
    then show ?thesis using True intact new some by (auto simp: Matches_def pluginScopeDigest_def)
  qed (auto simp: Matches_def)
qed

theorem scope_matches_exactly_witness:
  "Matches (\<lambda>x. x) (sample_view (\<lambda>x. x)) sample_base (rev sample_scope)
   \<and> \<not> Matches (\<lambda>x. x) (sample_view (\<lambda>x. x)) sample_base (tl sample_scope)"
  using scope_matches_exactly [OF sample_view_new inj_on_id2 sample_scope_facts(1)] sample_scope_facts(3,4) by simp

text \<open>
  C36. A worker cannot leave its scope. Let a view be built over some scope and let its scope slice
  then be overwritten with anything: a claim through the view, for a named Turn or for the next
  claimable one and whatever scope the caller puts into the command, returns only if the slice is
  still the one the view was built with, and then the Turn it returns is pinned to a release of that
  scope. This holds for fresh claims, for replays and for claims resolved after a lost commit, and
  unless SHA-256 collides on the two encoded scopes.
\<close>

theorem scoped_claims_in_scope:
  assumes "NewPluginScopedExecutionStore (io_sha io) base scope = Inr store"
    and "inj_on (io_sha io) {scope_payload (sort_key pluginScopeKey scope), scope_payload tampered}"
    and "runs (scoped_ClaimNext (store\<lparr>ps_scope := tampered\<rparr>) io ctx next_command) s r s'
      \<or> runs (scoped_ClaimAttempt (store\<lparr>ps_scope := tampered\<rparr>) io ctx command) s r s'"
  shows "tampered = ps_scope store \<and> t_Plugin (clr_Turn r) \<in> set scope"
proof -
  have "intact (io_sha io) (store\<lparr>ps_scope := tampered\<rparr>)"
    using assms(3) by (auto simp: scoped_ClaimNext_def scoped_ClaimAttempt_def runs_with_base)
  then have eq: "tampered = ps_scope store" using assms(1,2) by (intro intact_tampered)
  have "claimPluginScopeAllows tampered (t_Plugin (clr_Turn r))"
    using assms(3)
  proof
    assume "runs (scoped_ClaimNext (store\<lparr>ps_scope := tampered\<rparr>) io ctx next_command) s r s'"
    then obtain base :: SettlementStore where "runs (ClaimNext (sn_store base) io ctx (next_command\<lparr>cn_PluginScope := tampered\<rparr>)) s r s'"
      by (auto simp: scoped_ClaimNext_def runs_with_base)
    from ClaimNext_in_scope [OF this] show ?thesis by simp
  next
    assume "runs (scoped_ClaimAttempt (store\<lparr>ps_scope := tampered\<rparr>) io ctx command) s r s'"
    then obtain base :: SettlementStore where "runs (ClaimAttempt (sn_store base) io ctx (command\<lparr>ca_PluginScope := tampered\<rparr>)) s r s'"
      by (auto simp: scoped_ClaimAttempt_def runs_with_base)
    from ClaimAttempt_in_scope [OF this] show ?thesis by simp
  qed
  moreover have "set tampered = set scope"
    unfolding eq NewPluginScopedExecutionStore_Inr(5) [OF assms(1)] by (rule set_sort)
  moreover have "scope \<noteq> []" by (rule NewPluginScopedExecutionStore_Inr(3) [OF assms(1)])
  ultimately have "t_Plugin (clr_Turn r) \<in> set scope" by (metis claimPluginScopeAllows_iff set_empty)
  with eq show ?thesis by blast
qed

theorem scoped_claims_in_scope_witness:
  "t_Plugin (clr_Turn (projr (fst sample_scoped))) \<in> set sample_scope"
proof -
  let ?view = "sample_view sample_sha"
  have sha: "io_sha (sample_io (sample_time + 31 * Second)) = sample_sha" by (simp add: sample_io_def)
  have slice: "ps_scope ?view = sort_key pluginScopeKey sample_scope"
    by (rule NewPluginScopedExecutionStore_Inr(5) [OF sample_view_new])
  have same: "?view\<lparr>ps_scope := sort_key pluginScopeKey sample_scope\<rparr> = ?view" by (simp flip: slice)
  show ?thesis
    by (rule scoped_claims_in_scope [of "sample_io (sample_time + 31 * Second)", THEN conjunct2, unfolded sha,
          OF sample_view_new _ disjI1, of "sort_key pluginScopeKey sample_scope", unfolded same, OF _ sample_scoped_runs])
      simp
qed

end
