(* ===== verification/Worker_Types.thy ===== *)
theory Worker_Types
  imports Runtime_Loops Sql_Commit
begin

text \<open>
  The data of a worker: the execution ceilings of \<^verbatim>\<open>worker_limits.go\<close> and the options, results and small
  decisions of \<^verbatim>\<open>worker.go\<close>. A map from releases to their limits is the list it was built from, without
  repeated releases. Timer lengths are data only: the model of an epoch lets a timer fire at any time.
\<close>

subsection \<open>Execution limits\<close>

abbreviation MaxWorkerPluginLimits :: nat where "MaxWorkerPluginLimits \<equiv> MaxClaimPluginScopes"
abbreviation MaxWorkerExecutionTimeout :: duration where "MaxWorkerExecutionTimeout \<equiv> 86400000000000"

record PluginExecutionLimits =
  pl_Plugin :: EventPluginRef
  pl_ExecutionTimeout :: duration
  pl_ProgressTimeout :: duration

definition PluginExecutionLimits_Validate :: "PluginExecutionLimits \<Rightarrow> go_error option" where
  "PluginExecutionLimits_Validate limits = first_error
     [wrap_error ''plugin: '' (EventPluginRef_Validate (pl_Plugin limits)),
      wrap_error ''plugin: '' (validatePluginRef (pl_Plugin limits)),
      fail_if (pl_ExecutionTimeout limits \<le> 0 \<or> pl_ExecutionTimeout limits > MaxWorkerExecutionTimeout)
        (Errorf ''executionTimeout must be between 1ns and the limit''),
      fail_if (pl_ProgressTimeout limits \<le> 0 \<or> pl_ProgressTimeout limits > pl_ExecutionTimeout limits)
        (Errorf ''progressTimeout must be between 1ns and executionTimeout'')]"

datatype WorkerLimitKind = WorkerLimitNone | WorkerLimitExecutionTimeout | WorkerLimitProgressTimeout | WorkerLimitOther string

definition WorkerLimitKind_Valid :: "WorkerLimitKind \<Rightarrow> bool" where
  "WorkerLimitKind_Valid kind \<longleftrightarrow> kind = WorkerLimitExecutionTimeout \<or> kind = WorkerLimitProgressTimeout"

fun WorkerLimitKind_err :: "WorkerLimitKind \<Rightarrow> go_error option" where
  "WorkerLimitKind_err WorkerLimitExecutionTimeout = Some ErrWorkerExecutionTimeout"
| "WorkerLimitKind_err WorkerLimitProgressTimeout = Some ErrWorkerProgressTimeout"
| "WorkerLimitKind_err _ = None"

type_synonym limits_map = "(EventPluginRef \<times> PluginExecutionLimits) list"

fun limits_loop :: "PluginExecutionLimits list \<Rightarrow> limits_map \<Rightarrow> limits_map result" where
  "limits_loop [] byPlugin = Inr byPlugin"
| "limits_loop (limits # rest) byPlugin =
     (case PluginExecutionLimits_Validate limits of
        Some e \<Rightarrow> Inl (Wrapf ''pluginLimits'' e)
      | None \<Rightarrow>
          if map_of byPlugin (pl_Plugin limits) \<noteq> None then Inl (Errorf ''pluginLimits repeats a release'')
          else limits_loop rest (byPlugin @ [(pl_Plugin limits, limits)]))"

definition normalizePluginExecutionLimits :: "PluginExecutionLimits list \<Rightarrow> (PluginExecutionLimits list \<times> limits_map) result" where
  "normalizePluginExecutionLimits input =
     (if length input > MaxWorkerPluginLimits then Inl (Errorf ''pluginLimits must contain at most the limit of releases'')
      else (case limits_loop input [] of Inl e \<Rightarrow> Inl e | Inr byPlugin \<Rightarrow> Inr (input, byPlugin)))"

subsection \<open>Options and construction\<close>

abbreviation DefaultWorkerDrainTimeout :: duration where "DefaultWorkerDrainTimeout \<equiv> 30000000000"
abbreviation DefaultWorkerExecutorStopGrace :: duration where "DefaultWorkerExecutorStopGrace \<equiv> 5000000000"
abbreviation MaxWorkerDrainTimeout :: duration where "MaxWorkerDrainTimeout \<equiv> 600000000000"
abbreviation MaxWorkerExecutorStopGrace :: duration where "MaxWorkerExecutorStopGrace \<equiv> 60000000000"
abbreviation DefaultWorkerHeartbeatDivisor :: int where "DefaultWorkerHeartbeatDivisor \<equiv> 3"

text \<open>The factory is what it returns for a claim; \<open>random\<close> is the default factory.\<close>

record WorkerOptions =
  wo_WorkerID :: string
  wo_WorkerBuildDigest :: string
  wo_AdmissionGate :: "nat option"
  wo_ScanLimit :: int
  wo_IdleBackoff :: duration
  wo_HeartbeatInterval :: duration
  wo_DrainTimeout :: duration
  wo_ExecutorStopGrace :: duration
  wo_PluginLimits :: "PluginExecutionLimits list"
  wo_AttemptIDFactory :: "string result option"

definition worker_applyDefaults :: "string result \<Rightarrow> WorkerOptions \<Rightarrow> WorkerOptions" where
  "worker_applyDefaults random opts = opts
     \<lparr>wo_IdleBackoff := (if wo_IdleBackoff opts \<le> 0 then DefaultWorkerIdleBackoff else wo_IdleBackoff opts),
      wo_HeartbeatInterval := (if wo_HeartbeatInterval opts \<le> 0 then DefaultAttemptLeaseTTL div DefaultWorkerHeartbeatDivisor
                               else wo_HeartbeatInterval opts),
      wo_DrainTimeout := (if wo_DrainTimeout opts \<le> 0 then DefaultWorkerDrainTimeout else wo_DrainTimeout opts),
      wo_ExecutorStopGrace := (if wo_ExecutorStopGrace opts = 0 then DefaultWorkerExecutorStopGrace else wo_ExecutorStopGrace opts),
      wo_AttemptIDFactory := (if Option.is_none (wo_AttemptIDFactory opts) then Some random else wo_AttemptIDFactory opts)\<rparr>"

definition WorkerOptions_Validate :: "WorkerOptions \<Rightarrow> go_error option" where
  "WorkerOptions_Validate opts = first_error
     [validatePrintableASCII ''workerId'' (wo_WorkerID opts) MaxWorkerIDBytes,
      validatePrintableASCII ''workerBuildDigest'' (wo_WorkerBuildDigest opts) MaxWorkerBuildDigestBytes,
      fail_if (wo_ScanLimit opts < 0 \<or> wo_ScanLimit opts > MaxClaimNextScanLimit) (Errorf ''scanLimit must be between 0 and the limit''),
      fail_if (wo_IdleBackoff opts \<le> 0 \<or> wo_IdleBackoff opts > MaxWorkerIdleBackoff)
        (Errorf ''idleBackoff must be between 1ns and the limit''),
      fail_if (wo_HeartbeatInterval opts \<le> 0 \<or> wo_HeartbeatInterval opts \<ge> MaxAttemptLeaseTTL)
        (Errorf ''heartbeatInterval must be between 1ns and the lease''),
      fail_if (wo_DrainTimeout opts \<le> 0 \<or> wo_DrainTimeout opts > MaxWorkerDrainTimeout)
        (Errorf ''drainTimeout must be between 1ns and the limit''),
      fail_if (wo_ExecutorStopGrace opts \<le> 0 \<or> wo_ExecutorStopGrace opts > MaxWorkerExecutorStopGrace)
        (Errorf ''executorStopGrace must be between 1ns and the limit''),
      (case normalizePluginExecutionLimits (wo_PluginLimits opts) of Inl e \<Rightarrow> Some e | Inr _ \<Rightarrow> None)]"

text \<open>The interface \<^verbatim>\<open>ExecutionStore\<close>: its methods, with the tables and the environment they run in.\<close>

record ExecutionStore =
  xs_ClaimNext :: "go_context \<Rightarrow> ClaimNextCommand \<Rightarrow> ClaimAttemptResult tx"
  xs_HeartbeatAttempt :: "go_context \<Rightarrow> HeartbeatAttemptCommand \<Rightarrow> HeartbeatAttemptResult tx"
  xs_CommitAttempt :: "go_context \<Rightarrow> CommitAttemptCommand \<Rightarrow> CommitAttemptResult tx"

text \<open>The executor is domain code: an epoch lets it do anything its session allows.\<close>

record Worker =
  wk_store :: ExecutionStore
  wk_options :: WorkerOptions
  wk_admission :: "nat option"
  wk_pluginLimits :: limits_map
  wk_restartRequired :: bool

definition NewWorker ::
  "string result \<Rightarrow> ExecutionStore option \<Rightarrow> bool \<Rightarrow> WorkerOptions \<Rightarrow> Worker result"
where
  "NewWorker random store hasExecutor options =
     (case store of
        None \<Rightarrow> Inl (Errorf ''worker requires an execution store and an executor'')
      | Some st \<Rightarrow>
          if \<not> hasExecutor then Inl (Errorf ''worker requires an execution store and an executor'')
          else (let opts = worker_applyDefaults random options in
                case WorkerOptions_Validate opts of
                  Some e \<Rightarrow> Inl e
                | None \<Rightarrow>
                    (case normalizePluginExecutionLimits (wo_PluginLimits opts) of
                       Inl e \<Rightarrow> Inl e
                     | Inr (limits, byPlugin) \<Rightarrow>
                         Inr \<lparr>wk_store = st, wk_options = opts\<lparr>wo_PluginLimits := limits\<rparr>, wk_admission = wo_AdmissionGate opts,
                              wk_pluginLimits = byPlugin, wk_restartRequired = False\<rparr>)))"

definition worker_MatchesAdmissionGate :: "Worker option \<Rightarrow> nat option \<Rightarrow> bool" where
  "worker_MatchesAdmissionGate worker expected = (case worker of None \<Rightarrow> False | Some w \<Rightarrow> wk_admission w = expected)"

definition MatchesPluginExecutionLimits :: "Worker option \<Rightarrow> PluginExecutionLimits list \<Rightarrow> bool" where
  "MatchesPluginExecutionLimits worker expected =
     (case worker of
        None \<Rightarrow> False
      | Some w \<Rightarrow>
          (case normalizePluginExecutionLimits expected of
             Inl e \<Rightarrow> False
           | Inr (_, normalized) \<Rightarrow>
               length normalized = length (wk_pluginLimits w)
               \<and> list_all (\<lambda>(plugin, limits). map_of (wk_pluginLimits w) plugin = Some limits) normalized))"

subsection \<open>Outcomes\<close>

text \<open>\<open>wr_Commit\<close> is \<open>None\<close> for the zero value; the measured execution window is left out.\<close>

record WorkerRunResult =
  wr_TurnID :: TurnID
  wr_AttemptID :: string
  wr_TerminalStatus :: TurnStatus
  wr_Committed :: bool
  wr_Cancelled :: bool
  wr_FenceLost :: bool
  wr_ExecutorErr :: "go_error option"
  wr_Commit :: "CommitAttemptResult option"
  wr_OperationsEmit :: int
  wr_ProgressCommits :: int
  wr_LimitExceeded :: WorkerLimitKind
  wr_ExecutorDetached :: bool
  wr_RestartRequired :: bool

definition zero_result :: WorkerRunResult where
  "zero_result = \<lparr>wr_TurnID = [], wr_AttemptID = [], wr_TerminalStatus = TurnStatusOther [], wr_Committed = False,
     wr_Cancelled = False, wr_FenceLost = False, wr_ExecutorErr = None, wr_Commit = None, wr_OperationsEmit = 0,
     wr_ProgressCommits = 0, wr_LimitExceeded = WorkerLimitNone, wr_ExecutorDetached = False, wr_RestartRequired = False\<rparr>"

definition resolveTerminal :: "TurnStatus \<Rightarrow> go_error option \<Rightarrow> bool \<Rightarrow> TurnStatus \<times> go_error option" where
  "resolveTerminal reported executorErr is_cancelled =
     (if is_cancelled then (TurnStatusStopped, None)
      else if executorErr \<noteq> None then (TurnStatusFailed, None)
      else if \<not> TurnStatus_Valid reported \<or> \<not> TurnStatus_Terminal reported
      then (TurnStatusFailed, Some (Wrapf [] ErrExecutorNonTerminal))
      else if reported = TurnStatusStopped
      then (TurnStatusFailed, Some (Wrapf ''executor reported stopped without a cancellation'' ErrExecutorNonTerminal))
      else (reported, None))"

definition isOwnershipLoss :: "go_error \<Rightarrow> bool" where
  "isOwnershipLoss err = list_ex (errors_is err) [ErrAttemptFenced, ErrAttemptLeaseExpired, ErrAttemptNotFound, ErrTurnTerminal]"

definition workerRunError :: "go_error \<Rightarrow> bool \<Rightarrow> go_error" where
  "workerRunError primary restartRequired = (if \<not> restartRequired then primary else Joined primary ErrWorkerRestartRequired)"

definition terminalOperationID :: "string \<Rightarrow> string" where
  "terminalOperationID attemptID = ''terminal:'' @ attemptID"

record OperationDraft =
  od_OperationID :: string
  od_Event :: EventDraft
  od_Effects :: "EffectOutboxDraft list"

end
