(* ===== verification/Worker_Epoch.thy ===== *)
theory Worker_Epoch
  imports Worker_Types
begin

text \<open>
  One execution epoch of a worker: \<^verbatim>\<open>runOnce\<close> of \<^verbatim>\<open>worker.go\<close> and what runs beside it. Four kinds of
  goroutine share a session: the main one, the heartbeat, the executor, and any number of calls of
  \<^verbatim>\<open>Emit\<close> that the executor makes, each under its own number. Each has a program counter; \<open>epoch_next\<close>
  takes the step a label names, if it is enabled, so that a list of labels is a schedule.

  One step is what happens between two points at which another goroutine can be observed: taking or
  giving a lock or a permit, a store call, a store to or a load from an atomic flag. A store call is
  one step, since it is one transaction; the counter shows a goroutine as being inside the call before
  that step. The bookkeeping of \<^verbatim>\<open>Emit\<close> after its store call is a step of its own, before which the
  permit is still taken; that of the heartbeat is one step with its store call, since it holds the
  lease lock and commutes with what others read meanwhile. The executor may return at any time and emit at any time, the execution context may end
  at any time, a timer may fire at any time, and a ticker may tick at any time: schedules
  over-approximate real time.
\<close>

subsection \<open>State\<close>

datatype main_pc =
    MainWait        \<comment> \<open>in waitForWorkerExecutor\<close>
  | MainStop        \<comment> \<open>before stopExecutor\<close>
  | MainClose       \<comment> \<open>before session.close\<close>
  | MainGrace       \<comment> \<open>in waitForWorkerExecutorStop\<close>
  | MainEmits       \<comment> \<open>in waitForEmitStop\<close>
  | MainCollect     \<comment> \<open>before the counters are read\<close>
  | MainRestart     \<comment> \<open>waits for the heartbeat, the worker is sealed\<close>
  | MainLease       \<comment> \<open>waits for the lease lock\<close>
  | MainDecide      \<comment> \<open>holds the lease lock\<close>
  | MainCommit      \<comment> \<open>inside the terminal CommitAttempt\<close>
  | MainCommitStopped \<comment> \<open>inside its repetition as stopped\<close>
  | MainGiveUp go_error \<comment> \<open>waits for the heartbeat, nothing was committed\<close>
  | MainJoin "CommitAttemptResult result" \<comment> \<open>waits for the heartbeat after the commit\<close>
  | MainDone "go_error option"

datatype heartbeat_pc =
    BeatWait        \<comment> \<open>in the select\<close>
  | BeatLock        \<comment> \<open>waits for the lease lock\<close>
  | BeatCall        \<comment> \<open>holds the lease lock, inside HeartbeatAttempt\<close>
  | BeatStop go_error \<comment> \<open>before stopRun\<close>
  | BeatDone

datatype emit_pc =
    EmitIdle
  | EmitWait OperationDraft   \<comment> \<open>waits for the permit\<close>
  | EmitHeld OperationDraft   \<comment> \<open>holds the permit, before the checks\<close>
  | EmitCall OperationDraft   \<comment> \<open>holds the permit, inside CommitAttempt\<close>
  | EmitSettle "CommitAttemptResult result" \<comment> \<open>holds the permit, the call has returned\<close>
  | EmitReturned "CommitAttemptResult result"

datatype lease_owner = LeaseFree | LeaseMain | LeaseHeartbeat

record epoch =
  ep_sql :: sql_state
  \<comment> \<open>the session\<close>
  ep_turn :: Turn
  ep_attempt :: TurnAttempt
  ep_cancelRequested :: bool
  ep_fenceLost :: bool
  ep_ended :: bool
  ep_emitted :: int
  ep_progressCommits :: int
  ep_progress :: bool
  ep_permit :: bool
  ep_leaseMu :: lease_owner
  \<comment> \<open>contexts: the error of execCtx, the cause of executorCtx, whether heartbeatCtx was stopped\<close>
  ep_execErr :: "go_error option"
  ep_executorCause :: "go_error option"
  ep_heartbeatStopped :: bool
  \<comment> \<open>goroutines\<close>
  ep_main :: main_pc
  ep_heartbeat :: heartbeat_pc
  ep_emits :: "nat \<Rightarrow> emit_pc"
  ep_executing :: bool
  ep_done :: "(TurnStatus \<times> go_error option) option"
  \<comment> \<open>locals of the main goroutine\<close>
  ep_enforced :: "PluginExecutionLimits option"
  ep_outcome :: "TurnStatus \<times> go_error option"
  ep_returned :: bool
  ep_limit :: WorkerLimitKind
  ep_terminal :: TurnStatus
  ep_statusErr :: "go_error option"
  ep_result :: WorkerRunResult
  ep_restartRequired :: bool

definition executor_done :: "epoch \<Rightarrow> bool" where
  "executor_done e \<longleftrightarrow> ep_executorCause e \<noteq> None \<or> ep_execErr e \<noteq> None"

definition heartbeat_done :: "epoch \<Rightarrow> bool" where
  "heartbeat_done e \<longleftrightarrow> ep_heartbeatStopped e \<or> ep_execErr e \<noteq> None"

text \<open>A cancelled context keeps its first cause; a context whose parent is done has the error of the parent.\<close>

definition stopExecutor :: "go_error \<Rightarrow> epoch \<Rightarrow> epoch" where
  "stopExecutor cause e = (if executor_done e then e else e\<lparr>ep_executorCause := Some cause\<rparr>)"

definition epoch_cause :: "epoch \<Rightarrow> go_error" where
  "epoch_cause e = (case ep_executorCause e of Some c \<Rightarrow> c
     | None \<Rightarrow> (case ep_execErr e of Some x \<Rightarrow> x | None \<Rightarrow> ContextCanceled))"

subsection \<open>The claim\<close>

definition zero_outcome :: "TurnStatus \<times> go_error option" where
  "zero_outcome = (TurnStatusOther [], None)"

definition start_epoch :: "Worker \<Rightarrow> ClaimAttemptResult \<Rightarrow> sql_state \<Rightarrow> epoch" where
  "start_epoch worker claim s =
     \<lparr>ep_sql = s, ep_turn = clr_Turn claim, ep_attempt = clr_Attempt claim, ep_cancelRequested = False,
      ep_fenceLost = False, ep_ended = False, ep_emitted = 0, ep_progressCommits = 0, ep_progress = False,
      ep_permit = True, ep_leaseMu = LeaseFree, ep_execErr = None, ep_executorCause = None,
      ep_heartbeatStopped = False, ep_main = MainWait, ep_heartbeat = BeatWait, ep_emits = (\<lambda>_. EmitIdle),
      ep_executing = True, ep_done = None, ep_enforced = map_of (wk_pluginLimits worker) (t_Plugin (clr_Turn claim)),
      ep_outcome = zero_outcome, ep_returned = False, ep_limit = WorkerLimitNone, ep_terminal = TurnStatusOther [],
      ep_statusErr = None,
      ep_result = zero_result\<lparr>wr_TurnID := t_ID (clr_Turn claim), wr_AttemptID := ta_ID (clr_Attempt claim)\<rparr>,
      ep_restartRequired = False\<rparr>"

text \<open>
  \<^verbatim>\<open>runOnce\<close> up to the start of the epoch: an error with its result and whether the worker is sealed, or
  the epoch. \<open>view\<close> supplies the contexts and the gate: the claim context at 0 and 2, the execution
  context at 1.
\<close>

definition claim_epoch_of ::
  "Worker \<Rightarrow> loop_view \<Rightarrow> sql_state \<Rightarrow> ((WorkerRunResult \<times> go_error \<times> bool) + epoch) \<times> sql_state"
where
  "claim_epoch_of worker view s =
     (if wk_restartRequired worker then (Inl (zero_result\<lparr>wr_RestartRequired := True\<rparr>, ErrWorkerRestartRequired, True), s)
      else (case first_error [contextError (lv_pass view 0 0), contextError (lv_pass view 1 0)] of
        Some e \<Rightarrow> (Inl (zero_result, e, False), s)
      | None \<Rightarrow>
         (case (case wo_AttemptIDFactory (wk_options worker) of None \<Rightarrow> Inl (Errorf []) | Some r \<Rightarrow> r) of
            Inl e \<Rightarrow> (Inl (zero_result, e, False), s)
          | Inr attemptID \<Rightarrow>
            (case Acquire (map_option (lv_gates view 0) (wk_admission worker)) of
               Some e \<Rightarrow> (Inl (zero_result, e, False), s)
             | None \<Rightarrow>
               (case xs_ClaimNext (wk_store worker) (lv_pass view 2)
                       \<lparr>cn_AttemptID = attemptID, cn_WorkerID = wo_WorkerID (wk_options worker),
                        cn_WorkerBuildDigest = wo_WorkerBuildDigest (wk_options worker),
                        cn_ScanLimit = wo_ScanLimit (wk_options worker), cn_PluginScope = []\<rparr> s of
                  (Inl e, s') \<Rightarrow> (Inl (zero_result, e, False), s')
                | (Inr claim, s') \<Rightarrow>
                    if length (wk_pluginLimits worker) > 0
                       \<and> Option.is_none (map_of (wk_pluginLimits worker) (t_Plugin (clr_Turn claim)))
                    then (Inl (zero_result\<lparr>wr_TurnID := t_ID (clr_Turn claim), wr_AttemptID := ta_ID (clr_Attempt claim),
                                 wr_RestartRequired := True\<rparr>,
                               Joined ErrWorkerPluginLimitsUnavailable ErrWorkerRestartRequired, True), s')
                    else (Inr (start_epoch worker claim s'), s'))))))"

subsection \<open>Steps\<close>

datatype label =
    MainTakesOutcome | MainSeesCancel | MainExecutionDeadline | MainProgressDeadline | MainProgress
  | MainStops | MainCloses | MainGraceOutcome | MainGraceTimer | MainEmitsPermit | MainEmitsTimer | MainCollects
  | MainLocks | MainDecides | MainCommits go_context | MainJoins
  | BeatTicks | BeatQuits | BeatLocks | BeatCalls go_context | BeatStops
  | ExecutorReturns TurnStatus "go_error option"
  | EmitCalls nat ctx_obs OperationDraft | EmitAbandons nat go_error | EmitTakes nat | EmitChecks nat | EmitCommits nat go_context | EmitSettles nat
  | ExecContextEnds go_error

text \<open>The wait for the executor: an outcome that is there wins over every other reason to stop waiting.\<close>

definition wait_returns :: "TurnStatus \<times> go_error option \<Rightarrow> bool \<Rightarrow> WorkerLimitKind \<Rightarrow> epoch \<Rightarrow> epoch" where
  "wait_returns outcome returned limit e =
     e\<lparr>ep_outcome := outcome, ep_returned := returned, ep_limit := limit, ep_main := MainStop\<rparr>"

definition outcome_or :: "WorkerLimitKind \<Rightarrow> epoch \<Rightarrow> epoch" where
  "outcome_or limit e =
     (case ep_done e of
        Some outcome \<Rightarrow> wait_returns outcome True WorkerLimitNone (e\<lparr>ep_done := None\<rparr>)
      | None \<Rightarrow> wait_returns zero_outcome False limit e)"

definition waitForWorkerExecutor :: "label \<Rightarrow> epoch \<Rightarrow> epoch option" where
  "waitForWorkerExecutor l e =
     (case l of
        MainTakesOutcome \<Rightarrow> if Option.is_none (ep_done e) then None else Some (outcome_or WorkerLimitNone e)
      | MainSeesCancel \<Rightarrow> if executor_done e then Some (outcome_or WorkerLimitNone e) else None
      | MainExecutionDeadline \<Rightarrow>
          if Option.is_none (ep_enforced e) then None else Some (outcome_or WorkerLimitExecutionTimeout e)
      | MainProgressDeadline \<Rightarrow>
          if Option.is_none (ep_enforced e) then None
          else if ep_progress e then Some (e\<lparr>ep_progress := False\<rparr>)
          else Some (outcome_or WorkerLimitProgressTimeout e)
      | MainProgress \<Rightarrow>
          if Option.is_none (ep_enforced e) \<or> \<not> ep_progress e then None else Some (e\<lparr>ep_progress := False\<rparr>)
      | _ \<Rightarrow> None)"

definition seal_worker :: "bool \<Rightarrow> epoch \<Rightarrow> epoch" where
  "seal_worker detached e =
     e\<lparr>ep_restartRequired := True,
       ep_result := (ep_result e)\<lparr>wr_RestartRequired := True, wr_ExecutorDetached := wr_ExecutorDetached (ep_result e) \<or> detached\<rparr>,
       ep_main := MainCollect\<rparr>"

definition waitForWorkerExecutorStop :: "label \<Rightarrow> epoch \<Rightarrow> epoch option" where
  "waitForWorkerExecutorStop l e =
     (case l of
        MainGraceOutcome \<Rightarrow>
          (case ep_done e of None \<Rightarrow> None
           | Some outcome \<Rightarrow> Some (e\<lparr>ep_done := None, ep_outcome := outcome, ep_returned := True, ep_main := MainEmits\<rparr>))
      | MainGraceTimer \<Rightarrow> Some (seal_worker True e)
      | _ \<Rightarrow> None)"

definition waitForEmitStop :: "label \<Rightarrow> epoch \<Rightarrow> epoch option" where
  "waitForEmitStop l e =
     (case l of
        MainEmitsPermit \<Rightarrow> if ep_permit e then Some (e\<lparr>ep_main := MainCollect\<rparr>) else None
      | MainEmitsTimer \<Rightarrow> Some (seal_worker False e)
      | _ \<Rightarrow> None)"

definition collect_counters :: "epoch \<Rightarrow> epoch" where
  "collect_counters e =
     (let result = (ep_result e)\<lparr>wr_OperationsEmit := ep_emitted e, wr_ProgressCommits := ep_progressCommits e,
                     wr_ExecutorErr := (if ep_returned e then snd (ep_outcome e) else None), wr_LimitExceeded := ep_limit e\<rparr> in
      if wr_RestartRequired result
      then e\<lparr>ep_result := result, ep_heartbeatStopped := True, ep_main := MainRestart\<rparr>
      else e\<lparr>ep_result := result, ep_main := MainLease\<rparr>)"

definition restart_returns :: "epoch \<Rightarrow> epoch" where
  "restart_returns e =
     (let result = (ep_result e)\<lparr>wr_Cancelled := ep_cancelRequested e, wr_FenceLost := ep_fenceLost e\<rparr> in
      e\<lparr>ep_result := result,
        ep_main := MainDone (Some (if wr_FenceLost result then workerRunError ErrWorkerFenceLost True
                                   else (case ep_execErr e of Some err \<Rightarrow> workerRunError err True
                                         | None \<Rightarrow> ErrWorkerRestartRequired)))\<rparr>)"

definition give_up :: "go_error \<Rightarrow> epoch \<Rightarrow> epoch" where
  "give_up err e = e\<lparr>ep_leaseMu := LeaseFree, ep_heartbeatStopped := True, ep_main := MainGiveUp err\<rparr>"

definition decide_terminal :: "epoch \<Rightarrow> epoch" where
  "decide_terminal e =
     (let result = (ep_result e)\<lparr>wr_Cancelled := ep_cancelRequested e, wr_FenceLost := ep_fenceLost e,
                     wr_LimitExceeded := (if ep_cancelRequested e then WorkerLimitNone else wr_LimitExceeded (ep_result e))\<rparr>;
          e = e\<lparr>ep_result := result\<rparr> in
      if wr_FenceLost result then give_up ErrWorkerFenceLost e
      else (case ep_execErr e of
              Some err \<Rightarrow> give_up err e
            | None \<Rightarrow>
                (let (terminal, statusErr) =
                       (if wr_Cancelled result then (TurnStatusStopped, None)
                        else if WorkerLimitKind_Valid (wr_LimitExceeded result) then (TurnStatusTimeout, None)
                        else resolveTerminal (fst (ep_outcome e)) (snd (ep_outcome e)) False)
                 in e\<lparr>ep_terminal := terminal, ep_statusErr := statusErr, ep_main := MainCommit\<rparr>)))"

definition terminal_command :: "epoch \<Rightarrow> CommitAttemptCommand" where
  "terminal_command e = \<lparr>cm_Fence = TurnAttempt_Fence (ep_attempt e), cm_OperationID = terminalOperationID (ta_ID (ep_attempt e)),
     cm_Event = None, cm_TerminalStatus = ep_terminal e, cm_Effects = [], cm_Settlement = None\<rparr>"

definition commit_returns :: "CommitAttemptResult result \<Rightarrow> epoch \<Rightarrow> epoch" where
  "commit_returns outcome e = e\<lparr>ep_heartbeatStopped := True, ep_leaseMu := LeaseFree, ep_main := MainJoin outcome\<rparr>"

definition stop_instead :: "epoch \<Rightarrow> epoch" where
  "stop_instead e = e\<lparr>ep_cancelRequested := True,
     ep_result := (ep_result e)\<lparr>wr_Cancelled := True, wr_LimitExceeded := WorkerLimitNone\<rparr>,
     ep_statusErr := None, ep_terminal := TurnStatusStopped, ep_main := MainCommitStopped\<rparr>"

definition commit_terminal :: "ExecutionStore \<Rightarrow> go_context \<Rightarrow> epoch \<Rightarrow> epoch" where
  "commit_terminal store ctx e =
     (case xs_CommitAttempt store ctx (terminal_command e) (ep_sql e) of
        (outcome, s) \<Rightarrow>
          (let e = e\<lparr>ep_sql := s\<rparr> in
           if ep_main e = MainCommit \<and> ep_terminal e \<noteq> TurnStatusStopped
              \<and> (case outcome of Inl err \<Rightarrow> errors_is err ErrAttemptCancelled | Inr _ \<Rightarrow> False)
           then stop_instead e
           else commit_returns outcome e))"

definition join_returns :: "CommitAttemptResult result \<Rightarrow> epoch \<Rightarrow> epoch" where
  "join_returns outcome e =
     (let result = (ep_result e)\<lparr>wr_TerminalStatus := ep_terminal e, wr_FenceLost := ep_fenceLost e\<rparr> in
      case outcome of
        Inl err \<Rightarrow>
          if isOwnershipLoss err
          then e\<lparr>ep_result := result\<lparr>wr_FenceLost := True\<rparr>, ep_main := MainDone (Some ErrWorkerFenceLost)\<rparr>
          else e\<lparr>ep_result := result, ep_main := MainDone (Some err)\<rparr>
      | Inr commit \<Rightarrow>
          e\<lparr>ep_result := result\<lparr>wr_Commit := Some commit, wr_Committed := True\<rparr>, ep_main := MainDone (ep_statusErr e)\<rparr>)"

definition main_step :: "ExecutionStore \<Rightarrow> label \<Rightarrow> epoch \<Rightarrow> epoch option" where
  "main_step store l e =
     (case ep_main e of
        MainWait \<Rightarrow> waitForWorkerExecutor l e
      | MainStop \<Rightarrow>
          (case l of
             MainStops \<Rightarrow>
               Some ((stopExecutor (case WorkerLimitKind_err (ep_limit e) of Some c \<Rightarrow> c | None \<Rightarrow> ContextCanceled) e)\<lparr>ep_main := MainClose\<rparr>)
           | _ \<Rightarrow> None)
      | MainClose \<Rightarrow>
          (case l of
             MainCloses \<Rightarrow> Some (e\<lparr>ep_ended := True, ep_main := (if ep_returned e then MainEmits else MainGrace)\<rparr>)
           | _ \<Rightarrow> None)
      | MainGrace \<Rightarrow> waitForWorkerExecutorStop l e
      | MainEmits \<Rightarrow> waitForEmitStop l e
      | MainCollect \<Rightarrow> (case l of MainCollects \<Rightarrow> Some (collect_counters e) | _ \<Rightarrow> None)
      | MainRestart \<Rightarrow>
          (case l of MainJoins \<Rightarrow> if ep_heartbeat e = BeatDone then Some (restart_returns e) else None | _ \<Rightarrow> None)
      | MainLease \<Rightarrow>
          (case l of
             MainLocks \<Rightarrow> if ep_leaseMu e = LeaseFree then Some (e\<lparr>ep_leaseMu := LeaseMain, ep_main := MainDecide\<rparr>) else None
           | _ \<Rightarrow> None)
      | MainDecide \<Rightarrow> (case l of MainDecides \<Rightarrow> Some (decide_terminal e) | _ \<Rightarrow> None)
      | MainCommit \<Rightarrow> (case l of MainCommits ctx \<Rightarrow> Some (commit_terminal store ctx e) | _ \<Rightarrow> None)
      | MainCommitStopped \<Rightarrow> (case l of MainCommits ctx \<Rightarrow> Some (commit_terminal store ctx e) | _ \<Rightarrow> None)
      | MainGiveUp err \<Rightarrow>
          (case l of MainJoins \<Rightarrow> if ep_heartbeat e = BeatDone then Some (e\<lparr>ep_main := MainDone (Some err)\<rparr>) else None | _ \<Rightarrow> None)
      | MainJoin outcome \<Rightarrow>
          (case l of MainJoins \<Rightarrow> if ep_heartbeat e = BeatDone then Some (join_returns outcome e) else None | _ \<Rightarrow> None)
      | MainDone _ \<Rightarrow> None)"

text \<open>
  The heartbeat. A store failure that is not a loss of ownership keeps it beating; a loss or a
  recorded cancellation stops the executor.
\<close>

definition beat_call :: "ExecutionStore \<Rightarrow> go_context \<Rightarrow> epoch \<Rightarrow> epoch" where
  "beat_call store ctx e =
     (case xs_HeartbeatAttempt store ctx \<lparr>hb_Fence = TurnAttempt_Fence (ep_attempt e)\<rparr> (ep_sql e) of
        (outcome, s) \<Rightarrow>
          (let e = e\<lparr>ep_sql := s, ep_leaseMu := LeaseFree\<rparr>;
               after = (if heartbeat_done e then BeatDone else BeatWait) in
           case outcome of
             Inl err \<Rightarrow> if isOwnershipLoss err then e\<lparr>ep_fenceLost := True, ep_heartbeat := BeatStop ErrWorkerFenceLost\<rparr>
                        else e\<lparr>ep_heartbeat := after\<rparr>
           | Inr beat \<Rightarrow> if Option.is_none (hr_CancelRequestedAt beat) then e\<lparr>ep_heartbeat := after\<rparr>
                         else e\<lparr>ep_cancelRequested := True, ep_heartbeat := BeatStop ErrAttemptCancelled\<rparr>))"

definition heartbeat_step :: "ExecutionStore \<Rightarrow> label \<Rightarrow> epoch \<Rightarrow> epoch option" where
  "heartbeat_step store l e =
     (case ep_heartbeat e of
        BeatWait \<Rightarrow>
          (case l of
             BeatTicks \<Rightarrow> Some (e\<lparr>ep_heartbeat := BeatLock\<rparr>)
           | BeatQuits \<Rightarrow> if heartbeat_done e then Some (e\<lparr>ep_heartbeat := BeatDone\<rparr>) else None
           | _ \<Rightarrow> None)
      | BeatLock \<Rightarrow>
          (case l of
             BeatLocks \<Rightarrow>
               if ep_leaseMu e \<noteq> LeaseFree then None
               else if heartbeat_done e then Some (e\<lparr>ep_heartbeat := BeatDone\<rparr>)
               else Some (e\<lparr>ep_leaseMu := LeaseHeartbeat, ep_heartbeat := BeatCall\<rparr>)
           | _ \<Rightarrow> None)
      | BeatCall \<Rightarrow> (case l of BeatCalls ctx \<Rightarrow> Some (beat_call store ctx e) | _ \<Rightarrow> None)
      | BeatStop cause \<Rightarrow> (case l of BeatStops \<Rightarrow> Some ((stopExecutor cause e)\<lparr>ep_heartbeat := BeatDone\<rparr>) | _ \<Rightarrow> None)
      | BeatDone \<Rightarrow> None)"

text \<open>Calls of \<^verbatim>\<open>Emit\<close>. Between the first check and the permit the session may close, so the permit is checked again.\<close>

definition set_emit :: "nat \<Rightarrow> emit_pc \<Rightarrow> epoch \<Rightarrow> epoch" where
  "set_emit i pc e = e\<lparr>ep_emits := (ep_emits e)(i := pc)\<rparr>"

definition session_closed :: "CommitAttemptResult result" where
  "session_closed = Inl (Errorf ''execution session is closed'')"

definition bindWorkerEpochContext :: "ctx_obs \<Rightarrow> epoch \<Rightarrow> go_error option" where
  "bindWorkerEpochContext caller e = or_else (contextError caller) (if executor_done e then Some (epoch_cause e) else None)"

definition emit_call :: "nat \<Rightarrow> ctx_obs \<Rightarrow> OperationDraft \<Rightarrow> epoch \<Rightarrow> epoch" where
  "emit_call i caller operation e =
     (case contextError caller of
        Some err \<Rightarrow> set_emit i (EmitReturned (Inl err)) e
      | None \<Rightarrow>
          if ep_ended e then set_emit i (EmitReturned session_closed) e
          else (case bindWorkerEpochContext caller e of
                  Some err \<Rightarrow> set_emit i (EmitReturned (Inl err)) e
                | None \<Rightarrow> set_emit i (EmitWait operation) e))"

definition emit_check :: "nat \<Rightarrow> OperationDraft \<Rightarrow> epoch \<Rightarrow> epoch" where
  "emit_check i operation e =
     (if ep_ended e then set_emit i (EmitReturned session_closed) (e\<lparr>ep_permit := True\<rparr>)
      else if ep_fenceLost e then set_emit i (EmitReturned (Inl ErrWorkerFenceLost)) (e\<lparr>ep_permit := True\<rparr>)
      else set_emit i (EmitCall operation) e)"

definition emit_command :: "epoch \<Rightarrow> OperationDraft \<Rightarrow> CommitAttemptCommand" where
  "emit_command e operation = \<lparr>cm_Fence = TurnAttempt_Fence (ep_attempt e), cm_OperationID = od_OperationID operation,
     cm_Event = Some (od_Event operation), cm_TerminalStatus = TurnStatusOther [], cm_Effects = od_Effects operation,
     cm_Settlement = None\<rparr>"

definition emit_commit :: "ExecutionStore \<Rightarrow> nat \<Rightarrow> go_context \<Rightarrow> OperationDraft \<Rightarrow> epoch \<Rightarrow> epoch" where
  "emit_commit store i ctx operation e =
     (case xs_CommitAttempt store ctx (emit_command e operation) (ep_sql e) of
        (outcome, s) \<Rightarrow> set_emit i (EmitSettle outcome) (e\<lparr>ep_sql := s\<rparr>))"

definition emit_settle :: "nat \<Rightarrow> CommitAttemptResult result \<Rightarrow> epoch \<Rightarrow> epoch" where
  "emit_settle i outcome e =
     (let e = set_emit i (EmitReturned outcome) (e\<lparr>ep_permit := True\<rparr>) in
      case outcome of
        Inl err \<Rightarrow> e\<lparr>ep_fenceLost := ep_fenceLost e \<or> isOwnershipLoss err\<rparr>
      | Inr result \<Rightarrow>
          if cmr_Replay result then e\<lparr>ep_emitted := ep_emitted e + 1\<rparr>
          else e\<lparr>ep_emitted := ep_emitted e + 1, ep_progressCommits := ep_progressCommits e + 1, ep_progress := True\<rparr>)"

definition emit_step :: "ExecutionStore \<Rightarrow> label \<Rightarrow> epoch \<Rightarrow> epoch option" where
  "emit_step store l e =
     (case l of
        EmitCalls i caller operation \<Rightarrow> if ep_emits e i = EmitIdle then Some (emit_call i caller operation e) else None
      | EmitAbandons i cause \<Rightarrow>
          (case ep_emits e i of EmitWait _ \<Rightarrow> Some (set_emit i (EmitReturned (Inl cause)) e) | _ \<Rightarrow> None)
      | EmitTakes i \<Rightarrow>
          (case ep_emits e i of
             EmitWait operation \<Rightarrow> if ep_permit e then Some (set_emit i (EmitHeld operation) (e\<lparr>ep_permit := False\<rparr>)) else None
           | _ \<Rightarrow> None)
      | EmitChecks i \<Rightarrow> (case ep_emits e i of EmitHeld operation \<Rightarrow> Some (emit_check i operation e) | _ \<Rightarrow> None)
      | EmitCommits i ctx \<Rightarrow>
          (case ep_emits e i of EmitCall operation \<Rightarrow> Some (emit_commit store i ctx operation e) | _ \<Rightarrow> None)
      | EmitSettles i \<Rightarrow> (case ep_emits e i of EmitSettle outcome \<Rightarrow> Some (emit_settle i outcome e) | _ \<Rightarrow> None)
      | _ \<Rightarrow> None)"

definition other_step :: "label \<Rightarrow> epoch \<Rightarrow> epoch option" where
  "other_step l e =
     (case l of
        ExecutorReturns status err \<Rightarrow>
          if ep_executing e then Some (e\<lparr>ep_executing := False, ep_done := Some (status, err)\<rparr>) else None
      | ExecContextEnds err \<Rightarrow>
          if Option.is_none (ep_execErr e) then Some (e\<lparr>ep_execErr := Some err\<rparr>) else None
      | _ \<Rightarrow> None)"

fun main_label :: "label \<Rightarrow> bool" where
  "main_label (EmitCalls _ _ _) = False" | "main_label (EmitAbandons _ _) = False" | "main_label (EmitTakes _) = False"
| "main_label (EmitChecks _) = False" | "main_label (EmitCommits _ _) = False" | "main_label (EmitSettles _) = False" | "main_label (ExecutorReturns _ _) = False"
| "main_label (ExecContextEnds _) = False" | "main_label BeatTicks = False" | "main_label BeatQuits = False"
| "main_label BeatLocks = False" | "main_label (BeatCalls _) = False" | "main_label BeatStops = False"
| "main_label _ = True"

fun beat_label :: "label \<Rightarrow> bool" where
  "beat_label BeatTicks = True" | "beat_label BeatQuits = True" | "beat_label BeatLocks = True"
| "beat_label (BeatCalls _) = True" | "beat_label BeatStops = True" | "beat_label _ = False"

fun emit_label :: "label \<Rightarrow> bool" where
  "emit_label (EmitCalls _ _ _) = True" | "emit_label (EmitAbandons _ _) = True" | "emit_label (EmitTakes _) = True"
| "emit_label (EmitChecks _) = True" | "emit_label (EmitCommits _ _) = True" | "emit_label (EmitSettles _) = True" | "emit_label _ = False"

definition epoch_next :: "ExecutionStore \<Rightarrow> label \<Rightarrow> epoch \<Rightarrow> epoch option" where
  "epoch_next store l e =
     (if main_label l then main_step store l e
      else if beat_label l then heartbeat_step store l e
      else if emit_label l then emit_step store l e
      else other_step l e)"

fun run_epoch :: "ExecutionStore \<Rightarrow> label list \<Rightarrow> epoch \<Rightarrow> epoch option" where
  "run_epoch store [] e = Some e"
| "run_epoch store (l # ls) e = (case epoch_next store l e of None \<Rightarrow> None | Some e' \<Rightarrow> run_epoch store ls e')"


subsection \<open>What each goroutine leaves alone\<close>

lemmas main_defs = waitForWorkerExecutor_def waitForWorkerExecutorStop_def waitForEmitStop_def collect_counters_def
  restart_returns_def give_up_def decide_terminal_def commit_terminal_def commit_returns_def stop_instead_def join_returns_def
  seal_worker_def outcome_or_def wait_returns_def stopExecutor_def

lemmas beat_defs = heartbeat_step_def beat_call_def stopExecutor_def
lemmas emit_defs = emit_step_def emit_call_def emit_check_def emit_commit_def emit_settle_def set_emit_def

lemmas step_splits = main_pc.splits heartbeat_pc.splits emit_pc.splits label.splits if_splits option.splits prod.splits sum.splits

definition main_view :: "epoch \<Rightarrow> main_pc \<times> bool \<times> WorkerRunResult \<times> bool \<times> TurnStatus \<times> go_error option \<times> (TurnStatus \<times> go_error option)
    \<times> WorkerLimitKind \<times> bool \<times> bool \<times> TurnAttempt" where
  "main_view e = (ep_main e, ep_ended e, ep_result e, ep_restartRequired e, ep_terminal e, ep_statusErr e, ep_outcome e,
     ep_limit e, ep_returned e, ep_heartbeatStopped e, ep_attempt e)"

lemma main_step_frame:
  assumes "main_step store l e = Some e'"
  shows "ep_emits e' = ep_emits e \<and> ep_permit e' = ep_permit e \<and> ep_heartbeat e' = ep_heartbeat e
    \<and> ep_attempt e' = ep_attempt e \<and> ep_execErr e' = ep_execErr e \<and> (ep_ended e \<longrightarrow> ep_ended e')"
  using assms unfolding main_step_def
  by (auto simp: main_defs Let_def split: step_splits)

lemma heartbeat_step_frame:
  assumes "heartbeat_step store l e = Some e'"
  shows "main_view e' = main_view e \<and> ep_emits e' = ep_emits e \<and> ep_permit e' = ep_permit e"
  using assms by (auto simp: beat_defs main_view_def Let_def split: step_splits)

lemma emit_step_frame:
  assumes "emit_step store l e = Some e'"
  shows "main_view e' = main_view e \<and> ep_heartbeat e' = ep_heartbeat e \<and> ep_leaseMu e' = ep_leaseMu e"
  using assms by (auto simp: emit_defs main_view_def Let_def split: step_splits)

lemma other_step_frame:
  assumes "other_step l e = Some e'"
  shows "main_view e' = main_view e \<and> ep_heartbeat e' = ep_heartbeat e \<and> ep_leaseMu e' = ep_leaseMu e
    \<and> ep_emits e' = ep_emits e \<and> ep_permit e' = ep_permit e \<and> ep_sql e' = ep_sql e"
  using assms by (auto simp: other_step_def main_view_def split: label.splits if_splits)


lemma epoch_next_main:
  assumes "epoch_next store l e = Some e'"
  shows "main_step store l e = Some e' \<or> main_view e' = main_view e"
  using assms heartbeat_step_frame [of store l e e'] emit_step_frame [of store l e e'] other_step_frame [of l e e']
  by (auto simp: epoch_next_def split: if_splits)

lemma epoch_attempt_next:
  assumes "epoch_next store l e = Some e'"
  shows "ep_attempt e' = ep_attempt e"
  using epoch_next_main [OF assms] main_step_frame [of store l e e'] by (auto simp: main_view_def)

lemma epoch_attempt: "run_epoch store ls e = Some e' \<Longrightarrow> ep_attempt e' = ep_attempt e"
  by (induction ls arbitrary: e) (auto split: option.splits dest: epoch_attempt_next)

subsection \<open>Invariants\<close>

fun holds_permit :: "emit_pc \<Rightarrow> bool" where
  "holds_permit (EmitHeld _) = True" | "holds_permit (EmitCall _) = True" | "holds_permit (EmitSettle _) = True" | "holds_permit _ = False"

fun before_close :: "main_pc \<Rightarrow> bool" where
  "before_close MainWait = True" | "before_close MainStop = True" | "before_close MainClose = True" | "before_close _ = False"

fun before_collect :: "main_pc \<Rightarrow> bool" where
  "before_collect MainGrace = True" | "before_collect MainEmits = True" | "before_collect pc = before_close pc"

fun owns_lease :: "main_pc \<Rightarrow> bool" where
  "owns_lease MainDecide = True" | "owns_lease MainCommit = True" | "owns_lease MainCommitStopped = True" | "owns_lease _ = False"

fun before_join :: "main_pc \<Rightarrow> bool" where
  "before_join MainCollect = True" | "before_join MainLease = True" | "before_join pc = (before_collect pc \<or> owns_lease pc)"

lemma before_close_collect: "before_close pc \<Longrightarrow> before_collect pc"
  by (cases pc) simp_all

text \<open>The permit serializes the commits of \<^verbatim>\<open>Emit\<close>.\<close>

definition permit_ok :: "epoch \<Rightarrow> bool" where
  "permit_ok e \<longleftrightarrow> (ep_permit e \<longrightarrow> (\<forall>i. \<not> holds_permit (ep_emits e i)))
     \<and> (\<forall>i j. holds_permit (ep_emits e i) \<longrightarrow> holds_permit (ep_emits e j) \<longrightarrow> i = j)"

text \<open>Past the close the session is ended; past a successful wait for the permit no commit of \<^verbatim>\<open>Emit\<close> runs.\<close>

definition close_ok :: "epoch \<Rightarrow> bool" where
  "close_ok e \<longleftrightarrow> (\<not> before_close (ep_main e) \<longrightarrow> ep_ended e)
     \<and> (\<not> before_collect (ep_main e) \<and> \<not> ep_restartRequired e \<longrightarrow> (\<forall>i op. ep_emits e i \<noteq> EmitCall op))"

text \<open>The lease lock serializes the heartbeat with the terminal commit.\<close>

definition lease_ok :: "epoch \<Rightarrow> bool" where
  "lease_ok e \<longleftrightarrow> (ep_leaseMu e = LeaseMain \<longleftrightarrow> owns_lease (ep_main e)) \<and> (ep_leaseMu e = LeaseHeartbeat \<longleftrightarrow> ep_heartbeat e = BeatCall)"

text \<open>A sealed worker never reaches the terminal commit, and at the end the heartbeat has stopped.\<close>

definition seal_ok :: "epoch \<Rightarrow> bool" where
  "seal_ok e \<longleftrightarrow> wr_RestartRequired (ep_result e) = ep_restartRequired e
     \<and> (ep_restartRequired e \<longrightarrow> ep_main e = MainCollect \<or> ep_main e = MainRestart \<or> (\<exists>err. ep_main e = MainDone err))
     \<and> (ep_main e = MainRestart \<longrightarrow> ep_restartRequired e)
     \<and> (\<not> before_join (ep_main e) \<longrightarrow> ep_heartbeatStopped e) \<and> ((\<exists>err. ep_main e = MainDone err) \<longrightarrow> ep_heartbeat e = BeatDone)"

definition epoch_ok :: "epoch \<Rightarrow> bool" where
  "epoch_ok e \<longleftrightarrow> permit_ok e \<and> close_ok e \<and> lease_ok e \<and> seal_ok e"

lemma start_epoch_ok: "epoch_ok (start_epoch worker claim s)"
  by (simp add: epoch_ok_def permit_ok_def close_ok_def lease_ok_def seal_ok_def start_epoch_def zero_result_def)

lemma main_step_ok:
  assumes "main_step store l e = Some e'" "epoch_ok e"
  shows "epoch_ok e'"
proof -
  note frame = main_step_frame [OF assms(1)]
  have old: "permit_ok e" "close_ok e" "lease_ok e" "seal_ok e" using assms(2) by (simp_all add: epoch_ok_def)
  have "permit_ok e'" using old(1) frame by (simp add: permit_ok_def)
  moreover have "close_ok e'"
    using assms(1) old(1,2,4) unfolding main_step_def
    by (auto simp: main_defs close_ok_def permit_ok_def seal_ok_def Let_def split: step_splits) (metis holds_permit.simps(2))
  moreover have "lease_ok e'"
    using assms(1) old(3) unfolding main_step_def
    by (auto simp: main_defs lease_ok_def Let_def split: step_splits)
  moreover have "seal_ok e'"
    using assms(1) old(3,4) unfolding main_step_def
    by (auto simp: main_defs lease_ok_def seal_ok_def Let_def split: step_splits)
  ultimately show ?thesis by (simp add: epoch_ok_def)
qed

lemma heartbeat_step_ok:
  assumes "heartbeat_step store l e = Some e'" "epoch_ok e"
  shows "epoch_ok e'"
proof -
  note frame = heartbeat_step_frame [OF assms(1), unfolded main_view_def prod.inject]
  have old: "permit_ok e" "close_ok e" "lease_ok e" "seal_ok e" using assms(2) by (simp_all add: epoch_ok_def)
  have "permit_ok e'" "close_ok e'" using old(1,2) frame by (simp_all add: permit_ok_def close_ok_def)
  moreover have "lease_ok e'" using assms(1) old(3) by (auto simp: beat_defs lease_ok_def Let_def split: step_splits)
  moreover have "ep_heartbeat e \<noteq> BeatDone" using assms(1) by (auto simp: heartbeat_step_def)
  then have "seal_ok e'" using old(4) frame unfolding seal_ok_def by metis
  ultimately show ?thesis by (simp add: epoch_ok_def)
qed

lemma emit_step_ok:
  assumes "emit_step store l e = Some e'" "epoch_ok e"
  shows "epoch_ok e'"
proof -
  note frame = emit_step_frame [OF assms(1), unfolded main_view_def prod.inject]
  have old: "permit_ok e" "close_ok e" "lease_ok e" "seal_ok e" using assms(2) by (simp_all add: epoch_ok_def)
  have "lease_ok e'" "seal_ok e'" using old(3,4) frame by (simp_all add: lease_ok_def seal_ok_def)
  moreover have "permit_ok e'"
    using assms(1) old(1) by (auto simp: emit_defs permit_ok_def Let_def split: step_splits) (metis holds_permit.simps)+
  moreover have "close_ok e'"
    using assms(1) old(2) by (auto simp: emit_defs close_ok_def Let_def dest: before_close_collect split: step_splits)
  ultimately show ?thesis by (simp add: epoch_ok_def)
qed

lemma other_step_ok:
  assumes "other_step l e = Some e'" "epoch_ok e"
  shows "epoch_ok e'"
  using other_step_frame [OF assms(1), unfolded main_view_def prod.inject] assms(2)
  by (simp add: epoch_ok_def permit_ok_def close_ok_def lease_ok_def seal_ok_def)

lemma epoch_next_ok: "epoch_next store l e = Some e' \<Longrightarrow> epoch_ok e \<Longrightarrow> epoch_ok e'"
  unfolding epoch_next_def using main_step_ok heartbeat_step_ok emit_step_ok other_step_ok by (auto split: if_splits)

lemma run_epoch_ok: "run_epoch store ls e = Some e' \<Longrightarrow> epoch_ok e \<Longrightarrow> epoch_ok e'"
  by (induction ls arbitrary: e) (auto split: option.splits intro: epoch_next_ok)


text \<open>An epoch past the wait for its emitters, with the worker not sealed, never goes back.\<close>

definition settled_epoch :: "epoch \<Rightarrow> bool" where
  "settled_epoch e \<longleftrightarrow> \<not> before_collect (ep_main e) \<and> \<not> ep_restartRequired e"

lemma settled_next:
  assumes "epoch_next store l e = Some e'" "settled_epoch e"
  shows "settled_epoch e'"
proof -
  have "settled_epoch e'" if "main_step store l e = Some e'"
    using that assms(2) unfolding main_step_def settled_epoch_def
    by (auto simp: main_defs Let_def split: step_splits)
  moreover have "settled_epoch e'" if "main_view e' = main_view e"
    using that assms(2) by (simp add: settled_epoch_def main_view_def)
  ultimately show ?thesis using epoch_next_main [OF assms(1)] by blast
qed

lemma settled_no_emit:
  assumes "epoch_next store l e = Some e'" "epoch_ok e" "settled_epoch e"
  shows "l \<noteq> EmitCommits i ctx"
  using assms by (auto simp: epoch_next_def emit_step_def epoch_ok_def close_ok_def settled_epoch_def split: emit_pc.splits)

lemma settled_run:
  assumes "run_epoch store ls e = Some e'" "epoch_ok e" "settled_epoch e"
  shows "settled_epoch e' \<and> epoch_ok e' \<and> (\<forall>i ctx. EmitCommits i ctx \<notin> set ls)"
  using assms
proof (induction ls arbitrary: e)
  case (Cons l ls)
  then obtain e1 where step: "epoch_next store l e = Some e1" and rest: "run_epoch store ls e1 = Some e'" by (auto split: option.splits)
  have "epoch_ok e1" "settled_epoch e1"
    using epoch_next_ok [OF step Cons.prems(2)] settled_next [OF step Cons.prems(3)] .
  from Cons.IH [OF rest this] settled_no_emit [OF step Cons.prems(2,3)] show ?case by auto
qed simp

lemma run_epoch_append: "run_epoch store (ls @ ms) e = (case run_epoch store ls e of None \<Rightarrow> None | Some e' \<Rightarrow> run_epoch store ms e')"
  by (induction ls arbitrary: e) (auto split: option.splits)

lemma commit_step_settled:
  assumes "epoch_next store (MainCommits ctx) e = Some e'" "epoch_ok e"
  shows "settled_epoch e"
  using assms by (auto simp: epoch_next_def main_step_def settled_epoch_def epoch_ok_def seal_ok_def split: main_pc.splits if_splits)
    (auto simp: waitForWorkerExecutor_def waitForWorkerExecutorStop_def waitForEmitStop_def)

lemma commit_label_settled:
  assumes "run_epoch store ls e = Some e'" "epoch_ok e" "MainCommits ctx \<in> set ls"
  shows "settled_epoch e'"
proof -
  from assms(3) obtain xs ys where ls: "ls = xs @ MainCommits ctx # ys" by (meson split_list)
  with assms(1) obtain e1 where e1: "run_epoch store xs e = Some e1" "run_epoch store (MainCommits ctx # ys) e1 = Some e'"
    by (auto simp: run_epoch_append simp del: run_epoch.simps split: option.splits)
  then obtain e2 where step: "epoch_next store (MainCommits ctx) e1 = Some e2" by (auto split: option.splits)
  have ok: "epoch_ok e1" by (rule run_epoch_ok [OF e1(1) assms(2)])
  from settled_run [OF e1(2) ok commit_step_settled [OF step ok]] show ?thesis by simp
qed

subsection \<open>The decision\<close>

text \<open>
  The status that is committed: stopped for a cancellation, timeout for a ceiling that fired, and
  otherwise what the outcome of the executor resolves to.
\<close>

definition decision :: "WorkerRunResult \<Rightarrow> TurnStatus \<times> go_error option \<Rightarrow> TurnStatus \<times> go_error option" where
  "decision result outcome =
     (if wr_Cancelled result then (TurnStatusStopped, None)
      else if WorkerLimitKind_Valid (wr_LimitExceeded result) then (TurnStatusTimeout, None)
      else resolveTerminal (fst outcome) (snd outcome) False)"

fun decided :: "main_pc \<Rightarrow> bool" where
  "decided MainCommit = True" | "decided MainCommitStopped = True" | "decided (MainJoin _) = True" | "decided _ = False"

definition decision_ok :: "epoch \<Rightarrow> bool" where
  "decision_ok e \<longleftrightarrow> (decided (ep_main e) \<longrightarrow> (ep_terminal e, ep_statusErr e) = decision (ep_result e) (ep_outcome e))
     \<and> (wr_Committed (ep_result e) \<longrightarrow> \<not> ep_restartRequired e \<and> wr_Commit (ep_result e) \<noteq> None
          \<and> (\<exists>err. ep_main e = MainDone err \<and> (wr_TerminalStatus (ep_result e), err) = decision (ep_result e) (ep_outcome e)))"

lemma decision_simps [simp]:
  "wr_Cancelled r \<Longrightarrow> decision r outcome = (TurnStatusStopped, None)"
  "decision (r\<lparr>wr_TerminalStatus := a\<rparr>) outcome = decision r outcome" "decision (r\<lparr>wr_FenceLost := b\<rparr>) outcome = decision r outcome"
  "decision (r\<lparr>wr_Commit := c\<rparr>) outcome = decision r outcome" "decision (r\<lparr>wr_Committed := b\<rparr>) outcome = decision r outcome"
  by (simp_all add: decision_def)

lemma main_step_decision:
  assumes "main_step store l e = Some e'" "decision_ok e" "epoch_ok e"
  shows "decision_ok e'"
proof -
  have open_epoch: "\<not> wr_Committed (ep_result e)"
    using assms(1,2) by (auto simp: main_step_def decision_ok_def)
  show ?thesis
  proof (cases "ep_main e")
    case MainDecide
    then have e': "e' = decide_terminal e" using assms(1) by (simp add: main_step_def split: label.splits if_splits)
    show ?thesis using open_epoch unfolding e'
      by (simp add: decide_terminal_def give_up_def decision_ok_def decision_def Let_def split: option.split prod.split)
  next
    case MainCommit
    then obtain ctx where e': "e' = commit_terminal store ctx e" using assms(1) by (auto simp: main_step_def split: label.splits)
    show ?thesis using open_epoch MainCommit assms(2) unfolding e'
      by (simp add: commit_terminal_def stop_instead_def commit_returns_def decision_ok_def Let_def split: prod.split)
  next
    case MainCommitStopped
    then obtain ctx where e': "e' = commit_terminal store ctx e" using assms(1) by (auto simp: main_step_def split: label.splits)
    show ?thesis using open_epoch MainCommitStopped assms(2) unfolding e'
      by (simp add: commit_terminal_def commit_returns_def decision_ok_def Let_def split: prod.split)
  next
    case (MainJoin outcome)
    then have e': "e' = join_returns outcome e" using assms(1) by (simp add: main_step_def split: label.splits if_splits)
    have "\<not> ep_restartRequired e" using assms(3) MainJoin by (auto simp: epoch_ok_def seal_ok_def)
    then show ?thesis using open_epoch MainJoin assms(2) unfolding e'
      by (simp add: join_returns_def decision_ok_def Let_def split: sum.split)
  qed (use assms(1) open_epoch in \<open>auto simp: main_step_def main_defs decision_ok_def Let_def split: label.splits if_splits option.splits\<close>)
qed

lemma decision_step:
  assumes "epoch_next store l e = Some e'" "decision_ok e" "epoch_ok e"
  shows "decision_ok e'"
proof -
  have "decision_ok e'" if "main_view e' = main_view e"
    using that assms(2) by (simp add: decision_ok_def main_view_def)
  then show ?thesis using epoch_next_main [OF assms(1)] main_step_decision [OF _ assms(2,3)] by blast
qed

lemma decision_run: "run_epoch store ls e = Some e' \<Longrightarrow> decision_ok e \<Longrightarrow> epoch_ok e \<Longrightarrow> decision_ok e'"
  by (induction ls arbitrary: e) (auto split: option.splits intro: epoch_next_ok decision_step)

lemma start_decision_ok: "decision_ok (start_epoch worker claim s)"
  by (simp add: decision_ok_def start_epoch_def zero_result_def)


subsection \<open>The end of an epoch\<close>

text \<open>Once the terminal commit has returned, nothing of the epoch touches the store again.\<close>

fun past_commit :: "main_pc \<Rightarrow> bool" where
  "past_commit (MainGiveUp _) = True" | "past_commit (MainJoin _) = True" | "past_commit (MainDone _) = True" | "past_commit _ = False"

definition commit_ok :: "ExecutionStore \<Rightarrow> epoch \<Rightarrow> bool" where
  "commit_ok store e \<longleftrightarrow> (past_commit (ep_main e) \<and> \<not> ep_restartRequired e \<longrightarrow> ep_heartbeat e \<noteq> BeatCall)
     \<and> (\<forall>commit. ep_main e = MainJoin (Inr commit) \<or> wr_Commit (ep_result e) = Some commit \<longrightarrow>
          (\<exists>ctx s. runs (xs_CommitAttempt store ctx (terminal_command e)) s commit (ep_sql e)))
     \<and> (wr_Commit (ep_result e) \<noteq> None \<longrightarrow> wr_Committed (ep_result e))
     \<and> (wr_Committed (ep_result e) \<longrightarrow> wr_TerminalStatus (ep_result e) = ep_terminal e)"

lemma terminal_command_cong: "ep_attempt e' = ep_attempt e \<Longrightarrow> ep_terminal e' = ep_terminal e \<Longrightarrow> terminal_command e' = terminal_command e"
  by (simp add: terminal_command_def)

lemma main_step_commit_ok:
  assumes "main_step store l e = Some e'" "commit_ok store e" "epoch_ok e" "decision_ok e"
  shows "commit_ok store e'"
proof -
  have open_epoch: "\<not> wr_Committed (ep_result e)" "wr_Commit (ep_result e) = None"
    using assms(1,2,4) by (auto simp: main_step_def decision_ok_def commit_ok_def)
  have beat: "ep_heartbeat e \<noteq> BeatCall" if "owns_lease (ep_main e)"
    using assms(3) that by (auto simp: epoch_ok_def lease_ok_def)
  show ?thesis
  proof (cases "ep_main e")
    case MainDecide
    then have e': "e' = decide_terminal e" using assms(1) by (simp add: main_step_def split: label.splits if_splits)
    show ?thesis using open_epoch beat MainDecide unfolding e'
      by (simp add: decide_terminal_def give_up_def commit_ok_def Let_def split: option.split prod.split)
  next
    case MainCommit
    then obtain ctx where e': "e' = commit_terminal store ctx e" using assms(1) by (auto simp: main_step_def split: label.splits)
    show ?thesis using open_epoch beat MainCommit unfolding e'
      by (auto simp: commit_terminal_def stop_instead_def commit_returns_def commit_ok_def runs_def terminal_command_def Let_def split: prod.split)
  next
    case MainCommitStopped
    then obtain ctx where e': "e' = commit_terminal store ctx e" using assms(1) by (auto simp: main_step_def split: label.splits)
    show ?thesis using open_epoch beat MainCommitStopped unfolding e'
      by (auto simp: commit_terminal_def commit_returns_def commit_ok_def runs_def terminal_command_def Let_def split: prod.split)
  next
    case (MainJoin outcome)
    then have e': "e' = join_returns outcome e" using assms(1) by (simp add: main_step_def split: label.splits if_splits)
    show ?thesis using open_epoch MainJoin assms(2) unfolding e'
      by (auto simp: join_returns_def commit_ok_def terminal_command_def Let_def split: sum.split)
  next
    case (MainGiveUp err)
    then have e': "e' = e\<lparr>ep_main := MainDone (Some err)\<rparr>" using assms(1) by (simp add: main_step_def split: label.splits if_splits)
    show ?thesis using open_epoch MainGiveUp assms(2) unfolding e' by (simp add: commit_ok_def)
  next
    case MainRestart
    then have e': "e' = restart_returns e" and "ep_heartbeat e = BeatDone"
      using assms(1) by (simp_all add: main_step_def split: label.splits if_splits)
    then show ?thesis using open_epoch by (simp add: commit_ok_def restart_returns_def Let_def)
  qed (use assms(1) open_epoch in \<open>auto simp: main_step_def main_defs commit_ok_def Let_def split: label.splits if_splits option.splits\<close>)
qed

lemma commit_ok_frame:
  assumes "commit_ok store e" "main_view e' = main_view e" "ep_sql e' = ep_sql e \<or> \<not> past_commit (ep_main e) \<or> ep_restartRequired e"
    and "past_commit (ep_main e) \<and> \<not> ep_restartRequired e \<longrightarrow> ep_heartbeat e' \<noteq> BeatCall" "decision_ok e" "epoch_ok e"
  shows "commit_ok store e'"
proof -
  have same: "terminal_command e' = terminal_command e" using assms(2) by (intro terminal_command_cong) (simp_all add: main_view_def)
  have "ep_sql e' = ep_sql e" if "ep_main e = MainJoin (Inr c) \<or> wr_Commit (ep_result e) = Some c" for c
  proof -
    have committed: "wr_Committed (ep_result e)" if "wr_Commit (ep_result e) = Some c"
      using that assms(1) unfolding commit_ok_def by blast
    have "past_commit (ep_main e) \<and> \<not> ep_restartRequired e"
      using \<open>ep_main e = MainJoin (Inr c) \<or> wr_Commit (ep_result e) = Some c\<close>
    proof
      assume "ep_main e = MainJoin (Inr c)"
      then show ?thesis using assms(6) unfolding epoch_ok_def seal_ok_def by auto
    next
      assume "wr_Commit (ep_result e) = Some c"
      from committed [OF this] show ?thesis using assms(5) unfolding decision_ok_def by auto
    qed
    with assms(3) show ?thesis by blast
  qed
  moreover have "ep_main e' = ep_main e" "ep_result e' = ep_result e" "ep_terminal e' = ep_terminal e" "ep_restartRequired e' = ep_restartRequired e"
    using assms(2) by (simp_all add: main_view_def)
  ultimately show ?thesis using assms(1,4) unfolding commit_ok_def same by metis
qed

lemma heartbeat_step_commit_ok:
  assumes "heartbeat_step store l e = Some e'" "commit_ok store e" "epoch_ok e" "decision_ok e"
  shows "commit_ok store e'"
proof (rule commit_ok_frame [OF assms(2) _ _ _ assms(4,3)])
  show "main_view e' = main_view e" using heartbeat_step_frame [OF assms(1)] by blast
  have stopped: "heartbeat_done e" if "past_commit (ep_main e)"
    using assms(3) that by (cases "ep_main e") (auto simp: epoch_ok_def seal_ok_def heartbeat_done_def)
  show "ep_sql e' = ep_sql e \<or> \<not> past_commit (ep_main e) \<or> ep_restartRequired e"
    using assms(1,2) by (auto simp: heartbeat_step_def stopExecutor_def commit_ok_def split: heartbeat_pc.splits label.splits if_splits)
  show "past_commit (ep_main e) \<and> \<not> ep_restartRequired e \<longrightarrow> ep_heartbeat e' \<noteq> BeatCall"
    using assms(1,2) stopped
    by (auto simp: heartbeat_step_def stopExecutor_def commit_ok_def split: heartbeat_pc.splits label.splits if_splits)
qed

lemma emit_step_commit_ok:
  assumes "emit_step store l e = Some e'" "commit_ok store e" "epoch_ok e" "decision_ok e"
  shows "commit_ok store e'"
proof (rule commit_ok_frame [OF assms(2) _ _ _ assms(4,3)])
  note frame = emit_step_frame [OF assms(1)]
  show "main_view e' = main_view e" using frame by blast
  have "\<forall>i op. ep_emits e i \<noteq> EmitCall op" if "past_commit (ep_main e)" "\<not> ep_restartRequired e"
    using assms(3) that by (cases "ep_main e") (auto simp: epoch_ok_def close_ok_def)
  then show "ep_sql e' = ep_sql e \<or> \<not> past_commit (ep_main e) \<or> ep_restartRequired e"
    using assms(1)
    by (auto simp: emit_step_def emit_call_def emit_check_def emit_settle_def set_emit_def Let_def
        split: label.splits emit_pc.splits if_splits option.splits sum.splits)
  show "past_commit (ep_main e) \<and> \<not> ep_restartRequired e \<longrightarrow> ep_heartbeat e' \<noteq> BeatCall"
    using frame assms(2) by (simp add: commit_ok_def)
qed

lemma commit_ok_next:
  assumes "epoch_next store l e = Some e'" "commit_ok store e" "epoch_ok e" "decision_ok e"
  shows "commit_ok store e'"
proof -
  have "commit_ok store e'" if "other_step l e = Some e'"
  proof (rule commit_ok_frame [OF assms(2) _ _ _ assms(4,3)])
    note frame = other_step_frame [OF that]
    show "main_view e' = main_view e" "ep_sql e' = ep_sql e \<or> \<not> past_commit (ep_main e) \<or> ep_restartRequired e" using frame by simp_all
    show "past_commit (ep_main e) \<and> \<not> ep_restartRequired e \<longrightarrow> ep_heartbeat e' \<noteq> BeatCall" using frame assms(2) by (simp add: commit_ok_def)
  qed
  then show ?thesis
    using assms(1) main_step_commit_ok [OF _ assms(2-4)] heartbeat_step_commit_ok [OF _ assms(2-4)] emit_step_commit_ok [OF _ assms(2-4)]
    by (auto simp: epoch_next_def split: if_splits)
qed

lemma commit_ok_run:
  "run_epoch store ls e = Some e' \<Longrightarrow> commit_ok store e \<Longrightarrow> epoch_ok e \<Longrightarrow> decision_ok e \<Longrightarrow> commit_ok store e'"
  by (induction ls arbitrary: e) (auto split: option.splits intro: epoch_next_ok decision_step commit_ok_next)

lemma start_commit_ok: "commit_ok store (start_epoch worker claim s)"
  by (simp add: commit_ok_def start_epoch_def zero_result_def)


text \<open>A reported commit is the answer of the last store call of the epoch.\<close>

lemma epoch_last_call:
  assumes "run_epoch store ls (start_epoch worker claim s) = Some e" "ep_main e = MainDone err" "wr_Commit (ep_result e) = Some r"
  shows "wr_Committed (ep_result e)" "\<exists>ctx u. runs (xs_CommitAttempt store ctx
      \<lparr>cm_Fence = TurnAttempt_Fence (clr_Attempt claim), cm_OperationID = terminalOperationID (ta_ID (clr_Attempt claim)),
       cm_Event = None, cm_TerminalStatus = wr_TerminalStatus (ep_result e), cm_Effects = [], cm_Settlement = None\<rparr>) u r (ep_sql e)"
proof -
  have c: "commit_ok store e" by (rule commit_ok_run [OF assms(1) start_commit_ok start_epoch_ok start_decision_ok])
  have attempt: "ep_attempt e = clr_Attempt claim" using epoch_attempt [OF assms(1)] by (simp add: start_epoch_def)
  show "wr_Committed (ep_result e)" using c assms(3) unfolding commit_ok_def by blast
  then have "wr_TerminalStatus (ep_result e) = ep_terminal e" using c unfolding commit_ok_def by blast
  with c assms(3) attempt show "\<exists>ctx u. runs (xs_CommitAttempt store ctx
      \<lparr>cm_Fence = TurnAttempt_Fence (clr_Attempt claim), cm_OperationID = terminalOperationID (ta_ID (clr_Attempt claim)),
       cm_Event = None, cm_TerminalStatus = wr_TerminalStatus (ep_result e), cm_Effects = [], cm_Settlement = None\<rparr>) u r (ep_sql e)"
    unfolding commit_ok_def terminal_command_def by metis
qed

subsection \<open>Progress without the executor\<close>

definition kernel_label :: "label \<Rightarrow> bool" where
  "kernel_label l \<longleftrightarrow> main_label l \<or> beat_label l"

definition leads :: "ExecutionStore \<Rightarrow> epoch \<Rightarrow> epoch \<Rightarrow> bool" where
  "leads store e e' \<longleftrightarrow> (\<exists>ls. list_all kernel_label ls \<and> run_epoch store ls e = Some e')"

lemma leads_refl: "leads store e e"
  unfolding leads_def by (intro exI [of _ "[]"]) simp

lemma leads_step: "epoch_next store l e = Some e' \<Longrightarrow> kernel_label l \<Longrightarrow> leads store e e'"
  unfolding leads_def by (intro exI [of _ "[l]"]) simp

lemma leads_trans: "leads store a b \<Longrightarrow> leads store b c \<Longrightarrow> leads store a c"
  unfolding leads_def
proof (elim exE conjE)
  fix xs ys assume "list_all kernel_label xs" "run_epoch store xs a = Some b" "list_all kernel_label ys" "run_epoch store ys b = Some c"
  then show "\<exists>ls. list_all kernel_label ls \<and> run_epoch store ls a = Some c"
    by (intro exI [of _ "xs @ ys"]) (simp add: run_epoch_append)
qed

lemma leads_ok: "leads store e e' \<Longrightarrow> epoch_ok e \<Longrightarrow> epoch_ok e'"
  unfolding leads_def using run_epoch_ok by blast

lemma leads_main: "main_step store l e = Some e' \<Longrightarrow> main_label l \<Longrightarrow> leads store e e'"
  by (rule leads_step [of _ l]) (simp_all add: epoch_next_def kernel_label_def)

lemma leads_beat: "heartbeat_step store l e = Some e' \<Longrightarrow> beat_label l \<Longrightarrow> leads store e e'"
  by (rule leads_step [of _ l]) (auto simp: epoch_next_def kernel_label_def elim: beat_label.elims)

text \<open>A heartbeat that is inside its call returns, and one whose context is done ends.\<close>

lemma beat_returns:
  assumes "ep_heartbeat e = BeatCall"
  shows "\<exists>e'. leads store e e' \<and> ep_main e' = ep_main e \<and> ep_leaseMu e' = LeaseFree \<and> heartbeat_done e' = heartbeat_done e
    \<and> (heartbeat_done e \<longrightarrow> ep_heartbeat e' = BeatDone \<or> (\<exists>c. ep_heartbeat e' = BeatStop c))"
proof -
  let ?e = "beat_call store live_ctx e"
  have "leads store e ?e" using assms by (intro leads_beat [of _ "BeatCalls live_ctx"]) (simp_all add: heartbeat_step_def)
  then show ?thesis
    by (intro exI [of _ ?e]) (auto simp: beat_call_def heartbeat_done_def Let_def split: prod.split sum.split option.split)
qed

lemma beat_ends:
  assumes "heartbeat_done e" "lease_ok e" "ep_leaseMu e \<noteq> LeaseMain"
  shows "\<exists>e'. leads store e e' \<and> ep_main e' = ep_main e \<and> ep_heartbeat e' = BeatDone"
proof -
  have stop: "\<exists>e'. leads store x e' \<and> ep_main e' = ep_main x \<and> ep_heartbeat e' = BeatDone" if "ep_heartbeat x = BeatStop c" for x c
    using that by (intro exI [of _ "(stopExecutor c x)\<lparr>ep_heartbeat := BeatDone\<rparr>"] conjI leads_beat [of _ BeatStops])
      (simp_all add: heartbeat_step_def stopExecutor_def)
  show ?thesis
  proof (cases "ep_heartbeat e")
    case BeatWait
    then show ?thesis using assms(1)
      by (intro exI [of _ "e\<lparr>ep_heartbeat := BeatDone\<rparr>"] conjI leads_beat [of _ BeatQuits]) (simp_all add: heartbeat_step_def)
  next
    case BeatLock
    then have "ep_leaseMu e = LeaseFree" using assms(2,3) by (cases "ep_leaseMu e") (auto simp: lease_ok_def)
    then show ?thesis using assms(1) BeatLock
      by (intro exI [of _ "e\<lparr>ep_heartbeat := BeatDone\<rparr>"] conjI leads_beat [of _ BeatLocks]) (simp_all add: heartbeat_step_def)
  next
    case BeatCall
    from beat_returns [OF this, of store] assms(1) obtain e1 where "leads store e e1" "ep_main e1 = ep_main e"
        "ep_heartbeat e1 = BeatDone \<or> (\<exists>c. ep_heartbeat e1 = BeatStop c)" by blast
    then show ?thesis using stop [of e1] leads_trans [of store e e1] by metis
  next
    case (BeatStop c)
    then show ?thesis by (rule stop)
  next
    case BeatDone
    then show ?thesis using leads_refl by blast
  qed
qed

fun remaining :: "main_pc \<Rightarrow> nat" where
  "remaining MainWait = 11" | "remaining MainStop = 10" | "remaining MainClose = 9" | "remaining MainGrace = 8"
| "remaining MainEmits = 7" | "remaining MainCollect = 6" | "remaining MainLease = 5" | "remaining MainDecide = 4"
| "remaining MainCommit = 3" | "remaining MainCommitStopped = 2" | "remaining (MainDone _) = 0" | "remaining _ = 1"

text \<open>The wait for the executor can end: its context is done, a ceiling is enforced, or the outcome is there.\<close>

definition stoppable :: "epoch \<Rightarrow> bool" where
  "stoppable e \<longleftrightarrow> (ep_main e = MainWait \<longrightarrow> executor_done e \<or> ep_enforced e \<noteq> None \<or> ep_done e \<noteq> None)"

lemma join_progress:
  assumes "epoch_ok e" "remaining (ep_main e) = 1"
  shows "\<exists>e'. leads store e e' \<and> remaining (ep_main e') = 0"
proof -
  have pc: "(\<exists>err. ep_main e = MainGiveUp err) \<or> (\<exists>out. ep_main e = MainJoin out) \<or> ep_main e = MainRestart"
    using assms(2) by (cases "ep_main e") simp_all
  have "heartbeat_done e" "lease_ok e" "ep_leaseMu e \<noteq> LeaseMain"
    using assms(1) pc by (auto simp: epoch_ok_def seal_ok_def lease_ok_def heartbeat_done_def)
  from beat_ends [OF this] obtain e1 where e1: "leads store e e1" "ep_main e1 = ep_main e" "ep_heartbeat e1 = BeatDone" by blast
  have "\<exists>e'. leads store e1 e' \<and> remaining (ep_main e') = 0"
    using pc
  proof (elim disjE exE)
    fix err assume "ep_main e = MainGiveUp err"
    then show ?thesis using e1 by (intro exI [of _ "e1\<lparr>ep_main := MainDone (Some err)\<rparr>"] conjI leads_main [of _ MainJoins]) (simp_all add: main_step_def)
  next
    fix out assume "ep_main e = MainJoin out"
    then show ?thesis using e1
      by (intro exI [of _ "join_returns out e1"] conjI leads_main [of _ MainJoins]) (auto simp: main_step_def join_returns_def Let_def split: sum.split)
  next
    assume "ep_main e = MainRestart"
    then show ?thesis using e1
      by (intro exI [of _ "restart_returns e1"] conjI leads_main [of _ MainJoins]) (auto simp: main_step_def restart_returns_def Let_def)
  qed
  then show ?thesis using leads_trans [OF e1(1)] by blast
qed

lemma lease_progress:
  assumes "epoch_ok e" "ep_main e = MainLease"
  shows "\<exists>e'. leads store e e' \<and> ep_main e' = MainDecide"
proof -
  have "lease_ok e" using assms(1) by (simp add: epoch_ok_def)
  have lock: "\<exists>e'. leads store x e' \<and> ep_main e' = MainDecide" if "ep_main x = MainLease" "ep_leaseMu x = LeaseFree" for x
    using that by (intro exI [of _ "x\<lparr>ep_leaseMu := LeaseMain, ep_main := MainDecide\<rparr>"] conjI leads_main [of _ MainLocks])
      (simp_all add: main_step_def)
  show ?thesis
  proof (cases "ep_leaseMu e")
    case LeaseFree
    then show ?thesis using lock assms(2) by blast
  next
    case LeaseMain
    then show ?thesis using \<open>lease_ok e\<close> assms(2) by (simp add: lease_ok_def)
  next
    case LeaseHeartbeat
    then have "ep_heartbeat e = BeatCall" using \<open>lease_ok e\<close> by (simp add: lease_ok_def)
    from beat_returns [OF this, of store] obtain e1 where e1: "leads store e e1" "ep_main e1 = ep_main e" "ep_leaseMu e1 = LeaseFree"
      by blast
    then show ?thesis using lock [of e1] leads_trans [OF e1(1)] assms(2) by auto
  qed
qed

lemmas main_steps = main_step_def waitForWorkerExecutor_def waitForWorkerExecutorStop_def waitForEmitStop_def Option.is_none_def

lemma main_progress:
  assumes "epoch_ok e" "stoppable e" "remaining (ep_main e) \<noteq> 0"
  shows "\<exists>e'. leads store e e' \<and> remaining (ep_main e') < remaining (ep_main e)"
proof -
  have one: "\<exists>e'. leads store e e' \<and> remaining (ep_main e') < remaining (ep_main e)"
    if "main_step store l e = Some e1" "main_label l" "remaining (ep_main e1) < remaining (ep_main e)" for l e1
    using leads_main [OF that(1,2)] that(3) by blast
  show ?thesis
  proof (cases "ep_main e")
    case MainWait
    have less: "remaining (ep_main (outcome_or limit e)) < remaining (ep_main e)" for limit
      using MainWait by (simp add: outcome_or_def wait_returns_def split: option.split)
    consider "executor_done e" | "ep_enforced e \<noteq> None" | "ep_done e \<noteq> None" using assms(2) MainWait by (auto simp: stoppable_def)
    then show ?thesis
    proof cases
      case 1
      then show ?thesis using MainWait less by (intro one [of MainSeesCancel], simp add: main_steps) simp_all
    next
      case 2
      then show ?thesis using MainWait less
        by (intro one [of MainExecutionDeadline], simp add: main_steps) simp_all
    next
      case 3
      then show ?thesis using MainWait less
        by (intro one [of MainTakesOutcome], simp add: main_steps) simp_all
    qed
  next
    case MainStop
    then show ?thesis by (intro one [of MainStops], simp add: main_steps) (simp_all add: stopExecutor_def)
  next
    case MainClose
    then show ?thesis by (intro one [of MainCloses], simp add: main_steps) simp_all
  next
    case MainGrace
    then show ?thesis by (intro one [of MainGraceTimer], simp add: main_steps) (simp_all add: seal_worker_def)
  next
    case MainEmits
    then show ?thesis by (intro one [of MainEmitsTimer], simp add: main_steps) (simp_all add: seal_worker_def)
  next
    case MainCollect
    then show ?thesis by (intro one [of MainCollects], simp add: main_steps) (simp_all add: collect_counters_def Let_def)
  next
    case MainLease
    from lease_progress [OF assms(1) this, of store] show ?thesis using MainLease by auto
  next
    case MainDecide
    then show ?thesis
      by (intro one [of MainDecides], simp add: main_steps) (simp_all add: decide_terminal_def give_up_def Let_def split: option.split prod.split)
  next
    case MainCommit
    then show ?thesis
      by (intro one [of "MainCommits live_ctx"], simp add: main_steps) (simp_all add: commit_terminal_def stop_instead_def commit_returns_def Let_def split: prod.split)
  next
    case MainCommitStopped
    then show ?thesis
      by (intro one [of "MainCommits live_ctx"], simp add: main_steps) (simp_all add: commit_terminal_def commit_returns_def Let_def split: prod.split)
  qed (use assms(1,3) join_progress [of e store] in auto)
qed

lemma epoch_progress:
  assumes "epoch_ok e" "stoppable e"
  shows "\<exists>e'. leads store e e' \<and> remaining (ep_main e') = 0"
  using assms
proof (induction "remaining (ep_main e)" arbitrary: e rule: less_induct)
  case less
  show ?case
  proof (cases "remaining (ep_main e) = 0")
    case True
    then show ?thesis using leads_refl by blast
  next
    case False
    from main_progress [OF less.prems False, of store] obtain e1 where
      e1: "leads store e e1" "remaining (ep_main e1) < remaining (ep_main e)" by blast
    have "stoppable e1" using e1(2) by (cases "ep_main e") (auto simp: stoppable_def)
    from less.hyps [OF e1(2) leads_ok [OF e1(1) less.prems(1)] this] show ?thesis using leads_trans [OF e1(1)] by blast
  qed
qed


subsection \<open>The error of an epoch\<close>

definition error_ok :: "epoch \<Rightarrow> bool" where
  "error_ok e \<longleftrightarrow> (\<forall>err. ep_main e = MainDone err \<longrightarrow>
     (ep_restartRequired e \<longrightarrow> (\<exists>x. err = Some x \<and> errors_is x ErrWorkerRestartRequired))
     \<and> (err = None \<longrightarrow> wr_Committed (ep_result e)))"

lemma main_step_error_ok:
  assumes "main_step store l e = Some e'" "epoch_ok e"
  shows "error_ok e'"
proof (cases "ep_main e")
  case MainRestart
  then have "e' = restart_returns e" using assms(1) by (simp add: main_step_def split: label.splits if_splits)
  then show ?thesis by (simp add: error_ok_def restart_returns_def workerRunError_def Let_def split: option.split)
next
  case (MainJoin outcome)
  then have e': "e' = join_returns outcome e" using assms(1) by (simp add: main_step_def split: label.splits if_splits)
  have "\<not> ep_restartRequired e" using assms(2) MainJoin by (auto simp: epoch_ok_def seal_ok_def)
  then show ?thesis unfolding e' by (simp add: error_ok_def join_returns_def Let_def split: sum.split)
next
  case (MainGiveUp err)
  have "\<not> ep_restartRequired e" using assms(2) MainGiveUp by (auto simp: epoch_ok_def seal_ok_def)
  then show ?thesis using assms(1) MainGiveUp by (simp add: main_step_def error_ok_def split: label.splits if_splits) auto
next
  case MainDecide
  then have "e' = decide_terminal e" using assms(1) by (simp add: main_step_def split: label.splits if_splits)
  then show ?thesis by (simp add: error_ok_def decide_terminal_def give_up_def Let_def split: option.split prod.split)
next
  case MainCommit
  then obtain ctx where "e' = commit_terminal store ctx e" using assms(1) by (auto simp: main_step_def split: label.splits)
  then show ?thesis by (simp add: error_ok_def commit_terminal_def stop_instead_def commit_returns_def Let_def split: prod.split)
next
  case MainCommitStopped
  then obtain ctx where "e' = commit_terminal store ctx e" using assms(1) by (auto simp: main_step_def split: label.splits)
  then show ?thesis by (simp add: error_ok_def commit_terminal_def stop_instead_def commit_returns_def Let_def split: prod.split)
qed (use assms(1) in \<open>auto simp: main_step_def main_defs error_ok_def Let_def split: label.splits if_splits option.splits\<close>)

lemma error_ok_next:
  assumes "epoch_next store l e = Some e'" "error_ok e" "epoch_ok e"
  shows "error_ok e'"
proof -
  have "error_ok e'" if "main_view e' = main_view e" using that assms(2) by (simp add: error_ok_def main_view_def)
  then show ?thesis using epoch_next_main [OF assms(1)] main_step_error_ok [OF _ assms(3)] by blast
qed

lemma error_ok_run: "run_epoch store ls e = Some e' \<Longrightarrow> error_ok e \<Longrightarrow> epoch_ok e \<Longrightarrow> error_ok e'"
  by (induction ls arbitrary: e) (auto split: option.splits intro: epoch_next_ok error_ok_next)

lemma resolveTerminal_never_stopped: "fst (resolveTerminal reported err False) \<noteq> TurnStatusStopped"
  by (simp add: resolveTerminal_def)

subsection \<open>A sample epoch\<close>

definition sample_refusing_store :: ExecutionStore where
  "sample_refusing_store = \<lparr>xs_ClaimNext = (\<lambda>_ _. tx_fail ErrNoClaimableTurn), xs_HeartbeatAttempt = (\<lambda>_ _. tx_fail ErrStoreUnavailable),
     xs_CommitAttempt = (\<lambda>_ _. tx_fail ErrAttemptFenced)\<rparr>"

definition sample_worker :: Worker where
  "sample_worker = \<lparr>wk_store = sample_refusing_store, wk_options = \<lparr>wo_WorkerID = ''w-2'', wo_WorkerBuildDigest = ''b'', wo_AdmissionGate = None,
     wo_ScanLimit = 0, wo_IdleBackoff = Second, wo_HeartbeatInterval = Second, wo_DrainTimeout = Second,
     wo_ExecutorStopGrace = Second, wo_PluginLimits = [], wo_AttemptIDFactory = Some (Inr ''att-2'')\<rparr>,
     wk_admission = None, wk_pluginLimits = [], wk_restartRequired = False\<rparr>"

definition sample_claimed :: epoch where
  "sample_claimed = start_epoch sample_worker (projr (fst sample_second)) (snd sample_second)"

definition sample_operation :: OperationDraft where
  "sample_operation = \<lparr>od_OperationID = ''op-1'', od_Event = \<lparr>ed_Type = ''note'', ed_ResourceRefs = [], ed_Data = ''{}''\<rparr>, od_Effects = []\<rparr>"

text \<open>The executor leaves a call of \<^verbatim>\<open>Emit\<close> behind and returns; the call is refused, and the epoch reaches its commit.\<close>

definition sample_to_commit :: "label list" where
  "sample_to_commit = [BeatTicks, EmitCalls 0 LiveContext sample_operation, ExecutorReturns TurnStatusCompleted None, MainTakesOutcome,
     EmitTakes 0, MainStops, MainCloses, EmitChecks 0, MainEmitsPermit, MainCollects, MainLocks, MainDecides]"

definition sample_to_end :: "label list" where
  "sample_to_end = [MainCommits live_ctx, BeatLocks, MainJoins]"

definition sample_committing :: epoch where
  "sample_committing = the (run_epoch sample_refusing_store sample_to_commit sample_claimed)"

definition sample_ended :: epoch where
  "sample_ended = the (run_epoch sample_refusing_store sample_to_end sample_committing)"

lemma sample_committing_run: "run_epoch sample_refusing_store sample_to_commit sample_claimed = Some sample_committing"
  "ep_main sample_committing = MainCommit"
  by (simp_all add: sample_committing_def sample_to_commit_def sample_claimed_def start_epoch_def epoch_next_def main_step_def
      heartbeat_step_def emit_defs other_step_def main_defs executor_done_def bindWorkerEpochContext_def or_else_def zero_result_def
      session_closed_def WorkerLimitKind_Valid_def resolveTerminal_def Let_def)


lemma sample_ended_run: "run_epoch sample_refusing_store sample_to_end sample_committing = Some sample_ended"
  "ep_main sample_ended = MainDone (Some ErrWorkerFenceLost)"
  by (simp_all add: sample_ended_def sample_to_end_def sample_committing_def sample_to_commit_def sample_claimed_def start_epoch_def
      epoch_next_def main_step_def heartbeat_step_def emit_defs other_step_def main_defs executor_done_def heartbeat_done_def
      bindWorkerEpochContext_def or_else_def zero_result_def session_closed_def WorkerLimitKind_Valid_def resolveTerminal_def Let_def
      sample_refusing_store_def tx_fail_def isOwnershipLoss_def)

subsection \<open>Properties\<close>

text \<open>
  C32. The terminal commit is alone. Whatever the executor does with its session, however its calls of
  Emit, the heartbeat, the timers and the end of the contexts interleave: when the worker is inside
  its terminal commit, the session is closed, the worker is not sealed, the heartbeat is not inside a
  store call, and from then on no commit of Emit is in flight or starts, so that no operation of the
  executor can land beside or after the terminal one.
\<close>

theorem terminal_commit_alone:
  assumes "run_epoch store ls (start_epoch worker claim s) = Some e" "ep_main e = MainCommit \<or> ep_main e = MainCommitStopped"
    and "run_epoch store rest e = Some e'"
  shows "ep_ended e \<and> ep_leaseMu e = LeaseMain \<and> ep_heartbeat e \<noteq> BeatCall \<and> \<not> ep_restartRequired e
    \<and> (\<forall>i op. ep_emits e' i \<noteq> EmitCall op) \<and> (\<forall>i ctx. EmitCommits i ctx \<notin> set rest)"
proof -
  have ok: "epoch_ok e" by (rule run_epoch_ok [OF assms(1) start_epoch_ok])
  have pc: "owns_lease (ep_main e)" "\<not> before_close (ep_main e)" "\<not> before_collect (ep_main e)" using assms(2) by auto
  have open_worker: "\<not> ep_restartRequired e" using ok assms(2) by (auto simp: epoch_ok_def seal_ok_def)
  then have "settled_epoch e" using pc by (simp add: settled_epoch_def)
  from settled_run [OF assms(3) ok this] have after: "settled_epoch e'" "epoch_ok e'" "\<forall>i ctx. EmitCommits i ctx \<notin> set rest" by auto
  then have "\<forall>i op. ep_emits e' i \<noteq> EmitCall op" unfolding epoch_ok_def close_ok_def settled_epoch_def by blast
  moreover have "ep_ended e" using ok pc unfolding epoch_ok_def close_ok_def by blast
  moreover have "ep_leaseMu e = LeaseMain" "ep_heartbeat e \<noteq> BeatCall" using ok pc unfolding epoch_ok_def lease_ok_def by auto
  ultimately show ?thesis using after(3) open_worker by blast
qed

theorem terminal_commit_alone_witness:
  "ep_main sample_committing = MainCommit \<and> ep_ended sample_committing \<and> ep_emits sample_ended 0 \<noteq> EmitCall sample_operation"
  using terminal_commit_alone [OF sample_committing_run(1) [unfolded sample_claimed_def] disjI1 [OF sample_committing_run(2)]
      sample_ended_run(1)] sample_committing_run(2) by blast



text \<open>
  C34. An epoch never depends on its executor to end. In every state an epoch can reach, once the wait
  for the executor has a reason to end (its context is done, a ceiling is enforced, or the outcome is
  there), the main goroutine and the heartbeat alone can bring it to its return: also if the executor
  never returns, if a call of Emit hangs inside the store, and if the heartbeat holds the lease lock.
  There is no deadlock between the lease lock, the emit permit and the joins.
\<close>

theorem epoch_can_end:
  assumes "run_epoch store ls (start_epoch worker claim s) = Some e" "stoppable e"
  shows "\<exists>rest e' err. list_all (\<lambda>l. main_label l \<or> beat_label l) rest \<and> run_epoch store rest e = Some e' \<and> ep_main e' = MainDone err"
proof -
  have "epoch_ok e" by (rule run_epoch_ok [OF assms(1) start_epoch_ok])
  from epoch_progress [OF this assms(2), of store] obtain e' where e': "leads store e e'" "remaining (ep_main e') = 0" by blast
  then obtain err where "ep_main e' = MainDone err" by (cases "ep_main e'") auto
  with e'(1) show ?thesis unfolding leads_def kernel_label_def by blast
qed

theorem epoch_can_end_witness:
  "\<exists>rest e' err. list_all (\<lambda>l. main_label l \<or> beat_label l) rest \<and> run_epoch sample_refusing_store rest sample_committing = Some e' \<and> ep_main e' = MainDone err"
  using epoch_can_end [OF sample_committing_run(1) [unfolded sample_claimed_def]] sample_committing_run(2) by (simp add: stoppable_def)


end
