(* ===== verification/Worker_Loop.thy ===== *)
theory Worker_Loop
  imports Worker_Epoch Reconcile_Safety
begin

text \<open>
  The worker as a whole: \<^verbatim>\<open>RunOnce\<close> and the loop \<^verbatim>\<open>RunWithPulse\<close> of \<^verbatim>\<open>worker.go\<close>, and a worker over the SQL
  store, which implements the interface \<^verbatim>\<open>ExecutionStore\<close>.
\<close>

subsection \<open>One pass and the loop\<close>

text \<open>
  A pass is a claim and, if it succeeds, an epoch under a schedule that may depend on how the epoch
  starts. The pass is over when the main goroutine has returned; a schedule that stops before that is
  a pass that has not returned yet, \<open>None\<close>. The drain deadline is the end of the execution context,
  a step of the schedule.
\<close>

type_synonym schedule = "epoch \<Rightarrow> label list"

definition runOnce ::
  "Worker \<Rightarrow> loop_view \<Rightarrow> schedule \<Rightarrow> sql_state \<Rightarrow> ((WorkerRunResult \<times> go_error option) \<times> Worker \<times> sql_state) option"
where
  "runOnce worker view schedule s =
     (case claim_epoch_of worker view s of
        (Inl (result, e, sealed), s') \<Rightarrow>
          Some ((result, Some e), worker\<lparr>wk_restartRequired := wk_restartRequired worker \<or> sealed\<rparr>, s')
      | (Inr begun, s') \<Rightarrow>
          (case run_epoch (wk_store worker) (schedule begun) begun of
             None \<Rightarrow> None
           | Some e \<Rightarrow>
               (case ep_main e of
                  MainDone err \<Rightarrow>
                    Some ((ep_result e, err), worker\<lparr>wk_restartRequired := wk_restartRequired worker \<or> ep_restartRequired e\<rparr>, ep_sql e)
                | _ \<Rightarrow> None)))"

definition observed_run :: "WorkerRunResult \<times> go_error option \<Rightarrow> (WorkerRunResult \<times> go_error option) list" where
  "observed_run r = (case snd r of None \<Rightarrow> [r]
     | Some e \<Rightarrow> if errors_is e ErrNoClaimableTurn \<or> errors_is e ErrAdmissionClosed then [] else [r])"

definition worker_fatal :: "go_error \<Rightarrow> bool" where
  "worker_fatal e \<longleftrightarrow> errors_is e ErrWorkerRestartRequired \<or> errors_is e ErrWorkerPluginLimitsUnavailable"

partial_function (option) worker_Run ::
  "(nat \<Rightarrow> loop_view) \<Rightarrow> (nat \<Rightarrow> schedule) \<Rightarrow> nat \<Rightarrow> (WorkerRunResult \<times> go_error option) list \<Rightarrow> Worker \<times> sql_state
     \<Rightarrow> (((WorkerRunResult \<times> go_error option) list \<times> go_error) \<times> Worker \<times> sql_state) option"
where
  "worker_Run view schedule pass seen state =
     (case contextError (lv_head (view pass)) of
        Some e \<Rightarrow> Some ((seen, e), state)
      | None \<Rightarrow>
          (case runOnce (fst state) (view pass) (schedule pass) (snd state) of
             None \<Rightarrow> None
           | Some ((result, err), state') \<Rightarrow>
               (let seen' = seen @ observed_run (result, err) in
                case err of
                  None \<Rightarrow> worker_Run view schedule (Suc pass) seen' state'
                | Some e \<Rightarrow>
                    if errors_is e ErrAdmissionClosed
                    then map_option (\<lambda>e'. ((seen', e'), state')) (waitForAdmissionShutdown (lv_shutdown (view pass)))
                    else if worker_fatal e then Some ((seen', e), state')
                    else if errors_is e ErrNoClaimableTurn
                    then (case sleepContext (lv_sleep (view pass)) of
                            Some e' \<Rightarrow> Some ((seen', e'), state')
                          | None \<Rightarrow> worker_Run view schedule (Suc pass) seen' state')
                    else if errors_is e ErrWorkerFenceLost \<or> errors_is e ErrExecutorNonTerminal
                    then worker_Run view schedule (Suc pass) seen' state'
                    else (case first_error [contextError (lv_after (view pass)), sleepContext (lv_sleep (view pass))] of
                            Some e' \<Rightarrow> Some ((seen', e'), state')
                          | None \<Rightarrow> worker_Run view schedule (Suc pass) seen' state'))))"

text \<open>A worker that is sealed refuses before it looks at anything, so it claims nothing again.\<close>

lemma sealed_worker_refuses:
  "wk_restartRequired worker \<Longrightarrow> runOnce worker view schedule s
     = Some ((zero_result\<lparr>wr_RestartRequired := True\<rparr>, Some ErrWorkerRestartRequired), worker, s)"
  by (simp add: runOnce_def claim_epoch_of_def)

lemma worker_pass:
  assumes "contextError (lv_head (view p)) = None" "runOnce (fst state) (view p) (schedule p) (snd state) \<noteq> None"
  shows "(\<exists>more state'. worker_Run view schedule p seen state = worker_Run view schedule (Suc p) (seen @ more) state'
        \<and> (\<exists>b s'. state' = ((fst state)\<lparr>wk_restartRequired := b\<rparr>, s')))
      \<or> (\<exists>more e state'. worker_Run view schedule p seen state = Some ((seen @ more, e), state') \<and> (e \<in> context_errors (view p) \<or> worker_fatal e))
      \<or> (\<exists>more state'. worker_Run view schedule p seen state
            = map_option (\<lambda>e. ((seen @ more, e), state')) (waitForAdmissionShutdown (lv_shutdown (view p))))"
proof -
  obtain result err w s' where r: "runOnce (fst state) (view p) (schedule p) (snd state) = Some ((result, err), w, s')"
    using assms(2) by (metis not_None_eq surj_pair)
  have w: "\<exists>b. w = (fst state)\<lparr>wk_restartRequired := b\<rparr>"
    using r by (auto simp: runOnce_def split: prod.splits sum.splits option.splits main_pc.splits)
  then obtain b where b: "w = (fst state)\<lparr>wk_restartRequired := b\<rparr>" by blast
  let ?run = "worker_Run view schedule p seen state" and ?m = "observed_run (result, err)"
  let ?again = "worker_Run view schedule (Suc p) (seen @ ?m) (w, s')"
  have run: "?run = (case err of None \<Rightarrow> ?again
      | Some e \<Rightarrow>
          if errors_is e ErrAdmissionClosed
          then map_option (\<lambda>e'. ((seen @ ?m, e'), (w, s'))) (waitForAdmissionShutdown (lv_shutdown (view p)))
          else if worker_fatal e then Some ((seen @ ?m, e), (w, s'))
          else if errors_is e ErrNoClaimableTurn
          then (case sleepContext (lv_sleep (view p)) of Some e' \<Rightarrow> Some ((seen @ ?m, e'), (w, s')) | None \<Rightarrow> ?again)
          else if errors_is e ErrWorkerFenceLost \<or> errors_is e ErrExecutorNonTerminal then ?again
          else (case first_error [contextError (lv_after (view p)), sleepContext (lv_sleep (view p))] of
                  Some e' \<Rightarrow> Some ((seen @ ?m, e'), (w, s')) | None \<Rightarrow> ?again))"
    by (subst worker_Run.simps) (simp only: assms(1) r option.case prod.case Let_def)
  have "?run = ?again \<or> (\<exists>e. ?run = Some ((seen @ ?m, e), (w, s')) \<and> (e \<in> context_errors (view p) \<or> worker_fatal e))
      \<or> ?run = map_option (\<lambda>e. ((seen @ ?m, e), (w, s'))) (waitForAdmissionShutdown (lv_shutdown (view p)))"
    using pause_error [of "view p"] unfolding run by (simp split: option.split)
  then show ?thesis using b by blast
qed

subsection \<open>The SQL store as execution store\<close>

definition sql_execution_store :: "SettlementStore \<Rightarrow> SettlementStore \<Rightarrow> review_tables \<Rightarrow> sql_io \<Rightarrow> ExecutionStore" where
  "sql_execution_store before store tables io =
     \<lparr>xs_ClaimNext = ClaimNext (sn_store store) io, xs_HeartbeatAttempt = HeartbeatAttempt (sn_store store) io,
      xs_CommitAttempt = CommitAttempt before store tables io\<rparr>"

lemma CommitAttempt_valid: "runs (CommitAttempt before store tables io ctx c) s r s' \<Longrightarrow> CommitAttemptCommand_Validate c = None"
  by (auto simp: CommitAttempt_def runs_guard err_simps)

lemma CommitAttempt_closes:
  assumes "runs (CommitAttempt before store tables io ctx c) s r s'" "\<not> cmr_Replay r" "cm_TerminalStatus c \<noteq> TurnStatusOther ''''"
  shows "\<exists>t. turn_at (st_db s') (af_TurnID (cm_Fence c)) = Some t \<and> tr_Status t = cm_TerminalStatus c \<and> closed t"
  using assms(1)
proof (cases rule: CommitAttempt_cases)
  case (wrote plan s1 s2)
  let ?k = "cc_Command (hd (cp_Candidates plan))"
  have k: "cm_Fence ?k = cm_Fence c" "cm_TerminalStatus ?k = cm_TerminalStatus c"
    using plan_head(1) [OF commit_candidates_for [OF wrote(1)]] by (simp_all add: same_commit_def)
  from wrote(3) refl have "commits store io ?k (cc_Digest (hd (cp_Candidates plan))) r (st_db s1) (st_db s2)"
    by (cases rule: commitAttempt_tx_cases) (use assms(2) in \<open>auto simp: answers_receipt_def\<close>)
  from commits_closed [OF this] show ?thesis
    using wrote(4) k assms(3) valid_terminal [OF CommitAttempt_valid [OF assms(1)] assms(3)] by simp
next
  case (resolved plan s1)
  from runs_resolveOperation [OF resolved(2)] assms(2) show ?thesis by (auto simp: answers_receipt_def)
qed

lemma resolveTerminal_proper: "fst (resolveTerminal reported err is_cancelled) \<noteq> TurnStatusOther x"
  by (cases reported) (simp_all add: resolveTerminal_def)

lemma committed_status:
  assumes "run_epoch store ls (start_epoch worker claim s) = Some e" "ep_main e = MainDone err" "wr_Committed (ep_result e)"
  shows "wr_TerminalStatus (ep_result e) \<noteq> TurnStatusOther x"
proof -
  have "decision_ok e" by (rule decision_run [OF assms(1) start_decision_ok start_epoch_ok])
  then have "(wr_TerminalStatus (ep_result e), err) = decision (ep_result e) (ep_outcome e)"
    using assms(2,3) unfolding decision_ok_def by auto
  then have "wr_TerminalStatus (ep_result e) = fst (decision (ep_result e) (ep_outcome e))" by (metis fst_conv)
  then show ?thesis by (simp add: decision_def resolveTerminal_proper)
qed

subsection \<open>A sample epoch on the SQL store\<close>

definition sample_sql_store :: ExecutionStore where
  "sample_sql_store = sql_execution_store sample_unbound sample_unbound sample_tables (sample_io (sample_time + 32 * Second))"

definition sample_schedule :: "label list" where
  "sample_schedule = [ExecutorReturns TurnStatusCompleted None, MainTakesOutcome, MainStops, MainCloses, MainEmitsPermit, MainCollects,
     MainLocks, MainDecides, MainCommits live_ctx, BeatQuits, MainJoins]"

definition sample_finished :: epoch where
  "sample_finished = the (run_epoch sample_sql_store sample_schedule (start_epoch sample_worker (projr (fst sample_second)) (snd sample_second)))"

lemma sample_finished_facts:
  "run_epoch sample_sql_store sample_schedule (start_epoch sample_worker (projr (fst sample_second)) (snd sample_second)) = Some sample_finished"
  "ep_main sample_finished = MainDone None" "\<exists>r. wr_Commit (ep_result sample_finished) = Some r \<and> \<not> cmr_Replay r"
  "attempts_ok (st_db (ep_sql sample_finished))" "ta_TurnID (clr_Attempt (projr (fst sample_second))) = ''turn-1''"
proof -
  have *: "case run_epoch sample_sql_store sample_schedule (start_epoch sample_worker (projr (fst sample_second)) (snd sample_second)) of
      None \<Rightarrow> False | Some e \<Rightarrow> (case ep_main e of MainDone err \<Rightarrow> Option.is_none err | _ \<Rightarrow> False) \<and> attempts_ok (st_db (ep_sql e))
        \<and> (case wr_Commit (ep_result e) of None \<Rightarrow> False | Some r \<Rightarrow> \<not> cmr_Replay r)" by code_simp
  then show run: "run_epoch sample_sql_store sample_schedule (start_epoch sample_worker (projr (fst sample_second)) (snd sample_second)) = Some sample_finished"
    unfolding sample_finished_def by (auto split: option.splits)
  from * show "ep_main sample_finished = MainDone None" "\<exists>r. wr_Commit (ep_result sample_finished) = Some r \<and> \<not> cmr_Replay r"
    "attempts_ok (st_db (ep_sql sample_finished))"
    unfolding run by (auto simp: Option.is_none_def split: option.splits main_pc.splits)
  show "ta_TurnID (clr_Attempt (projr (fst sample_second))) = ''turn-1''" by code_simp
qed

subsection \<open>Properties\<close>

text \<open>
  C35. A reported commit is final. When an epoch over the SQL store returns and reports a commit that is
  not a replay, the Turn of the claimed attempt is closed in the database in the reported status, and
  it is exactly so in every later database, whatever transactions of the kernel any sessions commit.
\<close>

theorem worker_commit_final:
  assumes "run_epoch (sql_execution_store before store tables io) ls (start_epoch worker claim s) = Some e" "ep_main e = MainDone err"
    and "wr_Commit (ep_result e) = Some r" "\<not> cmr_Replay r"
    and "attempts_ok (st_db (ep_sql e))" "(kernel_step store)\<^sup>*\<^sup>* (st_db (ep_sql e)) db"
  shows "\<exists>t. turn_at db (ta_TurnID (clr_Attempt claim)) = Some t \<and> turn_at (st_db (ep_sql e)) (ta_TurnID (clr_Attempt claim)) = Some t
    \<and> closed t \<and> tr_Status t = wr_TerminalStatus (ep_result e)"
proof -
  let ?i = "ta_TurnID (clr_Attempt claim)"
  note last = epoch_last_call [OF assms(1-3)]
  then obtain ctx c u where c: "runs (CommitAttempt before store tables io ctx c) u r (ep_sql e)"
      "af_TurnID (cm_Fence c) = ?i" "cm_TerminalStatus c = wr_TerminalStatus (ep_result e)"
    by (fastforce simp: sql_execution_store_def TurnAttempt_Fence_def)
  have "cm_TerminalStatus c \<noteq> TurnStatusOther ''''" using committed_status [OF assms(1,2) last(1)] c(3) by simp
  from CommitAttempt_closes [OF c(1) assms(4) this] obtain t where t: "turn_at (st_db (ep_sql e)) ?i = Some t"
      "tr_Status t = wr_TerminalStatus (ep_result e)" "closed t" using c(2,3) by auto
  from kernel.steps_frozen [OF assms(6,5) t(1,3)] t show ?thesis by (simp add: turn_frozen_def)
qed

theorem worker_commit_final_witness:
  "\<exists>t. turn_at (st_db (ep_sql sample_finished)) ''turn-1'' = Some t \<and> closed t \<and> tr_Status t = wr_TerminalStatus (ep_result sample_finished)"
proof -
  obtain r where r: "wr_Commit (ep_result sample_finished) = Some r" "\<not> cmr_Replay r" using sample_finished_facts(3) by blast
  from worker_commit_final [OF sample_finished_facts(1) [unfolded sample_sql_store_def] sample_finished_facts(2) r sample_finished_facts(4)
      rtranclp.rtrancl_refl] show ?thesis unfolding sample_finished_facts(5) by blast
qed

text \<open>
  The loop of the worker returns. If the context of the loop is done at the head of some pass, and every
  epoch before it is driven to its end, the loop has returned by that pass: with an error of the
  context, or because the worker needs a restart.
\<close>

theorem worker_loop_ends:
  assumes "contextError (lv_head (view (p + n))) \<noteq> None"
    and "\<And>q. p \<le> q \<Longrightarrow> q < p + n \<Longrightarrow> \<exists>k. contextError (lv_shutdown (view q) k) \<noteq> None"
    and "\<And>q b s. p \<le> q \<Longrightarrow> q < p + n \<Longrightarrow> runOnce (worker\<lparr>wk_restartRequired := b\<rparr>) (view q) (schedule q) s \<noteq> None"
  shows "\<exists>more e state q. worker_Run view schedule p seen (worker\<lparr>wk_restartRequired := b\<rparr>, s) = Some ((seen @ more, e), state)
    \<and> p \<le> q \<and> q \<le> p + n \<and> (e \<in> context_errors (view q) \<or> worker_fatal e)"
  using assms
proof (induction n arbitrary: p seen b s)
  case 0
  then obtain e where "contextError (lv_head (view p)) = Some e" by auto
  then show ?case by (subst worker_Run.simps)
      (auto intro!: exI [of _ "[]"] exI [of _ e] exI [of _ p] simp: context_errors_def image_iff)
next
  case (Suc n)
  show ?case
  proof (cases "contextError (lv_head (view p))")
    case (Some e)
    then show ?thesis by (subst worker_Run.simps)
      (auto intro!: exI [of _ "[]"] exI [of _ e] exI [of _ p] simp: context_errors_def image_iff)
  next
    case None
    have "runOnce (worker\<lparr>wk_restartRequired := b\<rparr>) (view p) (schedule p) s \<noteq> None" using Suc.prems(3) by simp
    with worker_pass [of view p "(worker\<lparr>wk_restartRequired := b\<rparr>, s)" schedule, OF None, of seen]
    consider (again) more b' s' where "worker_Run view schedule p seen (worker\<lparr>wk_restartRequired := b\<rparr>, s)
          = worker_Run view schedule (Suc p) (seen @ more) (worker\<lparr>wk_restartRequired := b'\<rparr>, s')"
      | (ends) more e state' where "worker_Run view schedule p seen (worker\<lparr>wk_restartRequired := b\<rparr>, s) = Some ((seen @ more, e), state')"
          "e \<in> context_errors (view p) \<or> worker_fatal e"
      | (waits) more state' where "worker_Run view schedule p seen (worker\<lparr>wk_restartRequired := b\<rparr>, s)
          = map_option (\<lambda>e. ((seen @ more, e), state')) (waitForAdmissionShutdown (lv_shutdown (view p)))"
      by auto
    then show ?thesis
    proof cases
      case again
      obtain more' e st q where "worker_Run view schedule (Suc p) (seen @ more) (worker\<lparr>wk_restartRequired := b'\<rparr>, s') = Some (((seen @ more) @ more', e), st)"
          "Suc p \<le> q" "q \<le> Suc p + n" "e \<in> context_errors (view q) \<or> worker_fatal e"
        using Suc.IH [of "Suc p" "seen @ more" b' s'] Suc.prems by auto
      with again show ?thesis by (intro exI [of _ "more @ more'"] exI [of _ e] exI [of _ st] exI [of _ q]) simp
    next
      case ends
      then show ?thesis by (intro exI [of _ more] exI [of _ e] exI [of _ state'] exI [of _ p]) simp
    next
      case waits
      obtain k where "contextError (lv_shutdown (view p) k) \<noteq> None" using Suc.prems(2) [of p] by auto
      from dispatching.shutdown_ends [of "lv_shutdown (view p)" k, OF this] obtain e j where "waitForAdmissionShutdown (lv_shutdown (view p)) = Some e"
          "contextError (lv_shutdown (view p) j) = Some e" by blast
      with waits show ?thesis
        by (intro exI [of _ more] exI [of _ e] exI [of _ state'] exI [of _ p]) (auto simp: context_errors_def image_iff intro!: exI [of _ j])
    qed
  qed
qed

end
