(* ===== verification/Spec2Isabelle.thy ===== *)
theory Spec2Isabelle
  imports Turn_Service Event_Stream Execution_Types Effect_Outbox Sql_Attempts Sql_Replay Reconcile_Pass Plugin_Scope Worker_Loop
begin

text \<open>
  The durable Agent Turn kernel of WorkMax: the Go packages \<^verbatim>\<open>server/service/agentturn\<close> and the
  contract \<^verbatim>\<open>server/contracts/agent/v1/durable_turn.go\<close>.

  \<^bold>\<open>The program.\<close> A client starts a Turn of an agent conversation under an idempotency key. The
  kernel stores the Turn and an append-only log of its events, lets workers claim the Turn under a
  fenced lease, commits one terminal outcome with the external effects it causes, and delivers those
  effects from an outbox. Clients replay the log from a cursor or follow it as a stream. Every part
  must survive crashes, lost commits, concurrent sessions and repeated requests.

  \<^bold>\<open>Parts and theories.\<close>

  \<^item> \<open>Go_Prelude\<close>, \<open>Go_Json\<close>: what the code uses of Go. Errors are values of \<open>go_error\<close> with the
    wrapping that \<^verbatim>\<open>errors.Is\<close> sees; a fallible function returns \<open>go_error + 'a\<close>; a time is an
    integer of nanoseconds; a string is its list of bytes, so that JSON and UTF-8 are functions on
    lists. An operation that looks at its context several times takes the list of what it sees.
  \<^item> \<open>Agent_Contract\<close>, \<open>Turn_Types\<close>: the records of \<^verbatim>\<open>durable_turn.go\<close>, \<^verbatim>\<open>types.go\<close> and
    \<^verbatim>\<open>store.go\<close> with their \<^verbatim>\<open>Validate\<close> methods and the status machine. Sequence numbers are
    64-bit words.
  \<^item> \<open>Memory_Store\<close>: \<^verbatim>\<open>memory_store.go\<close>, the reference store: four maps under a mutex, one step
    per call. \<open>Turn_Store\<close> states the interface \<^verbatim>\<open>Store\<close> as the locales \<open>replay_reader\<close> and
    \<open>turn_store\<close> and interprets them on the reference store.
  \<^item> \<open>Turn_Service\<close>: \<^verbatim>\<open>service.go\<close>, over any store that satisfies the locale.
  \<^item> \<open>Event_Stream\<close>: \<^verbatim>\<open>event_stream.go\<close>, subscriptions and the broker that wakes them.
  \<^item> \<open>Settlement\<close>: the settlement commands and keys of \<^verbatim>\<open>settlement.go\<close> and the Review records of
    \<^verbatim>\<open>settlement_review.go\<close>.
  \<^item> \<open>Execution_Types\<close>: \<^verbatim>\<open>execution_types.go\<close>, the commands and records of execution.
  \<^item> \<open>Sql_Rows\<close>, \<open>Sql_Codec\<close>: the rows of the SQL store and their conversions.
  \<^item> \<open>Sql_Tx\<close>: a database as the lists of its tables, and transactions on it. An environment
    \<open>sql_io\<close> decides which statements fail, what the database clock reads, whether a commit fails
    and was applied nevertheless, and what other sessions commit between two transactions.
  \<^item> \<open>Sql_Turns\<close>: the \<^verbatim>\<open>Store\<close> operations of \<^verbatim>\<open>sql_store.go\<close>. \<open>Sql_Refinement\<close> and \<open>Sql_Replay\<close>
    show that they implement the reference store.
  \<^item> \<open>Sql_Attempts\<close>: claims, heartbeats and discovery of \<^verbatim>\<open>sql_execution_store.go\<close> and
    \<^verbatim>\<open>sql_claim_next.go\<close>; the locale \<open>execution_steps\<close> is the contract of fenced ownership.
  \<^item> \<open>Effect_Outbox\<close>: \<^verbatim>\<open>effect_outbox.go\<close>, leases, completions and the retry policy of effects.
  \<^item> \<open>Go_Json_Value\<close>, \<open>Commit_Digest\<close>: decoding and canonical encoding of JSON values, and the
    normalization and digest of a commit command (\<^verbatim>\<open>normalizeCommitCommand\<close> and its variants).
  \<^item> \<open>Sql_Settlement\<close>: the authorities a store is bound to, the call that settles, the evidence of
    usage, and how a Review is persisted and checked (\<^verbatim>\<open>settlement.go\<close>, \<^verbatim>\<open>settlement_review.go\<close>).
  \<^item> \<open>Sql_Commit\<close>: \<^verbatim>\<open>CommitAttempt\<close> of \<^verbatim>\<open>sql_execution_store.go\<close>: the commercial plan, the replay
    of a receipt, the guards and every row of a fresh commit, and the recovery from a failed one.
    \<open>Commit_Safety\<close> proves it; its locale \<open>closing_steps\<close> extends \<open>execution_steps\<close> by steps that
    leave a closed Turn alone, and is interpreted on claims, heartbeats and commits.
  \<^item> \<open>Sql_Reconcile\<close>: \<^verbatim>\<open>ReconcileTerminal\<close> of \<^verbatim>\<open>reconcile.go\<close>, the retirement of Turns without a live
    executor. \<open>Reconcile_Safety\<close> proves it and joins all writing transactions of the kernel in the step
    relation \<open>kernel_step\<close>, on which \<open>closing_steps\<close> is interpreted again.
  \<^item> \<open>Plugin_Scope\<close>: \<^verbatim>\<open>plugin_scoped_store.go\<close>, the execution store of a worker process bound to a set of
    plugin releases.
  \<^item> \<open>Runtime_Loops\<close>: \<^verbatim>\<open>admission_gate.go\<close>, \<^verbatim>\<open>effect_dispatcher.go\<close> and the Reconciler of \<^verbatim>\<open>reconcile.go\<close>: one
    pass of each and the loops around them, which share the locale \<open>context_loop\<close>. \<open>Reconcile_Pass\<close> proves
    a whole pass of the Reconciler beside other sessions.
  \<^item> \<open>Worker_Types\<close>, \<open>Worker_Epoch\<close>, \<open>Worker_Loop\<close>: \<^verbatim>\<open>worker.go\<close> and \<^verbatim>\<open>worker_limits.go\<close>. An epoch of a worker is a
    state machine of its goroutines, the main one, the heartbeat, the executor and its calls of \<^verbatim>\<open>Emit\<close>,
    whose steps a list of labels schedules; the loop runs one pass after the other. \<open>Worker_Loop\<close> also
    runs the epoch over the SQL store.

  \<^bold>\<open>What is shown.\<close> Of the reference store: its invariant in every reachable state, that histories
  only grow, that replay is exact, and what each operation decides. Of the service: idempotent
  starts, cancellation, and that the log tells the status. Of streams: every event exactly once and
  in order, an end only after the last event, progress, and no lost wakeup. Of the SQL store: rows
  are read back as they were written, but for the layout that the JSON column gives to event data;
  its operations refine those of the reference store on the data as the column returns it, so that
  the invariants above hold of the database too; its replay is the reference replay. Of execution:
  one live epoch per Turn, late workers and late dispatchers are fenced, a claim survives a lost
  commit, effects keep their content and follow the delivery policy. Of the commit: it happens only
  under the fence, within the lease, and writes exactly the event, receipt, effects and commercial
  outcome of its command; a repeated command is answered from its receipt and changes nothing; a Turn is
  retired only without a live executor and for a reason that holds under lock; after a terminal
  commit or a retirement no transaction of the kernel changes the Turn again. Of the worker: its
  terminal commit runs alone, its result is what happened, it does not need its executor to end, and
  a commit it reports is the final state of the Turn. Of the background loops: what a pass did and
  counted, that an ambiguous delivery is not repeated, and that the loops end with their context.

  \<^bold>\<open>Hypotheses.\<close> \<open>quiet_io\<close> is an environment without failures or other sessions, for statements
  that something succeeds. \<open>honest_io\<close> says that a failing statement is not reported as an empty
  result. \<open>storable\<close> says that the texts of a Turn and of an event are UTF-8 and that the data of the
  event, in the layout that the JSON column returns, still is valid JSON within the byte limit; the
  column itself is the arbitrary function \<open>io_json\<close>. Other sessions are arbitrary as long as they keep
  the invariant in question. SHA-256 and the commercial authorities are parameters.
  \<open>receipts_unique\<close> is the unique key of the operation table; \<open>bigint_fences\<close> says that the fence
  column holds 64 bits; \<open>review_tables\<close> is the parameter for what a commit reads of the usage journal
  and of the tables of Review resolution.

  \<^bold>\<open>Recursion and fuel.\<close> Loops over rows and pages are structural. The encoders of JSON and
  UTF-8 take the length of their input as fuel, which is enough because each step consumes a byte. A
  call of \<^verbatim>\<open>Next\<close> on a stream is driven by the list of wakeups it meets, an epoch of a worker by the list
  of steps its goroutines take. The loops of the dispatcher, the Reconciler and the worker are partial
  functions, and that they return is proved.

  \<^bold>\<open>Not modelled.\<close> The listing and resolution of Reviews, the provider usage journal, the worker
  process around the loops, the schema probes, billing, HTTP and the other products of the repository: PROJECT.json lists each of them with the reason.
  Time-outs, goroutines and mutexes are modelled by their effect on the order of calls only.
\<close>

end
